(* ===== verification/Prelude.thy ===== *)
theory Prelude
  imports Complex_Main "HOL-Library.Word"
begin

text \<open>
  Shared vocabulary of the development: the C++ standard library facilities the
  program relies on, written out once.

  \<^item> \<open>std::string\<close> is \<^typ>\<open>string\<close>: a list of 8-bit characters. The same type
    carries file contents and USB frames (\<open>uint8_t\<close> buffers).
  \<^item> \<open>find\<close>, \<open>rfind(p, 0) == 0\<close>, \<open>substr\<close> and the \<open>std::getline\<close> loop.
  \<^item> \<open>std::to_string\<close> and stream output of integers, \<open>std::stoi\<close>, \<open>std::stoul\<close>,
    \<open>std::stoull\<close> with their two exceptions as values of a sum type.
  \<^item> small generic lemmas on lists that several components use.

  The collection \<open>text_simps\<close> holds the rewriting rules that evaluate the text
  functions on concatenations.
\<close>

named_theorems text_simps "rewriting rules for the text helpers"

section \<open>Types shared by the components\<close>

text \<open>The exceptions the numeric conversions of the standard library throw.\<close>

datatype std_exn = Invalid_argument | Out_of_range

text \<open>
  \<open>double\<close> values only drive displayed rates and booth settings; they are exact
  rationals here (rounding, infinities and NaN are not modelled).
\<close>

type_synonym double = rat

type_synonym u8 = "8 word"
type_synonym u32 = "32 word"
type_synonym u64 = "64 word"

section \<open>Characters and substrings\<close>

abbreviation newline :: char where "newline \<equiv> CHR 0x0A"
abbreviation carriage_return :: char where "carriage_return \<equiv> CHR 0x0D"

text \<open>The UTF-8 bytes of the horizontal ellipsis, the em dash and the arrow in messages.\<close>

definition ellipsis :: string where
  "ellipsis = [CHR 0xE2, CHR 0x80, CHR 0xA6]"

definition em_dash :: string where
  "em_dash = [CHR 0xE2, CHR 0x80, CHR 0x94]"

definition arrow :: string where
  "arrow = [CHR 0xE2, CHR 0x86, CHR 0x92]"

text \<open>\<open>std::isspace\<close> in the C locale.\<close>

definition is_space :: "char \<Rightarrow> bool" where
  "is_space c \<longleftrightarrow> c \<in> {CHR '' '', CHR 0x09, CHR 0x0A, CHR 0x0B, CHR 0x0C, CHR 0x0D}"

definition is_digit :: "char \<Rightarrow> bool" where
  "is_digit c \<longleftrightarrow> 48 \<le> (of_char c :: nat) \<and> (of_char c :: nat) \<le> 57"

text \<open>\<open>std::tolower\<close> in the C locale.\<close>

definition to_lower :: "char \<Rightarrow> char" where
  "to_lower c = (if 65 \<le> (of_char c :: nat) \<and> (of_char c :: nat) \<le> 90
     then char_of ((of_char c :: nat) + 32) else c)"

text \<open>\<open>s.rfind(p, 0) == 0\<close>: the text starts with \<open>p\<close>.\<close>

definition starts_with :: "string \<Rightarrow> string \<Rightarrow> bool" where
  "starts_with p s \<longleftrightarrow> take (length p) s = p"

lemma starts_with_append [simp]: "starts_with p (p @ s)"
  by (simp add: starts_with_def)

lemma starts_with_iff: "starts_with p s \<longleftrightarrow> (\<exists>r. s = p @ r)"
  by (metis append_take_drop_id starts_with_append starts_with_def)

text \<open>\<open>s.compare(s.size() - n, n, x) == 0\<close>: the text ends with \<open>x\<close>.\<close>

definition ends_with :: "string \<Rightarrow> string \<Rightarrow> bool" where
  "ends_with x s \<longleftrightarrow> length x \<le> length s \<and> drop (length s - length x) s = x"

lemma ends_with_append [simp]: "ends_with x (r @ x)"
  by (simp add: ends_with_def)

text \<open>\<open>s.find(sub) != npos\<close>.\<close>

fun contains :: "string \<Rightarrow> string \<Rightarrow> bool" where
  "contains sub [] = (sub = [])"
| "contains sub (c # s) = (starts_with sub (c # s) \<or> contains sub s)"

lemma contains_iff: "contains sub s \<longleftrightarrow> (\<exists>a b. s = a @ sub @ b)"
proof (induction s)
  case Nil
  show ?case by auto
next
  case (Cons c s)
  have "(\<exists>a b. c # s = a @ sub @ b) \<longleftrightarrow> starts_with sub (c # s) \<or> (\<exists>a b. s = a @ sub @ b)"
    by (auto simp: starts_with_iff Cons_eq_append_conv)
  with Cons.IH show ?case by simp
qed

text \<open>
  \<open>line.find('=')\<close> with the two substrings around the match: \<open>None\<close> when the
  character does not occur.
\<close>

definition split_at :: "char \<Rightarrow> string \<Rightarrow> (string \<times> string) option" where
  "split_at c s = (if c \<in> set s
     then Some (takeWhile (\<lambda>x. x \<noteq> c) s, tl (dropWhile (\<lambda>x. x \<noteq> c) s)) else None)"

lemma takeWhile_until [simp]: "c \<notin> set a \<Longrightarrow> takeWhile (\<lambda>x. x \<noteq> c) (a @ c # b) = a"
  by (induction a) auto

lemma dropWhile_until [simp]: "c \<notin> set a \<Longrightarrow> dropWhile (\<lambda>x. x \<noteq> c) (a @ c # b) = c # b"
  by (induction a) auto

lemma takeWhile_never [simp]: "c \<notin> set a \<Longrightarrow> takeWhile (\<lambda>x. x \<noteq> c) a = a"
  by (induction a) auto

lemma dropWhile_never [simp]: "c \<notin> set a \<Longrightarrow> dropWhile (\<lambda>x. x \<noteq> c) a = []"
  by (induction a) auto

lemma split_at_append [text_simps]:
  "c \<notin> set a \<Longrightarrow> split_at c (a @ c # b) = Some (a, b)"
  by (simp add: split_at_def)

lemma split_at_Some: "split_at c s = Some (a, b) \<Longrightarrow> s = a @ c # b \<and> c \<notin> set a"
proof -
  assume eq: "split_at c s = Some (a, b)"
  then have "c \<in> set s" by (auto simp: split_at_def split: if_splits)
  then obtain u v where s: "s = u @ c # v" and u: "c \<notin> set u" by (metis split_list_first)
  from eq have "a = u" and "b = v" by (simp_all add: s u split_at_append)
  with s u show ?thesis by simp
qed

section \<open>Stripping and splitting\<close>

text \<open>The two loops that strip characters at the ends of a string.\<close>

definition strip_back :: "(char \<Rightarrow> bool) \<Rightarrow> string \<Rightarrow> string" where
  "strip_back P s = rev (dropWhile P (rev s))"

definition strip_front :: "(char \<Rightarrow> bool) \<Rightarrow> string \<Rightarrow> string" where
  "strip_front P s = dropWhile P s"

lemma strip_back_id [text_simps]: "s = [] \<or> \<not> P (last s) \<Longrightarrow> strip_back P s = s"
  by (cases s rule: rev_cases) (auto simp: strip_back_def)

lemma strip_front_id [text_simps]: "s = [] \<or> \<not> P (hd s) \<Longrightarrow> strip_front P s = s"
  by (cases s) (auto simp: strip_front_def)

lemma strip_back_Nil [simp]: "strip_back P [] = []"
  by (simp add: strip_back_def)

lemma strip_front_Nil [simp]: "strip_front P [] = []"
  by (simp add: strip_front_def)

text \<open>Popping one trailing carriage return from a line.\<close>

definition drop_cr :: "string \<Rightarrow> string" where
  "drop_cr s = (if s \<noteq> [] \<and> last s = carriage_return then butlast s else s)"

lemma drop_cr_id [text_simps]: "s = [] \<or> last s \<noteq> carriage_return \<Longrightarrow> drop_cr s = s"
  by (auto simp: drop_cr_def)

text \<open>
  The lines a \<open>while (std::getline(in, line))\<close> loop sees: the text is cut at every
  newline, and no line is read after a final newline.
\<close>

function getlines :: "string \<Rightarrow> string list" where
  "getlines s = (if s = [] then []
     else takeWhile (\<lambda>c. c \<noteq> newline) s # getlines (tl (dropWhile (\<lambda>c. c \<noteq> newline) s)))"
  by pat_completeness auto
termination
proof (relation "measure length")
  fix s :: string
  assume "s \<noteq> []"
  then show "(tl (dropWhile (\<lambda>c. c \<noteq> newline) s), s) \<in> measure length"
    by (cases s) (auto simp: less_Suc_eq_le intro: le_trans [OF diff_le_self length_dropWhile_le])
qed auto

declare getlines.simps [simp del]

lemma getlines_Nil [simp]: "getlines [] = []"
  by (simp add: getlines.simps)

lemma getlines_line [text_simps]:
  "newline \<notin> set l \<Longrightarrow> getlines (l @ newline # s) = l # getlines s"
  by (subst getlines.simps) simp

lemma getlines_last [text_simps]: "newline \<notin> set l \<Longrightarrow> l \<noteq> [] \<Longrightarrow> getlines l = [l]"
  by (subst getlines.simps) simp

lemma getlines_concat [text_simps]:
  "\<forall>l \<in> set ls. newline \<notin> set l \<Longrightarrow> getlines (concat (map (\<lambda>l. l @ [newline]) ls)) = ls"
  by (induction ls) (auto simp: text_simps)

lemma getlines_no_newline: "l \<in> set (getlines s) \<Longrightarrow> newline \<notin> set l"
proof (induction s rule: getlines.induct)
  case (1 s)
  then show ?case
    by (cases "s = []") (auto simp: getlines.simps [of s] dest: set_takeWhileD)
qed

section \<open>Printing integers\<close>

fun show_nat :: "nat \<Rightarrow> string" where
  "show_nat n = (if n < 10 then [char_of (48 + n)]
     else show_nat (n div 10) @ [char_of (48 + n mod 10)])"

declare show_nat.simps [simp del]

definition show_int :: "int \<Rightarrow> string" where
  "show_int i = (if i < 0 then CHR ''-'' # show_nat (nat (- i)) else show_nat (nat i))"

lemma of_char_digit [simp]: "(d::nat) < 10 \<Longrightarrow> (of_char (char_of (48 + d) :: char) :: nat) = 48 + d"
  by (simp add: of_char_of)

lemma is_digit_char [simp]: "(d::nat) < 10 \<Longrightarrow> is_digit (char_of (48 + d))"
  by (simp add: is_digit_def)

lemma show_nat_digits: "\<forall>c \<in> set (show_nat n). is_digit c"
proof (induction n rule: show_nat.induct)
  case (1 n)
  then show ?case by (subst show_nat.simps) auto
qed

lemma show_nat_nonempty [simp]: "show_nat n \<noteq> []"
  by (subst show_nat.simps) simp

lemma digit_not_special:
  "is_digit c \<Longrightarrow> c \<noteq> newline \<and> c \<noteq> CHR ''='' \<and> c \<noteq> carriage_return \<and> \<not> is_space c
     \<and> c \<noteq> CHR '';'' \<and> c \<noteq> CHR ''-'' \<and> c \<noteq> CHR ''+'' \<and> c \<noteq> CHR '':'' \<and> c \<noteq> CHR ''i''"
  by (auto simp: is_digit_def is_space_def)

section \<open>Parsing integers\<close>

text \<open>
  The value of a digit in bases up to 16, and \<open>strtol\<close>: skip white space, an optional
  sign, an optional \<open>0x\<close> in base 16, then as many digits as there are. \<open>None\<close> when
  there is no digit (the conversion functions throw \<open>invalid_argument\<close>).
\<close>

definition digit_val :: "nat \<Rightarrow> char \<Rightarrow> nat option" where
  "digit_val base c = (let n = (of_char c :: nat);
       v = (if 48 \<le> n \<and> n \<le> 57 then n - 48
            else if 97 \<le> n \<and> n \<le> 122 then n - 87
            else if 65 \<le> n \<and> n \<le> 90 then n - 55 else 255)
     in if v < base then Some v else None)"

definition digits_value :: "nat \<Rightarrow> string \<Rightarrow> nat" where
  "digits_value base ds = foldl (\<lambda>a c. a * base + the (digit_val base c)) 0 ds"

definition skip_sign :: "string \<Rightarrow> bool \<times> string" where
  "skip_sign s = (case s of [] \<Rightarrow> (False, [])
     | c # r \<Rightarrow> if c = CHR ''-'' then (True, r) else if c = CHR ''+'' then (False, r) else (False, s))"

definition skip_hex_prefix :: "nat \<Rightarrow> string \<Rightarrow> string" where
  "skip_hex_prefix base s = (case s of z # x # d # r \<Rightarrow>
       if base = 16 \<and> z = CHR ''0'' \<and> (x = CHR ''x'' \<or> x = CHR ''X'') \<and> digit_val 16 d \<noteq> None
       then d # r else s
     | _ \<Rightarrow> s)"

definition strtol :: "nat \<Rightarrow> string \<Rightarrow> (bool \<times> nat) option" where
  "strtol base s = (let (neg, r) = skip_sign (strip_front is_space s);
       ds = takeWhile (\<lambda>c. digit_val base c \<noteq> None) (skip_hex_prefix base r)
     in if ds = [] then None else Some (neg, digits_value base ds))"

text \<open>\<open>std::stoi\<close> for a 32-bit \<open>int\<close>.\<close>

definition stoi :: "string \<Rightarrow> std_exn + int" where
  "stoi s = (case strtol 10 s of None \<Rightarrow> Inl Invalid_argument
     | Some (neg, n) \<Rightarrow> let v = (if neg then - int n else int n)
         in if - (2 ^ 31) \<le> v \<and> v < 2 ^ 31 then Inr v else Inl Out_of_range)"

text \<open>
  \<open>std::stoul\<close> and \<open>std::stoull\<close> for a 64-bit result (\<open>unsigned long\<close> of the LP64
  platforms). A leading minus is accepted and negates modulo $2^{64}$.
\<close>

definition stoull_base :: "nat \<Rightarrow> string \<Rightarrow> std_exn + u64" where
  "stoull_base base s = (case strtol base s of None \<Rightarrow> Inl Invalid_argument
     | Some (neg, n) \<Rightarrow> if 2 ^ 64 \<le> n then Inl Out_of_range
         else Inr (if neg then - of_nat n else of_nat n))"

definition stoull :: "string \<Rightarrow> std_exn + u64" where
  "stoull s = stoull_base 10 s"

lemma digit_val_digit [simp]: "d < 10 \<Longrightarrow> digit_val 10 (char_of (48 + d)) = Some d"
  by (simp add: digit_val_def Let_def)

lemma digit_val_is_digit: "is_digit c \<Longrightarrow> digit_val 10 c \<noteq> None"
  by (auto simp: digit_val_def is_digit_def Let_def)

lemma digits_value_snoc: "digits_value b (ds @ [c]) = digits_value b ds * b + the (digit_val b c)"
  by (simp add: digits_value_def)

lemma digits_value_show_nat [simp]: "digits_value 10 (show_nat n) = n"
proof (induction n rule: show_nat.induct)
  case (1 n)
  show ?case
  proof (cases "n < 10")
    case True
    then show ?thesis by (subst show_nat.simps) (simp add: digits_value_def)
  next
    case False
    with 1 show ?thesis by (subst show_nat.simps) (simp add: digits_value_snoc)
  qed
qed

lemma hd_show_nat_digit: "is_digit (hd (show_nat n))"
  using show_nat_digits [of n] by (cases "show_nat n") auto

lemma skip_hex_prefix_10 [simp]: "skip_hex_prefix 10 s = s"
  by (auto simp: skip_hex_prefix_def split: list.splits)

lemma takeWhile_show_nat [simp]:
  "takeWhile (\<lambda>c. \<exists>v. digit_val 10 c = Some v) (show_nat n) = show_nat n"
  using show_nat_digits digit_val_is_digit by (intro takeWhile_eq_all_conv [THEN iffD2]) blast

lemma strtol_show_nat [text_simps]: "strtol 10 (show_nat n) = Some (False, n)"
proof -
  have sp: "strip_front is_space (show_nat n) = show_nat n"
    using digit_not_special [OF hd_show_nat_digit [of n]] by (intro strip_front_id) simp
  have sg: "skip_sign (show_nat n) = (False, show_nat n)"
    using digit_not_special [OF hd_show_nat_digit [of n]] show_nat_nonempty [of n]
    by (auto simp: skip_sign_def split: list.splits)
  show ?thesis unfolding strtol_def by (simp add: sp sg Let_def)
qed

lemma strtol_neg_show_nat [text_simps]: "strtol 10 (CHR ''-'' # show_nat n) = Some (True, n)"
  unfolding strtol_def by (simp add: strip_front_def is_space_def skip_sign_def Let_def)

text \<open>Reading back what the program prints.\<close>

lemma stoi_show_int [text_simps]: "- (2 ^ 31) \<le> i \<Longrightarrow> i < 2 ^ 31 \<Longrightarrow> stoi (show_int i) = Inr i"
  by (auto simp: stoi_def show_int_def text_simps)

lemma stoull_show_nat [text_simps]: "n < 2 ^ 64 \<Longrightarrow> stoull (show_nat n) = Inr (of_nat n)"
  by (simp add: stoull_def stoull_base_def text_simps)

lemma stoull_show_word [text_simps]: "stoull (show_nat (unat (w :: u64))) = Inr w"
proof -
  have "unat w < 2 ^ 64" using unsigned_less [of w, where ?'a = nat] by simp
  then show ?thesis by (simp add: stoull_show_nat)
qed

lemma show_int_chars:
  "c \<in> set (show_int i) \<Longrightarrow> c \<noteq> newline \<and> c \<noteq> CHR ''='' \<and> c \<noteq> carriage_return
     \<and> \<not> is_space c \<and> c \<noteq> CHR '';'' \<and> c \<noteq> CHR '':''"
  using show_nat_digits digit_not_special
  by (auto simp: show_int_def is_space_def split: if_splits)

lemma show_int_nonempty [simp]: "show_int i \<noteq> []"
  by (simp add: show_int_def)

lemma show_nat_inj: "show_nat a = show_nat b \<Longrightarrow> a = b"
  by (metis digits_value_show_nat)

lemma show_int_inj: "show_int a = show_int b \<Longrightarrow> a = b"
proof -
  have no: "show_nat n \<noteq> CHR ''-'' # r" for n r
    using hd_show_nat_digit [of n] by (auto simp: is_digit_def)
  then have no': "CHR ''-'' # r \<noteq> show_nat n" for n r by metis
  assume "show_int a = show_int b"
  then show ?thesis
    by (auto simp: show_int_def no no' split: if_splits dest!: show_nat_inj)
qed

section \<open>Generic lemmas\<close>

text \<open>The first list element with a property, as the lookup loops of the code find it.\<close>

lemma find_append:
  "find P (xs @ ys) = (case find P xs of None \<Rightarrow> find P ys | Some x \<Rightarrow> Some x)"
  by (induction xs) auto

lemma find_SomeD: "find P xs = Some x \<Longrightarrow> x \<in> set xs \<and> P x"
  by (auto simp: find_Some_iff)

lemma find_None_filter: "find P xs = None \<longleftrightarrow> filter P xs = []"
  by (auto simp: find_None_iff filter_empty_conv)

lemma concat_snoc [simp]: "concat (xs @ [x]) = concat xs @ x"
  by simp

lemma take_add_drop: "take n (drop m xs) = drop m (take (m + n) xs)"
  by (simp add: take_drop add.commute)

text \<open>A loop over a list whose body may throw: the exception leaves the loop.\<close>

fun try_fold :: "('a \<Rightarrow> 's \<Rightarrow> 'e + 's) \<Rightarrow> 'a list \<Rightarrow> 's \<Rightarrow> 'e + 's" where
  "try_fold f [] s = Inr s"
| "try_fold f (x # xs) s = (case f x s of Inl e \<Rightarrow> Inl e | Inr s' \<Rightarrow> try_fold f xs s')"

lemma try_fold_append:
  "try_fold f (xs @ ys) s = (case try_fold f xs s of Inl e \<Rightarrow> Inl e | Inr s' \<Rightarrow> try_fold f ys s')"
  by (induction xs arbitrary: s) (auto split: sum.splits)

lemma try_fold_total: "\<forall>x \<in> set xs. \<forall>s. f x s = Inr (g x s) \<Longrightarrow> try_fold f xs s = Inr (fold g xs s)"
  by (induction xs arbitrary: s) auto

lemma try_fold_invariant:
  assumes "try_fold f xs s = Inr s'" and "P s"
    and "\<And>x s s'. x \<in> set xs \<Longrightarrow> P s \<Longrightarrow> f x s = Inr s' \<Longrightarrow> P s'"
  shows "P s'"
  using assms
proof (induction xs arbitrary: s)
  case Nil
  then show ?case by simp
next
  case (Cons x xs)
  from Cons.prems(1) obtain s1 where s1: "f x s = Inr s1" "try_fold f xs s1 = Inr s'"
    by (auto split: sum.splits)
  then have "P s1" using Cons.prems(2) Cons.prems(3) [of x s s1] by simp
  with s1(2) show ?case by (rule Cons.IH) (rule Cons.prems(3), simp_all)
qed

text \<open>Updating the first list element with a property, the loop-and-return of the code.\<close>

fun update_first :: "('a \<Rightarrow> bool) \<Rightarrow> ('a \<Rightarrow> 'a) \<Rightarrow> 'a list \<Rightarrow> 'a list option" where
  "update_first P f [] = None"
| "update_first P f (x # xs) = (if P x then Some (f x # xs)
     else map_option ((#) x) (update_first P f xs))"

lemma update_first_None: "update_first P f xs = None \<longleftrightarrow> (\<forall>x \<in> set xs. \<not> P x)"
  by (induction xs) auto

lemma update_first_Some:
  "update_first P f xs = Some ys \<Longrightarrow>
     \<exists>a x b. xs = a @ x # b \<and> ys = a @ f x # b \<and> P x \<and> (\<forall>y \<in> set a. \<not> P y)"
proof (induction xs arbitrary: ys)
  case Nil
  then show ?case by simp
next
  case (Cons x xs)
  show ?case
  proof (cases "P x")
    case True
    with Cons.prems show ?thesis by (intro exI [of _ "[]"]) auto
  next
    case False
    with Cons.prems obtain zs where "update_first P f xs = Some zs" and ys: "ys = x # zs" by auto
    from Cons.IH [OF this(1)] obtain a y b where
      "xs = a @ y # b" "zs = a @ f y # b" "P y" "\<forall>z \<in> set a. \<not> P z" by blast
    with ys False show ?thesis by (intro exI [of _ "x # a"]) auto
  qed
qed

lemma update_first_length: "update_first P f xs = Some ys \<Longrightarrow> length ys = length xs"
  by (induction xs arbitrary: ys) (auto split: if_splits)

end
