(* ===== verification/Fabric_Port.thy ===== *)
theory Fabric_Port
  imports Prelude "HOL-Library.Signed_Division"
begin

text \<open>
  Fabric legs, port labels and session roles: \<open>lib/session/fabric_port.cpp\<close> and
  \<open>lib/session/session_role.cpp\<close>. A leg is the internal number 0 to 3 of one of the
  four host ports; users see ports 1 to 4. The leg of a cable comes from its USB serial.
\<close>

section \<open>Legs\<close>

definition kFabricLegCount :: int where
  "kFabricLegCount = 4"

definition display_port_from_leg :: "int \<Rightarrow> int" where
  "display_port_from_leg leg = leg + 1"

definition format_fabric_port_label :: "int \<Rightarrow> string" where
  "format_fabric_port_label leg = ''Port '' @ show_int (display_port_from_leg leg)"

text \<open>\<open>std::stoul(serial, nullptr, 16)\<close>; both exceptions give -1.\<close>

definition fabric_leg_from_serial :: "string \<Rightarrow> int" where
  "fabric_leg_from_serial serial =
     (if serial = [] then - 1
      else case stoull_base 16 serial of
        Inl _ \<Rightarrow> - 1
      | Inr value \<Rightarrow> if value \<le> 0 then - 1
          else int (unat ((value - 1) mod 4)))"

definition default_remote_guess_leg :: "int \<Rightarrow> int" where
  "default_remote_guess_leg my_leg = (my_leg + 1) smod kFabricLegCount"

definition remote_fabric_legs :: "int \<Rightarrow> int list" where
  "remote_fabric_legs my_leg = filter (\<lambda>leg. leg \<noteq> my_leg) [0, 1, 2, 3]"

definition valid_leg :: "int \<Rightarrow> bool" where
  "valid_leg leg \<longleftrightarrow> 0 \<le> leg \<and> leg < kFabricLegCount"

lemma valid_leg_iff: "valid_leg leg \<longleftrightarrow> leg \<in> {0, 1, 2, 3}"
  by (auto simp: valid_leg_def kFabricLegCount_def)

lemma fabric_leg_from_serial_range:
  "fabric_leg_from_serial s = - 1 \<or> valid_leg (fabric_leg_from_serial s)"
proof -
  have "uint ((v - 1) mod 4 :: u64) < 4" for v
    using word_mod_less_divisor [of "4 :: u64" "v - 1"] by (simp add: word_less_def)
  then show ?thesis
    by (auto simp: fabric_leg_from_serial_def valid_leg_def kFabricLegCount_def split: sum.splits)
qed

lemma default_remote_guess_leg_valid:
  "valid_leg my_leg \<Longrightarrow> valid_leg (default_remote_guess_leg my_leg)
     \<and> default_remote_guess_leg my_leg \<noteq> my_leg"
  by (auto simp: valid_leg_iff default_remote_guess_leg_def kFabricLegCount_def
      signed_modulo_int_def signed_divide_int_def)

lemma remote_fabric_legs_set: "set (remote_fabric_legs my_leg) = {leg. valid_leg leg \<and> leg \<noteq> my_leg}"
  by (auto simp: remote_fabric_legs_def valid_leg_iff)

lemma remote_fabric_legs_length: "valid_leg my_leg \<Longrightarrow> length (remote_fabric_legs my_leg) = 3"
  by (auto simp: remote_fabric_legs_def valid_leg_iff)

section \<open>Session roles\<close>

datatype session_role = Role_Receiver | Role_Sender

definition lower_copy :: "string \<Rightarrow> string" where
  "lower_copy value = map to_lower value"

definition session_role_from_string :: "string \<Rightarrow> session_role" where
  "session_role_from_string value = (let key = lower_copy value
     in if key = ''sender'' \<or> key = ''send'' then Role_Sender else Role_Receiver)"

definition session_role_to_string :: "session_role \<Rightarrow> string" where
  "session_role_to_string role = (if role = Role_Sender then ''sender'' else ''receiver'')"

definition default_session_role_for_port :: "int \<Rightarrow> session_role" where
  "default_session_role_for_port port_index = (if port_index = 1 then Role_Sender else Role_Receiver)"

lemma session_role_roundtrip: "session_role_from_string (session_role_to_string r) = r"
  by (cases r) (simp_all add: session_role_from_string_def session_role_to_string_def
      lower_copy_def to_lower_def Let_def)

end
