(* ===== verification/Identity_Types.thy ===== *)
theory Identity_Types
  imports Prelude
begin

text \<open>
  The identity data of \<open>lib/session/identity_profile.h\<close>: receive policy, configured
  peers and the local profile, with the textual form of the receive policy.
\<close>

section \<open>Receive policy\<close>

datatype receive_status = Status_Open | Status_AskFirst | Status_Busy

definition receive_status_to_string :: "receive_status \<Rightarrow> string" where
  "receive_status_to_string status = (case status of
       Status_Open \<Rightarrow> ''open'' | Status_AskFirst \<Rightarrow> ''ask_first'' | Status_Busy \<Rightarrow> ''busy'')"

definition receive_status_from_string :: "string \<Rightarrow> receive_status" where
  "receive_status_from_string value =
     (if value = ''open'' \<or> value = ''auto'' \<or> value = ''auto_accept'' then Status_Open
      else if value = ''busy'' then Status_Busy
      else Status_AskFirst)"

lemma receive_status_roundtrip [simp]:
  "receive_status_from_string (receive_status_to_string s) = s"
  by (cases s) (simp_all add: receive_status_from_string_def receive_status_to_string_def)

section \<open>Peers and profile\<close>

record peer_config =
  pc_display_name :: string
  pc_team :: string
  pc_role :: string
  pc_receive_status :: receive_status
  pc_port_index :: int

definition default_peer_config :: peer_config where
  "default_peer_config = \<lparr>pc_display_name = [], pc_team = [], pc_role = [],
     pc_receive_status = Status_Open, pc_port_index = 0\<rparr>"

record identity_profile =
  ip_display_name :: string
  ip_team :: string
  ip_role :: string
  ip_receive_status :: receive_status
  ip_receive_folder :: string
  ip_transfer_timeout_ms :: int
  ip_usb_inflight_mb :: int
  ip_accept_ready_gap_ms :: int
  ip_accept_reply_delay_ms :: int
  ip_accept_timeout_sec :: int
  ip_ready_timeout_sec :: int
  ip_session_header_timeout_ms :: int
  ip_payload_header_timeout_ms :: int
  ip_booth_display_mib_s :: double
  ip_booth_display_jitter_pct :: double
  ip_booth_display_enabled :: bool
  ip_booth_display_enabled_explicit :: bool
  ip_peers :: "peer_config list"
  ip_config_path :: string

definition default_identity_profile :: identity_profile where
  "default_identity_profile = \<lparr>ip_display_name = [], ip_team = [], ip_role = [],
     ip_receive_status = Status_AskFirst, ip_receive_folder = [],
     ip_transfer_timeout_ms = 0, ip_usb_inflight_mb = 0, ip_accept_ready_gap_ms = 0,
     ip_accept_reply_delay_ms = 0, ip_accept_timeout_sec = 0, ip_ready_timeout_sec = 0,
     ip_session_header_timeout_ms = 0, ip_payload_header_timeout_ms = 0,
     ip_booth_display_mib_s = 0, ip_booth_display_jitter_pct = 0,
     ip_booth_display_enabled = True, ip_booth_display_enabled_explicit = False,
     ip_peers = [], ip_config_path = []\<rparr>"

end
