(* ===== verification/Announce.thy ===== *)
theory Announce
  imports Fabric_Port Identity_Types
begin

text \<open>
  The note of an announce message, \<open>port=1;receive=open;instance=abc\<close>, and the echo
  rule for announced ports: \<open>lib/session/announce_note.cpp\<close>. The two mandatory
  output pointers of \<open>parse_announce_note\<close> are non-null, as at its only call sites;
  the optional one is the argument \<open>has_instance_out\<close>.
\<close>

section \<open>Writing a note\<close>

text \<open>Twelve rolls of the random generator give the instance id.\<close>

definition make_instance_id :: "(nat \<Rightarrow> nat) \<Rightarrow> string" where
  "make_instance_id rolls = map (\<lambda>i. ''0123456789abcdef'' ! (rolls i mod 16)) [0..<12]"

definition build_announce_note :: "int \<Rightarrow> receive_status \<Rightarrow> string \<Rightarrow> string" where
  "build_announce_note port_index status instance_id =
     (let wire_port = port_index + 1;
          text = ''port='' @ show_int wire_port @ '';receive='' @ receive_status_to_string status
      in if instance_id \<noteq> [] then text @ '';instance='' @ instance_id else text)"

section \<open>Reading a note\<close>

definition trim_copy :: "string \<Rightarrow> string" where
  "trim_copy value = strip_front is_space (strip_back is_space value)"

definition parse_key_value :: "string \<Rightarrow> string \<Rightarrow> string option" where
  "parse_key_value token key = (let p = key @ ''=''
     in if starts_with p token then Some (trim_copy (drop (length p) token)) else None)"

definition leg_from_wire_port :: "int \<Rightarrow> int" where
  "leg_from_wire_port wire_port =
     (if 1 \<le> wire_port \<and> wire_port \<le> kFabricLegCount then wire_port - 1
      else if 0 \<le> wire_port \<and> wire_port < kFabricLegCount then wire_port
      else - 1)"

record announce_note =
  an_port_index :: int
  an_receive_status :: receive_status
  an_instance_id :: string

text \<open>The body of the loop for one token, shared by the last token after the loop.\<close>

definition apply_note_token :: "bool \<Rightarrow> string \<Rightarrow> announce_note \<Rightarrow> announce_note" where
  "apply_note_token has_instance_out token out =
     (case parse_key_value token ''port'' of
        Some value \<Rightarrow> (case stoi value of
            Inl _ \<Rightarrow> out
          | Inr wire \<Rightarrow> let leg = leg_from_wire_port wire
              in if 0 \<le> leg then out\<lparr>an_port_index := leg\<rparr> else out)
      | None \<Rightarrow> (case parse_key_value token ''receive'' of
        Some value \<Rightarrow> out\<lparr>an_receive_status := receive_status_from_string value\<rparr>
      | None \<Rightarrow> (case (if has_instance_out then parse_key_value token ''instance'' else None) of
        Some value \<Rightarrow> out\<lparr>an_instance_id := value\<rparr>
      | None \<Rightarrow> out)))"

fun note_loop :: "bool \<Rightarrow> string \<Rightarrow> string \<Rightarrow> announce_note \<Rightarrow> announce_note" where
  "note_loop hi current [] out = (if current = [] then out else apply_note_token hi current out)"
| "note_loop hi current (ch # rest) out =
     (if ch = CHR '';'' then note_loop hi [] rest (apply_note_token hi current out)
      else note_loop hi (current @ [ch]) rest out)"

definition parse_announce_note :: "bool \<Rightarrow> string \<Rightarrow> int \<Rightarrow> announce_note" where
  "parse_announce_note has_instance_out text default_port =
     note_loop has_instance_out [] text
       \<lparr>an_port_index = default_port, an_receive_status = Status_AskFirst, an_instance_id = []\<rparr>"

text \<open>Echo rule: an announce that claims our own port, or none of the four, has no peer port.\<close>

definition resolve_remote_fabric_port :: "int \<Rightarrow> int \<Rightarrow> int" where
  "resolve_remote_fabric_port my_port announced_port =
     (if announced_port = my_port then - 1
      else if announced_port < 0 \<or> kFabricLegCount \<le> announced_port then - 1
      else announced_port)"

section \<open>The loop cuts the note at semicolons\<close>

lemma note_loop_token [text_simps]:
  "CHR '';'' \<notin> set t \<Longrightarrow>
     note_loop hi cur (t @ CHR '';'' # rest) out = note_loop hi [] rest (apply_note_token hi (cur @ t) out)"
  by (induction t arbitrary: cur) auto

lemma note_loop_last [text_simps]:
  "CHR '';'' \<notin> set t \<Longrightarrow> note_loop hi cur t out =
     (if cur @ t = [] then out else apply_note_token hi (cur @ t) out)"
  by (induction t arbitrary: cur) auto

lemma parse_key_value_eq [text_simps]:
  "parse_key_value (key @ CHR ''='' # v) key = Some (trim_copy v)"
  by (simp add: parse_key_value_def starts_with_def Let_def)

lemma trim_copy_clean:
  "(\<forall>c \<in> set s. \<not> is_space c) \<Longrightarrow> trim_copy s = s"
  by (cases "s = []") (auto simp: trim_copy_def strip_back_id strip_front_id)

lemma leg_from_wire_port_range: "leg_from_wire_port w = - 1 \<or> valid_leg (leg_from_wire_port w)"
  by (auto simp: leg_from_wire_port_def valid_leg_def kFabricLegCount_def)

lemma leg_from_wire_port_own [simp]: "valid_leg p \<Longrightarrow> leg_from_wire_port (p + 1) = p"
  by (auto simp: leg_from_wire_port_def valid_leg_def kFabricLegCount_def)

text \<open>The three tokens the writer produces, as the reader sees them.\<close>

lemma apply_port_token [text_simps]:
  assumes "valid_leg p"
  shows "apply_note_token hi (''port='' @ show_int (p + 1)) out = out\<lparr>an_port_index := p\<rparr>"
proof -
  have "parse_key_value (''port'' @ CHR ''='' # show_int (p + 1)) ''port'' = Some (show_int (p + 1))"
    using show_int_chars by (subst parse_key_value_eq) (auto intro: trim_copy_clean)
  moreover have "stoi (show_int (p + 1)) = Inr (p + 1)"
    using assms by (intro stoi_show_int) (auto simp: valid_leg_def kFabricLegCount_def)
  moreover have "0 \<le> p" using assms by (simp add: valid_leg_def)
  ultimately show ?thesis using assms by (simp add: apply_note_token_def Let_def)
qed

lemma apply_receive_token [text_simps]:
  "apply_note_token hi (''receive='' @ receive_status_to_string st) out = out\<lparr>an_receive_status := st\<rparr>"
proof -
  have clean: "trim_copy (receive_status_to_string st) = receive_status_to_string st"
    by (cases st) (auto simp: receive_status_to_string_def is_space_def intro!: trim_copy_clean)
  have "parse_key_value (''receive'' @ CHR ''='' # receive_status_to_string st) ''receive''
      = Some (receive_status_to_string st)"
    by (simp only: parse_key_value_eq clean)
  moreover have "parse_key_value (''receive='' @ receive_status_to_string st) ''port'' = None"
    by (simp add: parse_key_value_def starts_with_def Let_def)
  ultimately show ?thesis by (simp add: apply_note_token_def)
qed

lemma apply_instance_token [text_simps]:
  "apply_note_token True (''instance='' @ inst) out = out\<lparr>an_instance_id := trim_copy inst\<rparr>"
proof -
  have "parse_key_value (''instance'' @ CHR ''='' # inst) ''instance'' = Some (trim_copy inst)"
    by (simp only: parse_key_value_eq)
  moreover have "parse_key_value (''instance='' @ inst) ''port'' = None"
    "parse_key_value (''instance='' @ inst) ''receive'' = None"
    by (simp_all add: parse_key_value_def starts_with_def Let_def)
  ultimately show ?thesis by (simp add: apply_note_token_def)
qed

lemma no_semicolon_tokens [simp]:
  "CHR '';'' \<notin> set (''port='' @ show_int i)"
  "CHR '';'' \<notin> set (''receive='' @ receive_status_to_string st)"
  using show_int_chars by (auto simp: receive_status_to_string_def split: receive_status.splits)

lemma apply_note_token_port:
  "valid_leg (an_port_index out) \<Longrightarrow> valid_leg (an_port_index (apply_note_token hi t out))"
  using leg_from_wire_port_range
  by (auto simp: apply_note_token_def Let_def valid_leg_def split: option.splits sum.splits) force+

lemma note_loop_port:
  "valid_leg (an_port_index out) \<Longrightarrow> valid_leg (an_port_index (note_loop hi cur s out))"
  by (induction hi cur s out rule: note_loop.induct) (auto intro: apply_note_token_port)

section \<open>Properties\<close>

text \<open>
  C36: an announce note read back gives the port, the receive policy and the instance id
  that were written, for every leg, policy and instance id without semicolons or blanks
  at its ends, whatever the default port of the reader.
\<close>

theorem announce_note_roundtrip:
  assumes "valid_leg p" and "CHR '';'' \<notin> set inst" and "trim_copy inst = inst"
  shows "parse_announce_note True (build_announce_note p st inst) d =
    \<lparr>an_port_index = p, an_receive_status = st, an_instance_id = inst\<rparr>"
proof -
  let ?o = "\<lparr>an_port_index = d, an_receive_status = Status_AskFirst, an_instance_id = []\<rparr>"
  let ?p = "''port='' @ show_int (p + 1)" and ?r = "''receive='' @ receive_status_to_string st"
  have p: "apply_note_token True ?p ?o = ?o\<lparr>an_port_index := p\<rparr>"
    by (rule apply_port_token [OF assms(1)])
  show ?thesis
  proof (cases "inst = []")
    case True
    have "build_announce_note p st inst = ?p @ CHR '';'' # ?r"
      by (simp add: True build_announce_note_def Let_def)
    then show ?thesis
      by (simp only: parse_announce_note_def note_loop_token [OF no_semicolon_tokens(1)]
          note_loop_last [OF no_semicolon_tokens(2)] append_Nil p apply_receive_token)
        (simp add: True)
  next
    case False
    have "build_announce_note p st inst = ?p @ CHR '';'' # (?r @ CHR '';'' # (''instance='' @ inst))"
      by (simp add: False build_announce_note_def Let_def)
    moreover have i: "CHR '';'' \<notin> set (''instance='' @ inst)" using assms(2) by simp
    ultimately show ?thesis
      by (simp only: parse_announce_note_def note_loop_token [OF no_semicolon_tokens(1)]
          note_loop_token [OF no_semicolon_tokens(2)] append_Nil p apply_receive_token
          note_loop_last [OF i] apply_instance_token assms(3)) simp
  qed
qed

lemma announce_note_roundtrip_witness:
  "parse_announce_note True (build_announce_note 2 Status_Open ''a1'') 0 =
    \<lparr>an_port_index = 2, an_receive_status = Status_Open, an_instance_id = ''a1''\<rparr>"
  by (rule announce_note_roundtrip)
    (simp_all add: valid_leg_iff trim_copy_def strip_back_def strip_front_def is_space_def)

text \<open>
  whatever note a peer sends, a reader that defaults to a guess of a remote leg stores
  one of the four legs, and the echo rule then yields either no peer or a leg that differs
  from its own.
\<close>

theorem announce_port_never_own:
  assumes "valid_leg my_leg"
  shows "let r = resolve_remote_fabric_port my_leg
      (an_port_index (parse_announce_note hi text (default_remote_guess_leg my_leg)))
    in r = - 1 \<or> (valid_leg r \<and> r \<noteq> my_leg)"
proof -
  have "valid_leg (an_port_index (parse_announce_note hi text (default_remote_guess_leg my_leg)))"
    unfolding parse_announce_note_def
    using default_remote_guess_leg_valid [OF assms] by (intro note_loop_port) simp
  then show ?thesis by (auto simp: resolve_remote_fabric_port_def Let_def)
qed

lemma announce_port_never_own_witness:
  "let r = resolve_remote_fabric_port 1
      (an_port_index (parse_announce_note True ''port=4'' (default_remote_guess_leg 1)))
    in r = - 1 \<or> (valid_leg r \<and> r \<noteq> 1)"
  by (rule announce_port_never_own) (simp add: valid_leg_iff)

end
