(* ===== verification/File_System.thy ===== *)
theory File_System
  imports Prelude "HOL-Library.AList"
begin

text \<open>
  The file system the program sees through \<open>std::filesystem\<close>, \<open>std::ifstream\<close>,
  \<open>std::ofstream\<close> and \<open>std::remove\<close>, and the helpers of
  \<open>lib/session/platform_util.cpp\<close> (POSIX branches).

  A store maps path strings to files and directories. Two fields say how the system may
  refuse: \<open>fs_denied\<close> are the paths that cannot be opened or created, \<open>fs_room\<close> bounds
  the bytes a file may take (a full disk). Paths are compared as strings: links and
  different spellings of one path are not modelled.
\<close>

section \<open>Stores\<close>

datatype node = File string | Directory

record file_system =
  fs_entries :: "(string \<times> node) list"
  fs_denied :: "string \<Rightarrow> bool"
  fs_room :: "string \<Rightarrow> nat option"

definition fs_lookup :: "file_system \<Rightarrow> string \<Rightarrow> node option" where
  "fs_lookup fs p = map_of (fs_entries fs) p"

definition fs_put :: "string \<Rightarrow> node \<Rightarrow> file_system \<Rightarrow> file_system" where
  "fs_put p n fs = fs\<lparr>fs_entries := AList.update p n (fs_entries fs)\<rparr>"

definition fs_delete :: "string \<Rightarrow> file_system \<Rightarrow> file_system" where
  "fs_delete p fs = fs\<lparr>fs_entries := AList.delete p (fs_entries fs)\<rparr>"

definition fs_exists :: "file_system \<Rightarrow> string \<Rightarrow> bool" where
  "fs_exists fs p \<longleftrightarrow> fs_lookup fs p \<noteq> None"

definition is_regular_file :: "file_system \<Rightarrow> string \<Rightarrow> bool" where
  "is_regular_file fs p = (case fs_lookup fs p of Some (File _) \<Rightarrow> True | _ \<Rightarrow> False)"

definition is_directory :: "file_system \<Rightarrow> string \<Rightarrow> bool" where
  "is_directory fs p = (fs_lookup fs p = Some Directory)"

text \<open>\<open>file_size(p, ec)\<close> is \<open>static_cast<uintmax_t>(-1)\<close> when it fails.\<close>

definition fs_file_size :: "file_system \<Rightarrow> string \<Rightarrow> u64" where
  "fs_file_size fs p = (case fs_lookup fs p of Some (File c) \<Rightarrow> of_nat (length c) | _ \<Rightarrow> - 1)"

lemma fs_lookup_put [simp]: "fs_lookup (fs_put p n fs) q = (if q = p then Some n else fs_lookup fs q)"
  by (simp add: fs_lookup_def fs_put_def update_conv')

lemma fs_lookup_delete [simp]: "fs_lookup (fs_delete p fs) q = (if q = p then None else fs_lookup fs q)"
  by (simp add: fs_lookup_def fs_delete_def delete_conv')

lemma fs_put_fields [simp]:
  "fs_denied (fs_put p n fs) = fs_denied fs" "fs_room (fs_put p n fs) = fs_room fs"
  by (simp_all add: fs_put_def)

lemma fs_delete_fields [simp]:
  "fs_denied (fs_delete p fs) = fs_denied fs" "fs_room (fs_delete p fs) = fs_room fs"
  by (simp_all add: fs_delete_def)

section \<open>Path names\<close>

text \<open>\<open>path::filename\<close> and \<open>path::parent_path\<close> on slash-separated names.\<close>

definition path_filename :: "string \<Rightarrow> string" where
  "path_filename p = rev (takeWhile (\<lambda>c. c \<noteq> CHR ''/'') (rev p))"

definition path_parent :: "string \<Rightarrow> string" where
  "path_parent p = (if CHR ''/'' \<in> set p
     then let d = strip_back (\<lambda>c. c = CHR ''/'') (rev (dropWhile (\<lambda>c. c \<noteq> CHR ''/'') (rev p)))
          in if d = [] then ''/'' else d
     else [])"

lemma path_filename_join [simp]: "CHR ''/'' \<notin> set b \<Longrightarrow> path_filename (d @ CHR ''/'' # b) = b"
  by (simp add: path_filename_def)

lemma path_parent_join [simp]:
  "CHR ''/'' \<notin> set b \<Longrightarrow> d \<noteq> [] \<Longrightarrow> last d \<noteq> CHR ''/'' \<Longrightarrow> path_parent (d @ CHR ''/'' # b) = d"
  by (cases d rule: rev_cases) (simp_all add: path_parent_def strip_back_def Let_def)

lemma path_filename_no_slash: "CHR ''/'' \<notin> set (path_filename p)"
  by (auto simp: path_filename_def dest: set_takeWhileD)

section \<open>Opening, writing, reading, removing\<close>

text \<open>
  \<open>std::ofstream(p, trunc)\<close> needs a parent directory and a target that is not a
  directory; on success the file is empty.
\<close>

definition can_create :: "file_system \<Rightarrow> string \<Rightarrow> bool" where
  "can_create fs p \<longleftrightarrow> \<not> fs_denied fs p \<and> fs_lookup fs p \<noteq> Some Directory \<and> p \<noteq> []
     \<and> (path_parent p = [] \<or> is_directory fs (path_parent p))"

definition open_trunc :: "string \<Rightarrow> file_system \<Rightarrow> file_system option" where
  "open_trunc p fs = (if can_create fs p then Some (fs_put p (File []) fs) else None)"

text \<open>
  Appending to an open output stream: the flag is \<open>good()\<close> after the write. A write that
  does not fit leaves what the disk could take.
\<close>

definition append_file :: "string \<Rightarrow> string \<Rightarrow> file_system \<Rightarrow> bool \<times> file_system" where
  "append_file p bytes fs = (case fs_lookup fs p of
       Some (File c) \<Rightarrow> (case fs_room fs p of
           None \<Rightarrow> (True, fs_put p (File (c @ bytes)) fs)
         | Some room \<Rightarrow> (length c + length bytes \<le> room, fs_put p (File (take room (c @ bytes))) fs))
     | _ \<Rightarrow> (False, fs))"

definition read_file :: "string \<Rightarrow> file_system \<Rightarrow> string option" where
  "read_file p fs = (case fs_lookup fs p of
     Some (File c) \<Rightarrow> if fs_denied fs p then None else Some c | _ \<Rightarrow> None)"

text \<open>\<open>std::remove\<close>: a file, or a directory with nothing below it.\<close>

definition is_below :: "string \<Rightarrow> string \<Rightarrow> bool" where
  "is_below d q \<longleftrightarrow> starts_with (d @ ''/'') q"

definition remove_path :: "string \<Rightarrow> file_system \<Rightarrow> bool \<times> file_system" where
  "remove_path p fs = (case fs_lookup fs p of
       None \<Rightarrow> (False, fs)
     | Some (File _) \<Rightarrow> if fs_denied fs p then (False, fs) else (True, fs_delete p fs)
     | Some Directory \<Rightarrow>
         if fs_denied fs p \<or> list_ex (\<lambda>(q, _). is_below p q) (fs_entries fs) then (False, fs)
         else (True, fs_delete p fs))"

text \<open>
  \<open>create_directories(p, ec)\<close>: every missing prefix of the path becomes a directory; it
  fails at the first prefix that is a file or cannot be created.
\<close>

definition path_prefixes :: "string \<Rightarrow> string list" where
  "path_prefixes p = filter (\<lambda>q. q \<noteq> [] \<and> last q \<noteq> CHR ''/'')
     (map (\<lambda>i. take i p) (filter (\<lambda>i. i = length p \<or> p ! i = CHR ''/'') [0..<Suc (length p)]))"

fun make_directories :: "string list \<Rightarrow> file_system \<Rightarrow> bool \<times> file_system" where
  "make_directories [] fs = (True, fs)"
| "make_directories (d # ds) fs = (case fs_lookup fs d of
       Some Directory \<Rightarrow> make_directories ds fs
     | Some (File _) \<Rightarrow> (False, fs)
     | None \<Rightarrow> if fs_denied fs d then (False, fs) else make_directories ds (fs_put d Directory fs))"

definition create_directories :: "string \<Rightarrow> file_system \<Rightarrow> bool \<times> file_system" where
  "create_directories p fs = make_directories (path_prefixes p) fs"

lemma remove_path_lookup:
  "remove_path p fs = (True, fs') \<Longrightarrow> fs_lookup fs' q = (if q = p then None else fs_lookup fs q)"
  by (auto simp: remove_path_def split: option.splits node.splits if_splits)

lemma remove_path_failed: "remove_path p fs = (False, fs') \<Longrightarrow> fs' = fs"
  by (auto simp: remove_path_def split: option.splits node.splits if_splits)

lemma open_trunc_lookup:
  "open_trunc p fs = Some fs' \<Longrightarrow> fs_lookup fs' q = (if q = p then Some (File []) else fs_lookup fs q)"
  by (auto simp: open_trunc_def split: if_splits)

lemma open_trunc_fields:
  "open_trunc p fs = Some fs' \<Longrightarrow> fs_room fs' = fs_room fs \<and> fs_denied fs' = fs_denied fs"
  by (auto simp: open_trunc_def split: if_splits)

lemma append_file_other: "append_file p b fs = (ok, fs') \<Longrightarrow> q \<noteq> p \<Longrightarrow> fs_lookup fs' q = fs_lookup fs q"
  by (auto simp: append_file_def split: option.splits node.splits)

lemma append_file_fields:
  "append_file p b fs = (ok, fs') \<Longrightarrow> fs_room fs' = fs_room fs \<and> fs_denied fs' = fs_denied fs"
  by (auto simp: append_file_def split: option.splits node.splits)

lemma append_file_ok:
  "append_file p b fs = (True, fs') \<Longrightarrow> fs_lookup fs p = Some (File c) \<Longrightarrow> fs_lookup fs' p = Some (File (c @ b))"
  by (auto simp: append_file_def split: option.splits)

lemma make_directories_keeps:
  "make_directories ds fs = (ok, fs') \<Longrightarrow> fs_lookup fs p \<noteq> None \<Longrightarrow> fs_lookup fs' p = fs_lookup fs p"
  by (induction ds fs rule: make_directories.induct) (auto split: option.splits node.splits if_splits)

lemma make_directories_ok:
  "make_directories ds fs = (True, fs') \<Longrightarrow> d \<in> set ds \<Longrightarrow> fs_lookup fs' d = Some Directory"
proof (induction ds fs rule: make_directories.induct)
  case (1 fs)
  then show ?case by simp
next
  case (2 e ds fs)
  then show ?case
    by (auto split: option.splits node.splits if_splits)
      (metis fs_lookup_put make_directories_keeps option.distinct(1))+
qed

section \<open>Temporary files (\<open>platform_util.cpp\<close>)\<close>

definition hex_digit :: "nat \<Rightarrow> char" where
  "hex_digit d = ''0123456789abcdef'' ! (d mod 16)"

fun show_hex :: "nat \<Rightarrow> string" where
  "show_hex n = (if n < 16 then [hex_digit n] else show_hex (n div 16) @ [hex_digit n])"

declare show_hex.simps [simp del]

text \<open>Two 32-bit draws of the generator, printed in hexadecimal.\<close>

definition random_suffix :: "u32 \<times> u32 \<Rightarrow> string" where
  "random_suffix r = show_hex (unat (fst r)) @ show_hex (unat (snd r))"

definition temp_file_candidate :: "string \<Rightarrow> string \<Rightarrow> u32 \<times> u32 \<Rightarrow> string \<Rightarrow> string" where
  "temp_file_candidate tmp pre r suffix = tmp @ ''/'' @ pre @ random_suffix r @ suffix"

definition home_directory :: "string option \<Rightarrow> string" where
  "home_directory env = (case env of Some home \<Rightarrow> home | None \<Rightarrow> [])"

definition expand_home :: "string option \<Rightarrow> string \<Rightarrow> string" where
  "expand_home env path =
     (if 2 \<le> length path \<and> path ! 0 = CHR ''~'' \<and> path ! 1 = CHR ''/''
      then let home = home_directory env in if home \<noteq> [] then home @ tl path else path
      else path)"

text \<open>
  Up to 100 attempts; \<open>rng k\<close> is the pair of draws of attempt \<open>k\<close>. The empty string is
  the failure value of the code.
\<close>

fun create_temp_attempts :: "nat \<Rightarrow> nat \<Rightarrow> string \<Rightarrow> (nat \<Rightarrow> u32 \<times> u32) \<Rightarrow> string \<Rightarrow> string
    \<Rightarrow> file_system \<Rightarrow> string \<times> file_system" where
  "create_temp_attempts 0 k tmp rng pre suffix fs = ([], fs)"
| "create_temp_attempts (Suc n) k tmp rng pre suffix fs =
     (let path = temp_file_candidate tmp pre (rng k) suffix
      in if fs_exists fs path then create_temp_attempts n (Suc k) tmp rng pre suffix fs
         else case open_trunc path fs of
             None \<Rightarrow> create_temp_attempts n (Suc k) tmp rng pre suffix fs
           | Some fs' \<Rightarrow> (path, fs'))"

definition create_empty_temp_file :: "string \<Rightarrow> (nat \<Rightarrow> u32 \<times> u32) \<Rightarrow> string \<Rightarrow> string
    \<Rightarrow> file_system \<Rightarrow> string \<times> file_system" where
  "create_empty_temp_file tmp rng pre suffix fs = create_temp_attempts 100 0 tmp rng pre suffix fs"

definition write_temp_text_file :: "string \<Rightarrow> (nat \<Rightarrow> u32 \<times> u32) \<Rightarrow> string \<Rightarrow> string
    \<Rightarrow> file_system \<Rightarrow> string \<times> file_system" where
  "write_temp_text_file tmp rng pre content fs =
     (let (path, fs1) = create_empty_temp_file tmp rng pre [] fs
      in if path = [] then ([], fs1)
         else case open_trunc path fs1 of
             None \<Rightarrow> ([], snd (remove_path path fs1))
           | Some fs2 \<Rightarrow> let (good, fs3) = append_file path content fs2
               in if good then (path, fs3) else ([], snd (remove_path path fs3)))"

text \<open>
  \<open>run_command\<close>: the process itself is the argument \<open>exec\<close>, which may change the
  files; its outcome is what \<open>fork\<close> and \<open>waitpid\<close> report.
\<close>

datatype process_outcome = Fork_failed | Waitpid_failed | Exited nat | Killed

definition run_command :: "(string list \<Rightarrow> file_system \<Rightarrow> process_outcome \<times> file_system)
    \<Rightarrow> string list \<Rightarrow> file_system \<Rightarrow> (string + unit) \<times> file_system" where
  "run_command exec args fs =
     (if args = [] then (Inl ''empty command'', fs)
      else let (outcome, fs') = exec args fs
        in (case outcome of
              Fork_failed \<Rightarrow> Inl ''fork failed''
            | Waitpid_failed \<Rightarrow> Inl ''waitpid failed''
            | Exited n \<Rightarrow> if n \<noteq> 0 then Inl (hd args @ '' exited with status '' @ show_nat n) else Inr ()
            | Killed \<Rightarrow> Inl (hd args @ '' exited with status '' @ show_int (- 1)), fs'))"

lemma create_temp_attempts_fresh:
  "create_temp_attempts n k tmp rng pre suffix fs = (path, fs') \<Longrightarrow> path \<noteq> [] \<Longrightarrow>
     fs_lookup fs path = None \<and> (\<forall>q. fs_lookup fs' q = (if q = path then Some (File []) else fs_lookup fs q))
     \<and> fs_denied fs' = fs_denied fs \<and> fs_room fs' = fs_room fs"
proof (induction n arbitrary: k)
  case 0
  then show ?case by simp
next
  case (Suc n)
  then show ?case
    by (auto simp: Let_def fs_exists_def split: if_splits option.splits
        dest: open_trunc_lookup open_trunc_fields)
qed

lemma create_temp_attempts_failed:
  "create_temp_attempts n k tmp rng pre suffix fs = ([], fs') \<Longrightarrow> fs' = fs"
  by (induction n arbitrary: k)
    (auto simp: Let_def temp_file_candidate_def split: if_splits option.splits)

lemma remove_path_fields [simp]:
  "fs_denied (snd (remove_path p fs)) = fs_denied fs" "fs_room (snd (remove_path p fs)) = fs_room fs"
  by (auto simp: remove_path_def split: option.splits node.splits)

lemma create_temp_attempts_fields:
  "create_temp_attempts n k tmp rng pre suffix fs = (path, fs') \<Longrightarrow> fs_denied fs' = fs_denied fs \<and> fs_room fs' = fs_room fs"
  by (cases "path = []") (auto dest: create_temp_attempts_fresh create_temp_attempts_failed)

lemma write_temp_denied:
  assumes "write_temp_text_file tmp rng pre c fs = (p, fs')"
  shows "fs_denied fs' = fs_denied fs"
proof -
  obtain p1 fs1 where t: "create_temp_attempts 100 0 tmp rng pre [] fs = (p1, fs1)" by fastforce
  from assms create_temp_attempts_fields [OF t] show ?thesis
    by (auto simp: write_temp_text_file_def create_empty_temp_file_def t
        split: if_splits option.splits prod.splits dest!: open_trunc_fields append_file_fields)
qed

section \<open>The temporary message store\<close>

text \<open>
  What the codecs need from temporary files: a successful write yields a fresh path that
  reads back as the content, and nothing else changes.
\<close>

locale temp_store =
  fixes write_temp :: "string \<Rightarrow> 's \<Rightarrow> string \<times> 's"
    and read_back :: "string \<Rightarrow> 's \<Rightarrow> string option"
    and present :: "'s \<Rightarrow> string \<Rightarrow> bool"
  assumes write_temp_read: "write_temp c s = (p, s') \<Longrightarrow> p \<noteq> [] \<Longrightarrow> read_back p s' = Some c"
    and write_temp_fresh: "write_temp c s = (p, s') \<Longrightarrow> p \<noteq> [] \<Longrightarrow> \<not> present s p"
    and write_temp_frame: "write_temp c s = (p, s') \<Longrightarrow> present s q \<Longrightarrow> read_back q s' = read_back q s"
begin

lemma write_temp_distinct:
  "write_temp c s = (p, s') \<Longrightarrow> p \<noteq> [] \<Longrightarrow> present s q \<Longrightarrow> q \<noteq> p"
  using write_temp_fresh by blast

lemma write_temp_decode:
  assumes "write_temp c s = (p, s')" and "p \<noteq> []" and "f c = x"
  shows "map_option f (read_back p s') = Some x"
  using write_temp_read [OF assms(1,2)] assms(3) by simp

end

lemma write_temp_text_file_cases:
  assumes "write_temp_text_file tmp rng pre c fs = (p, fs')" and "p \<noteq> []"
  shows "fs_lookup fs p = None" and "\<not> fs_denied fs' p" and "fs_lookup fs' p = Some (File c)"
    and "\<And>q. q \<noteq> p \<Longrightarrow> fs_lookup fs' q = fs_lookup fs q" and "fs_denied fs' = fs_denied fs"
proof -
  obtain fs1 where c: "create_temp_attempts 100 0 tmp rng pre [] fs = (p, fs1)"
    using assms by (auto simp: write_temp_text_file_def create_empty_temp_file_def Let_def
        split: prod.splits if_splits option.splits)
  note f = create_temp_attempts_fresh [OF c assms(2)]
  obtain fs2 where o: "open_trunc p fs1 = Some fs2" and a: "append_file p c fs2 = (True, fs')"
    using assms c by (auto simp: write_temp_text_file_def create_empty_temp_file_def Let_def
        split: prod.splits if_splits option.splits)
  have l2: "fs_lookup fs2 p = Some (File [])" using open_trunc_lookup [OF o] by simp
  show "fs_lookup fs p = None" using f by simp
  show den: "fs_denied fs' = fs_denied fs"
    using f open_trunc_fields [OF o] append_file_fields [OF a] by simp
  have "\<not> fs_denied fs1 p" using o by (simp add: open_trunc_def can_create_def split: if_splits)
  then show "\<not> fs_denied fs' p" using den f by simp
  show "fs_lookup fs' p = Some (File c)" using append_file_ok [OF a l2] by simp
  show "fs_lookup fs' q = fs_lookup fs q" if "q \<noteq> p" for q
    using that f append_file_other [OF a] open_trunc_lookup [OF o] by simp
qed

lemma write_temp_text_file_frame:
  assumes "write_temp_text_file tmp rng pre c fs = (p, fs')" and "fs_lookup fs q \<noteq> None"
  shows "fs_lookup fs' q = fs_lookup fs q \<and> fs_denied fs' = fs_denied fs"
proof (cases "p = []")
  case False
  then show ?thesis using write_temp_text_file_cases [OF assms(1) False] assms(2) by metis
next
  case True
  obtain p1 fs1 where c: "create_temp_attempts 100 0 tmp rng pre [] fs = (p1, fs1)" by fastforce
  show ?thesis
  proof (cases "p1 = []")
    case True
    with assms c create_temp_attempts_failed show ?thesis
      by (fastforce simp: write_temp_text_file_def create_empty_temp_file_def)
  next
    case False
    note f = create_temp_attempts_fresh [OF c False]
    have rm: "fs_lookup (snd (remove_path p1 g)) q = fs_lookup g q
        \<and> fs_denied (snd (remove_path p1 g)) = fs_denied g" if "q \<noteq> p1" for g
      using that by (auto simp: remove_path_def split: option.splits node.splits)
    from f assms(2) have ne: "q \<noteq> p1" by auto
    show ?thesis
    proof (cases "open_trunc p1 fs1")
      case None
      with assms c False rm [OF ne, of fs1] f ne show ?thesis
        by (auto simp: write_temp_text_file_def create_empty_temp_file_def)
    next
      case (Some fs2)
      obtain g fs3 where a: "append_file p1 c fs2 = (g, fs3)" by fastforce
      have "fs_lookup fs3 q = fs_lookup fs q \<and> fs_denied fs3 = fs_denied fs"
        using append_file_other [OF a ne] append_file_fields [OF a] open_trunc_lookup [OF Some]
          open_trunc_fields [OF Some] f ne by simp
      with assms c False Some a rm [OF ne, of fs3] show ?thesis
        by (auto simp: write_temp_text_file_def create_empty_temp_file_def split: if_splits)
    qed
  qed
qed

interpretation temp_files: temp_store "write_temp_text_file tmp rng pre" read_file fs_exists
proof unfold_locales
  fix c s p s'
  assume w: "write_temp_text_file tmp rng pre c s = (p, s')" and p: "p \<noteq> []"
  note f = write_temp_text_file_cases [OF w p]
  show "read_file p s' = Some c" using f by (simp add: read_file_def)
  show "\<not> fs_exists s p" using f by (simp add: fs_exists_def)
next
  fix c s p s' q
  assume w: "write_temp_text_file tmp rng pre c s = (p, s')" and q: "fs_exists s q"
  then have "fs_lookup s q \<noteq> None" by (simp add: fs_exists_def)
  from write_temp_text_file_frame [OF w this] show "read_file q s' = read_file q s"
    by (auto simp: read_file_def split: option.splits node.splits)
qed

end
