(* ===== verification/Session_Config.thy ===== *)
theory Session_Config
  imports File_System
begin

text \<open>
  The legacy \<open>key=value\<close> configuration with \<open>[portN]\<close> sections and the search for the
  configuration file: \<open>lib/session/session_config.cpp\<close>. The environment is explicit: the
  home directory, the variable \<open>ROCKETBOX_CONFIG\<close> and the working directory.
\<close>

section \<open>Lines and sections\<close>

definition config_trim :: "string \<Rightarrow> string" where
  "config_trim value = strip_back is_space (strip_front is_space value)"

text \<open>The number of a \<open>[prefixN]\<close> header, for a four-letter prefix.\<close>

definition parse_section :: "string \<Rightarrow> string \<Rightarrow> int option" where
  "parse_section pre line =
     (if length line < 7 \<or> hd line \<noteq> CHR ''['' \<or> last line \<noteq> CHR '']'' then None
      else let inner = take (length line - 2) (drop 1 line)
        in if \<not> starts_with pre inner then None
           else case stoi (drop 4 inner) of Inl _ \<Rightarrow> None | Inr n \<Rightarrow> Some n)"

definition config_parse_port_section :: "string \<Rightarrow> int option" where
  "config_parse_port_section line = parse_section ''port'' line"

record session_config =
  sc_source_dir :: string
  sc_target_dir :: string
  sc_role :: string
  sc_loaded_from :: string

definition empty_session_config :: session_config where
  "empty_session_config = \<lparr>sc_source_dir = [], sc_target_dir = [], sc_role = [], sc_loaded_from = []\<rparr>"

definition set_config_value :: "session_config \<Rightarrow> string \<Rightarrow> string \<Rightarrow> session_config" where
  "set_config_value cfg key value =
     (if key = ''source_dir'' then cfg\<lparr>sc_source_dir := value\<rparr>
      else if key = ''target_dir'' then cfg\<lparr>sc_target_dir := value\<rparr>
      else if key = ''role'' then cfg\<lparr>sc_role := value\<rparr>
      else cfg)"

section \<open>Loading\<close>

record config_loader =
  cl_global :: session_config
  cl_port_cfg :: session_config
  cl_section_port :: int

definition config_step :: "string option \<Rightarrow> int \<Rightarrow> string \<Rightarrow> config_loader \<Rightarrow> config_loader" where
  "config_step home port_index raw st = (let line = config_trim raw in
     if line = [] \<or> hd line = CHR ''#'' then st
     else case config_parse_port_section line of
       Some port \<Rightarrow> st\<lparr>cl_section_port := port\<rparr>
     | None \<Rightarrow> (case split_at CHR ''='' line of
         None \<Rightarrow> st
       | Some (before, after) \<Rightarrow>
           let key = config_trim before; value = expand_home home (config_trim after)
           in if cl_section_port st < 0 then st\<lparr>cl_global := set_config_value (cl_global st) key value\<rparr>
              else if cl_section_port st = port_index
                then st\<lparr>cl_port_cfg := set_config_value (cl_port_cfg st) key value\<rparr>
              else st))"

definition prefer_text :: "string \<Rightarrow> string \<Rightarrow> string" where
  "prefer_text a b = (if a \<noteq> [] then a else b)"

text \<open>The loop over the lines, then the port values over the global ones.\<close>

definition load_session_config_lines :: "string option \<Rightarrow> int \<Rightarrow> string \<Rightarrow> string \<Rightarrow> session_config" where
  "load_session_config_lines home port_index path text =
     (let st = fold (config_step home port_index) (getlines text)
          \<lparr>cl_global = empty_session_config, cl_port_cfg = empty_session_config, cl_section_port = - 1\<rparr>
      in \<lparr>sc_source_dir = prefer_text (sc_source_dir (cl_port_cfg st)) (sc_source_dir (cl_global st)),
          sc_target_dir = prefer_text (sc_target_dir (cl_port_cfg st)) (sc_target_dir (cl_global st)),
          sc_role = prefer_text (sc_role (cl_port_cfg st)) (sc_role (cl_global st)),
          sc_loaded_from = path\<rparr>)"

definition load_session_config_file :: "string option \<Rightarrow> string \<Rightarrow> int \<Rightarrow> file_system
    \<Rightarrow> session_config \<Rightarrow> bool \<times> session_config" where
  "load_session_config_file home path port_index fs out = (case read_file path fs of
       None \<Rightarrow> (False, out)
     | Some text \<Rightarrow> let cfg = load_session_config_lines home port_index path text
         in (sc_source_dir cfg \<noteq> [] \<or> sc_target_dir cfg \<noteq> [] \<or> sc_role cfg \<noteq> [], cfg))"

section \<open>Finding the file\<close>

text \<open>\<open>absolute(p).lexically_normal()\<close> for a regular file: no trailing separator.\<close>

fun split_path :: "string \<Rightarrow> string \<Rightarrow> string list" where
  "split_path cur [] = [cur]"
| "split_path cur (c # s) = (if c = CHR ''/'' then cur # split_path [] s else split_path (cur @ [c]) s)"

fun normal_parts :: "string list \<Rightarrow> string list \<Rightarrow> string list" where
  "normal_parts acc [] = rev acc"
| "normal_parts acc (x # xs) =
     (if x = [] \<or> x = ''.'' then normal_parts acc xs
      else if x = ''..'' then normal_parts (tl acc) xs
      else normal_parts (x # acc) xs)"

definition absolute_normal :: "string \<Rightarrow> string \<Rightarrow> string" where
  "absolute_normal cwd p = (let full = (if starts_with ''/'' p then p else cwd @ ''/'' @ p);
       parts = normal_parts [] (split_path [] full)
     in if parts = [] then ''/'' else concat (map (\<lambda>x. CHR ''/'' # x) parts))"

record environment =
  env_home :: "string option"
  env_rocketbox_config :: "string option"
  env_cwd :: string

definition resolve_session_config_path :: "environment \<Rightarrow> file_system \<Rightarrow> string \<Rightarrow> string" where
  "resolve_session_config_path env fs cli_path =
     (if cli_path \<noteq> [] \<and> is_regular_file fs cli_path then absolute_normal (env_cwd env) cli_path
      else case env_rocketbox_config env of
        Some p \<Rightarrow> if p \<noteq> [] then p
          else (let home = home_directory (env_home env); user = home @ ''/.config/sls-fabric/session.conf''
                in if home \<noteq> [] \<and> is_regular_file fs user then user else [])
      | None \<Rightarrow> (let home = home_directory (env_home env); user = home @ ''/.config/sls-fabric/session.conf''
                in if home \<noteq> [] \<and> is_regular_file fs user then user else []))"

text \<open>The two pointers of the last argument: the paths tried so far, if the caller wants them.\<close>

definition load_session_config :: "environment \<Rightarrow> file_system \<Rightarrow> int \<Rightarrow> string \<Rightarrow> session_config
    \<Rightarrow> string list \<Rightarrow> bool \<times> session_config \<times> string list" where
  "load_session_config env fs port_index cli_path out tried =
     (let resolved = resolve_session_config_path env fs cli_path
      in if resolved = [] then (False, out, tried)
         else let (ok, cfg) = load_session_config_file (env_home env) resolved port_index fs out
              in (ok, cfg, tried @ [resolved]))"

section \<open>Lemmas\<close>

lemma config_trim_clean:
  "s = [] \<or> (\<not> is_space (hd s) \<and> \<not> is_space (last s)) \<Longrightarrow> config_trim s = s"
  by (auto simp: config_trim_def strip_front_id strip_back_id)

lemma prefer_text_simps [simp]: "prefer_text [] b = b" "a \<noteq> [] \<Longrightarrow> prefer_text a b = a" "prefer_text a [] = a"
  by (simp_all add: prefer_text_def)

lemma set_config_value_loaded_from [simp]: "sc_loaded_from (set_config_value c k v) = sc_loaded_from c"
  by (simp add: set_config_value_def)

text \<open>A line read under another port's section has no effect.\<close>

lemma config_step_other_port:
  assumes "0 \<le> cl_section_port st" and "cl_section_port st \<noteq> port"
    and "config_parse_port_section (config_trim raw) = None"
  shows "config_step home port raw st = st"
  using assms by (auto simp: config_step_def Let_def split: option.splits)

definition key_free :: "string \<Rightarrow> string \<Rightarrow> bool" where
  "key_free key raw \<longleftrightarrow> (case split_at CHR ''='' (config_trim raw) of
     None \<Rightarrow> True | Some (b, _) \<Rightarrow> config_trim b \<noteq> key)"

lemma config_step_role_port:
  assumes "0 \<le> port" and "config_parse_port_section (config_trim raw) = None"
    and "cl_section_port st = port" and "key_free ''role'' raw"
  shows "sc_role (cl_port_cfg (config_step home port raw st)) = sc_role (cl_port_cfg st)
    \<and> cl_section_port (config_step home port raw st) = port"
  using assms
  by (auto simp: config_step_def Let_def key_free_def set_config_value_def split: option.splits)

lemma fold_config_role_port:
  assumes "0 \<le> port" and "cl_section_port st = port"
    and "\<forall>raw \<in> set ls. config_parse_port_section (config_trim raw) = None \<and> key_free ''role'' raw"
  shows "sc_role (cl_port_cfg (fold (config_step home port) ls st)) = sc_role (cl_port_cfg st)"
  using assms(2,3)
proof (induction ls arbitrary: st)
  case Nil
  show ?case by simp
next
  case (Cons raw ls)
  then show ?case using config_step_role_port [OF assms(1), of raw st home] by simp
qed

section \<open>Properties\<close>

text \<open>
  in a configuration, a role set in the section of our own port wins over every global
  role written before it, as long as no later line of that section sets the role again.
\<close>

theorem port_role_overrides_global:
  assumes "0 \<le> port" and "port < 2 ^ 31"
    and "\<forall>c \<in> set role. \<not> is_space c" and "role \<noteq> []" and "hd role \<noteq> CHR ''~''"
    and "getlines text = before @ [''[port'' @ show_int port @ '']'', ''role='' @ role] @ after"
    and "\<forall>raw \<in> set after. config_parse_port_section (config_trim raw) = None \<and> key_free ''role'' raw"
  shows "sc_role (load_session_config_lines home port path text) = role"
proof -
  let ?hdr = "''[port'' @ show_int port @ '']''"
  let ?init = "\<lparr>cl_global = empty_session_config, cl_port_cfg = empty_session_config, cl_section_port = - 1\<rparr>"
  let ?st1 = "fold (config_step home port) before ?init"
  have trim_hdr: "config_trim ?hdr = ?hdr" by (rule config_trim_clean) (simp add: is_space_def)
  have "show_int port \<noteq> []" by simp
  then have "\<not> length ?hdr < 7" by (cases "show_int port") auto
  moreover have "take (length ?hdr - 2) (drop 1 ?hdr) = ''port'' @ show_int port" by simp
  ultimately have "parse_section ''port'' ?hdr = Some port"
    using stoi_show_int [of port] assms(1,2) by (simp add: parse_section_def Let_def starts_with_def)
  then have st2: "config_step home port ?hdr ?st1 = ?st1\<lparr>cl_section_port := port\<rparr>"
    using trim_hdr by (simp add: config_step_def config_parse_port_section_def Let_def)
  have last: "\<not> is_space (last role)" using assms(3,4) by simp
  have trim_role: "config_trim (''role='' @ role) = ''role='' @ role"
    using last assms(4) by (intro config_trim_clean) (simp add: is_space_def)
  have split: "split_at CHR ''='' (''role'' @ CHR ''='' # role) = Some (''role'', role)"
    by (rule split_at_append) simp
  have key: "config_trim ''role'' = ''role''" by (rule config_trim_clean) (simp add: is_space_def)
  have val: "expand_home home (config_trim role) = role"
  proof -
    have "config_trim role = role" using assms(3,4) by (intro config_trim_clean) simp
    moreover have "expand_home home role = role" using assms(4,5) by (cases role) (auto simp: expand_home_def)
    ultimately show ?thesis by simp
  qed
  let ?st3 = "config_step home port (''role='' @ role) (?st1\<lparr>cl_section_port := port\<rparr>)"
  have "?st3 = ?st1\<lparr>cl_section_port := port, cl_port_cfg := set_config_value (cl_port_cfg ?st1) ''role'' role\<rparr>"
    using assms(1) split key val trim_role
    by (simp add: config_step_def Let_def config_parse_port_section_def parse_section_def)
  then have st3: "cl_section_port ?st3 = port" "sc_role (cl_port_cfg ?st3) = role"
    by (simp_all add: set_config_value_def)
  have "fold (config_step home port) (getlines text) ?init = fold (config_step home port) after ?st3"
    by (simp add: assms(6) st2 del: append_Cons append_assoc)
  with fold_config_role_port [OF assms(1) st3(1) assms(7), of home] st3(2) assms(4)
  show ?thesis by (simp add: load_session_config_lines_def Let_def)
qed

lemma port_role_overrides_global_witness:
  "sc_role (load_session_config_lines None 0 ''f'' (''role=receiver'' @ [newline] @ ''[port0]'' @ [newline] @ ''role=sender''))
    = ''sender''"
proof (rule port_role_overrides_global [where before = "[''role=receiver'']" and after = "[]"])
  show "getlines (''role=receiver'' @ [newline] @ ''[port0]'' @ [newline] @ ''role=sender'')
      = [''role=receiver''] @ [''[port'' @ show_int 0 @ '']'', ''role='' @ ''sender''] @ []"
    by code_simp
qed (simp_all add: is_space_def)

end
