(* ===== verification/Handshake.thy ===== *)
theory Handshake
  imports Identity_Types
begin

text \<open>
  Handshake timing: \<open>lib/session/session_handshake.cpp\<close> with the defaults of
  \<open>core/include/usb_protocol.h\<close>. \<open>unsigned\<close> values are 32-bit words.
\<close>

definition kAcceptTimeoutSec :: u32 where "kAcceptTimeoutSec = 60"
definition kAcceptReceiverMarginSec :: u32 where "kAcceptReceiverMarginSec = 3"
definition kReadyTimeoutSec :: u32 where "kReadyTimeoutSec = 20"
definition kAcceptReadyGapMs :: u32 where "kAcceptReadyGapMs = 400"
definition kSessionHeaderTimeoutMs :: u32 where "kSessionHeaderTimeoutMs = 2000"
definition kPayloadHeaderTimeoutMs :: u32 where "kPayloadHeaderTimeoutMs = 15000"

record handshake_timing =
  ht_accept_ready_gap_ms :: u32
  ht_accept_reply_delay_ms :: u32
  ht_accept_timeout_sec :: u32
  ht_accept_dialog_sec :: u32
  ht_ready_timeout_sec :: u32
  ht_session_header_timeout_ms :: u32
  ht_handshake_poll_timeout_ms :: u32
  ht_payload_header_timeout_ms :: u32

definition positive_or_default :: "int \<Rightarrow> u32 \<Rightarrow> u32" where
  "positive_or_default value fallback = (if 0 < value then word_of_int value else fallback)"

definition handshake_timing_from_identity :: "identity_profile \<Rightarrow> handshake_timing" where
  "handshake_timing_from_identity profile =
     (let gap = positive_or_default (ip_accept_ready_gap_ms profile) kAcceptReadyGapMs;
          delay = (if 0 < ip_accept_reply_delay_ms profile
            then word_of_int (ip_accept_reply_delay_ms profile) else gap * 2);
          accept = positive_or_default (ip_accept_timeout_sec profile) kAcceptTimeoutSec;
          margin = kAcceptReceiverMarginSec
      in \<lparr>ht_accept_ready_gap_ms = gap,
          ht_accept_reply_delay_ms = delay,
          ht_accept_timeout_sec = accept,
          ht_accept_dialog_sec = (if margin < accept then accept - margin else 1),
          ht_ready_timeout_sec = positive_or_default (ip_ready_timeout_sec profile) kReadyTimeoutSec,
          ht_session_header_timeout_ms =
            positive_or_default (ip_session_header_timeout_ms profile) kSessionHeaderTimeoutMs,
          ht_handshake_poll_timeout_ms = 350,
          ht_payload_header_timeout_ms =
            positive_or_default (ip_payload_header_timeout_ms profile) kPayloadHeaderTimeoutMs\<rparr>)"

text \<open>The values a C++ \<open>int\<close> can hold.\<close>

definition fits_int :: "int \<Rightarrow> bool" where
  "fits_int v \<longleftrightarrow> - (2 ^ 31) \<le> v \<and> v < 2 ^ 31"

lemma uint_positive_or_default:
  assumes "fits_int v"
  shows "uint (positive_or_default v d) = (if 0 < v then v else uint d)"
  using assms by (simp add: positive_or_default_def fits_int_def uint_word_of_int)

lemma positive_or_default_positive:
  assumes "fits_int v" and "0 < d"
  shows "0 < positive_or_default v d"
  using uint_positive_or_default [OF assms(1), of d] assms(2)
  by (auto simp: word_less_def split: if_splits)

lemma uint_positive_or_default_bound:
  assumes "fits_int v" and "uint d < 2 ^ 31"
  shows "uint (positive_or_default v d) < 2 ^ 31"
  using uint_positive_or_default [OF assms(1), of d] assms by (auto simp: fits_int_def)



text \<open>
  The rule of the protocol guide, that the reply delay exceeds the gap, is not enforced on
  configured values: this profile answers 1 ms after the offer with a gap of 400 ms.
\<close>

lemma configured_delay_below_gap:
  "let t = handshake_timing_from_identity (default_identity_profile\<lparr>ip_accept_reply_delay_ms := 1\<rparr>)
   in ht_accept_reply_delay_ms t < ht_accept_ready_gap_ms t"
  by (simp add: handshake_timing_from_identity_def default_identity_profile_def
      positive_or_default_def kAcceptReadyGapMs_def Let_def)

end
