(* ===== verification/Identity.thy ===== *)
theory Identity
  imports Identity_Types Session_Config
begin

text \<open>
  The identity profile: \<open>lib/session/identity_profile.cpp\<close> and
  \<open>lib/session/booth_identity.cpp\<close>. A profile file holds global keys, \<open>[portN]\<close> sections
  that override them and \<open>[peerN]\<close> sections. Exceptions of \<open>std::stoi\<close> and \<open>std::stod\<close>
  are caught for the identity keys; the one for a peer's \<open>port_index\<close> is not, and leaves
  the loader as a left value.
\<close>

section \<open>Decimal numbers\<close>

text \<open>
  \<open>std::stod\<close> on decimal notation: sign, digits with an optional fraction, an optional
  exponent. Values from $2^{1024}$ on are out of range. Hexadecimal notation, infinities and
  NaN are not read.
\<close>

definition stod :: "string \<Rightarrow> std_exn + double" where
  "stod s = (let (neg, r) = skip_sign (strip_front is_space s);
       whole = takeWhile is_digit r; r1 = dropWhile is_digit r;
       frac = (if starts_with ''.'' r1 then takeWhile is_digit (tl r1) else []);
       r2 = (if starts_with ''.'' r1 then dropWhile is_digit (tl r1) else r1)
     in if whole = [] \<and> frac = [] then Inl Invalid_argument
        else let mant = of_nat (digits_value 10 (whole @ frac)) / 10 ^ length frac;
                 (eneg, er) = skip_sign (tl r2);
                 exps = (if starts_with ''e'' r2 \<or> starts_with ''E'' r2 then takeWhile is_digit er else []);
                 ex = digits_value 10 exps;
                 v = (if eneg then mant / 10 ^ ex else mant * 10 ^ ex)
             in if 2 ^ 1024 \<le> v then Inl Out_of_range else Inr (if neg then - v else v))"

section \<open>Booth display settings (\<open>booth_identity.cpp\<close>)\<close>

definition kBoothDisplayPresetMibS :: double where "kBoothDisplayPresetMibS = 7168"
definition kBoothDisplayPresetJitterPct :: double where "kBoothDisplayPresetJitterPct = 3"

definition parse_bool_flag :: "string \<Rightarrow> bool option" where
  "parse_bool_flag value =
     (if value = ''1'' \<or> value = ''true'' \<or> value = ''yes'' \<or> value = ''on'' then Some True
      else if value = ''0'' \<or> value = ''false'' \<or> value = ''no'' \<or> value = ''off'' then Some False
      else None)"

text \<open>\<open>None\<close> is the result \<open>false\<close>: the key is not a booth key.\<close>

definition apply_booth_identity_key :: "identity_profile \<Rightarrow> string \<Rightarrow> string \<Rightarrow> identity_profile option" where
  "apply_booth_identity_key cfg key value =
     (if key \<noteq> ''booth_display_enabled'' then None
      else case parse_bool_flag value of
          None \<Rightarrow> Some cfg
        | Some parsed \<Rightarrow> Some (cfg\<lparr>ip_booth_display_enabled := parsed,
            ip_booth_display_enabled_explicit := True\<rparr>))"

definition apply_booth_display_rates :: "identity_profile \<Rightarrow> identity_profile" where
  "apply_booth_display_rates profile =
     (if ip_booth_display_enabled profile
      then profile\<lparr>ip_booth_display_mib_s := kBoothDisplayPresetMibS,
        ip_booth_display_jitter_pct := kBoothDisplayPresetJitterPct\<rparr>
      else profile\<lparr>ip_booth_display_mib_s := 0, ip_booth_display_jitter_pct := 0\<rparr>)"

definition resolve_booth_display :: "identity_profile \<Rightarrow> identity_profile \<Rightarrow> identity_profile \<Rightarrow> identity_profile" where
  "resolve_booth_display out port_cfg global =
     (let mib = (if 0 < ip_booth_display_mib_s port_cfg then ip_booth_display_mib_s port_cfg
            else ip_booth_display_mib_s global);
          jit = (if 0 < ip_booth_display_jitter_pct port_cfg then ip_booth_display_jitter_pct port_cfg
            else ip_booth_display_jitter_pct global);
          enabled = (if ip_booth_display_enabled_explicit port_cfg then ip_booth_display_enabled port_cfg
            else if ip_booth_display_enabled_explicit global then ip_booth_display_enabled global
            else 0 < mib)
      in apply_booth_display_rates (out\<lparr>ip_booth_display_mib_s := mib,
           ip_booth_display_jitter_pct := jit, ip_booth_display_enabled := enabled\<rparr>))"

definition booth_identity_lines :: "identity_profile \<Rightarrow> string list" where
  "booth_identity_lines profile =
     (''booth_display_enabled='' @ (if ip_booth_display_enabled profile then ''true'' else ''false''))
     # (if \<not> ip_booth_display_enabled profile then []
        else [''booth_display_mib_s=7168'', ''booth_display_jitter_pct=3''])"

section \<open>Keys\<close>

definition int_or_zero :: "string \<Rightarrow> int" where
  "int_or_zero value = (case stoi value of Inl _ \<Rightarrow> 0 | Inr v \<Rightarrow> v)"

definition max_int_or_zero :: "string \<Rightarrow> int" where
  "max_int_or_zero value = (case stoi value of Inl _ \<Rightarrow> 0 | Inr v \<Rightarrow> max 0 v)"

definition nonneg_double_or_zero :: "string \<Rightarrow> double" where
  "nonneg_double_or_zero value = (case stod value of Inl _ \<Rightarrow> 0 | Inr v \<Rightarrow> if v < 0 then 0 else v)"

definition apply_identity_key :: "identity_profile \<Rightarrow> string \<Rightarrow> string \<Rightarrow> identity_profile" where
  "apply_identity_key cfg key value =
     (if key = ''display_name'' then cfg\<lparr>ip_display_name := value\<rparr>
      else if key = ''team'' then cfg\<lparr>ip_team := value\<rparr>
      else if key = ''role'' then cfg\<lparr>ip_role := value\<rparr>
      else if key = ''receive_status'' then cfg\<lparr>ip_receive_status := receive_status_from_string value\<rparr>
      else if key = ''receive_folder'' \<or> key = ''target_dir'' then cfg\<lparr>ip_receive_folder := value\<rparr>
      else if key = ''transfer_timeout_ms'' then cfg\<lparr>ip_transfer_timeout_ms := int_or_zero value\<rparr>
      else if key = ''usb_inflight_mb'' then cfg\<lparr>ip_usb_inflight_mb := int_or_zero value\<rparr>
      else if key = ''accept_ready_gap_ms'' then cfg\<lparr>ip_accept_ready_gap_ms := max_int_or_zero value\<rparr>
      else if key = ''accept_reply_delay_ms'' then cfg\<lparr>ip_accept_reply_delay_ms := max_int_or_zero value\<rparr>
      else if key = ''accept_timeout_sec'' then cfg\<lparr>ip_accept_timeout_sec := max_int_or_zero value\<rparr>
      else if key = ''ready_timeout_sec'' then cfg\<lparr>ip_ready_timeout_sec := max_int_or_zero value\<rparr>
      else if key = ''session_header_timeout_ms''
        then cfg\<lparr>ip_session_header_timeout_ms := max_int_or_zero value\<rparr>
      else if key = ''payload_header_timeout_ms''
        then cfg\<lparr>ip_payload_header_timeout_ms := max_int_or_zero value\<rparr>
      else case apply_booth_identity_key cfg key value of
          Some cfg' \<Rightarrow> cfg'
        | None \<Rightarrow>
          if key = ''booth_display_mib_s'' then cfg\<lparr>ip_booth_display_mib_s := nonneg_double_or_zero value\<rparr>
          else if key = ''booth_display_jitter_pct''
            then cfg\<lparr>ip_booth_display_jitter_pct := nonneg_double_or_zero value\<rparr>
          else cfg)"

definition apply_peer_key :: "peer_config \<Rightarrow> string \<Rightarrow> string \<Rightarrow> std_exn + peer_config" where
  "apply_peer_key peer key value =
     (if key = ''display_name'' then Inr (peer\<lparr>pc_display_name := value\<rparr>)
      else if key = ''team'' then Inr (peer\<lparr>pc_team := value\<rparr>)
      else if key = ''role'' then Inr (peer\<lparr>pc_role := value\<rparr>)
      else if key = ''receive_status'' then Inr (peer\<lparr>pc_receive_status := receive_status_from_string value\<rparr>)
      else if key = ''port_index'' then (case stoi value of Inl e \<Rightarrow> Inl e
        | Inr v \<Rightarrow> Inr (peer\<lparr>pc_port_index := v\<rparr>))
      else Inr peer)"

section \<open>Loading a profile file\<close>

definition parse_peer_section :: "string \<Rightarrow> int option" where
  "parse_peer_section line = parse_section ''peer'' line"

definition profile_parse_port_section :: "string \<Rightarrow> int option" where
  "profile_parse_port_section line = parse_section ''port'' line"

record profile_loader =
  pl_global :: identity_profile
  pl_port_cfg :: identity_profile
  pl_current_peer :: peer_config
  pl_in_peer :: bool
  pl_section_port :: int

definition flush_peer :: "profile_loader \<Rightarrow> profile_loader" where
  "flush_peer st = (if pl_in_peer st \<and> pc_display_name (pl_current_peer st) \<noteq> []
     then st\<lparr>pl_global := (pl_global st)\<lparr>ip_peers := ip_peers (pl_global st) @ [pl_current_peer st]\<rparr>\<rparr>
     else st)"

text \<open>One pass of the loop over the lines.\<close>

definition profile_step :: "string option \<Rightarrow> int \<Rightarrow> string \<Rightarrow> profile_loader \<Rightarrow> std_exn + profile_loader" where
  "profile_step home port_index raw st = (let line = config_trim raw in
     if line = [] \<or> hd line = CHR ''#'' then Inr st
     else case parse_peer_section line of
       Some peer_index \<Rightarrow> Inr ((flush_peer st)\<lparr>
           pl_current_peer := default_peer_config\<lparr>pc_port_index := peer_index\<rparr>,
           pl_in_peer := True, pl_section_port := - 1\<rparr>)
     | None \<Rightarrow> (case profile_parse_port_section line of
       Some port \<Rightarrow> Inr ((flush_peer st)\<lparr>pl_in_peer := False, pl_section_port := port\<rparr>)
     | None \<Rightarrow> (case split_at CHR ''='' line of
       None \<Rightarrow> Inr st
     | Some (before, after) \<Rightarrow>
         let key = config_trim before; value = expand_home home (config_trim after)
         in if pl_in_peer st then (case apply_peer_key (pl_current_peer st) key value of
                Inl e \<Rightarrow> Inl e | Inr peer \<Rightarrow> Inr (st\<lparr>pl_current_peer := peer\<rparr>))
            else if pl_section_port st < 0
              then Inr (st\<lparr>pl_global := apply_identity_key (pl_global st) key value\<rparr>)
            else if pl_section_port st = port_index
              then Inr (st\<lparr>pl_port_cfg := apply_identity_key (pl_port_cfg st) key value\<rparr>)
            else Inr st)))"

definition initial_loader :: profile_loader where
  "initial_loader = \<lparr>pl_global = default_identity_profile, pl_port_cfg = default_identity_profile,
     pl_current_peer = default_peer_config, pl_in_peer = False, pl_section_port = - 1\<rparr>"

definition pick_int :: "int \<Rightarrow> int \<Rightarrow> int" where
  "pick_int port global = (if port \<noteq> 0 then port else global)"

text \<open>The values of the port's section over the global ones.\<close>

definition merge_profile :: "string option \<Rightarrow> string \<Rightarrow> identity_profile \<Rightarrow> identity_profile
    \<Rightarrow> identity_profile \<Rightarrow> identity_profile" where
  "merge_profile home path port_cfg global out =
     (let status = (if ip_display_name port_cfg \<noteq> [] then ip_receive_status port_cfg
            else ip_receive_status global);
          status2 = (if status = Status_AskFirst \<and> ip_display_name global \<noteq> [] \<and> ip_display_name port_cfg = []
            then ip_receive_status global else status)
      in (resolve_booth_display (out\<lparr>
        ip_display_name := prefer_text (ip_display_name port_cfg) (ip_display_name global),
        ip_team := prefer_text (ip_team port_cfg) (ip_team global),
        ip_role := prefer_text (ip_role port_cfg) (ip_role global),
        ip_receive_status := status2,
        ip_receive_folder := (if ip_receive_folder port_cfg \<noteq> [] then ip_receive_folder port_cfg
          else if ip_receive_folder global \<noteq> [] then ip_receive_folder global
          else expand_home home ''~/Incoming''),
        ip_transfer_timeout_ms := pick_int (ip_transfer_timeout_ms port_cfg) (ip_transfer_timeout_ms global),
        ip_usb_inflight_mb := pick_int (ip_usb_inflight_mb port_cfg) (ip_usb_inflight_mb global),
        ip_accept_ready_gap_ms := pick_int (ip_accept_ready_gap_ms port_cfg) (ip_accept_ready_gap_ms global),
        ip_accept_reply_delay_ms := pick_int (ip_accept_reply_delay_ms port_cfg) (ip_accept_reply_delay_ms global),
        ip_accept_timeout_sec := pick_int (ip_accept_timeout_sec port_cfg) (ip_accept_timeout_sec global),
        ip_ready_timeout_sec := pick_int (ip_ready_timeout_sec port_cfg) (ip_ready_timeout_sec global),
        ip_session_header_timeout_ms :=
          pick_int (ip_session_header_timeout_ms port_cfg) (ip_session_header_timeout_ms global),
        ip_payload_header_timeout_ms :=
          pick_int (ip_payload_header_timeout_ms port_cfg) (ip_payload_header_timeout_ms global)\<rparr>)
        port_cfg global)\<lparr>ip_peers := ip_peers global, ip_config_path := path\<rparr>)"

definition load_profile_lines :: "string option \<Rightarrow> string \<Rightarrow> int \<Rightarrow> string list \<Rightarrow> identity_profile
    \<Rightarrow> std_exn + bool \<times> identity_profile" where
  "load_profile_lines home path port_index lines out =
     (case try_fold (profile_step home port_index) lines initial_loader of
        Inl e \<Rightarrow> Inl e
      | Inr st0 \<Rightarrow> let st = flush_peer st0;
            p = merge_profile home path (pl_port_cfg st) (pl_global st) out
          in Inr (ip_display_name p \<noteq> [] \<or> ip_peers p \<noteq> [], p))"

definition load_profile_file :: "string option \<Rightarrow> string \<Rightarrow> int \<Rightarrow> file_system \<Rightarrow> identity_profile
    \<Rightarrow> std_exn + bool \<times> identity_profile" where
  "load_profile_file home path port_index fs out = (case read_file path fs of
       None \<Rightarrow> Inr (False, out)
     | Some text \<Rightarrow> load_profile_lines home path port_index (getlines text) out)"

text \<open>The fixed-up fields of \<open>load_identity_profile\<close>, in the order of its statements.\<close>

definition fill_legacy_name :: "session_config \<Rightarrow> int \<Rightarrow> identity_profile \<Rightarrow> identity_profile" where
  "fill_legacy_name legacy port_index p = (if ip_display_name p = [] \<and> sc_role legacy \<noteq> []
     then p\<lparr>ip_display_name := ''System-'' @ show_int port_index\<rparr> else p)"

definition fill_team :: "identity_profile \<Rightarrow> identity_profile" where
  "fill_team p = (if ip_team p = [] then p\<lparr>ip_team := ''Team''\<rparr> else p)"

definition fill_legacy_folder :: "string option \<Rightarrow> session_config \<Rightarrow> identity_profile \<Rightarrow> identity_profile" where
  "fill_legacy_folder home legacy p =
     (if sc_target_dir legacy \<noteq> [] \<and> ip_receive_folder p = expand_home home ''~/Incoming''
      then p\<lparr>ip_receive_folder := sc_target_dir legacy\<rparr> else p)"

definition fill_legacy_role :: "session_config \<Rightarrow> identity_profile \<Rightarrow> identity_profile" where
  "fill_legacy_role legacy p = (if sc_role legacy \<noteq> [] \<and> sc_role legacy = ''sender''
     then p\<lparr>ip_receive_status := Status_Open\<rparr> else p)"

definition fill_name :: "int \<Rightarrow> identity_profile \<Rightarrow> identity_profile" where
  "fill_name port_index p = (if ip_display_name p = []
     then p\<lparr>ip_display_name := ''System-'' @ show_int port_index\<rparr> else p)"

definition fill_folder :: "string option \<Rightarrow> identity_profile \<Rightarrow> identity_profile" where
  "fill_folder home p = (if ip_receive_folder p = []
     then p\<lparr>ip_receive_folder := expand_home home ''~/Incoming''\<rparr> else p)"

text \<open>\<open>load_identity_profile\<close>: the profile file, the legacy values and the defaults.\<close>

definition load_identity_profile :: "environment \<Rightarrow> file_system \<Rightarrow> int \<Rightarrow> string
    \<Rightarrow> std_exn + bool \<times> identity_profile" where
  "load_identity_profile env fs port_index cli_config_path =
     (let home = env_home env;
          path = resolve_session_config_path env fs cli_config_path;
          legacy = (if path \<noteq> [] then snd (load_session_config_file home path port_index fs empty_session_config)
            else empty_session_config)
      in case (if path \<noteq> [] then load_profile_file home path port_index fs default_identity_profile
               else Inr (False, default_identity_profile)) of
           Inl e \<Rightarrow> Inl e
         | Inr (_, profile) \<Rightarrow>
           let profile = fill_legacy_name legacy port_index profile;
               profile = fill_team profile;
               profile = fill_legacy_folder home legacy profile;
               profile = fill_legacy_role legacy profile;
               profile = fill_name port_index profile;
               profile = fill_folder home profile
           in Inr (True, apply_booth_display_rates (profile\<lparr>ip_config_path := path\<rparr>)))"

section \<open>Saving\<close>

definition positive_line :: "string \<Rightarrow> int \<Rightarrow> string list" where
  "positive_line key v = (if 0 < v then [key @ ''='' @ show_int v] else [])"

definition peer_lines :: "nat \<Rightarrow> peer_config \<Rightarrow> string list" where
  "peer_lines i peer =
     [[], ''[peer'' @ show_nat i @ '']'', ''display_name='' @ pc_display_name peer, ''team='' @ pc_team peer]
     @ (if pc_role peer \<noteq> [] then [''role='' @ pc_role peer] else [])
     @ [''receive_status='' @ receive_status_to_string (pc_receive_status peer),
        ''port_index='' @ show_int (pc_port_index peer)]"

definition identity_lines :: "identity_profile \<Rightarrow> string list" where
  "identity_lines p =
     [''display_name='' @ ip_display_name p, ''team='' @ ip_team p]
     @ (if ip_role p \<noteq> [] then [''role='' @ ip_role p] else [])
     @ [''receive_status='' @ receive_status_to_string (ip_receive_status p),
        ''receive_folder='' @ ip_receive_folder p]
     @ positive_line ''transfer_timeout_ms'' (ip_transfer_timeout_ms p)
     @ positive_line ''usb_inflight_mb'' (ip_usb_inflight_mb p)
     @ positive_line ''accept_ready_gap_ms'' (ip_accept_ready_gap_ms p)
     @ positive_line ''accept_reply_delay_ms'' (ip_accept_reply_delay_ms p)
     @ positive_line ''accept_timeout_sec'' (ip_accept_timeout_sec p)
     @ positive_line ''ready_timeout_sec'' (ip_ready_timeout_sec p)
     @ positive_line ''session_header_timeout_ms'' (ip_session_header_timeout_ms p)
     @ positive_line ''payload_header_timeout_ms'' (ip_payload_header_timeout_ms p)
     @ booth_identity_lines p"

definition profile_lines :: "identity_profile \<Rightarrow> string list" where
  "profile_lines p = identity_lines p @ concat (map (\<lambda>(i, q). peer_lines i q) (enumerate 0 (ip_peers p)))"

definition profile_text :: "identity_profile \<Rightarrow> string" where
  "profile_text p = concat (map (\<lambda>l. l @ [newline]) (profile_lines p))"

text \<open>The flag is \<open>true\<close> whenever the file could be opened: stream errors are not checked.\<close>

definition save_identity_profile :: "identity_profile \<Rightarrow> file_system \<Rightarrow> bool \<times> file_system" where
  "save_identity_profile profile fs =
     (if ip_config_path profile = [] then (False, fs)
      else let fs1 = snd (create_directories (path_parent (ip_config_path profile)) fs)
        in case open_trunc (ip_config_path profile) fs1 of
             None \<Rightarrow> (False, fs1)
           | Some fs2 \<Rightarrow> (True, snd (append_file (ip_config_path profile) (profile_text profile) fs2)))"

end
