(* ===== verification/Identity_Props.thy ===== *)
theory Identity_Props
  imports Identity Handshake
begin

text \<open>
  Correctness of the identity profile files: what is saved is what is loaded, and what a
  load always yields.
\<close>

section \<open>One written line\<close>

definition plain_key :: "string \<Rightarrow> bool" where
  "plain_key k \<longleftrightarrow> k \<noteq> [] \<and> (\<forall>c \<in> set k. \<not> is_space c \<and> c \<noteq> CHR ''='' \<and> c \<noteq> CHR ''['' \<and> c \<noteq> CHR ''#'')"

text \<open>Values a line can hold: no newline, no blanks at the ends, nothing to expand.\<close>

definition clean_value :: "string option \<Rightarrow> string \<Rightarrow> bool" where
  "clean_value home v \<longleftrightarrow> newline \<notin> set v
     \<and> (v = [] \<or> \<not> is_space (hd v) \<and> \<not> is_space (last v)) \<and> expand_home home v = v"

definition kv_line :: "string \<times> string \<Rightarrow> string" where
  "kv_line kv = fst kv @ ''='' @ snd kv"

lemma config_trim_key [simp]: "plain_key k \<Longrightarrow> config_trim k = k"
  by (rule config_trim_clean) (auto simp: plain_key_def)

lemma config_trim_value [simp]: "clean_value home v \<Longrightarrow> config_trim v = v"
  by (rule config_trim_clean) (auto simp: clean_value_def)

lemma kv_line_facts:
  assumes "plain_key k" and "clean_value home v"
  shows "config_trim (kv_line (k, v)) = kv_line (k, v)" and "kv_line (k, v) \<noteq> []"
    and "hd (kv_line (k, v)) = hd k" and "split_at CHR ''='' (kv_line (k, v)) = Some (k, v)"
    and "parse_section pre (kv_line (k, v)) = None" and "hd k \<noteq> CHR ''#''"
proof -
  from assms(1) have k: "k \<noteq> []" "hd k \<in> set k" "CHR ''='' \<notin> set k" by (auto simp: plain_key_def)
  show h: "hd (kv_line (k, v)) = hd k" using k by (simp add: kv_line_def)
  show "kv_line (k, v) \<noteq> []" using k by (simp add: kv_line_def)
  from k(2) assms(1) have hd: "\<not> is_space (hd k)" "hd k \<noteq> CHR ''[''" "hd k \<noteq> CHR ''#''"
    unfolding plain_key_def by blast+
  show "hd k \<noteq> CHR ''#''" by (rule hd)
  have last: "\<not> is_space (last (kv_line (k, v)))"
    using assms(2) by (cases "v = []") (auto simp: kv_line_def clean_value_def is_space_def)
  show "config_trim (kv_line (k, v)) = kv_line (k, v)"
    using hd(1) last h by (intro config_trim_clean) simp
  show "split_at CHR ''='' (kv_line (k, v)) = Some (k, v)"
    using split_at_append [OF k(3), of v] by (simp add: kv_line_def)
  show "parse_section pre (kv_line (k, v)) = None"
    using hd(2) h by (simp add: parse_section_def)
qed

lemma profile_step_global:
  assumes "plain_key k" and "clean_value home v" and "\<not> pl_in_peer st" and "pl_section_port st < 0"
  shows "profile_step home port (kv_line (k, v)) st
    = Inr (st\<lparr>pl_global := apply_identity_key (pl_global st) k v\<rparr>)"
proof -
  have "expand_home home v = v" using assms(2) by (simp add: clean_value_def)
  then show ?thesis
    using kv_line_facts [OF assms(1,2)] assms
    by (simp add: profile_step_def Let_def parse_peer_section_def profile_parse_port_section_def)
qed

lemma profile_step_peer:
  assumes "plain_key k" and "clean_value home v" and "pl_in_peer st"
    and "apply_peer_key (pl_current_peer st) k v = Inr q"
  shows "profile_step home port (kv_line (k, v)) st = Inr (st\<lparr>pl_current_peer := q\<rparr>)"
proof -
  have "expand_home home v = v" using assms(2) by (simp add: clean_value_def)
  then show ?thesis
    using kv_line_facts [OF assms(1,2)] assms
    by (simp add: profile_step_def Let_def parse_peer_section_def profile_parse_port_section_def)
qed

lemma profile_step_blank: "profile_step home port [] st = Inr st"
  by (simp add: profile_step_def config_trim_def Let_def)

lemma parse_peer_header:
  assumes "i < 2 ^ 31"
  shows "parse_peer_section (''[peer'' @ show_nat i @ '']'') = Some (int i)"
    and "config_trim (''[peer'' @ show_nat i @ '']'') = ''[peer'' @ show_nat i @ '']''"
proof -
  let ?l = "''[peer'' @ show_nat i @ '']''"
  have "\<not> length ?l < 7" using show_nat_nonempty [of i] by (cases "show_nat i") auto
  moreover have "take (length ?l - 2) (drop 1 ?l) = ''peer'' @ show_nat i" by simp
  moreover have "stoi (show_nat i) = Inr (int i)"
    using stoi_show_int [of "int i"] assms by (simp add: show_int_def)
  ultimately show "parse_peer_section ?l = Some (int i)"
    by (simp add: parse_peer_section_def parse_section_def Let_def starts_with_def)
  show "config_trim ?l = ?l" by (rule config_trim_clean) (simp add: is_space_def)
qed

lemma profile_step_peer_header:
  assumes "i < 2 ^ 31"
  shows "profile_step home port (''[peer'' @ show_nat i @ '']'') st
    = Inr ((flush_peer st)\<lparr>pl_current_peer := default_peer_config\<lparr>pc_port_index := int i\<rparr>,
        pl_in_peer := True, pl_section_port := - 1\<rparr>)"
  using parse_peer_header [OF assms] by (simp add: profile_step_def Let_def)

section \<open>The global block\<close>

definition pairs_clean :: "string option \<Rightarrow> (string \<times> string) list \<Rightarrow> bool" where
  "pairs_clean home kvs \<longleftrightarrow> (\<forall>(k, v) \<in> set kvs. plain_key k \<and> clean_value home v)"

lemma pairs_clean_simps:
  "pairs_clean home (xs @ ys) \<longleftrightarrow> pairs_clean home xs \<and> pairs_clean home ys"
  "pairs_clean home ((k, v) # xs) \<longleftrightarrow> plain_key k \<and> clean_value home v \<and> pairs_clean home xs"
  "pairs_clean home []"
  by (auto simp: pairs_clean_def)

lemma try_fold_global_lines:
  assumes "pairs_clean home kvs"
    and "\<not> pl_in_peer st" and "pl_section_port st < 0"
  shows "try_fold (profile_step home port) (map kv_line kvs) st
    = Inr (st\<lparr>pl_global := fold (\<lambda>(k, v) g. apply_identity_key g k v) kvs (pl_global st)\<rparr>)"
  using assms
proof (induction kvs arbitrary: st)
  case Nil
  show ?case by simp
next
  case (Cons kv kvs)
  obtain k v where kv: "kv = (k, v)" by fastforce
  have "profile_step home port (kv_line (k, v)) st
      = Inr (st\<lparr>pl_global := apply_identity_key (pl_global st) k v\<rparr>)"
    using Cons.prems kv by (intro profile_step_global) (auto simp: pairs_clean_simps)
  moreover have "try_fold (profile_step home port) (map kv_line kvs)
      (st\<lparr>pl_global := apply_identity_key (pl_global st) k v\<rparr>)
      = Inr (st\<lparr>pl_global := fold (\<lambda>(k, v) g. apply_identity_key g k v) kvs
          (apply_identity_key (pl_global st) k v)\<rparr>)"
    using Cons.prems kv by (subst Cons.IH) (auto simp: pairs_clean_simps)
  ultimately show ?case by (simp add: kv)
qed

definition positive_pair :: "string \<Rightarrow> int \<Rightarrow> (string \<times> string) list" where
  "positive_pair key v = (if 0 < v then [(key, show_int v)] else [])"

definition booth_pairs :: "identity_profile \<Rightarrow> (string \<times> string) list" where
  "booth_pairs p = (''booth_display_enabled'', if ip_booth_display_enabled p then ''true'' else ''false'')
     # (if \<not> ip_booth_display_enabled p then []
        else [(''booth_display_mib_s'', ''7168''), (''booth_display_jitter_pct'', ''3'')])"

definition identity_pairs :: "identity_profile \<Rightarrow> (string \<times> string) list" where
  "identity_pairs p =
     [(''display_name'', ip_display_name p), (''team'', ip_team p)]
     @ (if ip_role p \<noteq> [] then [(''role'', ip_role p)] else [])
     @ [(''receive_status'', receive_status_to_string (ip_receive_status p)),
        (''receive_folder'', ip_receive_folder p)]
     @ positive_pair ''transfer_timeout_ms'' (ip_transfer_timeout_ms p)
     @ positive_pair ''usb_inflight_mb'' (ip_usb_inflight_mb p)
     @ positive_pair ''accept_ready_gap_ms'' (ip_accept_ready_gap_ms p)
     @ positive_pair ''accept_reply_delay_ms'' (ip_accept_reply_delay_ms p)
     @ positive_pair ''accept_timeout_sec'' (ip_accept_timeout_sec p)
     @ positive_pair ''ready_timeout_sec'' (ip_ready_timeout_sec p)
     @ positive_pair ''session_header_timeout_ms'' (ip_session_header_timeout_ms p)
     @ positive_pair ''payload_header_timeout_ms'' (ip_payload_header_timeout_ms p)
     @ booth_pairs p"

lemma map_kv_line_simps:
  "map kv_line (positive_pair k v) = positive_line k v"
  "map kv_line (booth_pairs p) = booth_identity_lines p"
  "map kv_line (if c then [(k, w)] else []) = (if c then [k @ ''='' @ w] else [])"
  by (simp_all add: positive_pair_def positive_line_def booth_pairs_def booth_identity_lines_def kv_line_def)

lemma identity_lines_pairs: "identity_lines p = map kv_line (identity_pairs p)"
  unfolding identity_lines_def identity_pairs_def map_append map_kv_line_simps
  by (simp add: kv_line_def)

text \<open>Profiles that the file format can hold.\<close>

definition small_nat :: "int \<Rightarrow> bool" where
  "small_nat v \<longleftrightarrow> 0 \<le> v \<and> v < 2 ^ 31"

definition storable_peer :: "string option \<Rightarrow> peer_config \<Rightarrow> bool" where
  "storable_peer home q \<longleftrightarrow> pc_display_name q \<noteq> [] \<and> fits_int (pc_port_index q)
     \<and> list_all (clean_value home) [pc_display_name q, pc_team q, pc_role q]"

definition storable_profile :: "string option \<Rightarrow> identity_profile \<Rightarrow> bool" where
  "storable_profile home p \<longleftrightarrow>
     list_all (clean_value home) [ip_display_name p, ip_team p, ip_role p, ip_receive_folder p]
     \<and> ip_receive_folder p \<noteq> []
     \<and> list_all small_nat [ip_transfer_timeout_ms p, ip_usb_inflight_mb p, ip_accept_ready_gap_ms p,
         ip_accept_reply_delay_ms p, ip_accept_timeout_sec p, ip_ready_timeout_sec p,
         ip_session_header_timeout_ms p, ip_payload_header_timeout_ms p]
     \<and> list_all (storable_peer home) (ip_peers p) \<and> length (ip_peers p) < 2 ^ 31"

lemma clean_no_tilde:
  "newline \<notin> set v \<Longrightarrow> v \<noteq> [] \<Longrightarrow> \<not> is_space (hd v) \<Longrightarrow> \<not> is_space (last v) \<Longrightarrow> hd v \<noteq> CHR ''~''
     \<Longrightarrow> clean_value home v"
  by (cases v) (auto simp: clean_value_def expand_home_def)

lemma clean_show_int: "clean_value home (show_int i)"
proof (rule clean_no_tilde)
  have "hd (show_int i) \<in> set (show_int i)" and "last (show_int i) \<in> set (show_int i)" by simp_all
  then show "\<not> is_space (hd (show_int i))" "\<not> is_space (last (show_int i))"
    using show_int_chars by blast+
  show "newline \<notin> set (show_int i)" using show_int_chars by blast
  have "\<not> is_digit CHR ''~''" by (simp add: is_digit_def)
  then have "hd (show_nat n) \<noteq> CHR ''~''" for n using hd_show_nat_digit [of n] by metis
  then show "hd (show_int i) \<noteq> CHR ''~''" by (simp add: show_int_def)
qed simp

lemma clean_status: "clean_value home (receive_status_to_string s)"
  by (cases s) (simp_all add: receive_status_to_string_def clean_value_def is_space_def expand_home_def)

lemma clean_booth_pairs: "pairs_clean home (booth_pairs p)"
  by (auto simp: pairs_clean_simps booth_pairs_def plain_key_def clean_value_def is_space_def expand_home_def)

lemma clean_positive_pair: "plain_key k \<Longrightarrow> pairs_clean home (positive_pair k i)"
  by (simp add: positive_pair_def clean_show_int pairs_clean_simps)

lemma plain_identity_keys:
  "plain_key ''display_name''" "plain_key ''team''" "plain_key ''role''" "plain_key ''receive_status''"
  "plain_key ''receive_folder''" "plain_key ''transfer_timeout_ms''" "plain_key ''usb_inflight_mb''"
  "plain_key ''accept_ready_gap_ms''" "plain_key ''accept_reply_delay_ms''" "plain_key ''accept_timeout_sec''"
  "plain_key ''ready_timeout_sec''" "plain_key ''session_header_timeout_ms''"
  "plain_key ''payload_header_timeout_ms''" "plain_key ''port_index''"
  by (simp_all add: plain_key_def is_space_def)

lemma identity_pairs_clean: "storable_profile home p \<Longrightarrow> pairs_clean home (identity_pairs p)"
  unfolding identity_pairs_def
  by (simp add: pairs_clean_simps storable_profile_def plain_identity_keys clean_status clean_booth_pairs clean_positive_pair)

text \<open>Each optional integer is written and read, or absent and left at zero.\<close>

lemma int_or_zero_show [simp]: "small_nat v \<Longrightarrow> int_or_zero (show_int v) = v"
  "small_nat v \<Longrightarrow> max_int_or_zero (show_int v) = v"
  using stoi_show_int [of v] by (simp_all add: int_or_zero_def max_int_or_zero_def small_nat_def)

abbreviation assign_identity :: "string \<times> string \<Rightarrow> identity_profile \<Rightarrow> identity_profile" where
  "assign_identity \<equiv> \<lambda>(k, v) g. apply_identity_key g k v"

lemma apply_identity_int_keys:
  "apply_identity_key g ''transfer_timeout_ms'' w = g\<lparr>ip_transfer_timeout_ms := int_or_zero w\<rparr>"
  "apply_identity_key g ''usb_inflight_mb'' w = g\<lparr>ip_usb_inflight_mb := int_or_zero w\<rparr>"
  "apply_identity_key g ''accept_ready_gap_ms'' w = g\<lparr>ip_accept_ready_gap_ms := max_int_or_zero w\<rparr>"
  "apply_identity_key g ''accept_reply_delay_ms'' w = g\<lparr>ip_accept_reply_delay_ms := max_int_or_zero w\<rparr>"
  "apply_identity_key g ''accept_timeout_sec'' w = g\<lparr>ip_accept_timeout_sec := max_int_or_zero w\<rparr>"
  "apply_identity_key g ''ready_timeout_sec'' w = g\<lparr>ip_ready_timeout_sec := max_int_or_zero w\<rparr>"
  "apply_identity_key g ''session_header_timeout_ms'' w = g\<lparr>ip_session_header_timeout_ms := max_int_or_zero w\<rparr>"
  "apply_identity_key g ''payload_header_timeout_ms'' w = g\<lparr>ip_payload_header_timeout_ms := max_int_or_zero w\<rparr>"
  by (simp_all add: apply_identity_key_def)

lemma identity_int_defaults:
  "ip_transfer_timeout_ms g = 0 \<Longrightarrow> g\<lparr>ip_transfer_timeout_ms := 0\<rparr> = g"
  "ip_usb_inflight_mb g = 0 \<Longrightarrow> g\<lparr>ip_usb_inflight_mb := 0\<rparr> = g"
  "ip_accept_ready_gap_ms g = 0 \<Longrightarrow> g\<lparr>ip_accept_ready_gap_ms := 0\<rparr> = g"
  "ip_accept_reply_delay_ms g = 0 \<Longrightarrow> g\<lparr>ip_accept_reply_delay_ms := 0\<rparr> = g"
  "ip_accept_timeout_sec g = 0 \<Longrightarrow> g\<lparr>ip_accept_timeout_sec := 0\<rparr> = g"
  "ip_ready_timeout_sec g = 0 \<Longrightarrow> g\<lparr>ip_ready_timeout_sec := 0\<rparr> = g"
  "ip_session_header_timeout_ms g = 0 \<Longrightarrow> g\<lparr>ip_session_header_timeout_ms := 0\<rparr> = g"
  "ip_payload_header_timeout_ms g = 0 \<Longrightarrow> g\<lparr>ip_payload_header_timeout_ms := 0\<rparr> = g"
  by (cases g; simp)+

lemma positive_pair_cases:
  "small_nat v \<Longrightarrow> positive_pair k v = [] \<and> v = 0 \<or> positive_pair k v = [(k, show_int v)]"
  by (auto simp: positive_pair_def small_nat_def)

lemma fold_positive:
  "ip_transfer_timeout_ms g = 0 \<Longrightarrow> small_nat v \<Longrightarrow>
     fold assign_identity (positive_pair ''transfer_timeout_ms'' v) g = g\<lparr>ip_transfer_timeout_ms := v\<rparr>"
  "ip_usb_inflight_mb g = 0 \<Longrightarrow> small_nat v \<Longrightarrow>
     fold assign_identity (positive_pair ''usb_inflight_mb'' v) g = g\<lparr>ip_usb_inflight_mb := v\<rparr>"
  "ip_accept_ready_gap_ms g = 0 \<Longrightarrow> small_nat v \<Longrightarrow>
     fold assign_identity (positive_pair ''accept_ready_gap_ms'' v) g = g\<lparr>ip_accept_ready_gap_ms := v\<rparr>"
  "ip_accept_reply_delay_ms g = 0 \<Longrightarrow> small_nat v \<Longrightarrow>
     fold assign_identity (positive_pair ''accept_reply_delay_ms'' v) g = g\<lparr>ip_accept_reply_delay_ms := v\<rparr>"
  "ip_accept_timeout_sec g = 0 \<Longrightarrow> small_nat v \<Longrightarrow>
     fold assign_identity (positive_pair ''accept_timeout_sec'' v) g = g\<lparr>ip_accept_timeout_sec := v\<rparr>"
  "ip_ready_timeout_sec g = 0 \<Longrightarrow> small_nat v \<Longrightarrow>
     fold assign_identity (positive_pair ''ready_timeout_sec'' v) g = g\<lparr>ip_ready_timeout_sec := v\<rparr>"
  "ip_session_header_timeout_ms g = 0 \<Longrightarrow> small_nat v \<Longrightarrow>
     fold assign_identity (positive_pair ''session_header_timeout_ms'' v) g = g\<lparr>ip_session_header_timeout_ms := v\<rparr>"
  "ip_payload_header_timeout_ms g = 0 \<Longrightarrow> small_nat v \<Longrightarrow>
     fold assign_identity (positive_pair ''payload_header_timeout_ms'' v) g = g\<lparr>ip_payload_header_timeout_ms := v\<rparr>"
  subgoal using positive_pair_cases [of v "''transfer_timeout_ms''"] by (auto simp: apply_identity_int_keys identity_int_defaults)
  subgoal using positive_pair_cases [of v "''usb_inflight_mb''"] by (auto simp: apply_identity_int_keys identity_int_defaults)
  subgoal using positive_pair_cases [of v "''accept_ready_gap_ms''"] by (auto simp: apply_identity_int_keys identity_int_defaults)
  subgoal using positive_pair_cases [of v "''accept_reply_delay_ms''"] by (auto simp: apply_identity_int_keys identity_int_defaults)
  subgoal using positive_pair_cases [of v "''accept_timeout_sec''"] by (auto simp: apply_identity_int_keys identity_int_defaults)
  subgoal using positive_pair_cases [of v "''ready_timeout_sec''"] by (auto simp: apply_identity_int_keys identity_int_defaults)
  subgoal using positive_pair_cases [of v "''session_header_timeout_ms''"] by (auto simp: apply_identity_int_keys identity_int_defaults)
  subgoal using positive_pair_cases [of v "''payload_header_timeout_ms''"] by (auto simp: apply_identity_int_keys identity_int_defaults)
  done

lemma stod_presets: "stod ''7168'' = Inr 7168" "stod ''3'' = Inr 3"
  by (simp_all add: stod_def skip_sign_def strip_front_def is_space_def is_digit_def digits_value_def
      digit_val_def starts_with_def Let_def)

text \<open>What the booth lines set.\<close>

definition booth_read :: "bool \<Rightarrow> identity_profile \<Rightarrow> identity_profile" where
  "booth_read e g = (if e
     then g\<lparr>ip_booth_display_enabled := True, ip_booth_display_enabled_explicit := True,
       ip_booth_display_mib_s := 7168, ip_booth_display_jitter_pct := 3\<rparr>
     else g\<lparr>ip_booth_display_enabled := False, ip_booth_display_enabled_explicit := True\<rparr>)"

lemma fold_booth: "fold assign_identity (booth_pairs p) g = booth_read (ip_booth_display_enabled p) g"
  by (simp add: booth_pairs_def booth_read_def apply_identity_key_def apply_booth_identity_key_def
      parse_bool_flag_def nonneg_double_or_zero_def stod_presets)

lemma fold_role:
  "ip_role g = [] \<Longrightarrow> fold assign_identity (if v \<noteq> [] then [(''role'', v)] else []) g = g\<lparr>ip_role := v\<rparr>"
  by (cases g) (simp add: apply_identity_key_def)

lemma fold_head:
  "fold assign_identity [(''display_name'', a), (''team'', b)] g = g\<lparr>ip_display_name := a, ip_team := b\<rparr>"
  "fold assign_identity [(''receive_status'', receive_status_to_string s), (''receive_folder'', d)] g
     = g\<lparr>ip_receive_status := s, ip_receive_folder := d\<rparr>"
  by (simp_all add: apply_identity_key_def)

text \<open>The global block reads back the scalar fields; peers and path are still the defaults.\<close>

lemma fold_identity_pairs:
  assumes "storable_profile home p"
  shows "fold assign_identity (identity_pairs p) default_identity_profile =
    booth_read (ip_booth_display_enabled p) (p\<lparr>ip_booth_display_mib_s := 0, ip_booth_display_jitter_pct := 0,
      ip_booth_display_enabled := True, ip_booth_display_enabled_explicit := False, ip_peers := [],
      ip_config_path := []\<rparr>)"
  unfolding identity_pairs_def fold_append o_apply fold_head fold_booth
  using assms
  by (simp add: fold_role fold_positive storable_profile_def default_identity_profile_def) (cases p; simp)

section \<open>The peer blocks\<close>

definition peer_pairs :: "peer_config \<Rightarrow> (string \<times> string) list" where
  "peer_pairs q = [(''display_name'', pc_display_name q), (''team'', pc_team q)]
      @ (if pc_role q \<noteq> [] then [(''role'', pc_role q)] else [])
      @ [(''receive_status'', receive_status_to_string (pc_receive_status q)),
         (''port_index'', show_int (pc_port_index q))]"

lemma peer_lines_kv: "peer_lines i q = [] # (''[peer'' @ show_nat i @ '']'') # map kv_line (peer_pairs q)"
  by (simp add: peer_lines_def peer_pairs_def kv_line_def)

lemma peer_pairs_clean: "storable_peer home q \<Longrightarrow> pairs_clean home (peer_pairs q)"
  by (simp add: peer_pairs_def pairs_clean_simps storable_peer_def plain_identity_keys clean_status clean_show_int)

lemma try_fold_peer_pairs:
  assumes "pairs_clean home kvs" and "pl_in_peer st"
    and "try_fold (\<lambda>(k, v) q. apply_peer_key q k v) kvs (pl_current_peer st) = Inr q"
  shows "try_fold (profile_step home port) (map kv_line kvs) st = Inr (st\<lparr>pl_current_peer := q\<rparr>)"
  using assms
proof (induction kvs arbitrary: st)
  case Nil
  then show ?case by simp
next
  case (Cons kv kvs)
  obtain k v where kv: "kv = (k, v)" by fastforce
  from Cons.prems(3) obtain c where c: "apply_peer_key (pl_current_peer st) k v = Inr c"
    "try_fold (\<lambda>(k, v) q. apply_peer_key q k v) kvs c = Inr q"
    by (auto simp: kv split: sum.splits)
  have "profile_step home port (kv_line (k, v)) st = Inr (st\<lparr>pl_current_peer := c\<rparr>)"
    using Cons.prems kv c by (intro profile_step_peer) (auto simp: pairs_clean_simps)
  moreover have "try_fold (profile_step home port) (map kv_line kvs) (st\<lparr>pl_current_peer := c\<rparr>)
      = Inr (st\<lparr>pl_current_peer := q\<rparr>)"
    using Cons.prems kv c by (subst Cons.IH) (auto simp: pairs_clean_simps)
  ultimately show ?case by (simp add: kv)
qed

lemma fold_peer_pairs:
  assumes "storable_peer home q"
  shows "try_fold (\<lambda>(k, v) q. apply_peer_key q k v) (peer_pairs q) (default_peer_config\<lparr>pc_port_index := i\<rparr>) = Inr q"
proof -
  have "stoi (show_int (pc_port_index q)) = Inr (pc_port_index q)"
    using assms stoi_show_int [of "pc_port_index q"] by (simp add: storable_peer_def fits_int_def)
  then show ?thesis
    by (cases q) (simp add: peer_pairs_def apply_peer_key_def default_peer_config_def)
qed

lemma try_fold_peer_lines:
  assumes "storable_peer home q" and "i < 2 ^ 31"
  shows "try_fold (profile_step home port) (peer_lines i q) st = Inr ((flush_peer st)\<lparr>
    pl_current_peer := q, pl_in_peer := True, pl_section_port := - 1\<rparr>)"
proof -
  let ?st0 = "(flush_peer st)\<lparr>pl_current_peer := default_peer_config\<lparr>pc_port_index := int i\<rparr>,
      pl_in_peer := True, pl_section_port := - 1\<rparr>"
  have "try_fold (profile_step home port) (map kv_line (peer_pairs q)) ?st0
      = Inr (?st0\<lparr>pl_current_peer := q\<rparr>)"
    using fold_peer_pairs [OF assms(1)] by (intro try_fold_peer_pairs [OF peer_pairs_clean [OF assms(1)]]) simp_all
  then show ?thesis
    unfolding peer_lines_kv try_fold.simps profile_step_blank profile_step_peer_header [OF assms(2)]
    by simp
qed

lemma try_fold_peers:
  assumes "list_all (storable_peer home) qs" and "n + length qs \<le> 2 ^ 31"
  shows "\<exists>r. try_fold (profile_step home port) (concat (map (\<lambda>(i, q). peer_lines i q) (enumerate n qs))) st = Inr r
    \<and> pl_global (flush_peer r) = (pl_global (flush_peer st))\<lparr>ip_peers := ip_peers (pl_global (flush_peer st)) @ qs\<rparr>
    \<and> pl_port_cfg r = pl_port_cfg st"
  using assms
proof (induction qs arbitrary: n st)
  case Nil
  show ?case by simp
next
  case (Cons q qs)
  let ?st1 = "(flush_peer st)\<lparr>pl_current_peer := q, pl_in_peer := True, pl_section_port := - 1\<rparr>"
  from Cons.prems have q: "storable_peer home q" and n: "n < 2 ^ 31" by simp_all
  obtain r where r: "try_fold (profile_step home port)
      (concat (map (\<lambda>(i, q). peer_lines i q) (enumerate (Suc n) qs))) ?st1 = Inr r"
    "pl_global (flush_peer r) = (pl_global (flush_peer ?st1))\<lparr>ip_peers := ip_peers (pl_global (flush_peer ?st1)) @ qs\<rparr>"
    "pl_port_cfg r = pl_port_cfg ?st1"
    using Cons.IH [of "Suc n" ?st1] Cons.prems by auto
  have "pl_global (flush_peer ?st1) = (pl_global (flush_peer st))\<lparr>ip_peers := ip_peers (pl_global (flush_peer st)) @ [q]\<rparr>"
    using q by (simp add: flush_peer_def storable_peer_def)
  moreover have "pl_port_cfg ?st1 = pl_port_cfg st" by (simp add: flush_peer_def)
  ultimately show ?case
    using r by (simp add: try_fold_append try_fold_peer_lines [OF q n])
qed

section \<open>Properties\<close>

text \<open>The profile a load returns for a stored one: the booth rates follow the flag.\<close>

definition stored_view :: "string \<Rightarrow> identity_profile \<Rightarrow> identity_profile" where
  "stored_view path p = (apply_booth_display_rates p)\<lparr>ip_booth_display_enabled_explicit := False, ip_config_path := path\<rparr>"

lemma profile_lines_no_newline:
  assumes "storable_profile home p"
  shows "\<forall>l \<in> set (profile_lines p). newline \<notin> set l"
proof -
  have kv: "newline \<notin> set (kv_line (k, v))" if "plain_key k" "clean_value home v" for k v
    using that by (auto simp: kv_line_def plain_key_def clean_value_def is_space_def)
  have "newline \<notin> set l" if "l \<in> set (identity_lines p)" for l
    using that identity_pairs_clean [OF assms] kv by (auto simp: identity_lines_pairs pairs_clean_def)
  moreover have "newline \<notin> set l" if "q \<in> set (ip_peers p)" "l \<in> set (peer_lines i q)" for l i q
  proof -
    from that assms have "storable_peer home q" by (simp add: storable_profile_def list_all_iff)
    moreover have "newline \<notin> set (show_nat i)" using show_nat_digits digit_not_special by blast
    ultimately show ?thesis using that(2) kv peer_pairs_clean [of home q]
      by (auto simp: peer_lines_kv pairs_clean_def)
  qed
  ultimately show ?thesis
    by (auto simp: profile_lines_def in_set_enumerate_eq) (meson nth_mem)
qed

lemma load_saved_lines:
  assumes "storable_profile home p"
  shows "load_profile_lines home path port (profile_lines p) default_identity_profile
    = Inr (ip_display_name p \<noteq> [] \<or> ip_peers p \<noteq> [], stored_view path p)"
proof -
  let ?g = "fold assign_identity (identity_pairs p) default_identity_profile"
  have g: "try_fold (profile_step home port) (identity_lines p) initial_loader = Inr (initial_loader\<lparr>pl_global := ?g\<rparr>)"
    unfolding identity_lines_pairs
    using try_fold_global_lines [OF identity_pairs_clean [OF assms], of initial_loader port]
    by (simp add: initial_loader_def)
  obtain r where r: "try_fold (profile_step home port)
      (concat (map (\<lambda>(i, q). peer_lines i q) (enumerate 0 (ip_peers p)))) (initial_loader\<lparr>pl_global := ?g\<rparr>) = Inr r"
    "pl_global (flush_peer r) = (pl_global (flush_peer (initial_loader\<lparr>pl_global := ?g\<rparr>)))\<lparr>
       ip_peers := ip_peers (pl_global (flush_peer (initial_loader\<lparr>pl_global := ?g\<rparr>))) @ ip_peers p\<rparr>"
    "pl_port_cfg r = default_identity_profile"
    using try_fold_peers [of home "ip_peers p" 0 port "initial_loader\<lparr>pl_global := ?g\<rparr>"] assms
    by (auto simp: storable_profile_def initial_loader_def)
  have port: "pl_port_cfg (flush_peer r) = default_identity_profile" using r(3) by (simp add: flush_peer_def)
  have glob: "pl_global (flush_peer r) = ?g\<lparr>ip_peers := ip_peers ?g @ ip_peers p\<rparr>"
    using r(2) by (simp add: initial_loader_def flush_peer_def)
  have folder: "ip_receive_folder p \<noteq> []" using assms by (simp add: storable_profile_def)
  have merged: "merge_profile home path default_identity_profile (?g\<lparr>ip_peers := ip_peers ?g @ ip_peers p\<rparr>)
      default_identity_profile = stored_view path p"
    unfolding fold_identity_pairs [OF assms] using folder
    by (cases p) (simp add: merge_profile_def default_identity_profile_def
        booth_read_def stored_view_def resolve_booth_display_def apply_booth_display_rates_def pick_int_def Let_def)
  have "try_fold (profile_step home port) (profile_lines p) initial_loader = Inr r"
    by (simp add: profile_lines_def try_fold_append g r(1))
  then show ?thesis
    by (simp add: load_profile_lines_def port glob merged Let_def)
      (simp add: stored_view_def apply_booth_display_rates_def)
qed


definition sample_profile :: identity_profile where
  "sample_profile = default_identity_profile\<lparr>ip_display_name := ''Ann'', ip_team := ''Red'',
     ip_receive_folder := ''/in'', ip_accept_timeout_sec := 30, ip_config_path := ''c'',
     ip_peers := [default_peer_config\<lparr>pc_display_name := ''Bob'', pc_port_index := 1\<rparr>]\<rparr>"

definition empty_store :: file_system where
  "empty_store = \<lparr>fs_entries = [], fs_denied = (\<lambda>_. False), fs_room = (\<lambda>_. None)\<rparr>"

lemma storable_sample: "storable_profile (Some ''/home/a'') sample_profile"
  by (simp add: storable_profile_def sample_profile_def default_identity_profile_def default_peer_config_def
      storable_peer_def clean_value_def expand_home_def is_space_def small_nat_def fits_int_def)


text \<open>What the fix-up steps guarantee and preserve.\<close>

lemma fill_lemmas:
  "ip_receive_folder (fill_folder home q) \<noteq> []" "ip_display_name (fill_name port q) \<noteq> []"
  "ip_team (fill_team q) \<noteq> []"
  "ip_display_name (fill_folder home q) = ip_display_name q" "ip_team (fill_folder home q) = ip_team q"
  "ip_team (fill_name port q) = ip_team q" "ip_team (fill_legacy_role l q) = ip_team q"
  "ip_team (fill_legacy_folder home l q) = ip_team q"
  by (simp_all add: fill_folder_def fill_name_def fill_team_def fill_legacy_role_def
      fill_legacy_folder_def expand_home_def Let_def)

text \<open>
  C40: whatever the configuration files hold, a load that is not ended by an exception yields
  a profile with a display name, a team and a receive folder, and with booth rates that
  agree with the enabled flag.
\<close>

theorem loaded_profile_complete:
  assumes "load_identity_profile env fs port cli = Inr (ok, p)"
  shows "ok \<and> ip_display_name p \<noteq> [] \<and> ip_team p \<noteq> [] \<and> ip_receive_folder p \<noteq> []
    \<and> ip_booth_display_mib_s p = (if ip_booth_display_enabled p then 7168 else 0)"
proof -
  obtain q legacy path where ok: "ok" and p: "p = apply_booth_display_rates ((fill_folder (env_home env)
      (fill_name port (fill_legacy_role legacy (fill_legacy_folder (env_home env) legacy
        (fill_team (fill_legacy_name legacy port q))))))\<lparr>ip_config_path := path\<rparr>)"
    using assms unfolding load_identity_profile_def Let_def by (auto split: sum.splits)
  show ?thesis by (simp add: ok p fill_lemmas apply_booth_display_rates_def kBoothDisplayPresetMibS_def)
qed

lemma loaded_profile_complete_witness:
  "let p = snd (projr (load_identity_profile \<lparr>env_home = None, env_rocketbox_config = None, env_cwd = ''/''\<rparr>
      empty_store 0 []))
   in ip_display_name p \<noteq> [] \<and> ip_team p \<noteq> [] \<and> ip_receive_folder p \<noteq> []"
proof -
  let ?e = "\<lparr>env_home = None, env_rocketbox_config = None, env_cwd = ''/''\<rparr>"
  have "\<exists>ok p. load_identity_profile ?e empty_store 0 [] = Inr (ok, p)"
    by (simp add: load_identity_profile_def resolve_session_config_path_def home_directory_def Let_def)
      (rule exI [of _ True], simp)
  then obtain ok p where l: "load_identity_profile ?e empty_store 0 [] = Inr (ok, p)" by blast
  from loaded_profile_complete [OF l] l show ?thesis by simp
qed

end
