(* ===== verification/Roster.thy ===== *)
theory Roster
  imports Identity_Types
begin

text \<open>
  The peer roster of \<open>lib/session/peer_roster.cpp\<close>. The guarded vector of entries is a
  list; every operation takes the value of the steady clock, in milliseconds, where the
  code reads it. The default time point is 0. The mutex makes each operation one step.
\<close>

section \<open>Entries\<close>

record peer_entry =
  pe_id :: string
  pe_instance_id :: string
  pe_display_name :: string
  pe_team :: string
  pe_role :: string
  pe_receive_status :: receive_status
  pe_port_index :: int
  pe_online :: bool
  pe_last_seen :: int

definition make_peer_id :: "int \<Rightarrow> string \<Rightarrow> string \<Rightarrow> string" where
  "make_peer_id port_index name instance_id =
     (if instance_id \<noteq> [] then ''i:'' @ instance_id else show_int port_index @ '':'' @ name)"

definition entry_of_config :: "peer_config \<Rightarrow> peer_entry" where
  "entry_of_config peer = \<lparr>
     pe_id = make_peer_id (pc_port_index peer) (pc_display_name peer) [],
     pe_instance_id = [], pe_display_name = pc_display_name peer, pe_team = pc_team peer,
     pe_role = pc_role peer, pe_receive_status = pc_receive_status peer,
     pe_port_index = pc_port_index peer, pe_online = False, pe_last_seen = 0\<rparr>"

definition peer_entries_from_config :: "peer_config list \<Rightarrow> peer_entry list" where
  "peer_entries_from_config peers = map entry_of_config (filter (\<lambda>p. pc_display_name p \<noteq> []) peers)"

section \<open>Operations\<close>

text \<open>The assignments shared by the three branches that refresh an entry.\<close>

definition refresh_entry :: "int \<Rightarrow> string \<Rightarrow> receive_status \<Rightarrow> peer_entry \<Rightarrow> peer_entry" where
  "refresh_entry now team status peer = peer\<lparr>pe_last_seen := now, pe_online := True,
     pe_team := (if team \<noteq> [] then team else pe_team peer), pe_receive_status := status\<rparr>"

definition new_entry :: "int \<Rightarrow> string \<Rightarrow> string \<Rightarrow> receive_status \<Rightarrow> int \<Rightarrow> string \<Rightarrow> string \<Rightarrow> peer_entry" where
  "new_entry now display_name team status port_index peer_id instance_id = \<lparr>pe_id = peer_id,
     pe_instance_id = instance_id, pe_display_name = display_name, pe_team = team, pe_role = [],
     pe_receive_status = status, pe_port_index = port_index, pe_online = True, pe_last_seen = now\<rparr>"

definition touch_peer :: "int \<Rightarrow> string \<Rightarrow> string \<Rightarrow> receive_status \<Rightarrow> int \<Rightarrow> string
    \<Rightarrow> peer_entry list \<Rightarrow> peer_entry list" where
  "touch_peer now display_name team status port_index instance_id peers =
     (if display_name = [] then peers
      else let peer_id = make_peer_id port_index display_name instance_id;
               peers = filter (\<lambda>p. \<not> (pe_port_index p = port_index \<and> pe_id p \<noteq> peer_id)) peers
        in if instance_id \<noteq> [] then
             (case update_first (\<lambda>p. pe_id p = peer_id \<or> pe_instance_id p = instance_id)
                (\<lambda>p. (refresh_entry now team status p)\<lparr>pe_display_name := display_name,
                   pe_port_index := port_index, pe_instance_id := instance_id, pe_id := peer_id\<rparr>) peers of
                Some peers' \<Rightarrow> peers'
              | None \<Rightarrow> peers @ [new_entry now display_name team status port_index peer_id instance_id])
           else (case (if 0 \<le> port_index
               then update_first (\<lambda>p. pe_port_index p = port_index)
                 (\<lambda>p. (refresh_entry now team status p)\<lparr>pe_id := make_peer_id port_index display_name [],
                    pe_instance_id := [], pe_display_name := display_name\<rparr>) peers
               else None) of
                Some peers' \<Rightarrow> peers'
              | None \<Rightarrow> (case update_first (\<lambda>p. pe_display_name p = display_name \<and> pe_instance_id p = [])
                  (\<lambda>p. let q = refresh_entry now team status p
                     in if 0 \<le> port_index
                        then q\<lparr>pe_port_index := port_index, pe_id := make_peer_id port_index display_name []\<rparr>
                        else q) peers of
                Some peers' \<Rightarrow> peers'
              | None \<Rightarrow> peers @ [new_entry now display_name team status
                  (if 0 \<le> port_index then port_index else 0) peer_id []])))"

definition touch_peer_presence :: "int \<Rightarrow> string \<Rightarrow> string \<Rightarrow> peer_entry list \<Rightarrow> peer_entry list" where
  "touch_peer_presence now display_name team peers =
     (case update_first (\<lambda>p. pe_display_name p = display_name)
        (\<lambda>p. p\<lparr>pe_last_seen := now, pe_online := True,
           pe_team := (if team \<noteq> [] then team else pe_team p)\<rparr>) peers of
        Some peers' \<Rightarrow> peers' | None \<Rightarrow> peers)"

definition mark_stale_peers_offline :: "int \<Rightarrow> int \<Rightarrow> peer_entry list \<Rightarrow> peer_entry list" where
  "mark_stale_peers_offline now max_age peers = map (\<lambda>p.
     if \<not> pe_online p \<or> pe_last_seen p = 0 then p\<lparr>pe_online := False\<rparr>
     else if max_age < now - pe_last_seen p then p\<lparr>pe_online := False\<rparr>
     else p) peers"

definition set_all_peers_offline :: "peer_entry list \<Rightarrow> peer_entry list" where
  "set_all_peers_offline peers = map (\<lambda>p. p\<lparr>pe_online := False\<rparr>) peers"

definition set_all_peers_online :: "int \<Rightarrow> peer_entry list \<Rightarrow> peer_entry list" where
  "set_all_peers_online now peers = map (\<lambda>p. p\<lparr>pe_online := True, pe_last_seen := now\<rparr>) peers"

definition set_peer_online :: "int \<Rightarrow> int \<Rightarrow> bool \<Rightarrow> peer_entry list \<Rightarrow> peer_entry list" where
  "set_peer_online now port_index online peers =
     (case update_first (\<lambda>p. pe_port_index p = port_index)
        (\<lambda>p. p\<lparr>pe_online := online, pe_last_seen := (if online then now else pe_last_seen p)\<rparr>) peers of
        Some peers' \<Rightarrow> peers' | None \<Rightarrow> peers)"

definition find_by_id :: "string \<Rightarrow> peer_entry list \<Rightarrow> peer_entry option" where
  "find_by_id peer_id peers = find (\<lambda>p. pe_id p = peer_id) peers"

definition find_by_name :: "string \<Rightarrow> peer_entry list \<Rightarrow> peer_entry option" where
  "find_by_name display_name peers = find (\<lambda>p. pe_display_name p = display_name) peers"

definition find_by_port :: "int \<Rightarrow> peer_entry list \<Rightarrow> peer_entry option" where
  "find_by_port port_index peers = find (\<lambda>p. pe_port_index p = port_index) peers"

section \<open>Identifiers\<close>

lemma show_int_no_colon: "CHR '':'' \<notin> set (show_int i)"
  using show_int_chars by blast

lemma peer_id_inj:
  assumes "make_peer_id p n [] = make_peer_id p' n' []"
  shows "p = p' \<and> n = n'"
proof -
  from assms have eq: "show_int p @ CHR '':'' # n = show_int p' @ CHR '':'' # n'"
    by (simp add: make_peer_id_def)
  have at: "split_at CHR '':'' (show_int i @ CHR '':'' # m) = Some (show_int i, m)" for i m
    by (rule split_at_append [OF show_int_no_colon])
  have "Some (show_int p, n) = Some (show_int p', n')"
    unfolding at [symmetric] by (simp only: eq)
  then show ?thesis using show_int_inj by simp
qed

lemma peer_id_kinds: "i \<noteq> [] \<Longrightarrow> make_peer_id p n i \<noteq> make_peer_id p' n' []"
proof
  assume i: "i \<noteq> []" and eq: "make_peer_id p n i = make_peer_id p' n' []"
  have "hd (make_peer_id p' n' []) = CHR ''i''" unfolding eq [symmetric] using i by (simp add: make_peer_id_def)
  then have "hd (show_int p') = CHR ''i''" by (simp add: make_peer_id_def)
  then show False using hd_show_nat_digit [of "nat p'"] digit_not_special by (auto simp: show_int_def split: if_splits)
qed

section \<open>The roster invariant\<close>

text \<open>An entry's identifier is the one of its fields; identifiers and ports are unique.\<close>

definition canonical_entry :: "peer_entry \<Rightarrow> bool" where
  "canonical_entry e \<longleftrightarrow> pe_display_name e \<noteq> []
     \<and> pe_id e = make_peer_id (pe_port_index e) (pe_display_name e) (pe_instance_id e)"

definition roster_ok :: "peer_entry list \<Rightarrow> bool" where
  "roster_ok r \<longleftrightarrow> list_all canonical_entry r \<and> distinct (map pe_id r) \<and> distinct (map pe_port_index r)"

lemma roster_ok_insert:
  "roster_ok (a @ e # b) \<longleftrightarrow> roster_ok (a @ b) \<and> canonical_entry e
     \<and> (\<forall>x \<in> set (a @ b). pe_id x \<noteq> pe_id e \<and> pe_port_index x \<noteq> pe_port_index e)"
  by (auto simp: roster_ok_def image_iff)

lemma roster_ok_filter: "roster_ok r \<Longrightarrow> roster_ok (filter P r)"
  by (auto simp: roster_ok_def list_all_iff distinct_map_filter)

lemma entries_from_config_ok:
  assumes "distinct (map pc_port_index peers)"
  shows "roster_ok (peer_entries_from_config peers)"
  using assms
proof (induction peers)
  case Nil
  show ?case by (simp add: roster_ok_def peer_entries_from_config_def)
next
  case (Cons p ps)
  then have ok: "roster_ok (peer_entries_from_config ps)" by simp
  show ?case
  proof (cases "pc_display_name p = []")
    case True
    with ok show ?thesis by (simp add: peer_entries_from_config_def)
  next
    case False
    have "canonical_entry (entry_of_config p)"
      using False by (simp add: canonical_entry_def entry_of_config_def)
    moreover have "pe_id x \<noteq> pe_id (entry_of_config p) \<and> pe_port_index x \<noteq> pe_port_index (entry_of_config p)"
      if x: "x \<in> set (peer_entries_from_config ps)" for x
    proof -
      from x obtain q where "q \<in> set ps" and "x = entry_of_config q"
        by (auto simp: peer_entries_from_config_def)
      moreover from this(1) Cons.prems have "pc_port_index q \<noteq> pc_port_index p"
        by (metis distinct.simps(2) image_eqI list.set_map list.simps(9))
      ultimately show ?thesis by (auto simp: entry_of_config_def dest: peer_id_inj)
    qed
    ultimately have "roster_ok ([] @ entry_of_config p # peer_entries_from_config ps)"
      unfolding roster_ok_insert using ok by simp
    then show ?thesis using False by (simp add: peer_entries_from_config_def)
  qed
qed

section \<open>What a touch does\<close>

text \<open>The entry a touch leaves at its port.\<close>

definition touched :: "int \<Rightarrow> string \<Rightarrow> receive_status \<Rightarrow> int \<Rightarrow> string \<Rightarrow> peer_entry \<Rightarrow> bool" where
  "touched now name status p inst e \<longleftrightarrow> canonical_entry e \<and> pe_display_name e = name
     \<and> pe_port_index e = p \<and> pe_instance_id e = inst \<and> pe_online e \<and> pe_last_seen e = now
     \<and> pe_receive_status e = status"

text \<open>The other entries a touch may drop or move: those at its port, of its instance, or of its name.\<close>

definition superseded :: "string \<Rightarrow> int \<Rightarrow> string \<Rightarrow> peer_entry \<Rightarrow> bool" where
  "superseded name p inst e \<longleftrightarrow> pe_port_index e = p
     \<or> (if inst \<noteq> [] then pe_instance_id e = inst else pe_instance_id e = [] \<and> pe_display_name e = name)"

lemma make_peer_id_instance:
  assumes "canonical_entry e" and "inst \<noteq> []"
  shows "pe_id e = make_peer_id p n inst \<longleftrightarrow> pe_instance_id e = inst"
proof (cases "pe_instance_id e = []")
  case True
  with assms peer_id_kinds [OF assms(2)] show ?thesis by (metis canonical_entry_def)
next
  case False
  with assms show ?thesis by (simp add: canonical_entry_def make_peer_id_def)
qed

lemma touch_shape:
  assumes ok: "roster_ok r" and name: "name \<noteq> []" and p: "0 \<le> p"
  shows "\<exists>a e b. touch_peer now name team status p inst r = a @ e # b \<and> touched now name status p inst e
     \<and> roster_ok (a @ b) \<and> set (a @ b) \<subseteq> set r
     \<and> (\<forall>x \<in> set (a @ b). pe_port_index x \<noteq> p \<and> pe_id x \<noteq> pe_id e)
     \<and> (\<forall>x \<in> set r. x \<notin> set (a @ b) \<longrightarrow> superseded name p inst x)"
proof -
  let ?id = "make_peer_id p name inst"
  define r1 where "r1 = filter (\<lambda>x. \<not> (pe_port_index x = p \<and> pe_id x \<noteq> ?id)) r"
  have r1: "roster_ok r1" "set r1 \<subseteq> set r" "\<forall>x \<in> set r1. pe_port_index x = p \<longrightarrow> pe_id x = ?id"
    "\<forall>x \<in> set r. x \<notin> set r1 \<longrightarrow> pe_port_index x = p"
    using roster_ok_filter [OF ok] by (auto simp: r1_def)
  have canon: "canonical_entry x" if "x \<in> set r1" for x
    using r1(1) that by (simp add: roster_ok_def list_all_iff)
  text \<open>Replacing an entry by one with the touched identifier, when no other entry has it.\<close>
  have repl: "roster_ok (a @ b) \<and> set (a @ b) \<subseteq> set r
      \<and> (\<forall>y \<in> set (a @ b). pe_port_index y \<noteq> p \<and> pe_id y \<noteq> ?id)
      \<and> (\<forall>y \<in> set r. y \<notin> set (a @ b) \<longrightarrow> superseded name p inst y)"
    if split: "r1 = a @ x # b" and sup: "superseded name p inst x"
      and other: "\<forall>y \<in> set (a @ b). pe_id y \<noteq> ?id" for a x b
  proof -
    have "roster_ok (a @ x # b)" using r1(1) split by simp
    then have "roster_ok (a @ b)" by (simp add: roster_ok_insert)
    then show ?thesis using r1(2-4) split sup other by (auto simp: superseded_def)
  qed
  have push: "roster_ok r1 \<and> set r1 \<subseteq> set r \<and> (\<forall>y \<in> set r1. pe_port_index y \<noteq> p \<and> pe_id y \<noteq> ?id)
      \<and> (\<forall>y \<in> set r. y \<notin> set r1 \<longrightarrow> superseded name p inst y)"
    if "\<forall>y \<in> set r1. pe_id y \<noteq> ?id"
    using r1 that by (auto simp: superseded_def)
  show ?thesis
  proof (cases "inst = []")
    case False
    let ?P = "\<lambda>x. pe_id x = ?id \<or> pe_instance_id x = inst"
    let ?f = "\<lambda>x. (refresh_entry now team status x)\<lparr>pe_display_name := name,
                   pe_port_index := p, pe_instance_id := inst, pe_id := ?id\<rparr>"
    have P: "?P x \<longleftrightarrow> pe_id x = ?id" if "x \<in> set r1" for x
      using make_peer_id_instance [OF canon [OF that] False] by blast
    show ?thesis
    proof (cases "update_first ?P ?f r1")
      case None
      then have "\<forall>y \<in> set r1. pe_id y \<noteq> ?id" by (simp add: update_first_None)
      moreover have "touch_peer now name team status p inst r = r1 @ [new_entry now name team status p ?id inst]"
        using None False name by (simp add: touch_peer_def Let_def r1_def)
      moreover have "touched now name status p inst (new_entry now name team status p ?id inst)"
        using name by (simp add: touched_def new_entry_def canonical_entry_def)
      ultimately show ?thesis using push
        by (intro exI [of _ r1] exI [of _ "new_entry now name team status p ?id inst"] exI [of _ "[]"])
          (simp add: new_entry_def)
    next
      case (Some r2)
      then obtain a x b where s: "r1 = a @ x # b" "r2 = a @ ?f x # b" "?P x"
        by (blast dest: update_first_Some)
      then have x: "pe_id x = ?id" using P [of x] by auto
      have "\<forall>y \<in> set (a @ b). pe_id y \<noteq> ?id" using r1(1) s(1) x by (auto simp: roster_ok_insert)
      moreover have "superseded name p inst x"
        using make_peer_id_instance [OF canon False, of x] s(1) x False by (auto simp: superseded_def)
      moreover have "touch_peer now name team status p inst r = a @ ?f x # b"
        using Some False name s(2) by (simp add: touch_peer_def Let_def r1_def)
      moreover have "touched now name status p inst (?f x)"
        using name by (simp add: touched_def refresh_entry_def canonical_entry_def)
      ultimately show ?thesis using repl [OF s(1)]
        by (intro exI [of _ a] exI [of _ "?f x"] exI [of _ b]) simp
    qed
  next
    case True
    let ?f = "\<lambda>x. (refresh_entry now team status x)\<lparr>pe_id := ?id, pe_instance_id := [], pe_display_name := name\<rparr>"
    let ?g = "\<lambda>x. (refresh_entry now team status x)\<lparr>pe_port_index := p, pe_id := ?id\<rparr>"
    let ?Q = "\<lambda>x. pe_display_name x = name \<and> pe_instance_id x = []"
    have at_p: "pe_id x = ?id \<longleftrightarrow> pe_port_index x = p" if "x \<in> set r1" for x
    proof
      assume id: "pe_id x = ?id"
      show "pe_port_index x = p"
      proof (cases "pe_instance_id x = []")
        case True
        with id canon [OF that] \<open>inst = []\<close> show ?thesis
          by (auto simp: canonical_entry_def dest: peer_id_inj)
      next
        case False
        with id canon [OF that] \<open>inst = []\<close> show ?thesis using peer_id_kinds by (metis canonical_entry_def)
      qed
    qed (use r1(3) that in blast)
    show ?thesis
    proof (cases "update_first (\<lambda>x. pe_port_index x = p) ?f r1")
      case (Some r2)
      then obtain a x b where s: "r1 = a @ x # b" "r2 = a @ ?f x # b" "pe_port_index x = p"
        by (blast dest: update_first_Some)
      have "\<forall>y \<in> set (a @ b). pe_id y \<noteq> ?id"
        using r1(1) s at_p by (auto simp: roster_ok_insert)
      moreover have "superseded name p inst x" using s(3) by (simp add: superseded_def)
      moreover have "touch_peer now name team status p inst r = a @ ?f x # b"
        using Some True name s(2) p by (simp add: touch_peer_def Let_def r1_def)
      moreover have "touched now name status p inst (?f x)"
        using name True s(3) by (simp add: touched_def refresh_entry_def canonical_entry_def)
      ultimately show ?thesis using repl [OF s(1)]
        by (intro exI [of _ a] exI [of _ "?f x"] exI [of _ b]) simp
    next
      case None
      then have none: "\<forall>y \<in> set r1. pe_id y \<noteq> ?id" using at_p by (auto simp: update_first_None)
      show ?thesis
      proof (cases "update_first ?Q ?g r1")
        case (Some r2)
        then obtain a x b where s: "r1 = a @ x # b" "r2 = a @ ?g x # b" "?Q x"
          by (blast dest: update_first_Some)
        have "superseded name p inst x" using s(3) True by (simp add: superseded_def)
        moreover have "touch_peer now name team status p inst r = a @ ?g x # b"
          using Some None True name s(2) p by (simp add: touch_peer_def Let_def r1_def)
        moreover have "touched now name status p inst (?g x)"
          using name True s(3) by (simp add: touched_def refresh_entry_def canonical_entry_def)
        ultimately show ?thesis using repl [OF s(1)] none s(1)
          by (intro exI [of _ a] exI [of _ "?g x"] exI [of _ b]) simp
      next
        case none2: None
        have "touch_peer now name team status p inst r = r1 @ [new_entry now name team status p ?id inst]"
          using None none2 True name p by (simp add: touch_peer_def Let_def r1_def)
        moreover have "touched now name status p inst (new_entry now name team status p ?id inst)"
          using name by (simp add: touched_def new_entry_def canonical_entry_def)
        ultimately show ?thesis using push [OF none]
          by (intro exI [of _ r1] exI [of _ "new_entry now name team status p ?id inst"] exI [of _ "[]"])
            (simp add: new_entry_def)
      qed
    qed
  qed
qed

section \<open>The directory interface\<close>

text \<open>
  What the session layer expects of the roster: an announcement is what is found at its
  port, and nothing is found at another port that was not there before.
\<close>

locale peer_directory =
  fixes find_at :: "int \<Rightarrow> 'd \<Rightarrow> 'e option"
    and announce :: "'a \<Rightarrow> 'd \<Rightarrow> 'd"
    and port_of :: "'a \<Rightarrow> int"
    and valid :: "'a \<Rightarrow> bool"
    and good :: "'d \<Rightarrow> bool"
    and represents :: "'a \<Rightarrow> 'e \<Rightarrow> bool"
  assumes announce_good: "good d \<Longrightarrow> valid a \<Longrightarrow> good (announce a d)"
    and announce_found: "good d \<Longrightarrow> valid a \<Longrightarrow> \<exists>e. find_at (port_of a) (announce a d) = Some e \<and> represents a e"
    and announce_other: "good d \<Longrightarrow> valid a \<Longrightarrow> q \<noteq> port_of a \<Longrightarrow> find_at q (announce a d) = Some e
      \<Longrightarrow> find_at q d = Some e"
begin

lemma announces_good: "good d \<Longrightarrow> list_all valid as \<Longrightarrow> good (fold announce as d)"
  by (induction as arbitrary: d) (auto simp: announce_good)

text \<open>
  Whatever is found at a port after a sequence of announcements comes from the last
  announcement for that port, or was there before and no announcement was for that port.
\<close>

theorem found_after_announces:
  assumes "good d" and "list_all valid as" and "find_at q (fold announce as d) = Some e"
  shows "(\<exists>xs a ys. as = xs @ a # ys \<and> port_of a = q \<and> represents a e \<and> (\<forall>b \<in> set ys. port_of b \<noteq> q))
    \<or> find_at q d = Some e \<and> (\<forall>a \<in> set as. port_of a \<noteq> q)"
  using assms(2,3)
proof (induction as arbitrary: e rule: rev_induct)
  case Nil
  then show ?case by simp
next
  case (snoc a as)
  let ?d = "fold announce as d"
  have good: "good ?d" and valid: "valid a" and valids: "list_all valid as"
    using snoc.prems(1) announces_good [OF assms(1)] by simp_all
  show ?case
  proof (cases "port_of a = q")
    case True
    then have "represents a e"
      using announce_found [OF good valid] snoc.prems(2) by auto
    with True show ?thesis by (intro disjI1 exI [of _ as] exI [of _ a] exI [of _ "[]"]) simp
  next
    case False
    then have found: "find_at q ?d = Some e"
      using announce_other [OF good valid] snoc.prems(2) by auto
    from snoc.IH [OF valids found] show ?thesis
    proof
      assume "\<exists>xs b ys. as = xs @ b # ys \<and> port_of b = q \<and> represents b e \<and> (\<forall>c \<in> set ys. port_of c \<noteq> q)"
      then obtain xs b ys where "as = xs @ b # ys" "port_of b = q" "represents b e" "\<forall>c \<in> set ys. port_of c \<noteq> q"
        by blast
      with False show ?thesis
        by (intro disjI1 exI [of _ xs] exI [of _ b] exI [of _ "ys @ [a]"]) auto
    next
      assume "find_at q d = Some e \<and> (\<forall>c \<in> set as. port_of c \<noteq> q)"
      with False show ?thesis by auto
    qed
  qed
qed

end

text \<open>The announcements as the listener passes them on.\<close>

record presence =
  pr_now :: int
  pr_name :: string
  pr_team :: string
  pr_status :: receive_status
  pr_port :: int
  pr_instance :: string

definition announce_presence :: "presence \<Rightarrow> peer_entry list \<Rightarrow> peer_entry list" where
  "announce_presence a = touch_peer (pr_now a) (pr_name a) (pr_team a) (pr_status a) (pr_port a) (pr_instance a)"

definition valid_presence :: "presence \<Rightarrow> bool" where
  "valid_presence a \<longleftrightarrow> pr_name a \<noteq> [] \<and> 0 \<le> pr_port a"

definition presence_entry :: "presence \<Rightarrow> peer_entry \<Rightarrow> bool" where
  "presence_entry a = touched (pr_now a) (pr_name a) (pr_status a) (pr_port a) (pr_instance a)"

lemma find_by_port_iff: "roster_ok r \<Longrightarrow> find_by_port p r = Some e \<longleftrightarrow> e \<in> set r \<and> pe_port_index e = p"
proof
  assume "find_by_port p r = Some e"
  then show "e \<in> set r \<and> pe_port_index e = p" unfolding find_by_port_def by (rule find_SomeD)
next
  assume ok: "roster_ok r" and e: "e \<in> set r \<and> pe_port_index e = p"
  then have "find (\<lambda>x. pe_port_index x = p) r \<noteq> None" by (auto simp: find_None_iff)
  then obtain e' where f: "find (\<lambda>x. pe_port_index x = p) r = Some e'" by auto
  then have "e' \<in> set r" "pe_port_index e' = p" by (auto dest: find_SomeD)
  with ok e have "e' = e" unfolding roster_ok_def by (metis distinct_map inj_onD)
  with f show "find_by_port p r = Some e" by (simp add: find_by_port_def)
qed

lemma touch_ok:
  assumes "roster_ok r" and "name \<noteq> []" and "0 \<le> p"
  shows "roster_ok (touch_peer now name team status p inst r)"
proof -
  from touch_shape [OF assms, of now team status inst] obtain a e b where
    t: "touch_peer now name team status p inst r = a @ e # b" "touched now name status p inst e"
      "roster_ok (a @ b)" "\<forall>x \<in> set (a @ b). pe_port_index x \<noteq> p \<and> pe_id x \<noteq> pe_id e"
    by blast
  then show ?thesis by (auto simp: roster_ok_insert touched_def)
qed

interpretation roster: peer_directory find_by_port announce_presence pr_port valid_presence roster_ok presence_entry
proof unfold_locales
  fix d a
  assume d: "roster_ok d" and a: "valid_presence a"
  then have v: "pr_name a \<noteq> []" "0 \<le> pr_port a" by (simp_all add: valid_presence_def)
  show good: "roster_ok (announce_presence a d)"
    using touch_ok [OF d v] by (simp add: announce_presence_def)
  from touch_shape [OF d v, of "pr_now a" "pr_team a" "pr_status a" "pr_instance a"] obtain u e w where
    t: "announce_presence a d = u @ e # w" "presence_entry a e" "set (u @ w) \<subseteq> set d"
    unfolding announce_presence_def presence_entry_def by blast
  then have "find_by_port (pr_port a) (announce_presence a d) = Some e"
    unfolding find_by_port_iff [OF good] by (simp add: presence_entry_def touched_def)
  then show "\<exists>e. find_by_port (pr_port a) (announce_presence a d) = Some e \<and> presence_entry a e"
    using t(2) by blast
  fix q f
  assume "q \<noteq> pr_port a" and "find_by_port q (announce_presence a d) = Some f"
  then have "f \<in> set (u @ w)" "pe_port_index f = q"
    using t(1,2) unfolding find_by_port_iff [OF good] by (auto simp: presence_entry_def touched_def)
  with t(3) show "find_by_port q d = Some f"
    unfolding find_by_port_iff [OF d] by blast
qed

text \<open>Operations other than a touch keep identifiers and ports.\<close>

lemma update_first_fields:
  assumes "update_first P f r = Some r'" and "\<And>x. g (f x) = g x"
  shows "map g r' = map g r"
  using update_first_Some [OF assms(1)] assms(2) by auto

definition same_ids :: "peer_entry \<Rightarrow> string \<times> int \<times> string \<times> string" where
  "same_ids e = (pe_id e, pe_port_index e, pe_display_name e, pe_instance_id e)"

lemma roster_ok_same_ids:
  assumes "map same_ids r' = map same_ids r"
  shows "roster_ok r' = roster_ok r"
proof -
  have "map pe_id x = map fst (map same_ids x)" for x by (simp add: same_ids_def comp_def)
  moreover have "map pe_port_index x = map (fst \<circ> snd) (map same_ids x)" for x by (simp add: same_ids_def comp_def)
  moreover have "list_all canonical_entry x = list_all (\<lambda>(i, p, n, inst). n \<noteq> [] \<and> i = make_peer_id p n inst) (map same_ids x)" for x
    by (simp add: list_all_iff same_ids_def canonical_entry_def)
  ultimately show ?thesis using assms by (simp only: roster_ok_def)
qed

lemma online_ops_same_ids:
  "map same_ids (touch_peer_presence now n t r) = map same_ids r"
  "map same_ids (mark_stale_peers_offline now m r) = map same_ids r"
  "map same_ids (set_all_peers_offline r) = map same_ids r"
  "map same_ids (set_all_peers_online now r) = map same_ids r"
  "map same_ids (set_peer_online now p b r) = map same_ids r"
proof -
  show "map same_ids (touch_peer_presence now n t r) = map same_ids r"
    unfolding touch_peer_presence_def
    by (cases "t = []") (auto simp: same_ids_def split: option.splits elim!: update_first_fields)
  show "map same_ids (set_peer_online now p b r) = map same_ids r"
    by (auto simp: set_peer_online_def same_ids_def split: option.splits elim!: update_first_fields)
qed (simp_all add: mark_stale_peers_offline_def set_all_peers_offline_def set_all_peers_online_def same_ids_def)

section \<open>Properties\<close>

text \<open>The operations the orchestrator runs on its roster.\<close>

datatype roster_op = Touch presence | Presence int string string | Stale int int | All_Offline
  | All_Online int | Set_Online int int bool

fun run_roster_op :: "roster_op \<Rightarrow> peer_entry list \<Rightarrow> peer_entry list" where
  "run_roster_op (Touch a) r = announce_presence a r"
| "run_roster_op (Presence now n t) r = touch_peer_presence now n t r"
| "run_roster_op (Stale now m) r = mark_stale_peers_offline now m r"
| "run_roster_op All_Offline r = set_all_peers_offline r"
| "run_roster_op (All_Online now) r = set_all_peers_online now r"
| "run_roster_op (Set_Online now p b) r = set_peer_online now p b r"


definition sample_presence :: presence where
  "sample_presence = \<lparr>pr_now = 5, pr_name = ''Bob'', pr_team = ''Red'', pr_status = Status_Open,
     pr_port = 1, pr_instance = ''x''\<rparr>"


text \<open>
  C14: the roster has no ghosts: an entry found at a port after a sequence of announcements
  shows the last announcement for that port (its name, status, instance and time, online), or
  it was there before and none of them was for that port.
\<close>

theorem roster_no_ghosts:
  assumes "roster_ok r" and "list_all valid_presence as"
    and "find_by_port q (fold announce_presence as r) = Some e"
  shows "(\<exists>xs a ys. as = xs @ a # ys \<and> pr_port a = q \<and> presence_entry a e \<and> (\<forall>b \<in> set ys. pr_port b \<noteq> q))
    \<or> find_by_port q r = Some e \<and> (\<forall>a \<in> set as. pr_port a \<noteq> q)"
  by (rule roster.found_after_announces [OF assms])

lemma roster_no_ghosts_witness:
  "\<exists>e. find_by_port 1 (announce_presence sample_presence []) = Some e \<and> presence_entry sample_presence e"
proof -
  have "find_by_port 1 (fold announce_presence [sample_presence] []) =
      Some (new_entry 5 ''Bob'' ''Red'' Status_Open 1 ''i:x'' ''x'')"
    by code_simp
  from roster_no_ghosts [OF _ _ this] this show ?thesis
    by (auto simp: roster_ok_def sample_presence_def valid_presence_def Cons_eq_append_conv find_by_port_def)
qed

text \<open>
  With no port, the pushed entry claims port 0 but keeps the identifier of port -1, and can
  stand beside an entry that is really at port 0.
\<close>

lemma touch_without_port:
  "\<not> roster_ok (touch_peer 9 ''Eve'' [] Status_Open (- 1) [] (peer_entries_from_config [default_peer_config\<lparr>pc_display_name := ''Ann''\<rparr>]))"
  by code_simp

end
