(* ===== verification/Link_Status.thy ===== *)
theory Link_Status
  imports Identity_Types Roster File_System Fabric_Port
begin

text \<open>
  What the application shows and logs: \<open>lib/session/link_status.cpp\<close>,
  \<open>session_rate_stats.cpp\<close>, \<open>booth_display.cpp\<close>, \<open>fabric_link_policy.h\<close> and
  \<open>booth_log.cpp\<close>. Times are milliseconds; the mutex of the log makes each call one step.
\<close>

section \<open>Status lines (\<open>link_status.cpp\<close>)\<close>

datatype status_colour = Accent | Colour_Ok | Warn | Colour_Error | Muted

record status_line =
  sl_text :: string
  sl_colour :: status_colour

record connect_banner_line =
  cb_text :: string
  cb_visible :: bool

definition kAnnounceIntervalMs :: int where "kAnnounceIntervalMs = 15000"
definition kPeerStaleMs :: int where "kPeerStaleMs = 45000"
definition kTransferDoneDismissMs :: int where "kTransferDoneDismissMs = 2000"

definition receive_status_label :: "receive_status \<Rightarrow> string" where
  "receive_status_label status = (case status of
       Status_Open \<Rightarrow> ''Saves files automatically''
     | Status_Busy \<Rightarrow> ''Not accepting files''
     | Status_AskFirst \<Rightarrow> ''Asks before saving'')"

definition status_line_native :: "bool \<Rightarrow> int \<Rightarrow> int \<Rightarrow> bool \<Rightarrow> bool \<Rightarrow> string \<Rightarrow> bool \<Rightarrow> bool \<Rightarrow> status_line" where
  "status_line_native fabric_connected fabric_devices_seen port_index busy waiting_for_partner
     status_message identity_configured peers_configured =
     (if (busy \<or> waiting_for_partner) \<and> status_message \<noteq> []
        then \<lparr>sl_text = status_message, sl_colour = Accent\<rparr>
      else if fabric_connected \<and> identity_configured \<and> \<not> peers_configured
        then \<lparr>sl_text = ''USB connected '' @ em_dash @ '' waiting for peers'', sl_colour = Warn\<rparr>
      else if fabric_connected then \<lparr>sl_text = ''USB connected'', sl_colour = Colour_Ok\<rparr>
      else if fabric_devices_seen = 0 then \<lparr>sl_text = ''Plug in your USB cable'', sl_colour = Warn\<rparr>
      else \<lparr>sl_text = ''Waiting for device'' @ ellipsis, sl_colour = Warn\<rparr>)"

definition connect_banner_native :: "bool \<Rightarrow> int \<Rightarrow> connect_banner_line" where
  "connect_banner_native fabric_connected port_index = (if fabric_connected
     then \<lparr>cb_text = [], cb_visible = False\<rparr>
     else \<lparr>cb_text = ''Plug in your USB cable, then choose it when prompted'', cb_visible = True\<rparr>)"

definition peer_expires_label :: "int \<Rightarrow> int \<Rightarrow> string" where
  "peer_expires_label last_seen now =
     (if last_seen = 0 then []
      else let remaining_ms = kPeerStaleMs - (now - last_seen)
        in if remaining_ms \<le> 0 then ''expiring'' @ ellipsis
           else ''expires in '' @ show_int ((remaining_ms + 999) div 1000) @ ''s'')"

definition next_announce_in_ms :: "int \<Rightarrow> int \<Rightarrow> int \<Rightarrow> int" where
  "next_announce_in_ms last_announce_ms now_ms interval_ms =
     (if last_announce_ms \<le> 0 then 0 else max 0 (interval_ms - (now_ms - last_announce_ms)))"

text \<open>\<open>std::fixed << std::setprecision(p)\<close> of a non-negative value: half to even.\<close>

definition round_half_even :: "double \<Rightarrow> int" where
  "round_half_even x = (let f = \<lfloor>x\<rfloor>; d = x - of_int f
     in if d < 1 / 2 then f else if 1 / 2 < d then f + 1 else if even f then f else f + 1)"

definition show_fixed :: "nat \<Rightarrow> double \<Rightarrow> string" where
  "show_fixed p x = (let n = nat (round_half_even (x * 10 ^ p)); frac = show_nat (n mod 10 ^ p)
     in show_nat (n div 10 ^ p)
        @ (if p = 0 then [] else ''.'' @ replicate (p - length frac) (CHR ''0'') @ frac))"

definition format_mbps_rate :: "double \<Rightarrow> string" where
  "format_mbps_rate mbps =
     (if 1024 \<le> mbps then show_fixed 2 (mbps / 1024) @ '' GiB/s''
      else if 100 \<le> mbps then show_fixed 0 mbps @ '' MiB/s''
      else if 1 \<le> mbps then show_fixed 1 mbps @ '' MiB/s''
      else if 0 < mbps then show_fixed 0 (mbps * 1024) @ '' KiB/s''
      else [])"

definition transfer_done_message :: "bool \<Rightarrow> double \<Rightarrow> string" where
  "transfer_done_message sent mbps =
     (if mbps \<le> 0 then (if sent then ''Sent'' else ''Received'')
      else (if sent then ''Sent at '' else ''Received at '') @ format_mbps_rate mbps)"

definition transfer_live_message :: "bool \<Rightarrow> double \<Rightarrow> string" where
  "transfer_live_message sent mbps =
     (if mbps \<le> 0 then (if sent then ''Sending'' else ''Receiving'') @ ellipsis
      else (if sent then ''Sending at '' else ''Receiving at '') @ format_mbps_rate mbps)"

section \<open>Presence policy (\<open>fabric_link_policy.h\<close>)\<close>

definition presence_when_probe_busy :: "bool \<Rightarrow> bool" where
  "presence_when_probe_busy last_known_present = last_known_present"

definition fabric_connected_from_enumeration :: "bool \<Rightarrow> bool" where
  "fabric_connected_from_enumeration port_ok = port_ok"

section \<open>Rate statistics (\<open>session_rate_stats.cpp\<close>)\<close>

record rate_stats =
  rs_count :: int
  rs_median :: double
  rs_max :: double
  rs_average :: double

definition compute_rate_stats :: "double list \<Rightarrow> rate_stats" where
  "compute_rate_stats rates =
     (let values = sort (filter (\<lambda>r. 0 < r) rates)
      in if values = [] then \<lparr>rs_count = 0, rs_median = 0, rs_max = 0, rs_average = 0\<rparr>
         else let count = length values; mid = count div 2
           in \<lparr>rs_count = int count,
               rs_median = (if count mod 2 = 0 then (values ! (mid - 1) + values ! mid) / 2 else values ! mid),
               rs_max = last values,
               rs_average = sum_list values / of_nat count\<rparr>)"

record session_rate_tracker =
  rt_rates :: "double list"
  rt_prev_result_mbps :: double

definition empty_rate_tracker :: session_rate_tracker where
  "empty_rate_tracker = \<lparr>rt_rates = [], rt_prev_result_mbps = 0\<rparr>"

definition observe_result_mbps :: "double \<Rightarrow> session_rate_tracker \<Rightarrow> session_rate_tracker" where
  "observe_result_mbps result_mbps t =
     (if 0 < result_mbps \<and> rt_prev_result_mbps t \<le> 0
      then t\<lparr>rt_rates := rt_rates t @ [result_mbps]\<rparr> else t)\<lparr>rt_prev_result_mbps := result_mbps\<rparr>"

definition tracker_stats :: "session_rate_tracker \<Rightarrow> rate_stats" where
  "tracker_stats t = compute_rate_stats (rt_rates t)"

section \<open>Booth display (\<open>booth_display.cpp\<close>)\<close>

definition booth_display_mib_s_with_jitter :: "double \<Rightarrow> double \<Rightarrow> double \<Rightarrow> double" where
  "booth_display_mib_s_with_jitter base_mib_s jitter_pct roll01 =
     (if base_mib_s \<le> 0 then 0
      else if jitter_pct \<le> 0 then base_mib_s
      else let roll01 = (if roll01 < 0 then 0 else if 1 < roll01 then 1 else roll01);
               span = jitter_pct / 100;
               factor = 1 + (roll01 * 2 - 1) * span
        in base_mib_s * factor)"

text \<open>The draw of the generator is an argument.\<close>

definition roll_booth_display_mib_s :: "double \<Rightarrow> double \<Rightarrow> double \<Rightarrow> double" where
  "roll_booth_display_mib_s draw base_mib_s jitter_pct =
     (if base_mib_s \<le> 0 then 0
      else if jitter_pct \<le> 0 then base_mib_s
      else booth_display_mib_s_with_jitter base_mib_s jitter_pct draw)"

section \<open>The booth log (\<open>booth_log.cpp\<close>)\<close>

text \<open>Appending opens the file, creating it when it does not exist; the write is unchecked.\<close>

definition open_append :: "string \<Rightarrow> file_system \<Rightarrow> file_system option" where
  "open_append p fs = (if can_create fs p
     then Some (if fs_lookup fs p = None then fs_put p (File []) fs else fs) else None)"

definition log_write_line :: "string \<Rightarrow> string \<Rightarrow> file_system \<Rightarrow> file_system" where
  "log_write_line log_path line fs = (case open_append log_path fs of
       None \<Rightarrow> fs
     | Some fs' \<Rightarrow> snd (append_file log_path (line @ [newline]) fs'))"

definition booth_log_clear :: "string \<Rightarrow> string \<Rightarrow> file_system \<Rightarrow> file_system" where
  "booth_log_clear log_path stamp fs = (case open_trunc log_path fs of
       None \<Rightarrow> fs
     | Some fs' \<Rightarrow> snd (append_file log_path (stamp @ '' [boot] log cleared'' @ [newline]) fs'))"

text \<open>The deque of the reading loop: push a line, pop the oldest one when it is too long.\<close>

definition push_line :: "nat \<Rightarrow> string \<Rightarrow> string list \<Rightarrow> string list" where
  "push_line max_lines line lines = (let lines' = lines @ [line]
     in if max_lines < length lines' then tl lines' else lines')"

definition read_booth_log_tail :: "string \<Rightarrow> nat \<Rightarrow> file_system \<Rightarrow> string" where
  "read_booth_log_tail log_path max_lines fs = (case read_file log_path fs of
       None \<Rightarrow> ''(log file not found: '' @ log_path @ '')'' @ [newline]
     | Some text \<Rightarrow> let lines = fold (push_line max_lines) (getlines text) []
         in concat (map (\<lambda>l. l @ [newline]) lines)
            @ (if lines = [] then ''(log is empty)'' @ [newline] else []))"

text \<open>
  One log entry. \<open>env_path\<close> is the \<open>SLSFABRIC_LOG\<close> variable, which replaces the path for
  this and the later calls; the result is the path in use and the store.
\<close>

definition log_entry :: "string \<Rightarrow> int \<Rightarrow> string \<Rightarrow> string \<Rightarrow> string" where
  "log_entry stamp port event detail =
     stamp @ '' [port='' @ show_int (display_port_from_leg port) @ ''] '' @ event
     @ (if detail \<noteq> [] then '' | '' @ detail else [])"

definition booth_log :: "string option \<Rightarrow> string \<Rightarrow> int \<Rightarrow> string \<Rightarrow> string \<Rightarrow> string \<Rightarrow> file_system
    \<Rightarrow> string \<times> file_system" where
  "booth_log env_path stamp port event detail log_path fs =
     (let path = (case env_path of Some p \<Rightarrow> p | None \<Rightarrow> log_path)
      in (path, log_write_line path (log_entry stamp port event detail) fs))"

section \<open>Facts about the status texts\<close>

lemma next_announce_bounds:
  "0 \<le> interval \<Longrightarrow> t \<le> now \<Longrightarrow> next_announce_in_ms t now interval \<in> {0..interval}"
  by (auto simp: next_announce_in_ms_def)

lemma next_announce_due_iff:
  "0 < t \<Longrightarrow> next_announce_in_ms t now interval = 0 \<longleftrightarrow> t + interval \<le> now"
  by (auto simp: next_announce_in_ms_def max_def)

lemma mark_stale_entry:
  "mark_stale_peers_offline now m [p] = [p\<lparr>pe_online := pe_online p \<and> pe_last_seen p \<noteq> 0 \<and> now - pe_last_seen p \<le> m\<rparr>]"
  by (auto simp: mark_stale_peers_offline_def)

text \<open>
  The countdown agrees with the sweep. A seen peer that the stale sweep of the same age
  limit takes offline already shows the expiring label, and one with seconds left on its label
  stays online.
\<close>

lemma stale_label_agrees:
  assumes "pe_last_seen p \<noteq> 0" and "pe_online p"
  shows "\<not> pe_online (hd (mark_stale_peers_offline now kPeerStaleMs [p])) \<Longrightarrow>
      peer_expires_label (pe_last_seen p) now = ''expiring'' @ ellipsis"
  using assms by (simp add: mark_stale_entry peer_expires_label_def Let_def)

lemma stale_label_agrees_witness:
  "peer_expires_label 1 50000 = ''expiring'' @ ellipsis"
  using stale_label_agrees [of "new_entry 1 ''B'' [] Status_Open 0 ''i'' []" 50000]
  by (simp add: mark_stale_entry new_entry_def kPeerStaleMs_def)

section \<open>Facts about the statistics\<close>

lemma sort_last_max: "x \<in> set xs \<Longrightarrow> (x::double) \<le> last (sort xs)"
proof -
  assume "x \<in> set xs"
  then have "x \<in> set (sort xs)" by simp
  then obtain i where i: "i < length (sort xs)" "sort xs ! i = x" by (metis in_set_conv_nth)
  then have "sort xs ! i \<le> sort xs ! (length (sort xs) - 1)"
    by (intro sorted_nth_mono) simp_all
  moreover have "last (sort xs) = sort xs ! (length (sort xs) - 1)"
    using i(1) by (intro last_conv_nth) (metis length_0_conv not_less_zero)
  ultimately show ?thesis using i(2) by simp
qed

lemma sort_hd_min: "x \<in> set xs \<Longrightarrow> hd (sort xs) \<le> (x::double)"
proof -
  assume "x \<in> set xs"
  then have x: "x \<in> set (sort xs)" by simp
  show ?thesis
  proof (cases "sort xs")
    case (Cons y ys)
    have "sorted (y # ys)" unfolding Cons [symmetric] by (rule sorted_sort)
    with x Cons show ?thesis by auto
  qed (use x in simp)
qed

lemma sum_list_bounds:
  "\<forall>x \<in> set xs. a \<le> x \<and> x \<le> b \<Longrightarrow> of_nat (length xs) * a \<le> sum_list xs \<and> sum_list xs \<le> of_nat (length xs) * (b::double)"
  by (induction xs) (auto simp: algebra_simps intro: add_mono)

text \<open>
  The statistics count the positive rates, the maximum is one of them and no rate
  exceeds it, and the median and the average lie between the smallest positive rate and the
  maximum.
\<close>

theorem rate_stats_sound:
  assumes "filter (\<lambda>r. 0 < r) rates \<noteq> []"
  shows "rs_count (compute_rate_stats rates) = int (length (filter (\<lambda>r. 0 < r) rates))
    \<and> rs_max (compute_rate_stats rates) \<in> set rates
    \<and> (\<forall>r \<in> set rates. r \<le> rs_max (compute_rate_stats rates))
    \<and> (\<exists>m \<in> set rates. 0 < m \<and> (\<forall>r \<in> set rates. 0 < r \<longrightarrow> m \<le> r)
        \<and> m \<le> rs_median (compute_rate_stats rates) \<and> rs_median (compute_rate_stats rates) \<le> rs_max (compute_rate_stats rates)
        \<and> m \<le> rs_average (compute_rate_stats rates) \<and> rs_average (compute_rate_stats rates) \<le> rs_max (compute_rate_stats rates))"
proof -
  define f where "f = filter (\<lambda>r. 0 < r) rates"
  define v where "v = sort f"
  have set: "set v = {r \<in> set rates. 0 < r}" and len: "length v = length f"
    by (auto simp: v_def f_def)
  with assms have ne: "v \<noteq> []" by (metis f_def length_0_conv)
  let ?m = "hd v" and ?M = "last v"
  have mM: "?m \<in> set v" "?M \<in> set v" using ne by auto
  have bounds: "?m \<le> x \<and> x \<le> ?M" if "x \<in> set v" for x
    using that sort_hd_min [of x f] sort_last_max [of x f] by (simp add: v_def)
  have pos: "0 < ?M" using mM set by auto
  have stats: "compute_rate_stats rates = \<lparr>rs_count = int (length v),
      rs_median = (if length v mod 2 = 0 then (v ! (length v div 2 - 1) + v ! (length v div 2)) / 2 else v ! (length v div 2)),
      rs_max = ?M, rs_average = sum_list v / of_nat (length v)\<rparr>"
    using ne by (simp add: compute_rate_stats_def v_def f_def Let_def)
  have "length v div 2 < length v" "length v div 2 - 1 < length v" using ne by (cases v; simp)+
  then have nth: "v ! (length v div 2) \<in> set v" "v ! (length v div 2 - 1) \<in> set v" by simp_all
  have med: "?m \<le> rs_median (compute_rate_stats rates) \<and> rs_median (compute_rate_stats rates) \<le> ?M"
    using bounds [OF nth(1)] bounds [OF nth(2)] by (simp add: stats)
  have "0 < (of_nat (length v) :: double)" using ne by simp
  then have avg: "?m \<le> rs_average (compute_rate_stats rates) \<and> rs_average (compute_rate_stats rates) \<le> ?M"
    using sum_list_bounds [of v ?m ?M] bounds by (simp add: stats field_simps)
  have "r \<le> ?M" if "r \<in> set rates" for r
    using that bounds [of r] set pos by (cases "0 < r") auto
  moreover have "?M \<in> set rates" "?m \<in> set rates" "0 < ?m" using mM set by auto
  moreover have "?m \<le> r" if "r \<in> set rates" "0 < r" for r using that bounds [of r] set by simp
  ultimately show ?thesis
    using med avg len by (auto simp: stats f_def intro!: bexI [of _ ?m])
qed

lemma rate_stats_sound_witness: "rs_count (compute_rate_stats [2, 0, 1]) = 2"
  using rate_stats_sound [of "[2, 0, 1]"] by simp

text \<open>The tracker keeps one rate for every rise of the observed rate from zero.\<close>

fun rises :: "double \<Rightarrow> double list \<Rightarrow> double list" where
  "rises prev [] = []"
| "rises prev (x # xs) = (if 0 < x \<and> prev \<le> 0 then [x] else []) @ rises x xs"

lemma tracker_rises:
  "rt_rates (fold observe_result_mbps xs t) = rt_rates t @ rises (rt_prev_result_mbps t) xs"
  by (induction xs arbitrary: t) (simp_all add: observe_result_mbps_def)

lemma tracker_positive: "\<forall>r \<in> set (rises prev xs). 0 < r"
  by (induction xs arbitrary: prev) auto

section \<open>Facts about the log\<close>

lemma push_line_length: "length lines \<le> m \<Longrightarrow> length (push_line m l lines) \<le> m"
  by (simp add: push_line_def Let_def)

lemma push_lines:
  "length ls \<le> m \<Longrightarrow> fold (push_line m) xs ls = drop (length ls + length xs - m) (ls @ xs)"
proof (induction xs arbitrary: ls)
  case Nil
  then show ?case by simp
next
  case (Cons x xs)
  show ?case
  proof (cases "length ls = m")
    case True
    then have p: "push_line m x ls = tl (ls @ [x])" by (simp add: push_line_def Let_def)
    have len: "length (push_line m x ls) = m" using True unfolding p by simp
    have "fold (push_line m) (x # xs) ls = drop (length xs) (tl (ls @ [x]) @ xs)"
      using Cons.IH [of "push_line m x ls"] len by (simp add: p)
    also have "tl (ls @ [x]) @ xs = tl (ls @ x # xs)" by (cases ls) simp_all
    also have "drop (length xs) \<dots> = drop (Suc (length xs)) (ls @ x # xs)" by (simp only: drop_Suc)
    finally show ?thesis unfolding True by simp
  next
    case False
    then have "push_line m x ls = ls @ [x]" using Cons.prems by (simp add: push_line_def Let_def)
    then show ?thesis using Cons.IH [of "ls @ [x]"] Cons.prems False by simp
  qed
qed

text \<open>
  The log view shows the last lines of the log. After appending entries that hold no
  newline to a log whose lines are known, the view is the last \<open>m\<close> lines, in order.
\<close>

theorem booth_log_tail:
  assumes "0 < m" and "es \<noteq> []" and "\<forall>e \<in> set (old @ es). newline \<notin> set e"
    and "can_create fs path" and "fs_room fs path = None"
    and "fs_lookup fs path = Some (File (concat (map (\<lambda>l. l @ [newline]) old)))"
  shows "read_booth_log_tail path m (fold (log_write_line path) es fs)
    = concat (map (\<lambda>l. l @ [newline]) (drop (length (old @ es) - m) (old @ es)))"
proof -
  have writes: "fs_lookup (fold (log_write_line path) ls g) path
      = Some (File (t @ concat (map (\<lambda>l. l @ [newline]) ls)))
      \<and> fs_denied (fold (log_write_line path) ls g) = fs_denied g"
    if "can_create g path" "fs_room g path = None" "fs_lookup g path = Some (File t)" for ls g t
    using that
  proof (induction ls arbitrary: g t)
    case Nil
    then show ?case by simp
  next
    case (Cons l ls)
    let ?g = "log_write_line path l g"
    have g: "?g = fs_put path (File (t @ l @ [newline])) g"
      using Cons.prems by (simp add: log_write_line_def open_append_def append_file_def)
    have "can_create ?g path"
      using Cons.prems(1) unfolding g can_create_def is_directory_def by (auto simp: path_parent_def split: if_splits)
    then show ?case using Cons.prems(2) Cons.IH [of ?g "t @ l @ [newline]"] by (simp add: g)
  qed
  let ?t = "concat (map (\<lambda>l. l @ [newline]) (old @ es))"
  have "read_file path (fold (log_write_line path) es fs) = Some ?t"
    using writes [OF assms(4-6), of es] assms(4) by (simp add: read_file_def can_create_def)
  moreover have "getlines ?t = old @ es" by (rule getlines_concat [OF assms(3)])
  moreover have "drop (length (old @ es) - m) (old @ es) \<noteq> []" using assms(1,2) by (cases es) auto
  moreover have "fold (push_line m) (old @ es) [] = drop (length (old @ es) - m) (old @ es)"
    using push_lines [of "[]" m "old @ es"] by simp
  ultimately show ?thesis
    unfolding read_booth_log_tail_def by (simp only: option.case Let_def if_False append_Nil2)
qed

definition sample_log :: file_system where
  "sample_log = \<lparr>fs_entries = [(''l'', File (''a'' @ [newline]))], fs_denied = (\<lambda>_. False), fs_room = (\<lambda>_. None)\<rparr>"

lemma booth_log_tail_witness:
  "read_booth_log_tail ''l'' 2 (fold (log_write_line ''l'') [''b'', ''c''] sample_log) = ''b'' @ [newline] @ ''c'' @ [newline]"
  using booth_log_tail [of 2 "[''b'', ''c'']" "[''a'']" sample_log "''l''"]
  by (simp add: sample_log_def can_create_def path_parent_def fs_lookup_def)

end
