(* ===== verification/Line_Format.thy ===== *)
theory Line_Format
  imports Prelude
begin

text \<open>
  The text format shared by session messages and transfer metadata: one \<open>key=value\<close>
  per line, read by a \<open>std::getline\<close> loop that drops a trailing carriage return and
  skips empty lines. The locale states what such a line parser promises; reading back a
  written text is proved once from it.
\<close>

definition render_lines :: "(string \<times> string) list \<Rightarrow> string" where
  "render_lines kvs = concat (map (\<lambda>(k, v). k @ ''='' @ v @ [newline]) kvs)"

text \<open>The reading loop; an exception thrown by the line parser leaves the loop.\<close>

fun line_loop :: "(string \<Rightarrow> 'r \<Rightarrow> 'e + 'r) \<Rightarrow> string list \<Rightarrow> 'r \<Rightarrow> 'e + 'r" where
  "line_loop parse [] out = Inr out"
| "line_loop parse (l # ls) out = (let line = drop_cr l
     in if line = [] then line_loop parse ls out
        else case parse line out of Inl e \<Rightarrow> Inl e | Inr out' \<Rightarrow> line_loop parse ls out')"

lemma line_loop_append:
  "line_loop parse (xs @ ys) r = (case line_loop parse xs r of Inl e \<Rightarrow> Inl e | Inr r' \<Rightarrow> line_loop parse ys r')"
  by (induction xs arbitrary: r) (auto simp: Let_def split: sum.splits)

text \<open>
  Values that survive a line: no newline, and no carriage return at the end. The locale
  adds the component's own condition \<open>ok\<close>, which the trimming of the values imposes.
\<close>

definition line_safe :: "string \<Rightarrow> bool" where
  "line_safe v \<longleftrightarrow> newline \<notin> set v \<and> (v = [] \<or> last v \<noteq> carriage_return)"

locale keyed_lines =
  fixes parse :: "string \<Rightarrow> 'r \<Rightarrow> 'e + 'r"
    and assign :: "string \<Rightarrow> string \<Rightarrow> 'r \<Rightarrow> 'r"
    and ok :: "string \<Rightarrow> string \<Rightarrow> bool"
  assumes parse_assign: "ok k v \<Longrightarrow> parse (k @ ''='' @ v) r = Inr (assign k v r)"
    and ok_safe: "ok k v \<Longrightarrow> newline \<notin> set k \<and> line_safe v"
begin

lemma parse_written_line:
  assumes "ok k v"
  shows "getlines ((k @ ''='' @ v @ [newline]) @ rest) = (k @ ''='' @ v) # getlines rest"
    and "drop_cr (k @ ''='' @ v) = k @ ''='' @ v"
proof -
  from ok_safe [OF assms] have "newline \<notin> set (k @ ''='' @ v)" by (auto simp: line_safe_def)
  from getlines_line [OF this, of rest]
  show "getlines ((k @ ''='' @ v @ [newline]) @ rest) = (k @ ''='' @ v) # getlines rest" by simp
  show "drop_cr (k @ ''='' @ v) = k @ ''='' @ v"
    using ok_safe [OF assms] by (cases v rule: rev_cases) (auto simp: line_safe_def drop_cr_def)
qed

theorem read_rendered:
  "\<forall>(k, v) \<in> set kvs. ok k v \<Longrightarrow>
     line_loop parse (getlines (render_lines kvs)) r = Inr (fold (\<lambda>(k, v). assign k v) kvs r)"
proof (induction kvs arbitrary: r)
  case Nil
  show ?case by (simp add: render_lines_def)
next
  case (Cons kv kvs)
  obtain k v where kv: "kv = (k, v)" by fastforce
  with Cons.prems have ok: "ok k v" by simp
  have "getlines (render_lines (kv # kvs)) = (k @ ''='' @ v) # getlines (render_lines kvs)"
    using parse_written_line(1) [OF ok] by (simp add: render_lines_def kv)
  moreover have "line_loop parse (getlines (render_lines kvs)) (assign k v r)
      = Inr (fold (\<lambda>(k, v). assign k v) kvs (assign k v r))"
    using Cons.prems by (intro Cons.IH) auto
  ultimately show ?case
    using parse_written_line(2) [OF ok] parse_assign [OF ok] by (simp add: kv Let_def)
qed

end

end
