(* ===== verification/Meta_File.thy ===== *)
theory Meta_File
  imports Line_Format File_System
begin

text \<open>
  Transfer metadata files: \<open>lib/session/fabric_meta_file.cpp\<close>. Names that a peer sends
  are cleaned before they are joined to the receive folder.
\<close>

record fabric_send_meta =
  fm_type :: string
  fm_relative_name :: string

definition default_send_meta :: fabric_send_meta where
  "default_send_meta = \<lparr>fm_type = ''file'', fm_relative_name = []\<rparr>"

definition kMetaHeaderV1 :: string where
  "kMetaHeaderV1 = ''FABRIC-META-v1'' @ [newline]"

definition kMetaHeaderV2 :: string where
  "kMetaHeaderV2 = ''FABRIC-META-v2'' @ [newline]"

definition sanitize_relative_name :: "string \<Rightarrow> string" where
  "sanitize_relative_name raw =
     (if raw = [] \<or> raw = ''.'' \<or> raw = ''..'' then []
      else let name = (if hd raw = CHR ''/'' then tl raw else raw)
        in if contains ''..'' name then [] else name)"

definition sanitize_type :: "string \<Rightarrow> string" where
  "sanitize_type raw = (if raw = ''file'' \<or> raw = ''tar'' then raw else ''file'')"

text \<open>The flag the function returns is not used by its only caller.\<close>

definition parse_v2_line :: "string \<Rightarrow> fabric_send_meta \<Rightarrow> bool \<times> fabric_send_meta" where
  "parse_v2_line line out = (case split_at CHR ''='' line of
       None \<Rightarrow> (False, out)
     | Some (key, value) \<Rightarrow>
         if key = ''type'' then (True, out\<lparr>fm_type := sanitize_type value\<rparr>)
         else if key = ''name'' then (True, out\<lparr>fm_relative_name := sanitize_relative_name value\<rparr>)
         else (False, out))"

definition fabric_meta_is_file :: "fabric_send_meta \<Rightarrow> bool" where
  "fabric_meta_is_file meta \<longleftrightarrow> fm_type meta = ''file'' \<or> fm_type meta = []"

definition fabric_meta_is_tar_archive :: "fabric_send_meta \<Rightarrow> bool" where
  "fabric_meta_is_tar_archive meta \<longleftrightarrow> fm_type meta = ''tar''"

definition meta_payload :: "fabric_send_meta \<Rightarrow> string" where
  "meta_payload meta = kMetaHeaderV2
     @ ''type='' @ sanitize_type (fm_type meta) @ [newline]
     @ ''name='' @ sanitize_relative_name (fm_relative_name meta) @ [newline]"

definition write_meta_temp_file :: "string \<Rightarrow> (nat \<Rightarrow> u32 \<times> u32) \<Rightarrow> fabric_send_meta
    \<Rightarrow> file_system \<Rightarrow> string \<times> file_system" where
  "write_meta_temp_file tmp rng meta fs =
     (if sanitize_relative_name (fm_relative_name meta) = [] then ([], fs)
      else write_temp_text_file tmp rng ''slsfabric-meta-'' (meta_payload meta) fs)"

text \<open>The loop over the lines of a version 2 payload; no exception can leave it.\<close>

definition parse_meta_line :: "string \<Rightarrow> fabric_send_meta \<Rightarrow> unit + fabric_send_meta" where
  "parse_meta_line line out = Inr (snd (parse_v2_line line out))"

definition read_meta_payload :: "string \<Rightarrow> fabric_send_meta \<Rightarrow> bool \<times> fabric_send_meta" where
  "read_meta_payload payload out =
     (if starts_with kMetaHeaderV2 payload
      then (case line_loop parse_meta_line (getlines (drop (length kMetaHeaderV2) payload)) default_send_meta of
          Inl _ \<Rightarrow> (False, out)
        | Inr meta \<Rightarrow> (fm_relative_name meta \<noteq> [], meta))
      else if starts_with kMetaHeaderV1 payload
      then let relative_name = sanitize_relative_name
             (takeWhile (\<lambda>c. c \<noteq> newline) (drop (length kMetaHeaderV1) payload))
        in if relative_name = [] then (False, out)
           else (True, out\<lparr>fm_type := ''file'', fm_relative_name := relative_name\<rparr>)
      else (False, out))"

definition read_meta_file :: "string \<Rightarrow> file_system \<Rightarrow> fabric_send_meta \<Rightarrow> bool \<times> fabric_send_meta" where
  "read_meta_file path fs out = (case read_file path fs of
       None \<Rightarrow> (False, out)
     | Some payload \<Rightarrow> read_meta_payload payload out)"

definition target_path_for_name :: "string \<Rightarrow> string \<Rightarrow> string" where
  "target_path_for_name target_dir relative_name =
     (let safe_name = sanitize_relative_name relative_name
      in if safe_name = [] \<or> target_dir = [] then []
         else (if last target_dir \<noteq> CHR ''/'' then target_dir @ ''/'' else target_dir) @ safe_name)"

definition ensure_parent_directories :: "string \<Rightarrow> file_system \<Rightarrow> (string + unit) \<times> file_system" where
  "ensure_parent_directories file_path fs =
     (let parent = path_parent file_path
      in if parent = [] then (Inr (), fs)
         else let (ok, fs') = create_directories parent fs
           in (if ok then Inr () else Inl (''Could not create directory: '' @ parent), fs'))"

section \<open>Cleaned names\<close>

lemma sanitize_no_dotdot: "\<not> contains ''..'' (sanitize_relative_name raw)"
  by (simp add: sanitize_relative_name_def Let_def starts_with_def)

lemma sanitize_idem:
  assumes "\<not> starts_with ''/'' (sanitize_relative_name raw)" and "sanitize_relative_name raw \<noteq> ''.''"
  shows "sanitize_relative_name (sanitize_relative_name raw) = sanitize_relative_name raw"
proof -
  let ?s = "sanitize_relative_name raw"
  have "contains ''..'' ''..''" by code_simp
  then have "?s \<noteq> ''..''" using sanitize_no_dotdot [of raw] by metis
  moreover have "?s \<noteq> [] \<Longrightarrow> hd ?s \<noteq> CHR ''/''" using assms(1) by (cases ?s) (auto simp: starts_with_def)
  ultimately show ?thesis
    using assms(2) sanitize_no_dotdot [of raw] by (subst sanitize_relative_name_def) (simp add: Let_def)
qed

lemma sanitize_type_cases: "sanitize_type t = ''file'' \<or> sanitize_type t = ''tar''"
  by (simp add: sanitize_type_def)

text \<open>A leading slash hides a single dot from the check.\<close>

lemma sanitize_slash_dot: "sanitize_relative_name ''/.'' = ''.''"
  by (simp add: sanitize_relative_name_def starts_with_def)

section \<open>The line format\<close>

definition assign_meta :: "string \<Rightarrow> string \<Rightarrow> fabric_send_meta \<Rightarrow> fabric_send_meta" where
  "assign_meta k v out = (if k = ''type'' then out\<lparr>fm_type := sanitize_type v\<rparr>
     else if k = ''name'' then out\<lparr>fm_relative_name := sanitize_relative_name v\<rparr> else out)"

definition meta_line_ok :: "string \<Rightarrow> string \<Rightarrow> bool" where
  "meta_line_ok k v \<longleftrightarrow> k \<in> {''type'', ''name''} \<and> line_safe v"

interpretation meta_lines: keyed_lines parse_meta_line assign_meta meta_line_ok
proof unfold_locales
  fix k v and r :: fabric_send_meta
  assume ok: "meta_line_ok k v"
  then have k: "k = ''type'' \<or> k = ''name''" by (auto simp: meta_line_ok_def)
  then have "CHR ''='' \<notin> set k" by auto
  then have "split_at CHR ''='' (k @ ''='' @ v) = Some (k, v)" using split_at_append by simp
  then show "parse_meta_line (k @ ''='' @ v) r = Inr (assign_meta k v r)"
    using k by (auto simp: parse_meta_line_def parse_v2_line_def assign_meta_def)
  show "newline \<notin> set k \<and> line_safe v" using ok by (auto simp: meta_line_ok_def)
qed

section \<open>Properties\<close>

text \<open>The path components of a name, as the file system reads them.\<close>

fun path_components :: "string \<Rightarrow> string \<Rightarrow> string list" where
  "path_components acc [] = [acc]"
| "path_components acc (c # s) = (if c = CHR ''/'' then acc # path_components [] s else path_components (acc @ [c]) s)"

lemma component_infix: "x \<in> set (path_components acc s) \<Longrightarrow> \<exists>a b. acc @ s = a @ x @ b"
proof (induction acc s rule: path_components.induct)
  case (1 acc)
  then show ?case by (auto intro: exI [of _ "[]"])
next
  case (2 acc c s)
  show ?case
  proof (cases "c = CHR ''/''")
    case True
    show ?thesis
    proof (cases "x = acc")
      case True
      then show ?thesis by (intro exI [of _ "[]"] exI [of _ "c # s"]) simp
    next
      case False
      with 2 True obtain a b where "s = a @ x @ b" by auto
      then show ?thesis by (intro exI [of _ "acc @ c # a"] exI [of _ b]) simp
    qed
  next
    case False
    with 2 show ?thesis by auto
  qed
qed



text \<open>
  A metadata file reads back as the meta that was written, for a type the program
  knows and a clean one-line name, whatever temporary path was drawn and whatever the reader's
  record held before.
\<close>

theorem meta_file_roundtrip:
  assumes "sanitize_relative_name (fm_relative_name meta) = fm_relative_name meta"
    and "sanitize_type (fm_type meta) = fm_type meta" and "line_safe (fm_relative_name meta)"
    and "write_meta_temp_file tmp rng meta fs = (path, fs')" and "path \<noteq> []"
  shows "read_meta_file path fs' out = (True, meta)"
proof -
  have ne: "fm_relative_name meta \<noteq> []"
    using assms(1,4,5) by (auto simp: write_meta_temp_file_def)
  have w: "write_temp_text_file tmp rng ''slsfabric-meta-'' (meta_payload meta) fs = (path, fs')"
    using assms(1,4) ne by (simp add: write_meta_temp_file_def)
  have r: "read_file path fs' = Some (meta_payload meta)"
    by (rule temp_files.write_temp_read [OF w assms(5)])
  let ?kvs = "[(''type'', fm_type meta), (''name'', fm_relative_name meta)]"
  have body: "drop (length kMetaHeaderV2) (meta_payload meta) = render_lines ?kvs"
    using assms(1,2) by (simp add: meta_payload_def render_lines_def)
  have start: "starts_with kMetaHeaderV2 (meta_payload meta)" by (simp add: meta_payload_def)
  have "line_safe (fm_type meta)" using sanitize_type_cases [of "fm_type meta"] assms(2) by (auto simp: line_safe_def)
  then have "\<forall>(k, v) \<in> set ?kvs. meta_line_ok k v" using assms(3) by (simp add: meta_line_ok_def)
  from meta_lines.read_rendered [OF this, of default_send_meta]
  have "line_loop parse_meta_line (getlines (render_lines ?kvs)) default_send_meta = Inr meta"
    using assms(1,2) by (cases meta) (simp add: assign_meta_def)
  then show ?thesis
    using start body ne by (simp add: read_meta_file_def r read_meta_payload_def)
qed

definition sample_meta :: fabric_send_meta where
  "sample_meta = \<lparr>fm_type = ''tar'', fm_relative_name = ''a/b''\<rparr>"

definition meta_store :: file_system where
  "meta_store = \<lparr>fs_entries = [(''/tmp'', Directory)], fs_denied = (\<lambda>_. False), fs_room = (\<lambda>_. None)\<rparr>"

lemma meta_file_roundtrip_witness:
  "let (path, fs') = write_meta_temp_file ''/tmp'' (\<lambda>_. (1, 2)) sample_meta meta_store
   in read_meta_file path fs' default_send_meta = (True, sample_meta)"
proof -
  have p: "fst (write_meta_temp_file ''/tmp'' (\<lambda>_. (1, 2)) sample_meta meta_store) \<noteq> []" by code_simp
  obtain path fs' where w: "write_meta_temp_file ''/tmp'' (\<lambda>_. (1, 2)) sample_meta meta_store = (path, fs')" by fastforce
  have "read_meta_file path fs' default_send_meta = (True, sample_meta)"
  proof (rule meta_file_roundtrip [OF _ _ _ w])
    show "sanitize_relative_name (fm_relative_name sample_meta) = fm_relative_name sample_meta" by code_simp
    show "sanitize_type (fm_type sample_meta) = fm_type sample_meta" by code_simp
    show "line_safe (fm_relative_name sample_meta)" by code_simp
    show "path \<noteq> []" using p w by simp
  qed
  then show ?thesis by (simp add: w)
qed

end
