(* ===== verification/Usb_Wire.thy ===== *)
theory Usb_Wire
  imports Prelude
begin

text \<open>
  The wire format and the small helpers of the USB transfer layer: \<open>core/include\<close> and the
  first part of \<open>core/src/usb_transfer_core.cpp\<close>. Byte counts are natural numbers: every
  counter of the transfer loops is bounded by the 64-bit size of the header, so it cannot
  wrap. The queue depth is computed in machine words, where it can.
\<close>

section \<open>Constants (\<open>usb_protocol.h\<close>)\<close>

definition kVendorId :: "16 word" where "kVendorId = 0x1772"
definition kProductId :: "16 word" where "kProductId = 0x0006"
definition kHeaderMagic :: string where "kHeaderMagic = ''ROCKETBX''"
definition kHeaderSize :: nat where "kHeaderSize = 32"
definition kChunkSize :: nat where "kChunkSize = 4 * 1024 * 1024"
definition kQueueDepth :: nat where "kQueueDepth = 32"
definition kPoolSize :: nat where "kPoolSize = kQueueDepth + 2"
definition kFrameFilenameMax :: nat where "kFrameFilenameMax = 15"
definition kFrameKindSession :: u8 where "kFrameKindSession = 1"
definition kFrameKindPayload :: u8 where "kFrameKindPayload = 2"
definition kFileTimeoutMs :: u32 where "kFileTimeoutMs = 8000"

lemma kChunkSize_pos [simp]: "0 < kChunkSize"
  by (simp add: kChunkSize_def)

text \<open>The completed status of libusb and the return codes the code compares with.\<close>

definition LIBUSB_SUCCESS :: int where "LIBUSB_SUCCESS = 0"
definition LIBUSB_ERROR_ACCESS :: int where "LIBUSB_ERROR_ACCESS = - 3"
definition LIBUSB_ERROR_BUSY :: int where "LIBUSB_ERROR_BUSY = - 6"
definition LIBUSB_ERROR_OTHER :: int where "LIBUSB_ERROR_OTHER = - 99"
definition LIBUSB_TRANSFER_COMPLETED :: int where "LIBUSB_TRANSFER_COMPLETED = 0"

section \<open>Settings\<close>

text \<open>The two atomics the setters write.\<close>

record usb_settings =
  us_payload_timeout_ms :: u32
  us_inflight_budget_mb :: u32

definition default_usb_settings :: usb_settings where
  "default_usb_settings = \<lparr>us_payload_timeout_ms = kFileTimeoutMs, us_inflight_budget_mb = 0\<rparr>"

definition set_payload_timeout_ms :: "u32 \<Rightarrow> usb_settings \<Rightarrow> usb_settings" where
  "set_payload_timeout_ms ms s = s\<lparr>us_payload_timeout_ms := (if ms \<noteq> 0 then ms else kFileTimeoutMs)\<rparr>"

definition set_inflight_budget_mb :: "u32 \<Rightarrow> usb_settings \<Rightarrow> usb_settings" where
  "set_inflight_budget_mb mb s = s\<lparr>us_inflight_budget_mb := mb\<rparr>"

text \<open>
  The kernel knob: its text, \<open>None\<close> when the file cannot be opened. Stream extraction of an
  \<open>unsigned\<close> fails on no digits and on values from $2^{32}$ on, and negates after a minus.
\<close>

definition read_usbfs_limit_mb :: "string option \<Rightarrow> u32" where
  "read_usbfs_limit_mb knob = (case knob of
       None \<Rightarrow> 16
     | Some text \<Rightarrow> (case strtol 10 text of
         None \<Rightarrow> 16
       | Some (neg, n) \<Rightarrow>
           let mb = (if neg then - of_nat n else of_nat n)
           in if n < 2 ^ 32 \<and> 0 < mb then mb else 16))"

definition effective_queue_depth :: "usb_settings \<Rightarrow> string option \<Rightarrow> u32" where
  "effective_queue_depth s knob =
     (let budget_mb = us_inflight_budget_mb s;
          budget_mb = (if budget_mb = 0 then (read_usbfs_limit_mb knob * 2) div 5 else budget_mb);
          budget_bytes = (ucast budget_mb :: u64) * 1024 * 1024;
          depth = budget_bytes div of_nat kChunkSize;
          depth = (if depth < 1 then 1 else depth);
          depth = (if of_nat kQueueDepth < depth then of_nat kQueueDepth else depth)
      in ucast depth)"

definition inflight_queue_depth :: "usb_settings \<Rightarrow> string option \<Rightarrow> u32" where
  "inflight_queue_depth = effective_queue_depth"

section \<open>Results\<close>

record transfer_result =
  tr_ok :: bool
  tr_bytes_transferred :: nat
  tr_expected_bytes :: nat
  tr_seconds :: double
  tr_mbps :: double
  tr_error_message :: string

definition empty_transfer_result :: transfer_result where
  "empty_transfer_result = \<lparr>tr_ok = False, tr_bytes_transferred = 0, tr_expected_bytes = 0,
     tr_seconds = 0, tr_mbps = 0, tr_error_message = []\<rparr>"

definition mib_per_second :: "nat \<Rightarrow> double \<Rightarrow> double" where
  "mib_per_second bytes seconds =
     (if bytes = 0 then 0 else (of_nat bytes / (1024 * 1024)) / max seconds (1 / 1000))"

definition make_result :: "bool \<Rightarrow> nat \<Rightarrow> nat \<Rightarrow> double \<Rightarrow> string \<Rightarrow> transfer_result" where
  "make_result ok transferred expected seconds error_message = \<lparr>tr_ok = ok,
     tr_bytes_transferred = transferred, tr_expected_bytes = expected, tr_seconds = seconds,
     tr_mbps = mib_per_second transferred seconds, tr_error_message = error_message\<rparr>"

lemma mib_per_second_nonneg: "0 \<le> mib_per_second b s"
  by (simp add: mib_per_second_def)

section \<open>The frame header\<close>

record file_header =
  fh_magic :: string
  fh_file_size :: u64
  fh_frame_kind :: u8
  fh_filename :: string

text \<open>Little-endian bytes, as the packed struct lies in memory.\<close>

fun le_bytes :: "nat \<Rightarrow> nat \<Rightarrow> string" where
  "le_bytes 0 n = []"
| "le_bytes (Suc k) n = char_of (n mod 256) # le_bytes k (n div 256)"

fun le_value :: "string \<Rightarrow> nat" where
  "le_value [] = 0"
| "le_value (c # cs) = of_char c + 256 * le_value cs"

definition header_bytes :: "file_header \<Rightarrow> string" where
  "header_bytes h = fh_magic h @ le_bytes 8 (unat (fh_file_size h))
     @ [char_of (unat (fh_frame_kind h))] @ fh_filename h"

text \<open>The struct the 32 received bytes are.\<close>

definition header_of_bytes :: "string \<Rightarrow> file_header" where
  "header_of_bytes bs = \<lparr>fh_magic = take 8 bs, fh_file_size = of_nat (le_value (take 8 (drop 8 bs))),
     fh_frame_kind = of_nat (of_char (bs ! 16)), fh_filename = take 15 (drop 17 bs)\<rparr>"

text \<open>\<open>strlen\<close> stops at the first null byte.\<close>

definition c_string :: "string \<Rightarrow> string" where
  "c_string s = takeWhile (\<lambda>c. c \<noteq> CHR 0x00) s"

definition fill_file_header :: "nat \<Rightarrow> u8 \<Rightarrow> string option \<Rightarrow> file_header" where
  "fill_file_header file_size frame_kind filename =
     (let name = (case filename of None \<Rightarrow> [] | Some f \<Rightarrow> take kFrameFilenameMax (c_string f))
      in \<lparr>fh_magic = kHeaderMagic, fh_file_size = of_nat file_size, fh_frame_kind = frame_kind,
          fh_filename = name @ replicate (15 - length name) (CHR 0x00)\<rparr>)"

lemma le_bytes_length [simp]: "length (le_bytes k n) = k"
  by (induction k arbitrary: n) auto

lemma le_value_bytes: "le_value (le_bytes k n) = n mod 256 ^ k"
proof (induction k arbitrary: n)
  case 0
  show ?case by simp
next
  case (Suc k)
  have "le_value (le_bytes (Suc k) n) = n mod 256 + 256 * (n div 256 mod 256 ^ k)"
    by (simp add: Suc.IH of_char_of)
  also have "\<dots> = n mod 256 ^ Suc k" by (simp add: mod_mult2_eq)
  finally show ?case .
qed

lemma le_value_bound: "le_value cs < 256 ^ length cs"
proof (induction cs)
  case Nil
  show ?case by simp
next
  case (Cons c cs)
  have "of_char c < (256::nat)" by (rule nat_of_char_less_256)
  moreover have "256 * Suc (le_value cs) \<le> 256 * 256 ^ length cs"
    using Cons.IH by (intro mult_le_mono2) simp
  ultimately show ?case by (simp del: nat_of_char_less_256)
qed

lemma le_bytes_value: "le_bytes (length cs) (le_value cs) = cs"
  by (induction cs) (simp_all add: nat_of_char_less_256)

definition header_wf :: "file_header \<Rightarrow> bool" where
  "header_wf h \<longleftrightarrow> length (fh_magic h) = 8 \<and> length (fh_filename h) = 15"

lemma header_bytes_length: "header_wf h \<Longrightarrow> length (header_bytes h) = kHeaderSize"
  by (simp add: header_wf_def header_bytes_def kHeaderSize_def)

lemma fill_file_header_wf: "header_wf (fill_file_header n k f)"
  by (auto simp: header_wf_def fill_file_header_def kHeaderMagic_def Let_def kFrameFilenameMax_def split: option.splits)

lemma header_codec:
  "header_wf h \<Longrightarrow> header_of_bytes (header_bytes h) = h"
  "length bs = kHeaderSize \<Longrightarrow> header_wf (header_of_bytes bs) \<and> header_bytes (header_of_bytes bs) = bs"
proof -
  assume wf: "header_wf h"
  have n: "unat (fh_file_size h) < 256 ^ 8" using unsigned_less [of "fh_file_size h", where ?'a = nat] by simp
  have k: "unat (fh_frame_kind h) < 256" using unsigned_less [of "fh_frame_kind h", where ?'a = nat] by simp
  show "header_of_bytes (header_bytes h) = h"
    using wf n k by (cases h) (simp add: header_wf_def header_of_bytes_def header_bytes_def le_value_bytes
        of_char_of nth_append)
next
  assume len: "length bs = kHeaderSize"
  then have wf: "header_wf (header_of_bytes bs)" by (simp add: header_wf_def header_of_bytes_def kHeaderSize_def)
  let ?m = "take 8 (drop 8 bs)"
  have "length ?m = 8" using len by (simp add: kHeaderSize_def)
  then have "le_value ?m < 2 ^ 64" and m: "le_bytes 8 (le_value ?m) = ?m"
    using le_value_bound [of ?m] le_bytes_value [of ?m] by simp_all
  then have u: "unat (of_nat (le_value ?m) :: u64) = le_value ?m" by (simp add: unat_of_nat)
  have "of_char (bs ! 16) < (256::nat)" by (rule nat_of_char_less_256)
  then have k: "char_of (unat (of_nat (of_char (bs ! 16)) :: u8)) = bs ! 16" by (simp add: unat_of_nat)
  have "bs = take 8 bs @ ?m @ [bs ! 16] @ take 15 (drop 17 bs)"
  proof -
    have "drop 16 bs = bs ! 16 # drop 17 bs" using len by (simp add: kHeaderSize_def Cons_nth_drop_Suc [symmetric])
    moreover have "take 15 (drop 17 bs) = drop 17 bs" using len by (simp add: kHeaderSize_def)
    moreover have "bs = take 8 bs @ ?m @ drop 16 bs"
      using append_take_drop_id [of 8 bs] append_take_drop_id [of 8 "drop 8 bs"] by (simp add: drop_drop)
    ultimately show ?thesis by simp
  qed
  then have "header_bytes (header_of_bytes bs) = bs"
    by (simp add: header_bytes_def header_of_bytes_def u m k)
  with wf show "header_wf (header_of_bytes bs) \<and> header_bytes (header_of_bytes bs) = bs" ..
qed

section \<open>Properties\<close>



lemma depth_clamp:
  "1 \<le> unat (ucast (if 32 < (if d < 1 then 1 else d) then 32 else (if d < 1 then 1 else d) :: u64) :: u32)"
  "unat (ucast (if 32 < (if d < 1 then 1 else d) then 32 else (if d < 1 then 1 else d) :: u64) :: u32) \<le> 32"
proof -
  define d' where "d' = (if d < 1 then 1 else d)"
  have d1: "1 \<le> d'"
  proof (cases "d < 1")
    case False
    then have "1 \<le> d" by (rule linorder_not_less [THEN iffD1])
    then show ?thesis unfolding d'_def if_not_P [OF False] .
  qed (simp add: d'_def)
  have "1 \<le> unat (ucast (if 32 < d' then 32 else d') :: u32) \<and> unat (ucast (if 32 < d' then 32 else d') :: u32) \<le> 32"
  proof (cases "32 < d'")
    case True
    then show ?thesis by simp
  next
    case False
    then have le: "unat d' \<le> 32" and ge: "1 \<le> unat d'"
      using d1 by (simp_all add: word_le_nat_alt word_less_nat_alt)
    then have "unat (ucast d' :: u32) = unat d'" by (simp add: unsigned_ucast_eq take_bit_nat_eq_self)
    with False le ge show ?thesis by simp
  qed
  then show "1 \<le> unat (ucast (if 32 < (if d < 1 then 1 else d) then 32 else (if d < 1 then 1 else d) :: u64) :: u32)"
    "unat (ucast (if 32 < (if d < 1 then 1 else d) then 32 else (if d < 1 then 1 else d) :: u64) :: u32) \<le> 32"
    unfolding d'_def by blast+
qed

lemma effective_queue_depth_range:
  "1 \<le> unat (effective_queue_depth s knob)" "unat (effective_queue_depth s knob) \<le> kQueueDepth"
  unfolding effective_queue_depth_def Let_def kQueueDepth_def of_nat_numeral by (rule depth_clamp)+

text \<open>
  whatever the budget and the kernel knob hold, the number of chunks in flight is
  between 1 and the queue's 32 slots, so the submit loop never indexes past the queue and
  always submits something.
\<close>

theorem queue_depth_bounds:
  "1 \<le> unat (effective_queue_depth s knob) \<and> unat (effective_queue_depth s knob) \<le> kQueueDepth"
  by (intro conjI effective_queue_depth_range)

text \<open>
  The doubling of the limit wraps: a knob of 2 GiB of megabytes or more yields a budget
  estimate of almost nothing. The clamp keeps the depth legal.
\<close>

lemma queue_depth_wraps:
  "effective_queue_depth default_usb_settings (Some ''2147483648'') = 1"
  "effective_queue_depth default_usb_settings (Some ''1000'') = 32"
  "effective_queue_depth default_usb_settings None = 1"
  by (simp_all add: effective_queue_depth_def read_usbfs_limit_mb_def default_usb_settings_def strtol_def
      strip_front_def is_space_def skip_sign_def digit_val_def digits_value_def kChunkSize_def kQueueDepth_def Let_def)

end
