(* ===== verification/Receive_Payload.thy ===== *)
theory Receive_Payload
  imports File_System Usb_Wire
begin

text \<open>
  Inbound payload files: \<open>lib/session/receive_payload.cpp\<close>. A failed receive must leave
  no partial file behind.
\<close>

record partial_receive_cleanup =
  cl_existed_before :: bool
  cl_bytes_removed :: u64
  cl_removed :: bool
  cl_path_clear :: bool

definition empty_cleanup :: partial_receive_cleanup where
  "empty_cleanup = \<lparr>cl_existed_before = False, cl_bytes_removed = 0, cl_removed = False, cl_path_clear = False\<rparr>"

definition build_inbound_payload_path :: "string \<Rightarrow> string \<Rightarrow> string" where
  "build_inbound_payload_path receive_folder payload_name =
     (if receive_folder \<noteq> [] \<and> last receive_folder \<noteq> CHR ''/'' then receive_folder @ ''/'' else receive_folder)
     @ (if payload_name = [] then ''incoming.bin'' else payload_name)"

definition should_remove_partial_after_receive :: "transfer_result \<Rightarrow> bool" where
  "should_remove_partial_after_receive usb_result = (\<not> tr_ok usb_result)"

definition cleanup_partial_receive_file :: "string \<Rightarrow> file_system \<Rightarrow> partial_receive_cleanup \<times> file_system" where
  "cleanup_partial_receive_file out_path fs =
     (if out_path = [] then (empty_cleanup\<lparr>cl_path_clear := True\<rparr>, fs)
      else if \<not> fs_exists fs out_path then (empty_cleanup\<lparr>cl_path_clear := True\<rparr>, fs)
      else let bytes = (if is_regular_file fs out_path then fs_file_size fs out_path else 0);
               (removed, fs') = remove_path out_path fs
        in (\<lparr>cl_existed_before = True, cl_bytes_removed = bytes, cl_removed = removed,
             cl_path_clear = (\<not> fs_exists fs' out_path)\<rparr>, fs'))"

record failed_inbound_receive =
  fr_cleanup :: partial_receive_cleanup
  fr_error_message :: string

definition handle_failed_inbound_receive :: "transfer_result \<Rightarrow> string \<Rightarrow> file_system
    \<Rightarrow> failed_inbound_receive \<times> file_system" where
  "handle_failed_inbound_receive usb_result out_path fs =
     (if should_remove_partial_after_receive usb_result
      then let (c, fs') = cleanup_partial_receive_file out_path fs
        in (\<lparr>fr_cleanup = c, fr_error_message = tr_error_message usb_result\<rparr>, fs')
      else (\<lparr>fr_cleanup = empty_cleanup\<lparr>cl_path_clear := True\<rparr>,
             fr_error_message = tr_error_message usb_result\<rparr>, fs))"

text \<open>A payload name is not cleaned: it can lead out of the folder.\<close>

lemma inbound_path_escapes:
  "build_inbound_payload_path ''/home/a/Incoming'' ''../.profile'' = ''/home/a/Incoming/../.profile''"
  by (simp add: build_inbound_payload_path_def)

lemma inbound_path_folder:
  assumes "CHR ''/'' \<notin> set name" and "folder \<noteq> []" and "last folder \<noteq> CHR ''/''"
  shows "path_parent (build_inbound_payload_path folder name) = folder"
  using assms by (simp add: build_inbound_payload_path_def)

section \<open>Properties\<close>

text \<open>
  after a failed receive the report is true: the path is reported clear exactly when
  nothing is left there, a regular file that may be removed is gone and its size is
  reported, and no other path changes. A successful receive is left alone.
\<close>

theorem failed_receive_cleanup:
  assumes "handle_failed_inbound_receive r path fs = (out, fs')" and "path \<noteq> []"
  shows "fr_error_message out = tr_error_message r
    \<and> (tr_ok r \<longrightarrow> fs' = fs)
    \<and> (\<not> tr_ok r \<longrightarrow>
        (cl_path_clear (fr_cleanup out) \<longleftrightarrow> fs_lookup fs' path = None)
      \<and> (\<forall>q. q \<noteq> path \<longrightarrow> fs_lookup fs' q = fs_lookup fs q)
      \<and> (\<forall>c. fs_lookup fs path = Some (File c) \<and> \<not> fs_denied fs path \<longrightarrow>
           fs_lookup fs' path = None \<and> cl_bytes_removed (fr_cleanup out) = of_nat (length c)))"
proof (cases "tr_ok r")
  case True
  then show ?thesis using assms
    by (auto simp: handle_failed_inbound_receive_def should_remove_partial_after_receive_def)
next
  case False
  then obtain c where c: "cleanup_partial_receive_file path fs = (c, fs')"
    and out: "out = \<lparr>fr_cleanup = c, fr_error_message = tr_error_message r\<rparr>"
    using assms(1) by (auto simp: handle_failed_inbound_receive_def should_remove_partial_after_receive_def split: prod.splits)
  show ?thesis
  proof (cases "fs_exists fs path")
    case False
    with c assms(2) have "fs' = fs" "c = empty_cleanup\<lparr>cl_path_clear := True\<rparr>"
      by (simp_all add: cleanup_partial_receive_file_def)
    with False \<open>\<not> tr_ok r\<close> show ?thesis by (simp add: out fs_exists_def)
  next
    case True
    obtain rm where rm: "remove_path path fs = (rm, fs')"
      using c True assms(2) by (auto simp: cleanup_partial_receive_file_def Let_def split: prod.splits)
    have cc: "c = \<lparr>cl_existed_before = True,
        cl_bytes_removed = (if is_regular_file fs path then fs_file_size fs path else 0),
        cl_removed = rm, cl_path_clear = (\<not> fs_exists fs' path)\<rparr>"
      using c True assms(2) rm by (simp add: cleanup_partial_receive_file_def Let_def)
    have frame: "fs_lookup fs' q = fs_lookup fs q" if "q \<noteq> path" for q
      using rm that remove_path_lookup [of path fs fs' q] remove_path_failed [of path fs fs'] by (cases rm) simp_all
    have gone: "fs_lookup fs' path = None \<and> cl_bytes_removed c = of_nat (length d)"
      if "fs_lookup fs path = Some (File d)" "\<not> fs_denied fs path" for d
      using that rm by (auto simp: remove_path_def cc is_regular_file_def fs_file_size_def)
    show ?thesis using \<open>\<not> tr_ok r\<close> frame gone by (auto simp: out cc fs_exists_def)
  qed
qed

definition partial_store :: file_system where
  "partial_store = \<lparr>fs_entries = [(''/in/x'', File ''abc'')], fs_denied = (\<lambda>_. False), fs_room = (\<lambda>_. None)\<rparr>"

lemma failed_receive_cleanup_witness:
  "fs_lookup (snd (handle_failed_inbound_receive empty_transfer_result ''/in/x'' partial_store)) ''/in/x'' = None
   \<and> cl_bytes_removed (fr_cleanup (fst (handle_failed_inbound_receive empty_transfer_result ''/in/x'' partial_store))) = 3"
proof -
  obtain out fs' where h: "handle_failed_inbound_receive empty_transfer_result ''/in/x'' partial_store = (out, fs')"
    by fastforce
  have "fs_lookup fs' ''/in/x'' = None \<and> cl_bytes_removed (fr_cleanup out) = 3"
    using failed_receive_cleanup [OF h] by (simp add: empty_transfer_result_def partial_store_def fs_lookup_def)
  then show ?thesis unfolding h by simp
qed

end
