(* ===== verification/Tar_Pack.thy ===== *)
theory Tar_Pack
  imports File_System
begin

text \<open>
  Archives of several payload files: \<open>lib/session/fabric_tar_pack.cpp\<close>. The \<open>tar\<close>
  program is the argument \<open>exec\<close> of \<^const>\<open>run_command\<close>; error strings are left values.
\<close>

section \<open>Members\<close>

record tar_member =
  tm_base_dir :: string
  tm_member :: string
  tm_source_path :: string

definition parent_or_dot :: "string \<Rightarrow> string" where
  "parent_or_dot p = (if path_parent p = [] then ''.'' else path_parent p)"

definition tar_member_for_file :: "file_system \<Rightarrow> string \<Rightarrow> string \<Rightarrow> string + tar_member" where
  "tar_member_for_file fs file source_root =
     (if \<not> is_regular_file fs file then Inl (''Source file not found: '' @ file)
      else let root = (if last source_root \<noteq> CHR ''/'' \<and> last source_root \<noteq> CHR 0x5C
             then source_root @ ''/'' else source_root);
               inside = (source_root \<noteq> [] \<and> starts_with root file \<and> drop (length root) file \<noteq> []);
               base_dir = (if inside then source_root else parent_or_dot file);
               member = (if inside then drop (length root) file else path_filename file)
        in if member = [] \<or> contains ''..'' member then Inl ''Invalid tar member path''
           else Inr \<lparr>tm_base_dir = base_dir, tm_member = member, tm_source_path = file\<rparr>)"

definition tar_member_for_directory :: "file_system \<Rightarrow> string \<Rightarrow> string + tar_member" where
  "tar_member_for_directory fs dir =
     (if \<not> is_directory fs dir then Inl (''Source directory not found: '' @ dir)
      else let member = path_filename dir
        in if member = [] \<or> member = ''.'' \<or> member = ''..'' then Inl ''Invalid directory name''
           else Inr \<lparr>tm_base_dir = parent_or_dot dir, tm_member = member, tm_source_path = dir\<rparr>)"

section \<open>Name collisions\<close>

text \<open>The first loop over the entries: duplicated names get their directory's name in front.\<close>

definition prefix_parent :: "tar_member list \<Rightarrow> tar_member \<Rightarrow> tar_member" where
  "prefix_parent entries e =
     (if length (filter (\<lambda>x. tm_member x = tm_member e) entries) \<le> 1 then e
      else let parent = path_parent (tm_source_path e); parent_name = path_filename parent
        in if parent_name = [] \<or> parent_name = ''.'' \<or> parent_name = ''..'' then e
           else e\<lparr>tm_member := parent_name @ ''/'' @ tm_member e, tm_base_dir := parent_or_dot parent\<rparr>)"

text \<open>
  The search for an unused numbered name. The loop of the code has no bound; one more
  attempt than there are used names always suffices (\<open>first_free_total\<close>).
\<close>

fun first_free :: "nat \<Rightarrow> nat \<Rightarrow> string \<Rightarrow> string list \<Rightarrow> string option" where
  "first_free 0 suffix leaf used = None"
| "first_free (Suc n) suffix leaf used = (let prefixed = show_nat suffix @ ''_'' @ leaf
     in if prefixed \<notin> set used then Some prefixed else first_free n (Suc suffix) leaf used)"

fun rename_used :: "string list \<Rightarrow> tar_member list \<Rightarrow> tar_member list" where
  "rename_used used [] = []"
| "rename_used used (e # es) =
     (if tm_member e \<notin> set used then e # rename_used (tm_member e # used) es
      else case first_free (Suc (length used)) 2 (path_filename (tm_source_path e)) used of
          None \<Rightarrow> e # rename_used used es
        | Some prefixed \<Rightarrow> e\<lparr>tm_member := prefixed, tm_base_dir := parent_or_dot (tm_source_path e)\<rparr>
            # rename_used (prefixed # used) es)"

definition disambiguate_tar_members :: "tar_member list \<Rightarrow> tar_member list" where
  "disambiguate_tar_members entries = rename_used [] (map (prefix_parent entries) entries)"

section \<open>Creating and extracting\<close>

definition tar_arguments :: "string \<Rightarrow> tar_member list \<Rightarrow> string list" where
  "tar_arguments tar_path members = [''tar'', ''cf'', tar_path]
     @ concat (map (\<lambda>m. [''-C'', tm_base_dir m, tm_member m]) members)"

definition create_tar_from_members :: "string \<Rightarrow> (nat \<Rightarrow> u32 \<times> u32)
    \<Rightarrow> (string list \<Rightarrow> file_system \<Rightarrow> process_outcome \<times> file_system)
    \<Rightarrow> tar_member list \<Rightarrow> file_system \<Rightarrow> (string + string) \<times> file_system" where
  "create_tar_from_members tmp rng exec members fs =
     (if members = [] then (Inl ''No tar members'', fs)
      else let (tar_path, fs1) = create_empty_temp_file tmp rng ''slsfabric-send-'' ''.tar'' fs
        in if tar_path = [] then (Inl ''Could not create temp tar path'', fs1)
           else case run_command exec (tar_arguments tar_path members) fs1 of
               (Inl e, fs2) \<Rightarrow> (Inl e, snd (remove_path tar_path fs2))
             | (Inr _, fs2) \<Rightarrow> (Inr tar_path, fs2))"

definition tar_member_for_path :: "file_system \<Rightarrow> string \<Rightarrow> string + tar_member" where
  "tar_member_for_path fs path =
     (if is_regular_file fs path then tar_member_for_file fs path []
      else if is_directory fs path then tar_member_for_directory fs path
      else Inl (''Path is not a file or directory: '' @ path))"

definition create_tar_for_file :: "string \<Rightarrow> (nat \<Rightarrow> u32 \<times> u32)
    \<Rightarrow> (string list \<Rightarrow> file_system \<Rightarrow> process_outcome \<times> file_system)
    \<Rightarrow> string \<Rightarrow> string \<Rightarrow> file_system \<Rightarrow> (string + string) \<times> file_system" where
  "create_tar_for_file tmp rng exec file_path source_root fs =
     (case tar_member_for_file fs file_path source_root of
        Inl e \<Rightarrow> (Inl e, fs) | Inr m \<Rightarrow> create_tar_from_members tmp rng exec [m] fs)"

definition create_tar_for_directory :: "string \<Rightarrow> (nat \<Rightarrow> u32 \<times> u32)
    \<Rightarrow> (string list \<Rightarrow> file_system \<Rightarrow> process_outcome \<times> file_system)
    \<Rightarrow> string \<Rightarrow> file_system \<Rightarrow> (string + string) \<times> file_system" where
  "create_tar_for_directory tmp rng exec directory_path fs =
     (case tar_member_for_directory fs directory_path of
        Inl e \<Rightarrow> (Inl e, fs) | Inr m \<Rightarrow> create_tar_from_members tmp rng exec [m] fs)"

text \<open>The loop that collects the members stops at the first path that has none.\<close>

fun collect_members :: "file_system \<Rightarrow> string list \<Rightarrow> string + tar_member list" where
  "collect_members fs [] = Inr []"
| "collect_members fs (p # ps) = (case tar_member_for_path fs p of
       Inl e \<Rightarrow> Inl e
     | Inr m \<Rightarrow> (case collect_members fs ps of Inl e \<Rightarrow> Inl e | Inr ms \<Rightarrow> Inr (m # ms)))"

definition create_tar_for_paths :: "string \<Rightarrow> (nat \<Rightarrow> u32 \<times> u32)
    \<Rightarrow> (string list \<Rightarrow> file_system \<Rightarrow> process_outcome \<times> file_system)
    \<Rightarrow> string list \<Rightarrow> file_system \<Rightarrow> (string + string) \<times> file_system" where
  "create_tar_for_paths tmp rng exec paths fs =
     (case paths of
        [] \<Rightarrow> (Inl ''No paths to tar'', fs)
      | [p] \<Rightarrow> (if is_regular_file fs p then create_tar_for_file tmp rng exec p [] fs
           else if is_directory fs p then create_tar_for_directory tmp rng exec p fs
           else (Inl (''Path is not a file or directory: '' @ p), fs))
      | _ \<Rightarrow> (case collect_members fs paths of
           Inl e \<Rightarrow> (Inl e, fs)
         | Inr ms \<Rightarrow> create_tar_from_members tmp rng exec (disambiguate_tar_members ms) fs))"

definition extract_tar_to_dir :: "(string list \<Rightarrow> file_system \<Rightarrow> process_outcome \<times> file_system)
    \<Rightarrow> string \<Rightarrow> string \<Rightarrow> file_system \<Rightarrow> (string + unit) \<times> file_system" where
  "extract_tar_to_dir exec tar_path target_dir fs =
     (if tar_path = [] \<or> target_dir = [] then (Inl ''Missing tar path or target directory'', fs)
      else if \<not> is_regular_file fs tar_path then (Inl (''Tar file not found: '' @ tar_path), fs)
      else let (ok, fs1) = create_directories target_dir fs
        in if \<not> ok then (Inl (''Could not create target directory: '' @ target_dir), fs1)
           else run_command exec [''tar'', ''xf'', tar_path, ''-C'', target_dir] fs1)"

section \<open>Renaming always ends, with distinct names\<close>

lemma numbered_inj: "inj (\<lambda>i. show_nat i @ ''_'' @ leaf)"
  by (rule injI) (auto dest: show_nat_inj)

lemma first_free_fresh: "first_free n s leaf used = Some x \<Longrightarrow> x \<notin> set used"
  by (induction n s leaf used rule: first_free.induct) (auto simp: Let_def split: if_splits)

lemma first_free_None:
  "first_free n s leaf used = None \<Longrightarrow> (\<lambda>i. show_nat i @ ''_'' @ leaf) ` {s..<s + n} \<subseteq> set used"
proof (induction n arbitrary: s)
  case 0
  then show ?case by simp
next
  case (Suc n)
  then have "show_nat s @ ''_'' @ leaf \<in> set used" and "first_free n (Suc s) leaf used = None"
    by (auto simp: Let_def split: if_splits)
  moreover from Suc.IH [OF this(2)] have "(\<lambda>i. show_nat i @ ''_'' @ leaf) ` {Suc s..<Suc s + n} \<subseteq> set used" .
  moreover have "{s..<s + Suc n} = insert s {Suc s..<Suc s + n}" by auto
  ultimately show ?case by simp
qed

lemma first_free_total: "first_free (Suc (length used)) s leaf used \<noteq> None"
proof
  assume "first_free (Suc (length used)) s leaf used = None"
  from first_free_None [OF this]
  have "card ((\<lambda>i. show_nat i @ ''_'' @ leaf) ` {s..<s + Suc (length used)}) \<le> card (set used)"
    by (rule card_mono [OF finite_set])
  moreover have "card ((\<lambda>i. show_nat i @ ''_'' @ leaf) ` {s..<s + Suc (length used)}) = Suc (length used)"
    by (subst card_image [OF inj_on_subset [OF numbered_inj subset_UNIV]]) simp
  ultimately show False using card_length [of used] by simp
qed

lemma rename_used_props:
  "distinct (map tm_member (rename_used used es)) \<and> set (map tm_member (rename_used used es)) \<inter> set used = {}
   \<and> map tm_source_path (rename_used used es) = map tm_source_path es"
proof (induction used es rule: rename_used.induct)
  case (1 used)
  then show ?case by simp
next
  case (2 used e es)
  show ?case
  proof (cases "tm_member e \<in> set used")
    case False
    with 2 show ?thesis by auto
  next
    case True
    obtain x where x: "first_free (Suc (length used)) 2 (path_filename (tm_source_path e)) used = Some x"
      using first_free_total by (metis option.exhaust)
    with True 2(3) [OF _ x] first_free_fresh [OF x] show ?thesis by auto
  qed
qed

lemma rename_used_id:
  "distinct (map tm_member es) \<Longrightarrow> set (map tm_member es) \<inter> set used = {} \<Longrightarrow> rename_used used es = es"
  by (induction es arbitrary: used) auto

lemma prefix_parent_source [simp]: "tm_source_path (prefix_parent es e) = tm_source_path e"
  by (simp add: prefix_parent_def Let_def)

section \<open>Properties\<close>

text \<open>
  C33: no two members of the archive have the same name, and every selected path keeps
  one member, in the order of the selection.
\<close>

theorem tar_members_distinct:
  "distinct (map tm_member (disambiguate_tar_members es))
   \<and> map tm_source_path (disambiguate_tar_members es) = map tm_source_path es"
  using rename_used_props [of "[]" "map (prefix_parent es) es"]
  by (simp add: disambiguate_tar_members_def comp_def)

text \<open>The file a member names when \<open>tar\<close> looks for it in its directory.\<close>

definition tar_reads :: "tar_member \<Rightarrow> string" where
  "tar_reads m = tm_base_dir m @ ''/'' @ tm_member m"

text \<open>Paths two levels below a directory.\<close>

definition placed :: "string \<Rightarrow> bool" where
  "placed p \<longleftrightarrow> (\<exists>g d leaf. p = g @ ''/'' @ d @ ''/'' @ leaf \<and> g \<noteq> [] \<and> last g \<noteq> CHR ''/''
     \<and> CHR ''/'' \<notin> set d \<and> CHR ''/'' \<notin> set leaf \<and> leaf \<noteq> [] \<and> d \<notin> {[], ''.'', ''..''})"

lemma placed_member:
  assumes "placed p" and "m = \<lparr>tm_base_dir = parent_or_dot p, tm_member = path_filename p, tm_source_path = p\<rparr>"
  shows "tar_reads (prefix_parent es m) = p"
proof -
  from assms(1) obtain g d leaf where p: "p = (g @ ''/'' @ d) @ CHR ''/'' # leaf"
    and g: "g \<noteq> []" "last g \<noteq> CHR ''/''" and d: "CHR ''/'' \<notin> set d" "d \<noteq> []" and leaf: "CHR ''/'' \<notin> set leaf"
    and dot: "d \<noteq> ''.''" "d \<noteq> ''..''"
    by (auto simp: placed_def)
  have "last d \<noteq> CHR ''/''" using d last_in_set by metis
  then have par: "path_parent p = g @ CHR ''/'' # d"
    unfolding p using d leaf by (subst path_parent_join) auto
  have fn: "path_filename p = leaf" unfolding p using leaf by (rule path_filename_join)
  have "path_parent (g @ CHR ''/'' # d) = g" using d(1) g by (rule path_parent_join)
  then have pod: "parent_or_dot p = g @ CHR ''/'' # d" "parent_or_dot (g @ CHR ''/'' # d) = g"
    using par g(1) by (simp_all add: parent_or_dot_def)
  have fd: "path_filename (g @ CHR ''/'' # d) = d" using d(1) by (rule path_filename_join)
  let ?few = "length (filter (\<lambda>x. tm_member x = leaf) es) \<le> 1"
  have "prefix_parent es m = (if ?few then m else m\<lparr>tm_member := d @ ''/'' @ leaf, tm_base_dir := g\<rparr>)"
    using dot d(2) by (simp add: prefix_parent_def assms(2) par fn pod fd Let_def)
  then show ?thesis
    using fn pod(1) by (simp add: tar_reads_def assms(2)) (simp add: p)
qed

text \<open>
  When the names stay distinct after the directory prefix, every member the archive
  program is told to pack is the selected file itself.
\<close>

theorem tar_members_read_sources:
  assumes "list_all placed paths"
    and "es = map (\<lambda>p. \<lparr>tm_base_dir = parent_or_dot p, tm_member = path_filename p, tm_source_path = p\<rparr>) paths"
    and "distinct (map tm_member (map (prefix_parent es) es))"
  shows "map tar_reads (disambiguate_tar_members es) = paths"
proof -
  have "disambiguate_tar_members es = map (prefix_parent es) es"
    unfolding disambiguate_tar_members_def by (rule rename_used_id [OF assms(3)]) simp
  moreover have "tar_reads (prefix_parent es \<lparr>tm_base_dir = parent_or_dot p, tm_member = path_filename p,
      tm_source_path = p\<rparr>) = p" if "p \<in> set paths" for p
    using assms(1) that by (intro placed_member [OF _ refl]) (simp add: list_all_iff)
  ultimately show ?thesis by (simp add: assms(2) comp_def map_idI)
qed

definition member_of :: "string \<Rightarrow> tar_member" where
  "member_of p = \<lparr>tm_base_dir = parent_or_dot p, tm_member = path_filename p, tm_source_path = p\<rparr>"

lemma tar_members_read_sources_witness:
  "map tar_reads (disambiguate_tar_members (map member_of [''/h/a/f'', ''/h/b/f''])) = [''/h/a/f'', ''/h/b/f'']"
proof -
  have "placed (''/h'' @ ''/'' @ [c] @ ''/'' @ ''f'')" if "c \<noteq> CHR ''/''" "c \<noteq> CHR ''.''" for c
    unfolding placed_def using that by (intro exI [of _ "''/h''"] exI [of _ "[c]"] exI [of _ "''f''"]) simp
  from this [of "CHR ''a''"] this [of "CHR ''b''"] have "list_all placed [''/h/a/f'', ''/h/b/f'']" by simp
  moreover have "distinct (map tm_member (map (prefix_parent (map member_of [''/h/a/f'', ''/h/b/f'']))
      (map member_of [''/h/a/f'', ''/h/b/f''])))" by code_simp
  ultimately show ?thesis
    using tar_members_read_sources [of "[''/h/a/f'', ''/h/b/f'']"] by (simp add: member_of_def)
qed

text \<open>
  When even the prefixed names collide, the numbered name does not exist in the directory
  it is looked up in: the archive program is asked for \<open>/b/x/2_f\<close>, not for the selected file.
\<close>

lemma tar_numbered_member_missing:
  "map tar_reads (disambiguate_tar_members (map member_of [''/a/x/f'', ''/b/x/f''])) = [''/a/x/f'', ''/b/x/2_f'']"
  by code_simp

text \<open>
  a failed archive run leaves no temporary archive behind: if the process did not
  change the file permissions, the path created for it is gone.
\<close>

theorem failed_tar_leaves_nothing:
  assumes "create_tar_from_members tmp rng exec ms fs = (Inl e, fs')" and "ms \<noteq> []"
    and "create_empty_temp_file tmp rng ''slsfabric-send-'' ''.tar'' fs = (path, fs1)" and "path \<noteq> []"
    and "fs_denied (snd (exec (tar_arguments path ms) fs1)) = fs_denied fs1"
    and "fs_lookup (snd (exec (tar_arguments path ms) fs1)) path \<noteq> Some Directory"
  shows "fs_lookup fs' path = None"
proof -
  from assms(1-4) obtain fs2 where r: "run_command exec (tar_arguments path ms) fs1 = (Inl e, fs2)"
    and fs': "fs' = snd (remove_path path fs2)"
    by (auto simp: create_tar_from_members_def Let_def split: sum.splits prod.splits)
  from r obtain out where x: "exec (tar_arguments path ms) fs1 = (out, fs2)"
    by (auto simp: run_command_def tar_arguments_def split: prod.splits)
  note f = create_temp_attempts_fresh [OF assms(3) [unfolded create_empty_temp_file_def] assms(4)]
  have "\<not> fs_denied fs path"
  proof -
    have "create_temp_attempts n k tmp rng pre suffix g = (p, g') \<Longrightarrow> p \<noteq> [] \<Longrightarrow> \<not> fs_denied g p" for n k pre suffix g p g'
      by (induction n arbitrary: k) (auto simp: Let_def open_trunc_def can_create_def split: if_splits option.splits)
    from this [OF assms(3) [unfolded create_empty_temp_file_def] assms(4)] show ?thesis .
  qed
  then have nd: "\<not> fs_denied fs2 path" using assms(5) x f by simp
  show ?thesis
    using nd assms(6) x unfolding fs' by (auto simp: remove_path_def split: option.splits node.splits)
qed

definition tar_store :: file_system where
  "tar_store = \<lparr>fs_entries = [(''/tmp'', Directory), (''/h/f'', File ''x'')], fs_denied = (\<lambda>_. False), fs_room = (\<lambda>_. None)\<rparr>"

lemma failed_tar_leaves_nothing_witness:
  "fs_lookup (snd (create_tar_from_members ''/tmp'' (\<lambda>_. (1, 2)) (\<lambda>_ g. (Exited 2, g)) [member_of ''/h/f''] tar_store))
     ''/tmp/slsfabric-send-12.tar'' = None"
proof -
  let ?exec = "\<lambda>_ g. (Exited 2, g)"
  let ?p = "''/tmp/slsfabric-send-12.tar''"
  have p: "fst (create_empty_temp_file ''/tmp'' (\<lambda>_. (1, 2)) ''slsfabric-send-'' ''.tar'' tar_store) = ?p" by code_simp
  have l: "fs_lookup (snd (create_empty_temp_file ''/tmp'' (\<lambda>_. (1, 2)) ''slsfabric-send-'' ''.tar'' tar_store)) ?p
      \<noteq> Some Directory" by code_simp
  have c: "fst (create_tar_from_members ''/tmp'' (\<lambda>_. (1, 2)) ?exec [member_of ''/h/f''] tar_store)
      = Inl ''tar exited with status 2''" by code_simp
  obtain fs' where c': "create_tar_from_members ''/tmp'' (\<lambda>_. (1, 2)) ?exec [member_of ''/h/f''] tar_store
      = (Inl ''tar exited with status 2'', fs')"
    using c by (metis prod.collapse)
  obtain fs1 where p': "create_empty_temp_file ''/tmp'' (\<lambda>_. (1, 2)) ''slsfabric-send-'' ''.tar'' tar_store = (?p, fs1)"
    using p by (metis prod.collapse)
  have l': "fs_lookup fs1 ?p \<noteq> Some Directory" using l unfolding p' by simp
  have "fs_lookup fs' ?p = None"
    by (rule failed_tar_leaves_nothing [OF c' _ p']) (use l' in simp_all)
  then show ?thesis unfolding c' by simp
qed

end
