(* ===== verification/Session_Message.thy ===== *)
theory Session_Message
  imports Line_Format File_System
begin

text \<open>
  The FABRIC-SESSION-v1 messages: \<open>lib/session/fabric_session_message.cpp\<close>. A message is
  written to a temporary file, sent as the body of a session frame, and parsed on the other
  side. The numeric fields are parsed with \<open>std::stoul\<close> and \<open>std::stoull\<close>, whose
  exceptions the reader does not catch; they are the left values of the result.
\<close>

section \<open>Messages\<close>

datatype session_message_kind = Kind_Offer | Kind_Accept | Kind_Decline | Kind_Ready
  | Kind_Announce | Kind_Unknown

record fabric_session_message =
  sm_kind :: session_message_kind
  sm_from_name :: string
  sm_team :: string
  sm_session_id :: string
  sm_to_name :: string
  sm_note :: string
  sm_payload_type :: string
  sm_payload_name :: string
  sm_file_count :: u32
  sm_total_bytes :: u64

definition empty_session_message :: fabric_session_message where
  "empty_session_message = \<lparr>sm_kind = Kind_Unknown, sm_from_name = [], sm_team = [],
     sm_session_id = [], sm_to_name = [], sm_note = [], sm_payload_type = [],
     sm_payload_name = [], sm_file_count = 0, sm_total_bytes = 0\<rparr>"

definition kSessionHeader :: string where
  "kSessionHeader = ''FABRIC-SESSION-v1'' @ [newline]"

definition session_trim :: "string \<Rightarrow> string" where
  "session_trim value = strip_front (\<lambda>c. c = CHR '' '')
     (strip_back (\<lambda>c. c = carriage_return \<or> c = newline \<or> c = CHR '' '') value)"

definition session_kind_to_string :: "session_message_kind \<Rightarrow> string" where
  "session_kind_to_string k = (case k of Kind_Offer \<Rightarrow> ''offer'' | Kind_Accept \<Rightarrow> ''accept''
     | Kind_Decline \<Rightarrow> ''decline'' | Kind_Ready \<Rightarrow> ''ready'' | Kind_Announce \<Rightarrow> ''announce''
     | Kind_Unknown \<Rightarrow> ''unknown'')"

definition session_kind_from_string :: "string \<Rightarrow> session_message_kind" where
  "session_kind_from_string value =
     (if value = ''offer'' then Kind_Offer
      else if value = ''accept'' then Kind_Accept
      else if value = ''decline'' then Kind_Decline
      else if value = ''ready'' then Kind_Ready
      else if value = ''announce'' then Kind_Announce
      else Kind_Unknown)"

lemma session_kind_roundtrip [simp]: "session_kind_from_string (session_kind_to_string k) = k"
  by (cases k) (simp_all add: session_kind_from_string_def session_kind_to_string_def)

section \<open>Parsing\<close>

text \<open>\<open>parse_line\<close>: the flag it returns, which the reader ignores, and the message.\<close>

definition parse_line :: "string \<Rightarrow> fabric_session_message \<Rightarrow> std_exn + bool \<times> fabric_session_message" where
  "parse_line line out = (case split_at CHR ''='' line of
       None \<Rightarrow> Inr (False, out)
     | Some (before, after) \<Rightarrow> let key = session_trim before; value = session_trim after in
        if key = ''kind'' then Inr (True, out\<lparr>sm_kind := session_kind_from_string value\<rparr>)
        else if key = ''from'' then Inr (True, out\<lparr>sm_from_name := value\<rparr>)
        else if key = ''team'' then Inr (True, out\<lparr>sm_team := value\<rparr>)
        else if key = ''session_id'' then Inr (True, out\<lparr>sm_session_id := value\<rparr>)
        else if key = ''to'' then Inr (True, out\<lparr>sm_to_name := value\<rparr>)
        else if key = ''note'' then Inr (True, out\<lparr>sm_note := value\<rparr>)
        else if key = ''payload_type'' then Inr (True, out\<lparr>sm_payload_type := value\<rparr>)
        else if key = ''payload_name'' then Inr (True, out\<lparr>sm_payload_name := value\<rparr>)
        else if key = ''files'' then (case stoull value of Inl e \<Rightarrow> Inl e
             | Inr v \<Rightarrow> Inr (True, out\<lparr>sm_file_count := ucast v\<rparr>))
        else if key = ''total_bytes'' then (case stoull value of Inl e \<Rightarrow> Inl e
             | Inr v \<Rightarrow> Inr (True, out\<lparr>sm_total_bytes := v\<rparr>))
        else Inr (False, out))"

definition parse_message_line :: "string \<Rightarrow> fabric_session_message \<Rightarrow> std_exn + fabric_session_message" where
  "parse_message_line line out = (case parse_line line out of Inl e \<Rightarrow> Inl e | Inr r \<Rightarrow> Inr (snd r))"

text \<open>
  \<open>read_session_file\<close> after the file is open: the flag it returns and the message it
  leaves in \<open>out\<close>.
\<close>

definition parse_session_payload :: "string \<Rightarrow> fabric_session_message \<Rightarrow> std_exn + bool \<times> fabric_session_message" where
  "parse_session_payload payload out =
     (if \<not> starts_with kSessionHeader payload then Inr (False, out)
      else case line_loop parse_message_line (getlines (drop (length kSessionHeader) payload))
          empty_session_message of
        Inl e \<Rightarrow> Inl e
      | Inr m \<Rightarrow> Inr (sm_kind m \<noteq> Kind_Unknown \<and> sm_session_id m \<noteq> [], m))"

definition read_session_file :: "string \<Rightarrow> file_system \<Rightarrow> fabric_session_message
    \<Rightarrow> std_exn + bool \<times> fabric_session_message" where
  "read_session_file path fs out = (case read_file path fs of
       None \<Rightarrow> Inr (False, out)
     | Some payload \<Rightarrow> parse_session_payload payload out)"

section \<open>Writing\<close>

definition session_fields :: "fabric_session_message \<Rightarrow> (string \<times> string) list" where
  "session_fields m =
     [(''kind'', session_kind_to_string (sm_kind m)), (''from'', sm_from_name m),
      (''team'', sm_team m), (''session_id'', sm_session_id m)]
     @ (if sm_to_name m \<noteq> [] then [(''to'', sm_to_name m)] else [])
     @ (if sm_note m \<noteq> [] then [(''note'', sm_note m)] else [])
     @ (if sm_payload_type m \<noteq> [] then [(''payload_type'', sm_payload_type m)] else [])
     @ (if sm_payload_name m \<noteq> [] then [(''payload_name'', sm_payload_name m)] else [])
     @ (if 0 < sm_file_count m then [(''files'', show_nat (unat (sm_file_count m)))] else [])
     @ (if 0 < sm_total_bytes m then [(''total_bytes'', show_nat (unat (sm_total_bytes m)))] else [])"

definition session_payload :: "fabric_session_message \<Rightarrow> string" where
  "session_payload m = kSessionHeader @ render_lines (session_fields m)"

definition write_session_temp_file :: "string \<Rightarrow> (nat \<Rightarrow> u32 \<times> u32) \<Rightarrow> fabric_session_message
    \<Rightarrow> file_system \<Rightarrow> string \<times> file_system" where
  "write_session_temp_file tmp rng m fs =
     (if sm_session_id m = [] then ([], fs)
      else write_temp_text_file tmp rng ''slsfabric-session-'' (session_payload m) fs)"

definition session_inbox_relative_path :: "string \<Rightarrow> string" where
  "session_inbox_relative_path session_id = ''.fabric-session/'' @ session_id @ ''.msg''"

definition is_session_inbox_path :: "string \<Rightarrow> bool" where
  "is_session_inbox_path p \<longleftrightarrow> starts_with ''.fabric-session/'' p \<and> 16 < length p \<and> ends_with ''.msg'' p"

lemma session_inbox_path_recognised: "is_session_inbox_path (session_inbox_relative_path sid)"
proof -
  have "session_inbox_relative_path sid = (''.fabric-session/'' @ sid) @ ''.msg''"
    by (simp add: session_inbox_relative_path_def)
  moreover have "ends_with ''.msg'' ((''.fabric-session/'' @ sid) @ ''.msg'')" by (rule ends_with_append)
  ultimately have "ends_with ''.msg'' (session_inbox_relative_path sid)" by (simp only:)
  then show ?thesis
    by (simp add: is_session_inbox_path_def session_inbox_relative_path_def starts_with_def)
qed

section \<open>The format as a line format\<close>

text \<open>Which pairs survive writing and reading, and what the reader does with them.\<close>

definition session_text_keys :: "string list" where
  "session_text_keys = [''from'', ''team'', ''session_id'', ''to'', ''note'', ''payload_type'', ''payload_name'']"

definition session_value_ok :: "string \<Rightarrow> bool" where
  "session_value_ok v \<longleftrightarrow> newline \<notin> set v \<and> session_trim v = v"

definition session_pair_ok :: "string \<Rightarrow> string \<Rightarrow> bool" where
  "session_pair_ok k v \<longleftrightarrow> session_value_ok v \<and> (k = ''kind'' \<or> k \<in> set session_text_keys
     \<or> (k = ''files'' \<or> k = ''total_bytes'') \<and> (\<exists>w. stoull v = Inr w))"

definition session_assign :: "string \<Rightarrow> string \<Rightarrow> fabric_session_message \<Rightarrow> fabric_session_message" where
  "session_assign k v m = (case parse_message_line (k @ ''='' @ v) m of Inl _ \<Rightarrow> m | Inr m' \<Rightarrow> m')"

lemma session_value_ok_trim [simp]: "session_value_ok v \<Longrightarrow> session_trim v = v"
  by (simp add: session_value_ok_def)

lemma session_value_ok_safe: "session_value_ok v \<Longrightarrow> line_safe v"
proof -
  assume ok: "session_value_ok v"
  have "last v \<noteq> carriage_return" if "v \<noteq> []"
  proof
    assume cr: "last v = carriage_return"
    let ?P = "\<lambda>c. c = carriage_return \<or> c = newline \<or> c = CHR '' ''"
    have "length (session_trim v) \<le> length (strip_back ?P v)"
      by (simp add: session_trim_def strip_front_def length_dropWhile_le)
    also have "\<dots> = length (dropWhile ?P (rev v))" by (simp add: strip_back_def)
    also have "\<dots> < length v"
    proof -
      from cr that obtain u where v: "v = u @ [carriage_return]" by (metis append_butlast_last_id)
      have "length (dropWhile ?P (rev u)) \<le> length u"
        using length_dropWhile_le [of ?P "rev u"] by simp
      then show ?thesis by (simp add: v)
    qed
    finally show False using ok by simp
  qed
  with ok show ?thesis by (auto simp: line_safe_def session_value_ok_def)
qed

lemma session_trim_key [simp]:
  "k \<in> {''kind'', ''from'', ''team'', ''session_id'', ''to'', ''note'', ''payload_type'', ''payload_name'',
        ''files'', ''total_bytes''} \<Longrightarrow> session_trim k = k \<and> CHR ''='' \<notin> set k \<and> newline \<notin> set k"
  by (auto simp: session_trim_def strip_back_def strip_front_def)

lemma session_keys_known:
  "session_pair_ok k v \<Longrightarrow> k \<in> {''kind'', ''from'', ''team'', ''session_id'', ''to'', ''note'',
     ''payload_type'', ''payload_name'', ''files'', ''total_bytes''}"
  by (auto simp: session_pair_ok_def session_text_keys_def)

interpretation session_lines: keyed_lines parse_message_line session_assign session_pair_ok
proof unfold_locales
  fix k v m
  assume ok: "session_pair_ok k v"
  note key = session_trim_key [OF session_keys_known [OF ok]]
  show "newline \<notin> set k \<and> line_safe v"
    using key ok by (auto simp: session_pair_ok_def intro: session_value_ok_safe)
  have "split_at CHR ''='' (k @ ''='' @ v) = Some (k, v)"
    using key split_at_append [of "CHR ''=''" k v] by simp
  moreover have "session_trim v = v" using ok by (simp add: session_pair_ok_def)
  ultimately have "\<exists>m'. parse_message_line (k @ ''='' @ v) m = Inr m'"
    using ok session_keys_known [OF ok] key
    by (auto simp: parse_message_line_def parse_line_def Let_def session_pair_ok_def session_text_keys_def)
  then show "parse_message_line (k @ ''='' @ v) m = Inr (session_assign k v m)"
    by (auto simp: session_assign_def)
qed

lemma parse_line_pair:
  "k \<in> {''kind'', ''from'', ''team'', ''session_id'', ''to'', ''note'', ''payload_type'', ''payload_name'',
        ''files'', ''total_bytes''} \<Longrightarrow> session_value_ok v \<Longrightarrow> split_at CHR ''='' (k @ ''='' @ v) = Some (k, v)"
  using split_at_append [of "CHR ''=''" k v] by (auto dest: session_trim_key)

text \<open>What each assignment does to the message.\<close>

lemma session_assign_simps:
  "session_assign ''kind'' (session_kind_to_string k) m = m\<lparr>sm_kind := k\<rparr>"
  "session_value_ok v \<Longrightarrow> session_assign ''from'' v m = m\<lparr>sm_from_name := v\<rparr>"
  "session_value_ok v \<Longrightarrow> session_assign ''team'' v m = m\<lparr>sm_team := v\<rparr>"
  "session_value_ok v \<Longrightarrow> session_assign ''session_id'' v m = m\<lparr>sm_session_id := v\<rparr>"
  "session_value_ok v \<Longrightarrow> session_assign ''to'' v m = m\<lparr>sm_to_name := v\<rparr>"
  "session_value_ok v \<Longrightarrow> session_assign ''note'' v m = m\<lparr>sm_note := v\<rparr>"
  "session_value_ok v \<Longrightarrow> session_assign ''payload_type'' v m = m\<lparr>sm_payload_type := v\<rparr>"
  "session_value_ok v \<Longrightarrow> session_assign ''payload_name'' v m = m\<lparr>sm_payload_name := v\<rparr>"
proof -
  have kind: "session_value_ok (session_kind_to_string k)"
    by (cases k) (simp_all add: session_value_ok_def session_kind_to_string_def session_trim_def
        strip_back_def strip_front_def)
  note defs = session_assign_def parse_message_line_def parse_line_def Let_def
  show "session_assign ''kind'' (session_kind_to_string k) m = m\<lparr>sm_kind := k\<rparr>"
    using parse_line_pair [of "''kind''", OF _ kind] kind by (simp add: defs)
  show "session_value_ok v \<Longrightarrow> session_assign ''from'' v m = m\<lparr>sm_from_name := v\<rparr>"
    using parse_line_pair [of "''from''" v] by (simp add: defs)
  show "session_value_ok v \<Longrightarrow> session_assign ''team'' v m = m\<lparr>sm_team := v\<rparr>"
    using parse_line_pair [of "''team''" v] by (simp add: defs)
  show "session_value_ok v \<Longrightarrow> session_assign ''session_id'' v m = m\<lparr>sm_session_id := v\<rparr>"
    using parse_line_pair [of "''session_id''" v] by (simp add: defs)
  show "session_value_ok v \<Longrightarrow> session_assign ''to'' v m = m\<lparr>sm_to_name := v\<rparr>"
    using parse_line_pair [of "''to''" v] by (simp add: defs)
  show "session_value_ok v \<Longrightarrow> session_assign ''note'' v m = m\<lparr>sm_note := v\<rparr>"
    using parse_line_pair [of "''note''" v] by (simp add: defs)
  show "session_value_ok v \<Longrightarrow> session_assign ''payload_type'' v m = m\<lparr>sm_payload_type := v\<rparr>"
    using parse_line_pair [of "''payload_type''" v] by (simp add: defs)
  show "session_value_ok v \<Longrightarrow> session_assign ''payload_name'' v m = m\<lparr>sm_payload_name := v\<rparr>"
    using parse_line_pair [of "''payload_name''" v] by (simp add: defs)
qed

lemma session_value_ok_show_nat [simp]: "session_value_ok (show_nat n)"
proof -
  have "c \<noteq> newline \<and> c \<noteq> carriage_return \<and> c \<noteq> CHR '' ''" if "c \<in> set (show_nat n)" for c
    using that show_nat_digits digit_not_special by (auto simp: is_space_def)
  then have "\<not> (last (show_nat n) = carriage_return \<or> last (show_nat n) = newline \<or> last (show_nat n) = CHR '' '')"
    "hd (show_nat n) \<noteq> CHR '' ''" "newline \<notin> set (show_nat n)" by auto
  then show ?thesis by (simp add: session_value_ok_def session_trim_def strip_back_id strip_front_id)
qed

lemma ucast_u32_u64 [simp]: "ucast (ucast (w :: u32) :: u64) = w"
  by (rule bit_word_eqI) (simp add: bit_unsigned_iff)

lemma session_assign_numbers:
  "session_assign ''files'' (show_nat (unat (w :: u32))) m = m\<lparr>sm_file_count := w\<rparr>"
  "session_assign ''total_bytes'' (show_nat (unat (b :: u64))) m = m\<lparr>sm_total_bytes := b\<rparr>"
proof -
  have "unat w < 2 ^ 64" using unsigned_less [of w, where ?'a = nat] by simp
  then have "stoull (show_nat (unat w)) = Inr (of_nat (unat w))" by (rule stoull_show_nat)
  then show "session_assign ''files'' (show_nat (unat w)) m = m\<lparr>sm_file_count := w\<rparr>"
    using parse_line_pair [of "''files''" "show_nat (unat w)"]
    by (simp add: session_assign_def parse_message_line_def parse_line_def Let_def)
  show "session_assign ''total_bytes'' (show_nat (unat b)) m = m\<lparr>sm_total_bytes := b\<rparr>"
    using parse_line_pair [of "''total_bytes''" "show_nat (unat b)"] stoull_show_word [of b]
    by (simp add: session_assign_def parse_message_line_def parse_line_def Let_def)
qed

section \<open>Properties\<close>

text \<open>The messages the codec can carry: single-line fields without blanks at the ends.\<close>

definition sendable :: "fabric_session_message \<Rightarrow> bool" where
  "sendable m \<longleftrightarrow> sm_kind m \<noteq> Kind_Unknown \<and> sm_session_id m \<noteq> []
     \<and> list_all session_value_ok [sm_from_name m, sm_team m, sm_session_id m, sm_to_name m,
         sm_note m, sm_payload_type m, sm_payload_name m]"

lemma ball_optional: "(\<forall>x \<in> set (if c then [a] else []). P x) = (c \<longrightarrow> P a)"
  by simp

lemma session_pair_ok_simps:
  "session_pair_ok ''kind'' v = session_value_ok v"
  "k \<in> set session_text_keys \<Longrightarrow> session_pair_ok k v = session_value_ok v"
  "session_value_ok v \<Longrightarrow> stoull v = Inr w \<Longrightarrow> session_pair_ok ''files'' v"
  "session_value_ok v \<Longrightarrow> stoull v = Inr w \<Longrightarrow> session_pair_ok ''total_bytes'' v"
  by (auto simp: session_pair_ok_def)

lemma session_value_ok_kind [simp]: "session_value_ok (session_kind_to_string k)"
  by (cases k) (simp_all add: session_value_ok_def session_kind_to_string_def
      session_trim_def strip_back_def strip_front_def)

lemma session_fields_ok: "sendable m \<Longrightarrow> \<forall>(k, v) \<in> set (session_fields m). session_pair_ok k v"
proof -
  assume m: "sendable m"
  have f: "session_pair_ok ''files'' (show_nat (unat (sm_file_count m)))"
    using unsigned_less [of "sm_file_count m", where ?'a = nat]
    by (intro session_pair_ok_simps(3) [OF _ stoull_show_nat]) simp_all
  have t: "session_pair_ok ''total_bytes'' (show_nat (unat (sm_total_bytes m)))"
    by (rule session_pair_ok_simps(4) [OF _ stoull_show_word]) simp
  have k: "k \<in> set session_text_keys \<Longrightarrow> session_value_ok v \<Longrightarrow> session_pair_ok k v" for k v
    by (simp add: session_pair_ok_simps)
  show ?thesis
    unfolding session_fields_def set_append ball_Un ball_optional
    using m by (simp add: sendable_def f t k session_pair_ok_simps(1) session_text_keys_def)
qed

text \<open>Each optional field is either written and read, or absent and left at its default.\<close>

lemma fold_optional: "fold g (if c then [a] else []) r = (if c then g a r else r)"
  by simp

lemma session_assign_optional:
  "sm_to_name r = [] \<Longrightarrow> session_value_ok v \<Longrightarrow>
     (if v \<noteq> [] then session_assign ''to'' v r else r) = r\<lparr>sm_to_name := v\<rparr>"
  "sm_note r = [] \<Longrightarrow> session_value_ok v \<Longrightarrow>
     (if v \<noteq> [] then session_assign ''note'' v r else r) = r\<lparr>sm_note := v\<rparr>"
  "sm_payload_type r = [] \<Longrightarrow> session_value_ok v \<Longrightarrow>
     (if v \<noteq> [] then session_assign ''payload_type'' v r else r) = r\<lparr>sm_payload_type := v\<rparr>"
  "sm_payload_name r = [] \<Longrightarrow> session_value_ok v \<Longrightarrow>
     (if v \<noteq> [] then session_assign ''payload_name'' v r else r) = r\<lparr>sm_payload_name := v\<rparr>"
  "sm_file_count r = 0 \<Longrightarrow>
     (if 0 < w then session_assign ''files'' (show_nat (unat w)) r else r) = r\<lparr>sm_file_count := w\<rparr>"
  "sm_total_bytes r = 0 \<Longrightarrow>
     (if 0 < b then session_assign ''total_bytes'' (show_nat (unat b)) r else r) = r\<lparr>sm_total_bytes := b\<rparr>"
  by (cases r; simp add: session_assign_simps session_assign_numbers word_gt_0)+

lemma session_fields_fold:
  assumes "sendable m"
  shows "fold (\<lambda>(k, v). session_assign k v) (session_fields m) empty_session_message = m"
  unfolding session_fields_def fold_append o_apply fold_optional prod.case
  using assms by (simp add: sendable_def session_assign_simps session_assign_optional
      empty_session_message_def)

lemma parse_sent:
  assumes "sendable m"
  shows "parse_session_payload (session_payload m) old = Inr (True, m)"
proof -
  have "line_loop parse_message_line (getlines (render_lines (session_fields m))) empty_session_message = Inr m"
    using session_lines.read_rendered [OF session_fields_ok [OF assms]] session_fields_fold [OF assms] by simp
  then show ?thesis using assms by (simp add: parse_session_payload_def session_payload_def sendable_def)
qed

lemma read_sent_file:
  assumes "sendable m" and "read_file path fs = Some (session_payload m)"
  shows "read_session_file path fs old = Inr (True, m)"
  using parse_sent [OF assms(1)] assms(2) by (simp add: read_session_file_def)

text \<open>
  C15: a session message whose fields are single lines without blanks at the ends is read
  back exactly as it was written, with the reader reporting success, whatever was in the
  reader's output before.
\<close>

theorem session_payload_roundtrip:
  assumes "sendable m"
  shows "parse_session_payload (session_payload m) old = Inr (True, m)"
  using parse_sent [OF assms] .

definition sample_offer :: fabric_session_message where
  "sample_offer = \<lparr>sm_kind = Kind_Offer, sm_from_name = ''Bob'', sm_team = ''Red'',
     sm_session_id = ''00ff'', sm_to_name = ''Al'', sm_note = [], sm_payload_type = ''file'',
     sm_payload_name = ''a.bin'', sm_file_count = 1, sm_total_bytes = 70\<rparr>"

lemma sendable_sample_offer: "sendable sample_offer"
  by (simp add: sendable_def sample_offer_def session_value_ok_def session_trim_def
      strip_back_def strip_front_def)

lemma session_payload_roundtrip_witness:
  "parse_session_payload (session_payload sample_offer) empty_session_message = Inr (True, sample_offer)"
  by (rule session_payload_roundtrip [OF sendable_sample_offer])

text \<open>
  Sent through temporary files, the message that the listener reads from the file
  written by the sender is the message that was sent, when the temporary file could be
  created.
\<close>

theorem session_file_roundtrip:
  assumes "sendable m" and "write_session_temp_file tmp rng m fs = (path, fs')" and "path \<noteq> []"
  shows "read_session_file path fs' old = Inr (True, m)"
proof -
  have "write_temp_text_file tmp rng ''slsfabric-session-'' (session_payload m) fs = (path, fs')"
    using assms by (simp add: write_session_temp_file_def sendable_def)
  from read_sent_file [OF assms(1) temp_files.write_temp_read [OF this assms(3)]] show ?thesis .
qed

definition sample_store :: file_system where
  "sample_store = \<lparr>fs_entries = [(''/tmp'', Directory)], fs_denied = (\<lambda>_. False), fs_room = (\<lambda>_. None)\<rparr>"

lemma sample_store_write:
  "fst (write_session_temp_file ''/tmp'' (\<lambda>_. (1, 2)) sample_offer sample_store)
     = ''/tmp/slsfabric-session-12''"
  by code_simp

lemma session_file_roundtrip_witness:
  "read_session_file ''/tmp/slsfabric-session-12''
     (snd (write_session_temp_file ''/tmp'' (\<lambda>_. (1, 2)) sample_offer sample_store)) empty_session_message
   = Inr (True, sample_offer)"
  by (rule session_file_roundtrip [OF sendable_sample_offer, of "''/tmp''" "\<lambda>_. (1, 2)" sample_store])
    (simp_all add: prod_eq_iff sample_store_write)

text \<open>
  A message file with a known header and a \<open>files\<close> line whose value has no digits makes
  the reader throw: the exception is not turned into the failure result. The reader runs on
  the listener thread, which has no handler, so such a message ends the receiving program.
\<close>

theorem bad_file_count_throws:
  assumes "session_value_ok v" and "strtol 10 v = None"
  shows "parse_session_payload (kSessionHeader @ ''files='' @ v @ [newline] @ rest) old = Inl Invalid_argument"
proof -
  have safe: "line_safe v" by (rule session_value_ok_safe [OF assms(1)])
  have "newline \<notin> set (''files='' @ v)" using safe by (simp add: line_safe_def)
  from getlines_line [OF this, of rest]
  have lines: "getlines (''files='' @ v @ [newline] @ rest) = (''files='' @ v) # getlines rest" by simp
  have cr: "drop_cr (''files='' @ v) = ''files='' @ v"
    using safe by (cases v rule: rev_cases) (auto simp: line_safe_def drop_cr_def)
  have "stoull v = Inl Invalid_argument"
    using assms(2) by (simp add: stoull_def stoull_base_def)
  moreover have "split_at CHR ''='' (''files'' @ ''='' @ v) = Some (''files'', v)"
    using parse_line_pair [OF _ assms(1), of "''files''"] by simp
  ultimately have "parse_message_line (''files='' @ v) m = Inl Invalid_argument" for m
    using assms(1) by (simp add: parse_message_line_def parse_line_def Let_def)
  with cr have "line_loop parse_message_line ((''files='' @ v) # getlines rest) m = Inl Invalid_argument" for m
    by (simp add: Let_def)
  with lines show ?thesis by (simp add: parse_session_payload_def del: append_Cons)
qed

lemma bad_file_count_throws_witness:
  "parse_session_payload (kSessionHeader @ ''files='' @ ''many'' @ [newline] @ []) empty_session_message
     = Inl Invalid_argument"
  by (rule bad_file_count_throws)
    (simp_all add: session_value_ok_def session_trim_def strip_back_def strip_front_def strtol_def
      is_space_def skip_sign_def digit_val_def Let_def)

end
