(* ===== verification/Usb_Device.thy ===== *)
theory Usb_Device
  imports Usb_Wire "HOL-Library.Multiset"
begin

text \<open>
  Finding and opening fabric devices: \<open>core/src/usb_transfer_core.cpp\<close>.

  libusb, the clock and the kernel are not code of the repository. They are the fields of
  \<open>usb_env\<close>, functions on an environment state of any type \<open>'u\<close>: each call of the code is
  one application, in the order of the code, and what the call changes outside is in the
  returned state. A device handle is the device it was opened on.
\<close>

section \<open>The environment\<close>

record libusb_device =
  ld_bus :: u8
  ld_addr :: u8
  ld_descriptor :: "(16 word \<times> 16 word \<times> u8) option"

text \<open>A completed transfer: its slot, status, actual length and, for a read, the bytes.\<close>

record completion =
  cp_slot :: nat
  cp_status :: int
  cp_actual :: nat
  cp_data :: string

record 'u usb_env =
  ue_ctx :: bool
  ue_get_device_list :: "'u \<Rightarrow> libusb_device list option \<times> 'u"
  ue_open :: "libusb_device \<Rightarrow> 'u \<Rightarrow> int \<times> 'u"
  ue_sleep :: "int \<Rightarrow> 'u \<Rightarrow> 'u"
  ue_kernel_driver_active :: "libusb_device \<Rightarrow> 'u \<Rightarrow> int \<times> 'u"
  ue_detach_kernel_driver :: "libusb_device \<Rightarrow> 'u \<Rightarrow> 'u"
  ue_claim_interface :: "libusb_device \<Rightarrow> 'u \<Rightarrow> int \<times> 'u"
  ue_release_interface :: "libusb_device \<Rightarrow> 'u \<Rightarrow> 'u"
  ue_close :: "libusb_device \<Rightarrow> 'u \<Rightarrow> 'u"
  ue_clear_halt :: "libusb_device \<Rightarrow> u8 \<Rightarrow> 'u \<Rightarrow> 'u"
  ue_string_descriptor :: "libusb_device \<Rightarrow> u8 \<Rightarrow> 'u \<Rightarrow> string \<times> 'u"
  ue_bulk_out :: "libusb_device \<Rightarrow> string \<Rightarrow> int \<Rightarrow> 'u \<Rightarrow> (int \<times> nat) \<times> 'u"
  ue_bulk_in :: "libusb_device \<Rightarrow> nat \<Rightarrow> int \<Rightarrow> 'u \<Rightarrow> (int \<times> string) \<times> 'u"
  ue_submit_out :: "libusb_device \<Rightarrow> nat \<Rightarrow> string \<Rightarrow> int \<Rightarrow> 'u \<Rightarrow> int \<times> 'u"
  ue_cancel :: "nat \<Rightarrow> 'u \<Rightarrow> 'u"
  ue_handle_events :: "'u \<Rightarrow> completion list \<times> 'u"
  ue_now :: "'u \<Rightarrow> int \<times> 'u"
  ue_strerror :: "int \<Rightarrow> string"

definition kEndpointDataOut :: u8 where "kEndpointDataOut = 0x02"
definition kEndpointDataIn :: u8 where "kEndpointDataIn = 0x81"

section \<open>Listing\<close>

datatype fabric_usb_device = Fabric_usb_device (fd_bus: u8) (fd_addr: u8)

lemma fabric_usb_device_eq: "a = b \<longleftrightarrow> fd_bus a = fd_bus b \<and> fd_addr a = fd_addr b"
  by (cases a; cases b) simp

text \<open>The comparator of \<open>std::sort\<close>: by bus, then by address.\<close>

definition sorted_before :: "fabric_usb_device \<Rightarrow> fabric_usb_device \<Rightarrow> bool" where
  "sorted_before a b \<longleftrightarrow> (if fd_bus a \<noteq> fd_bus b then fd_bus a < fd_bus b else fd_addr a < fd_addr b)"

instantiation fabric_usb_device :: linorder
begin

definition less_fabric_usb_device :: "fabric_usb_device \<Rightarrow> fabric_usb_device \<Rightarrow> bool" where
  "less_fabric_usb_device a b \<longleftrightarrow> sorted_before a b"

definition less_eq_fabric_usb_device :: "fabric_usb_device \<Rightarrow> fabric_usb_device \<Rightarrow> bool" where
  "less_eq_fabric_usb_device a b \<longleftrightarrow> sorted_before a b \<or> a = b"

instance
  by standard
    (auto simp: less_eq_fabric_usb_device_def less_fabric_usb_device_def sorted_before_def fabric_usb_device_eq split: if_splits)

end

definition is_fabric :: "libusb_device \<Rightarrow> bool" where
  "is_fabric d = (case ld_descriptor d of
       None \<Rightarrow> False | Some (vendor, product, _) \<Rightarrow> vendor = kVendorId \<and> product = kProductId)"

definition fabric_id :: "libusb_device \<Rightarrow> fabric_usb_device" where
  "fabric_id d = Fabric_usb_device (ld_bus d) (ld_addr d)"

definition list_fabric_devices :: "'u usb_env \<Rightarrow> 'u \<Rightarrow> fabric_usb_device list \<times> 'u" where
  "list_fabric_devices env u = (case ue_get_device_list env u of
       (None, u') \<Rightarrow> ([], u')
     | (Some ds, u') \<Rightarrow> (sort (map fabric_id (filter is_fabric ds)), u'))"

definition count_fabric_devices :: "'u usb_env \<Rightarrow> 'u \<Rightarrow> int \<times> 'u" where
  "count_fabric_devices env u = (let (ds, u') = list_fabric_devices env u in (int (length ds), u'))"

section \<open>Opening\<close>

text \<open>At most \<open>n\<close> attempts; only a busy device is tried again, after a pause.\<close>

fun try_open :: "'u usb_env \<Rightarrow> libusb_device \<Rightarrow> nat \<Rightarrow> 'u \<Rightarrow> int \<times> 'u" where
  "try_open env dev 0 u = (LIBUSB_ERROR_OTHER, u)"
| "try_open env dev (Suc n) u = (let (rc, u1) = ue_open env dev u
     in if rc = LIBUSB_SUCCESS then (rc, u1)
        else if rc = LIBUSB_ERROR_BUSY \<and> 0 < n then try_open env dev n (ue_sleep env 250 u1)
        else (rc, u1))"

definition open_error :: "int \<Rightarrow> string" where
  "open_error rc =
     (if rc = LIBUSB_ERROR_ACCESS
      then ''USB permission denied. Run once: ./scripts/setup-usb-access.sh (then unplug/replug the cable)''
      else if rc = LIBUSB_ERROR_BUSY
      then ''USB device busy (another app may be using this cable). Close other RocketBox windows and retry.''
      else ''USB open failed, status='' @ show_int rc)"

text \<open>A left value is the null handle with the error text.\<close>

definition open_device_by_index :: "'u usb_env \<Rightarrow> int \<Rightarrow> nat \<Rightarrow> 'u \<Rightarrow> (string + libusb_device) \<times> 'u" where
  "open_device_by_index env index max_open_attempts u =
     (let (devices, u1) = list_fabric_devices env u
      in if index < 0 \<or> int (length devices) \<le> index
         then (Inl (''Could not open USB device at port index '' @ show_int index @ '' (found ''
                 @ show_nat (length devices) @ '' fabric device(s))''), u1)
         else let target = devices ! nat index
           in case ue_get_device_list env u1 of
               (None, u2) \<Rightarrow> (Inl ''Could not enumerate USB devices'', u2)
             | (Some list, u2) \<Rightarrow> (case find (\<lambda>d. ld_bus d = fd_bus target \<and> ld_addr d = fd_addr target) list of
                 None \<Rightarrow> (Inl (''Fabric device at port index '' @ show_int index @ '' is no longer connected''), u2)
               | Some dev \<Rightarrow>
                   let (rc, u3) = try_open env dev max_open_attempts u2
                   in if rc \<noteq> LIBUSB_SUCCESS then (Inl (open_error rc), u3)
                      else let (active, u4) = ue_kernel_driver_active env dev u3;
                               u5 = (if active = 1 then ue_detach_kernel_driver env dev u4 else u4);
                               (claim_rc, u6) = ue_claim_interface env dev u5
                        in if claim_rc \<noteq> LIBUSB_SUCCESS
                           then (Inl ''Could not claim USB interface'', ue_close env dev u6)
                           else (Inr dev, ue_clear_halt env dev kEndpointDataIn
                                  (ue_clear_halt env dev kEndpointDataOut u6))))"

definition close_device :: "'u usb_env \<Rightarrow> libusb_device option \<Rightarrow> 'u \<Rightarrow> 'u" where
  "close_device env handle u = (case handle of
       None \<Rightarrow> u | Some dev \<Rightarrow> ue_close env dev (ue_release_interface env dev u))"

definition fabric_port_available :: "'u usb_env \<Rightarrow> int \<Rightarrow> 'u \<Rightarrow> bool \<times> 'u" where
  "fabric_port_available env port_index u =
     (if \<not> ue_ctx env \<or> port_index < 0 then (False, u)
      else case open_device_by_index env port_index 1 u of
          (Inl _, u1) \<Rightarrow> (False, u1)
        | (Inr dev, u1) \<Rightarrow> (True, ue_close env dev (ue_release_interface env dev u1)))"

text \<open>The search for the first port that can be opened.\<close>

fun first_available :: "'u usb_env \<Rightarrow> int \<Rightarrow> nat \<Rightarrow> 'u \<Rightarrow> int \<times> 'u" where
  "first_available env index 0 u = (0, u)"
| "first_available env index (Suc n) u = (let (ok, u1) = fabric_port_available env index u
     in if ok then (index, u1) else first_available env (index + 1) n u1)"

definition resolve_fabric_port_index :: "'u usb_env \<Rightarrow> 'u \<Rightarrow> int \<times> 'u" where
  "resolve_fabric_port_index env u =
     (let (devices, u1) = list_fabric_devices env u
      in if devices = [] then (- 1, u1)
         else if length devices = 1 then (0, u1)
         else first_available env 0 (length devices) u1)"

section \<open>Looking a device up without opening it\<close>

text \<open>The loop that counts matching devices in the order of the enumeration.\<close>

definition nth_fabric :: "int \<Rightarrow> libusb_device list \<Rightarrow> libusb_device option" where
  "nth_fabric port_index ds = (let fs = filter is_fabric ds
     in if 0 \<le> port_index \<and> port_index < int (length fs) then Some (fs ! nat port_index) else None)"

definition fabric_device_bus_addr :: "'u usb_env \<Rightarrow> int \<Rightarrow> 'u \<Rightarrow> (u8 \<times> u8) option \<times> 'u" where
  "fabric_device_bus_addr env port_index u = (case ue_get_device_list env u of
       (None, u1) \<Rightarrow> (None, u1)
     | (Some ds, u1) \<Rightarrow> (map_option (\<lambda>d. (ld_bus d, ld_addr d)) (nth_fabric port_index ds), u1))"

definition fabric_device_serial :: "'u usb_env \<Rightarrow> int \<Rightarrow> 'u \<Rightarrow> string \<times> 'u" where
  "fabric_device_serial env port_index u =
     (if \<not> ue_ctx env \<or> port_index < 0 then ([], u)
      else case ue_get_device_list env u of
          (None, u1) \<Rightarrow> ([], u1)
        | (Some ds, u1) \<Rightarrow> (case nth_fabric port_index ds of
            None \<Rightarrow> ([], u1)
          | Some dev \<Rightarrow> let (rc, u2) = ue_open env dev u1
              in if rc \<noteq> LIBUSB_SUCCESS then ([], u2)
                 else case ld_descriptor dev of
                     Some (_, _, serial) \<Rightarrow>
                       if serial \<noteq> 0
                       then let (s, u3) = ue_string_descriptor env dev serial u2 in (s, ue_close env dev u3)
                       else ([], ue_close env dev u2)
                   | None \<Rightarrow> ([], ue_close env dev u2)))"

section \<open>Facts\<close>

lemma list_fabric_devices_sorted: "sorted (fst (list_fabric_devices env u))"
  by (auto simp: list_fabric_devices_def split: prod.splits option.splits)

lemma list_fabric_devices_set:
  "fst (ue_get_device_list env u) = Some ds \<Longrightarrow> mset (fst (list_fabric_devices env u)) = mset (map fabric_id (filter is_fabric ds))"
  by (cases "ue_get_device_list env u") (simp add: list_fabric_devices_def)

lemma try_open_success: "try_open env dev n u = (rc, u') \<Longrightarrow> n = 0 \<Longrightarrow> rc \<noteq> LIBUSB_SUCCESS"
  by (simp add: LIBUSB_ERROR_OTHER_def LIBUSB_SUCCESS_def)

text \<open>
  How many handles an environment holds: libusb documents that a successful open yields
  one, that a failed open yields none and that a close gives one back; no other call counts.
\<close>

definition counts_handles :: "'u usb_env \<Rightarrow> ('u \<Rightarrow> int) \<Rightarrow> bool" where
  "counts_handles env held \<longleftrightarrow>
     (\<forall>d u. held (snd (ue_open env d u)) = held u + (if fst (ue_open env d u) = LIBUSB_SUCCESS then 1 else 0))
     \<and> (\<forall>d u. held (ue_close env d u) = held u - 1)
     \<and> (\<forall>u. held (snd (ue_get_device_list env u)) = held u) \<and> (\<forall>t u. held (ue_sleep env t u) = held u)
     \<and> (\<forall>d u. held (snd (ue_kernel_driver_active env d u)) = held u)
     \<and> (\<forall>d u. held (ue_detach_kernel_driver env d u) = held u)
     \<and> (\<forall>d u. held (snd (ue_claim_interface env d u)) = held u)
     \<and> (\<forall>d u. held (ue_release_interface env d u) = held u)
     \<and> (\<forall>d e u. held (ue_clear_halt env d e u) = held u)
     \<and> (\<forall>d i u. held (snd (ue_string_descriptor env d i u)) = held u)"

lemma counts_handlesD:
  assumes "counts_handles env held"
  shows "ue_open env d u = (rc, u') \<Longrightarrow> held u' = held u + (if rc = LIBUSB_SUCCESS then 1 else 0)"
    and "held (ue_close env d u) = held u - 1"
    and "ue_get_device_list env u = (l, u') \<Longrightarrow> held u' = held u"
    and "held (ue_sleep env t u) = held u"
    and "ue_kernel_driver_active env d u = (a, u') \<Longrightarrow> held u' = held u"
    and "held (ue_detach_kernel_driver env d u) = held u"
    and "ue_claim_interface env d u = (rc, u') \<Longrightarrow> held u' = held u"
    and "held (ue_release_interface env d u) = held u"
    and "held (ue_clear_halt env d e u) = held u"
    and "ue_string_descriptor env d i u = (s, u') \<Longrightarrow> held u' = held u"
  using assms unfolding counts_handles_def by (metis fst_conv snd_conv)+

lemma try_open_handles:
  assumes "counts_handles env held" and "try_open env dev n u = (rc, u')"
  shows "held u' = held u + (if rc = LIBUSB_SUCCESS then 1 else 0)"
  using assms(2)
proof (induction n arbitrary: u)
  case 0
  then show ?case by (auto simp: LIBUSB_ERROR_OTHER_def LIBUSB_SUCCESS_def)
next
  case (Suc n)
  obtain rc1 u1 where o: "ue_open env dev u = (rc1, u1)" by fastforce
  note h = counts_handlesD(1) [OF assms(1) o]
  show ?case
    using Suc.prems Suc.IH [of "ue_sleep env 250 u1"] h counts_handlesD(4) [OF assms(1), of 250 u1]
    by (auto simp: o LIBUSB_SUCCESS_def LIBUSB_ERROR_BUSY_def split: if_splits)
qed

lemma list_fabric_devices_handles:
  "counts_handles env held \<Longrightarrow> list_fabric_devices env u = (ds, u') \<Longrightarrow> held u' = held u"
  by (auto simp: list_fabric_devices_def split: prod.splits option.splits dest: counts_handlesD(3))

section \<open>Properties\<close>

text \<open>
  C34: opening never leaks a handle. Whatever libusb answers, a failed open holds as many
  handles after as before, and a successful one holds exactly one more.
\<close>

theorem open_device_no_leak:
  assumes "counts_handles env held" and "open_device_by_index env index n u = (r, u')"
  shows "held u' = held u + (case r of Inl _ \<Rightarrow> 0 | Inr _ \<Rightarrow> 1)"
proof -
  note d = counts_handlesD [OF assms(1)]
  obtain ds u1 where l: "list_fabric_devices env u = (ds, u1)" by fastforce
  note h1 = list_fabric_devices_handles [OF assms(1) l]
  obtain lo u2 where g: "ue_get_device_list env u1 = (lo, u2)" by fastforce
  note h2 = d(3) [OF g]
  show ?thesis
  proof (cases "index < 0 \<or> int (length ds) \<le> index")
    case True
    with assms(2) h1 show ?thesis by (auto simp: open_device_by_index_def l)
  next
    case False
    show ?thesis
    proof (cases "\<exists>list dev. lo = Some list
        \<and> find (\<lambda>d. ld_bus d = fd_bus (ds ! nat index) \<and> ld_addr d = fd_addr (ds ! nat index)) list = Some dev")
      case False
      with assms(2) \<open>\<not> (index < 0 \<or> int (length ds) \<le> index)\<close> h1 h2 show ?thesis
        by (auto simp: open_device_by_index_def l g Let_def split: option.splits)
    next
      case True
      then obtain list dev where f: "lo = Some list"
        "find (\<lambda>d. ld_bus d = fd_bus (ds ! nat index) \<and> ld_addr d = fd_addr (ds ! nat index)) list = Some dev" by blast
      obtain rc u3 where o: "try_open env dev n u2 = (rc, u3)" by fastforce
      note h3 = try_open_handles [OF assms(1) o]
      obtain a u4 where k: "ue_kernel_driver_active env dev u3 = (a, u4)" by fastforce
      note h4 = d(5) [OF k]
      let ?u5 = "if a = 1 then ue_detach_kernel_driver env dev u4 else u4"
      obtain c u6 where cl: "ue_claim_interface env dev ?u5 = (c, u6)" by fastforce
      have h6: "held u6 = held u4" using d(7) [OF cl] d(6) by simp
      show ?thesis
        using assms(2) \<open>\<not> (index < 0 \<or> int (length ds) \<le> index)\<close> h1 h2 h3 h4 h6 d(2,9)
        by (auto simp: open_device_by_index_def l g f o k cl Let_def split: if_splits)
    qed
  qed
qed

text \<open>A fixed set of devices; the state counts the open handles.\<close>

definition static_env :: "libusb_device list \<Rightarrow> (libusb_device \<Rightarrow> int) \<Rightarrow> int usb_env" where
  "static_env ds open_rc = \<lparr>ue_ctx = True, ue_get_device_list = (\<lambda>u. (Some ds, u)),
     ue_open = (\<lambda>d u. (open_rc d, if open_rc d = 0 then u + 1 else u)), ue_sleep = (\<lambda>_ u. u),
     ue_kernel_driver_active = (\<lambda>_ u. (0, u)), ue_detach_kernel_driver = (\<lambda>_ u. u),
     ue_claim_interface = (\<lambda>_ u. (0, u)), ue_release_interface = (\<lambda>_ u. u), ue_close = (\<lambda>_ u. u - 1),
     ue_clear_halt = (\<lambda>_ _ u. u), ue_string_descriptor = (\<lambda>_ _ u. ([], u)),
     ue_bulk_out = (\<lambda>_ bs _ u. ((0, length bs), u)), ue_bulk_in = (\<lambda>_ n _ u. ((0, replicate n (CHR 0x00)), u)),
     ue_submit_out = (\<lambda>_ _ _ _ u. (0, u)), ue_cancel = (\<lambda>_ u. u), ue_handle_events = (\<lambda>u. ([], u)),
     ue_now = (\<lambda>u. (0, u)), ue_strerror = (\<lambda>_. ''error'')\<rparr>"

definition sample_device :: "u8 \<Rightarrow> libusb_device" where
  "sample_device a = \<lparr>ld_bus = 1, ld_addr = a, ld_descriptor = Some (kVendorId, kProductId, 0)\<rparr>"

lemma static_env_counts: "counts_handles (static_env ds open_rc) (\<lambda>u. u)"
  by (simp add: counts_handles_def static_env_def LIBUSB_SUCCESS_def)

lemma open_device_no_leak_witness:
  "snd (open_device_by_index (static_env [sample_device 7] (\<lambda>_. 0)) 0 5 0) = 1"
proof -
  have "fst (open_device_by_index (static_env [sample_device 7] (\<lambda>_. 0)) 0 5 0) = Inr (sample_device 7)"
    by code_simp
  then obtain u' where o: "open_device_by_index (static_env [sample_device 7] (\<lambda>_. 0)) 0 5 0 = (Inr (sample_device 7), u')"
    by (metis prod.collapse)
  from open_device_no_leak [OF static_env_counts o] show ?thesis by (simp add: o)
qed

text \<open>
  a port index means the device at that place of the list sorted by bus and address:
  a successful open is on a connected fabric device with the bus and address found there,
  and an index outside the list is an error.
\<close>

theorem open_device_sound:
  assumes "list_fabric_devices env u = (ds, u1)" and "open_device_by_index env index n u = (r, u')"
  shows "(case r of Inr dev \<Rightarrow> 0 \<le> index \<and> index < int (length ds) \<and> fabric_id dev = ds ! nat index
       \<and> (\<exists>list. fst (ue_get_device_list env u1) = Some list \<and> dev \<in> set list)
     | Inl msg \<Rightarrow> msg \<noteq> [])
     \<and> (index \<notin> {0..<int (length ds)} \<longrightarrow> isl r) \<and> sorted ds"
proof -
  have "sorted ds" using list_fabric_devices_sorted [of env u] assms(1) by simp
  moreover have "index \<notin> {0..<int (length ds)} \<longrightarrow> isl r"
    using assms by (auto simp: open_device_by_index_def)
  moreover have "case r of Inr dev \<Rightarrow> 0 \<le> index \<and> index < int (length ds) \<and> fabric_id dev = ds ! nat index
       \<and> (\<exists>list. fst (ue_get_device_list env u1) = Some list \<and> dev \<in> set list)
     | Inl msg \<Rightarrow> msg \<noteq> []"
    using assms(2)
    by (auto simp: open_device_by_index_def assms(1) Let_def open_error_def fabric_id_def
        fabric_usb_device.expand split: if_splits option.splits prod.splits dest!: find_SomeD)
  ultimately show ?thesis by blast
qed

lemma open_device_sound_witness:
  "fst (open_device_by_index (static_env [sample_device 9, sample_device 7] (\<lambda>_. 0)) 0 5 0) = Inr (sample_device 7)
   \<and> fabric_id (sample_device 7) = fst (list_fabric_devices (static_env [sample_device 9, sample_device 7] (\<lambda>_. 0)) 0) ! 0"
proof -
  let ?e = "static_env [sample_device 9, sample_device 7] (\<lambda>_. 0)"
  have o: "fst (open_device_by_index ?e 0 5 0) = Inr (sample_device 7)" by code_simp
  then obtain u' where o': "open_device_by_index ?e 0 5 0 = (Inr (sample_device 7), u')"
    by (metis prod.collapse)
  obtain ds u1 where l: "list_fabric_devices ?e 0 = (ds, u1)" by fastforce
  from open_device_sound [OF l o'] show ?thesis by (simp add: o' l)
qed

text \<open>
  The bus and address reported for an index follow the order of the enumeration instead:
  with the devices enumerated out of order, index 0 opens one device and reports another.
\<close>

lemma bus_addr_order_differs:
  "fst (fabric_device_bus_addr (static_env [sample_device 9, sample_device 7] (\<lambda>_. 0)) 0 0) = Some (1, 9)
   \<and> fst (open_device_by_index (static_env [sample_device 9, sample_device 7] (\<lambda>_. 0)) 0 5 0) = Inr (sample_device 7)"
  by code_simp

text \<open>
  On a sorted enumeration the reported bus and address are those of the device the
  index opens.
\<close>

theorem bus_addr_agrees_when_sorted:
  assumes "fst (ue_get_device_list env u) = Some ds" and "sorted (map fabric_id (filter is_fabric ds))"
  shows "fst (fabric_device_bus_addr env index u) =
    (let l = fst (list_fabric_devices env u)
     in if 0 \<le> index \<and> index < int (length l) then Some (fd_bus (l ! nat index), fd_addr (l ! nat index)) else None)"
proof -
  have l: "fst (list_fabric_devices env u) = map fabric_id (filter is_fabric ds)"
    using assms by (cases "ue_get_device_list env u") (simp add: list_fabric_devices_def sorted_sort_id)
  show ?thesis
    using assms(1) by (auto simp: fabric_device_bus_addr_def nth_fabric_def l Let_def fabric_id_def split: prod.splits)
qed

lemma bus_addr_agrees_when_sorted_witness:
  "fst (fabric_device_bus_addr (static_env [sample_device 7, sample_device 9] (\<lambda>_. 0)) 1 0) = Some (1, 9)"
proof -
  let ?e = "static_env [sample_device 7, sample_device 9] (\<lambda>_. 0)"
  have s: "sorted (map fabric_id (filter is_fabric [sample_device 7, sample_device 9]))" by code_simp
  have e: "fst (ue_get_device_list ?e 0) = Some [sample_device 7, sample_device 9]" by (simp add: static_env_def)
  have l: "fst (list_fabric_devices ?e 0) = [Fabric_usb_device 1 7, Fabric_usb_device 1 9]" by code_simp
  show ?thesis using bus_addr_agrees_when_sorted [OF e s, of 1] by (simp add: l)
qed

lemma first_available_range:
  "0 \<le> index \<Longrightarrow> 0 \<le> fst (first_available env index n u) \<and> fst (first_available env index n u) < max 1 (index + int n)"
proof (induction n arbitrary: index u)
  case 0
  then show ?case by simp
next
  case (Suc n)
  obtain ok u1 where a: "fabric_port_available env index u = (ok, u1)" by fastforce
  show ?case using Suc.IH [of "index + 1" u1] Suc.prems by (auto simp: a)
qed

text \<open>
  The resolved port index is -1 exactly when no fabric device is listed, and otherwise
  a valid index of the list.
\<close>


theorem resolve_port_range:
  "let ds = fst (list_fabric_devices env u); p = fst (resolve_fabric_port_index env u)
   in (p = - 1 \<longleftrightarrow> ds = []) \<and> (ds = [] \<or> 0 \<le> p \<and> p < int (length ds))"
proof -
  obtain ds u1 where l: "list_fabric_devices env u = (ds, u1)" by fastforce
  note r = first_available_range [of 0 env "length ds" u1]
  show ?thesis
  proof (cases "length ds \<le> 1")
    case True
    then show ?thesis by (cases ds) (simp_all add: resolve_fabric_port_index_def l Let_def)
  next
    case False
    then have "ds \<noteq> []" "length ds \<noteq> 1" by auto
    then have "fst (resolve_fabric_port_index env u) = fst (first_available env 0 (length ds) u1)"
      by (simp add: resolve_fabric_port_index_def l)
    with r False \<open>ds \<noteq> []\<close> show ?thesis by (simp add: l Let_def)
  qed
qed

end
