(* ===== verification/Usb_Send.thy ===== *)
theory Usb_Send
  imports Usb_Device
begin

text \<open>
  Sending a file: the bulk helpers and \<open>send_file_core\<close> of
  \<open>core/src/usb_transfer_core.cpp\<close>. The file is kept in flight as up to
  \<open>effective_queue_depth\<close> asynchronous transfers of one chunk each; completions arrive in
  any order and are retired by a scan over the queue.

  Loops whose end depends on the hardware take fuel: \<open>None\<close> means that the fuel ran out.
  \<open>send_terminates\<close> gives fuel that is enough when every wait for outstanding transfers
  completes one. Diagnostics and progress callbacks only observe and are left out.
\<close>

section \<open>Synchronous bulk transfers\<close>

fun bulk_write_all :: "nat \<Rightarrow> 'u usb_env \<Rightarrow> libusb_device \<Rightarrow> string \<Rightarrow> int \<Rightarrow> 'u
    \<Rightarrow> ((string + unit) \<times> 'u) option" where
  "bulk_write_all fuel env handle data timeout_ms u =
     (if data = [] then Some (Inr (), u)
      else case fuel of 0 \<Rightarrow> None
      | Suc n \<Rightarrow> (let ((rc, transferred), u1) = ue_bulk_out env handle (take kChunkSize data) timeout_ms u
          in if rc \<noteq> LIBUSB_SUCCESS then Some (Inl (ue_strerror env rc), u1)
             else bulk_write_all n env handle (drop transferred data) timeout_ms u1))"

declare bulk_write_all.simps [simp del]

section \<open>Transfer queue and state\<close>

record queued_xfr =
  qx_buf :: string
  qx_valid_bytes :: nat
  qx_in_flight :: bool
  qx_completed :: bool
  qx_status :: int
  qx_actual :: nat

definition empty_xfr :: queued_xfr where
  "empty_xfr = \<lparr>qx_buf = [], qx_valid_bytes = 0, qx_in_flight = False, qx_completed = False,
     qx_status = 0, qx_actual = 0\<rparr>"

text \<open>
  The local variables of \<open>send_file_core\<close>. \<open>ss_wire\<close> is not one of them: it records the
  buffers that libusb accepted, in the order of the submissions.
\<close>

record send_state =
  ss_queue :: "queued_xfr list"
  ss_bytes_read :: nat
  ss_bytes_sent :: nat
  ss_active :: int
  ss_disk_done :: bool
  ss_error :: bool
  ss_error_msg :: string
  ss_wire :: "string list"

definition initial_send :: send_state where
  "initial_send = \<lparr>ss_queue = replicate kQueueDepth empty_xfr, ss_bytes_read = 0, ss_bytes_sent = 0,
     ss_active = 0, ss_disk_done = False, ss_error = False, ss_error_msg = [], ss_wire = []\<rparr>"

definition set_xfr :: "nat \<Rightarrow> (queued_xfr \<Rightarrow> queued_xfr) \<Rightarrow> send_state \<Rightarrow> send_state" where
  "set_xfr i f st = st\<lparr>ss_queue := (ss_queue st)[i := f (ss_queue st ! i)]\<rparr>"

text \<open>The callback libusb runs for a completed transfer.\<close>

definition queued_cb :: "completion \<Rightarrow> send_state \<Rightarrow> send_state" where
  "queued_cb c = set_xfr (cp_slot c) (\<lambda>q. q\<lparr>qx_status := cp_status c, qx_actual := cp_actual c,
     qx_completed := True, qx_in_flight := False\<rparr>)"

section \<open>Steps of the transfer\<close>

text \<open>\<open>submit_next\<close>: \<open>disk\<close> are the bytes the file delivers, \<open>file_size\<close> the size at opening.\<close>

definition submit_next :: "'u usb_env \<Rightarrow> libusb_device \<Rightarrow> int \<Rightarrow> string \<Rightarrow> nat \<Rightarrow> nat
    \<Rightarrow> send_state \<times> 'u \<Rightarrow> send_state \<times> 'u" where
  "submit_next env handle timeout_ms disk file_size i = (\<lambda>(st, u).
     if ss_disk_done st then (st, u)
     else let remaining = file_size - ss_bytes_read st
       in if remaining = 0 then (st\<lparr>ss_disk_done := True\<rparr>, u)
          else let data = take (min remaining kChunkSize) (drop (ss_bytes_read st) disk); n = length data
            in if n = 0
               then (st\<lparr>ss_error := True, ss_error_msg := ''Disk read error at byte '' @ show_nat (ss_bytes_read st)\<rparr>, u)
               else let st1 = set_xfr i (\<lambda>q. q\<lparr>qx_buf := data, qx_valid_bytes := n, qx_completed := False,
                          qx_in_flight := True\<rparr>) st;
                        (submit_rc, u1) = ue_submit_out env handle i data timeout_ms u
                 in if submit_rc \<noteq> 0
                    then ((set_xfr i (\<lambda>q. q\<lparr>qx_in_flight := False\<rparr>) st1)\<lparr>ss_error := True,
                        ss_error_msg := ''USB submit failed, rc='' @ show_int submit_rc\<rparr>, u1)
                    else (st1\<lparr>ss_bytes_read := ss_bytes_read st + n,
                        ss_disk_done := (file_size \<le> ss_bytes_read st + n),
                        ss_active := ss_active st + 1, ss_wire := ss_wire st @ [data]\<rparr>, u1))"

text \<open>The first submissions.\<close>

fun prefill :: "'u usb_env \<Rightarrow> libusb_device \<Rightarrow> int \<Rightarrow> string \<Rightarrow> nat \<Rightarrow> nat list
    \<Rightarrow> send_state \<times> 'u \<Rightarrow> send_state \<times> 'u" where
  "prefill env handle timeout_ms disk file_size [] s = s"
| "prefill env handle timeout_ms disk file_size (i # is) s =
     (if ss_disk_done (fst s) \<or> ss_error (fst s) then s
      else prefill env handle timeout_ms disk file_size is (submit_next env handle timeout_ms disk file_size i s))"

text \<open>The scan over the queue after an event wait; a failed transfer ends it.\<close>

fun scan_queue :: "'u usb_env \<Rightarrow> libusb_device \<Rightarrow> int \<Rightarrow> string \<Rightarrow> nat \<Rightarrow> nat list
    \<Rightarrow> send_state \<times> 'u \<Rightarrow> send_state \<times> 'u" where
  "scan_queue env handle timeout_ms disk file_size [] s = s"
| "scan_queue env handle timeout_ms disk file_size (i # is) (st, u) =
     (let q = ss_queue st ! i
      in if \<not> qx_completed q then scan_queue env handle timeout_ms disk file_size is (st, u)
         else let st1 = (set_xfr i (\<lambda>q. q\<lparr>qx_completed := False\<rparr>) st)\<lparr>ss_active := ss_active st - 1\<rparr>
           in if qx_status q \<noteq> LIBUSB_TRANSFER_COMPLETED
              then (st1\<lparr>ss_error := True, ss_error_msg := ''USB transfer failed, status='' @ show_int (qx_status q)\<rparr>, u)
              else let st2 = st1\<lparr>ss_bytes_sent := ss_bytes_sent st + qx_valid_bytes q\<rparr>
                in scan_queue env handle timeout_ms disk file_size is
                     (if \<not> ss_disk_done st2 \<and> \<not> ss_error st2
                      then submit_next env handle timeout_ms disk file_size i (st2, u) else (st2, u)))"

definition send_round :: "'u usb_env \<Rightarrow> libusb_device \<Rightarrow> int \<Rightarrow> string \<Rightarrow> nat
    \<Rightarrow> send_state \<times> 'u \<Rightarrow> send_state \<times> 'u" where
  "send_round env handle timeout_ms disk file_size = (\<lambda>(st, u).
     let (cs, u1) = ue_handle_events env u
     in scan_queue env handle timeout_ms disk file_size [0..<kQueueDepth] (fold queued_cb cs st, u1))"

fun send_loop :: "nat \<Rightarrow> 'u usb_env \<Rightarrow> libusb_device \<Rightarrow> int \<Rightarrow> string \<Rightarrow> nat
    \<Rightarrow> send_state \<times> 'u \<Rightarrow> (send_state \<times> 'u) option" where
  "send_loop fuel env handle timeout_ms disk file_size s =
     (if 0 < ss_active (fst s) \<and> \<not> ss_error (fst s)
      then (case fuel of 0 \<Rightarrow> None
        | Suc n \<Rightarrow> send_loop n env handle timeout_ms disk file_size (send_round env handle timeout_ms disk file_size s))
      else Some s)"

declare send_loop.simps [simp del]

text \<open>After an error: cancel what is in flight and wait for every active transfer.\<close>

definition cancel_in_flight :: "'u usb_env \<Rightarrow> send_state \<Rightarrow> 'u \<Rightarrow> 'u" where
  "cancel_in_flight env st u = fold (\<lambda>i v. if qx_in_flight (ss_queue st ! i) then ue_cancel env i v else v)
     [0..<kQueueDepth] u"

definition retire_completed :: "nat \<Rightarrow> send_state \<Rightarrow> send_state" where
  "retire_completed i st = (if qx_completed (ss_queue st ! i)
     then (set_xfr i (\<lambda>q. q\<lparr>qx_completed := False\<rparr>) st)\<lparr>ss_active := ss_active st - 1\<rparr> else st)"

fun drain_loop :: "nat \<Rightarrow> 'u usb_env \<Rightarrow> send_state \<times> 'u \<Rightarrow> (send_state \<times> 'u) option" where
  "drain_loop fuel env (st, u) =
     (if 0 < ss_active st
      then (case fuel of 0 \<Rightarrow> None
        | Suc n \<Rightarrow> (let (cs, u1) = ue_handle_events env u
            in drain_loop n env (fold retire_completed [0..<kQueueDepth] (fold queued_cb cs st), u1)))
      else Some (st, u))"

declare drain_loop.simps [simp del]

text \<open>The transfer between the header and the clean-up.\<close>

definition send_body :: "nat \<Rightarrow> 'u usb_env \<Rightarrow> libusb_device \<Rightarrow> int \<Rightarrow> nat \<Rightarrow> string \<Rightarrow> nat
    \<Rightarrow> 'u \<Rightarrow> (send_state \<times> 'u) option" where
  "send_body fuel env handle timeout_ms depth disk file_size u =
     (case send_loop fuel env handle timeout_ms disk file_size
         (prefill env handle timeout_ms disk file_size [0..<depth] (initial_send, u)) of
        None \<Rightarrow> None
      | Some (st, u1) \<Rightarrow> if ss_error st then drain_loop fuel env (st, cancel_in_flight env st u1) else Some (st, u1))"

text \<open>The result fields computed at the end.\<close>

definition send_result :: "nat \<Rightarrow> double \<Rightarrow> send_state \<Rightarrow> transfer_result" where
  "send_result file_size seconds st =
     (let ok = (\<not> ss_error st \<and> ss_bytes_sent st = file_size)
      in \<lparr>tr_ok = ok, tr_bytes_transferred = ss_bytes_sent st, tr_expected_bytes = file_size,
          tr_seconds = seconds, tr_mbps = mib_per_second (ss_bytes_sent st) seconds,
          tr_error_message = (if \<not> ok \<and> ss_error_msg st = []
            then ''Sent '' @ show_nat (ss_bytes_sent st) @ '' of '' @ show_nat file_size @ '' bytes''
            else ss_error_msg st)\<rparr>)"

text \<open>
  \<open>send_file_core\<close>. \<open>file\<close> is \<open>None\<close> when the file cannot be opened, and otherwise its size
  at opening and the bytes the reads deliver.
\<close>

definition send_file_core :: "nat \<Rightarrow> 'u usb_env \<Rightarrow> usb_settings \<Rightarrow> string option \<Rightarrow> string
    \<Rightarrow> (nat \<times> string) option \<Rightarrow> int \<Rightarrow> int \<Rightarrow> u8 \<Rightarrow> string \<Rightarrow> 'u
    \<Rightarrow> (transfer_result \<times> send_state \<times> 'u) option" where
  "send_file_core fuel env settings knob path file port_index timeout_ms frame_kind header_filename u =
     (case file of
        None \<Rightarrow> Some (empty_transfer_result\<lparr>tr_error_message := ''Could not open file: '' @ path\<rparr>, initial_send, u)
      | Some (file_size, disk) \<Rightarrow>
          let result = empty_transfer_result\<lparr>tr_expected_bytes := file_size\<rparr>
          in case open_device_by_index env port_index 5 u of
            (Inl msg, u1) \<Rightarrow> Some (result\<lparr>tr_error_message := (if msg = []
                then ''Could not open USB device at port index '' @ show_int port_index else msg)\<rparr>, initial_send, u1)
          | (Inr handle, u1) \<Rightarrow>
              (case bulk_write_all fuel env handle (header_bytes (fill_file_header file_size frame_kind
                   (if header_filename = [] then None else Some header_filename))) timeout_ms u1 of
                 None \<Rightarrow> None
               | Some (Inl e, u2) \<Rightarrow> Some (result\<lparr>tr_error_message := ''Header send failed: '' @ e\<rparr>,
                   initial_send, close_device env (Some handle) u2)
               | Some (Inr _, u2) \<Rightarrow>
                   let (t0, u3) = ue_now env u2
                   in (case send_body fuel env handle timeout_ms
                          (unat (effective_queue_depth settings knob)) disk file_size u3 of
                         None \<Rightarrow> None
                       | Some (st, u4) \<Rightarrow> let u5 = close_device env (Some handle) u4; (t1, u6) = ue_now env u5
                           in Some (send_result file_size (of_int (t1 - t0) / 1000) st, st, u6))))"

section \<open>What libusb promises\<close>

text \<open>
  Documented behaviour of the asynchronous interface: an accepted transfer is outstanding
  until its callback has run, callbacks run only for outstanding transfers and once for each,
  and a cancellation by itself completes nothing.
\<close>

definition async_contract :: "'u usb_env \<Rightarrow> ('u \<Rightarrow> nat set) \<Rightarrow> bool" where
  "async_contract env out \<longleftrightarrow>
     (\<forall>h i d t u. out (snd (ue_submit_out env h i d t u)) =
        (if fst (ue_submit_out env h i d t u) = 0 then insert i (out u) else out u))
     \<and> (\<forall>u. distinct (map cp_slot (fst (ue_handle_events env u)))
        \<and> set (map cp_slot (fst (ue_handle_events env u))) \<subseteq> out u
        \<and> out (snd (ue_handle_events env u)) = out u - set (map cp_slot (fst (ue_handle_events env u))))
     \<and> (\<forall>i u. out (ue_cancel env i u) = out u)"

text \<open>Every wait for outstanding transfers completes at least one (each has a timeout).\<close>

definition async_progress :: "'u usb_env \<Rightarrow> ('u \<Rightarrow> nat set) \<Rightarrow> bool" where
  "async_progress env out \<longleftrightarrow> (\<forall>u. out u \<noteq> {} \<longrightarrow> fst (ue_handle_events env u) \<noteq> [])"

lemma async_contractD:
  assumes "async_contract env out"
  shows "ue_submit_out env h i d t u = (rc, u') \<Longrightarrow> out u' = (if rc = 0 then insert i (out u) else out u)"
    and "ue_handle_events env u = (cs, u') \<Longrightarrow> distinct (map cp_slot cs) \<and> set (map cp_slot cs) \<subseteq> out u
      \<and> out u' = out u - set (map cp_slot cs)"
    and "out (ue_cancel env i u) = out u"
  using assms unfolding async_contract_def by (metis fst_conv snd_conv)+

section \<open>The invariant of the transfer\<close>

definition busy :: "send_state \<Rightarrow> nat set" where
  "busy st = {i. i < length (ss_queue st) \<and> (qx_in_flight (ss_queue st ! i) \<or> qx_completed (ss_queue st ! i))}"

definition in_flight :: "send_state \<Rightarrow> nat set" where
  "in_flight st = {i. i < length (ss_queue st) \<and> qx_in_flight (ss_queue st ! i)}"

definition valid_at :: "send_state \<Rightarrow> nat \<Rightarrow> nat" where
  "valid_at st i = qx_valid_bytes (ss_queue st ! i)"

record send_params =
  sp_disk :: string
  sp_size :: nat
  sp_depth :: nat

definition send_inv :: "send_params \<Rightarrow> nat set \<Rightarrow> send_state \<Rightarrow> bool" where
  "send_inv P outs st \<longleftrightarrow> length (ss_queue st) = kQueueDepth \<and> sp_depth P \<le> kQueueDepth
     \<and> busy st \<subseteq> {..<sp_depth P} \<and> in_flight st = outs
     \<and> (\<forall>i < kQueueDepth. \<not> (qx_in_flight (ss_queue st ! i) \<and> qx_completed (ss_queue st ! i)))
     \<and> (\<forall>i \<in> busy st. 0 < valid_at st i)
     \<and> ss_active st = int (card (busy st))
     \<and> concat (ss_wire st) = take (ss_bytes_read st) (sp_disk P)
     \<and> (\<forall>w \<in> set (ss_wire st). w \<noteq> [] \<and> length w \<le> kChunkSize)
     \<and> ss_bytes_read st \<le> sp_size P \<and> ss_bytes_read st \<le> length (sp_disk P)
     \<and> ss_bytes_sent st + sum (valid_at st) (busy st) \<le> ss_bytes_read st
     \<and> (\<not> ss_error st \<longrightarrow> ss_bytes_sent st + sum (valid_at st) (busy st) = ss_bytes_read st)
     \<and> (ss_disk_done st \<longrightarrow> ss_bytes_read st = sp_size P)
     \<and> (ss_error st \<longleftrightarrow> ss_error_msg st \<noteq> [])"

lemma finite_busy [simp]: "finite (busy st)"
  by (simp add: busy_def)

lemma set_xfr_length [simp]: "length (ss_queue (set_xfr i f st)) = length (ss_queue st)"
  by (simp add: set_xfr_def)

lemma set_xfr_nth: "i < length (ss_queue st) \<Longrightarrow> ss_queue (set_xfr i f st) ! j
    = (if j = i then f (ss_queue st ! i) else ss_queue st ! j)"
  by (simp add: set_xfr_def nth_list_update)

lemma set_xfr_fields [simp]:
  "ss_bytes_read (set_xfr i f st) = ss_bytes_read st" "ss_bytes_sent (set_xfr i f st) = ss_bytes_sent st"
  "ss_active (set_xfr i f st) = ss_active st" "ss_disk_done (set_xfr i f st) = ss_disk_done st"
  "ss_error (set_xfr i f st) = ss_error st" "ss_error_msg (set_xfr i f st) = ss_error_msg st"
  "ss_wire (set_xfr i f st) = ss_wire st"
  by (simp_all add: set_xfr_def)

text \<open>The queue is the only field these sets depend on.\<close>

lemma queue_sets_update [simp]:
  "busy (st\<lparr>ss_bytes_read := a\<rparr>) = busy st" "busy (st\<lparr>ss_bytes_sent := a\<rparr>) = busy st"
  "busy (st\<lparr>ss_active := b\<rparr>) = busy st" "busy (st\<lparr>ss_disk_done := c\<rparr>) = busy st"
  "busy (st\<lparr>ss_error := c\<rparr>) = busy st" "busy (st\<lparr>ss_error_msg := d\<rparr>) = busy st" "busy (st\<lparr>ss_wire := e\<rparr>) = busy st"
  "in_flight (st\<lparr>ss_bytes_read := a\<rparr>) = in_flight st" "in_flight (st\<lparr>ss_bytes_sent := a\<rparr>) = in_flight st"
  "in_flight (st\<lparr>ss_active := b\<rparr>) = in_flight st" "in_flight (st\<lparr>ss_disk_done := c\<rparr>) = in_flight st"
  "in_flight (st\<lparr>ss_error := c\<rparr>) = in_flight st" "in_flight (st\<lparr>ss_error_msg := d\<rparr>) = in_flight st"
  "in_flight (st\<lparr>ss_wire := e\<rparr>) = in_flight st"
  "valid_at (st\<lparr>ss_bytes_read := a\<rparr>) = valid_at st" "valid_at (st\<lparr>ss_bytes_sent := a\<rparr>) = valid_at st"
  "valid_at (st\<lparr>ss_active := b\<rparr>) = valid_at st" "valid_at (st\<lparr>ss_disk_done := c\<rparr>) = valid_at st"
  "valid_at (st\<lparr>ss_error := c\<rparr>) = valid_at st" "valid_at (st\<lparr>ss_error_msg := d\<rparr>) = valid_at st"
  "valid_at (st\<lparr>ss_wire := e\<rparr>) = valid_at st"
  by (simp_all add: busy_def in_flight_def valid_at_def fun_eq_iff)

lemma initial_send_idle [simp]: "busy initial_send = {}" "in_flight initial_send = {}"
  by (auto simp: initial_send_def busy_def in_flight_def empty_xfr_def)

lemma initial_send_inv: "sp_depth P \<le> kQueueDepth \<Longrightarrow> send_inv P {} initial_send"
  unfolding send_inv_def initial_send_idle by (simp add: initial_send_def empty_xfr_def)

lemma busy_set_xfr:
  "i < length (ss_queue st) \<Longrightarrow> busy (set_xfr i f st) =
     (let q = f (ss_queue st ! i) in if qx_in_flight q \<or> qx_completed q then insert i (busy st) else busy st - {i})"
  by (auto simp: busy_def set_xfr_nth Let_def)

lemma in_flight_set_xfr:
  "i < length (ss_queue st) \<Longrightarrow> in_flight (set_xfr i f st) =
     (if qx_in_flight (f (ss_queue st ! i)) then insert i (in_flight st) else in_flight st - {i})"
  by (auto simp: in_flight_def set_xfr_nth)

lemma valid_at_set_xfr:
  "i < length (ss_queue st) \<Longrightarrow> valid_at (set_xfr i f st) =
     (valid_at st)(i := qx_valid_bytes (f (ss_queue st ! i)))"
  by (auto simp: valid_at_def set_xfr_nth fun_eq_iff)

lemma valid_at_same:
  "i < length (ss_queue st) \<Longrightarrow> qx_valid_bytes (f (ss_queue st ! i)) = qx_valid_bytes (ss_queue st ! i)
     \<Longrightarrow> valid_at (set_xfr i f st) = valid_at st"
  by (auto simp: valid_at_set_xfr fun_eq_iff) (simp add: valid_at_def)

lemma in_flight_same:
  "i < length (ss_queue st) \<Longrightarrow> qx_in_flight (f (ss_queue st ! i)) = qx_in_flight (ss_queue st ! i)
     \<Longrightarrow> in_flight (set_xfr i f st) = in_flight st"
  by (auto simp: in_flight_def set_xfr_nth)

lemma sum_upd: "i \<notin> A \<Longrightarrow> sum (f(i := v)) A = sum f A"
  by (rule sum.cong) auto

section \<open>Every step keeps the invariant\<close>

lemma queued_cb_inv:
  assumes "send_inv P outs st" and "cp_slot c \<in> outs"
  shows "send_inv P (outs - {cp_slot c}) (queued_cb c st)" and "busy (queued_cb c st) = busy st"
    and "ss_error (queued_cb c st) = ss_error st" and "ss_bytes_read (queued_cb c st) = ss_bytes_read st"
    and "qx_completed (ss_queue (queued_cb c st) ! cp_slot c)"
    and "ss_active (queued_cb c st) = ss_active st"
proof -
  let ?i = "cp_slot c"
  have i: "?i < length (ss_queue st)" and fl: "?i \<in> in_flight st" and ib: "?i \<in> busy st"
    using assms by (auto simp: send_inv_def in_flight_def busy_def)
  show busy: "busy (queued_cb c st) = busy st"
    using ib by (auto simp: queued_cb_def busy_set_xfr [OF i] Let_def)
  have fl': "in_flight (queued_cb c st) = in_flight st - {?i}"
    by (simp add: queued_cb_def in_flight_set_xfr [OF i])
  have val: "valid_at (queued_cb c st) = valid_at st"
    by (simp add: queued_cb_def valid_at_same [OF i])
  show "ss_error (queued_cb c st) = ss_error st" "ss_bytes_read (queued_cb c st) = ss_bytes_read st"
    "ss_active (queued_cb c st) = ss_active st"
    by (simp_all add: queued_cb_def)
  show "qx_completed (ss_queue (queued_cb c st) ! ?i)" by (simp add: queued_cb_def set_xfr_nth [OF i])
  show "send_inv P (outs - {?i}) (queued_cb c st)"
    using assms(1) unfolding send_inv_def busy fl' val
    by (simp add: queued_cb_def set_xfr_nth [OF i])
qed

lemma fold_queued_cb_inv:
  assumes "send_inv P outs st" and "distinct (map cp_slot cs)" and "set (map cp_slot cs) \<subseteq> outs"
  shows "send_inv P (outs - set (map cp_slot cs)) (fold queued_cb cs st)
    \<and> busy (fold queued_cb cs st) = busy st \<and> ss_error (fold queued_cb cs st) = ss_error st
    \<and> ss_bytes_read (fold queued_cb cs st) = ss_bytes_read st \<and> ss_active (fold queued_cb cs st) = ss_active st"
  using assms
proof (induction cs arbitrary: st outs)
  case Nil
  then show ?case by simp
next
  case (Cons c cs)
  then have c: "cp_slot c \<in> outs" by simp
  note cb = queued_cb_inv [OF Cons.prems(1) c]
  have "set (map cp_slot cs) \<subseteq> outs - {cp_slot c}"
    using Cons.prems(2,3) by (simp add: subset_Diff_insert)
  from Cons.IH [OF cb(1) _ this] Cons.prems(2) cb show ?case by (simp add: Diff_insert2 [symmetric] insert_Diff_if)
qed

lemma retire_inv:
  assumes "send_inv P outs st" and "i < kQueueDepth" and "qx_completed (ss_queue st ! i)"
  defines "st1 \<equiv> (set_xfr i (\<lambda>q. q\<lparr>qx_completed := False\<rparr>) st)\<lparr>ss_active := ss_active st - 1\<rparr>"
  shows "i \<in> busy st" and "busy st1 = busy st - {i}" and "valid_at st1 = valid_at st"
    and "m \<noteq> [] \<Longrightarrow> send_inv P outs (st1\<lparr>ss_error := True, ss_error_msg := m\<rparr>)"
    and "ss_error st \<Longrightarrow> send_inv P outs st1"
    and "\<not> ss_error st \<Longrightarrow> send_inv P outs (st1\<lparr>ss_bytes_sent := ss_bytes_sent st + qx_valid_bytes (ss_queue st ! i)\<rparr>)"
proof -
  have i: "i < length (ss_queue st)" using assms(1,2) by (simp add: send_inv_def)
  have nfl: "\<not> qx_in_flight (ss_queue st ! i)" using assms(1-3) by (auto simp: send_inv_def)
  show ib: "i \<in> busy st" using i assms(3) by (simp add: busy_def)
  show busy: "busy st1 = busy st - {i}"
    using nfl by (simp add: st1_def busy_set_xfr [OF i] Let_def)
  have fl: "in_flight st1 = in_flight st"
    by (simp add: st1_def in_flight_same [OF i])
  show val: "valid_at st1 = valid_at st"
    by (simp add: st1_def valid_at_same [OF i])
  have card: "card (busy st - {i}) = card (busy st) - 1" "1 \<le> card (busy st)"
    using ib by (simp_all add: Suc_le_eq card_gt_0_iff) blast
  have sum: "sum (valid_at st) (busy st) = qx_valid_bytes (ss_queue st ! i) + sum (valid_at st) (busy st - {i})"
    using sum.remove [OF finite_busy ib, of "valid_at st"] by (simp add: valid_at_def)
  note facts = busy fl val
  show "m \<noteq> [] \<Longrightarrow> send_inv P outs (st1\<lparr>ss_error := True, ss_error_msg := m\<rparr>)"
    and "ss_error st \<Longrightarrow> send_inv P outs st1"
    and "\<not> ss_error st \<Longrightarrow> send_inv P outs (st1\<lparr>ss_bytes_sent := ss_bytes_sent st + qx_valid_bytes (ss_queue st ! i)\<rparr>)"
    using assms(1) card sum unfolding send_inv_def queue_sets_update facts
    by (auto simp: st1_def set_xfr_nth [OF i])
qed

lemma submit_next_inv:
  assumes "async_contract env out" and inv: "send_inv P (out u) st" and "\<not> ss_error st"
    and ib: "i \<notin> busy st" and id: "i < sp_depth P"
    and s: "submit_next env handle t (sp_disk P) (sp_size P) i (st, u) = (st', u')"
  shows "send_inv P (out u') st'"
    and "\<not> ss_error st' \<Longrightarrow> ss_bytes_read st' = sp_size P \<or> 0 < ss_active st'"
    and "\<not> ss_error st' \<Longrightarrow> 2 * (sp_size P - ss_bytes_read st') + card (busy st')
        \<le> 2 * (sp_size P - ss_bytes_read st) + card (busy st)"
    and "j \<noteq> i \<Longrightarrow> ss_queue st' ! j = ss_queue st ! j"
proof -
  have i: "i < length (ss_queue st)" using inv id by (simp add: send_inv_def)
  have ik: "i < kQueueDepth" using inv id by (simp add: send_inv_def)
  have nq: "\<not> qx_in_flight (ss_queue st ! i)" "\<not> qx_completed (ss_queue st ! i)"
    using ib i by (auto simp: busy_def)
  have nfl: "i \<notin> in_flight st" using nq by (simp add: in_flight_def)
  let ?rem = "sp_size P - ss_bytes_read st"
  define d where d: "d = take (min ?rem kChunkSize) (drop (ss_bytes_read st) (sp_disk P))"
  let ?fill = "\<lambda>q. q\<lparr>qx_buf := d, qx_valid_bytes := length d, qx_completed := False, qx_in_flight := True\<rparr>"
  let ?st1 = "set_xfr i ?fill st"
  show "j \<noteq> i \<Longrightarrow> ss_queue st' ! j = ss_queue st ! j"
    using s i by (auto simp: submit_next_def Let_def set_xfr_nth split: if_splits prod.splits)
  obtain rc v where r: "ue_submit_out env handle i d t u = (rc, v)" by fastforce
  have val: "submit_next env handle t (sp_disk P) (sp_size P) i (st, u) =
      (if ss_disk_done st then (st, u) else if ?rem = 0 then (st\<lparr>ss_disk_done := True\<rparr>, u)
       else if d = [] then (st\<lparr>ss_error := True, ss_error_msg := ''Disk read error at byte '' @ show_nat (ss_bytes_read st)\<rparr>, u)
       else if rc \<noteq> 0 then ((set_xfr i (\<lambda>q. q\<lparr>qx_in_flight := False\<rparr>) ?st1)\<lparr>ss_error := True,
          ss_error_msg := ''USB submit failed, rc='' @ show_int rc\<rparr>, v)
       else (?st1\<lparr>ss_bytes_read := ss_bytes_read st + length d,
           ss_disk_done := (sp_size P \<le> ss_bytes_read st + length d),
           ss_active := ss_active st + 1, ss_wire := ss_wire st @ [d]\<rparr>, v))"
    unfolding submit_next_def prod.case Let_def d [symmetric] r length_0_conv ..
  consider (finished) "st' = st" "u' = u" "ss_disk_done st"
    | (zero) "st' = st\<lparr>ss_disk_done := True\<rparr>" "u' = u" "?rem = 0"
    | (disk) "st' = st\<lparr>ss_error := True, ss_error_msg := ''Disk read error at byte '' @ show_nat (ss_bytes_read st)\<rparr>" "u' = u"
    | (fail) "d \<noteq> []" "ue_submit_out env handle i d t u = (rc, u')" "rc \<noteq> 0"
        "st' = (set_xfr i (\<lambda>q. q\<lparr>qx_in_flight := False\<rparr>) ?st1)\<lparr>ss_error := True,
          ss_error_msg := ''USB submit failed, rc='' @ show_int rc\<rparr>"
    | (ok) "d \<noteq> []" "ue_submit_out env handle i d t u = (0, u')"
        "st' = ?st1\<lparr>ss_bytes_read := ss_bytes_read st + length d,
           ss_disk_done := (sp_size P \<le> ss_bytes_read st + length d),
           ss_active := ss_active st + 1, ss_wire := ss_wire st @ [d]\<rparr>"
  proof (cases "ss_disk_done st")
    case True
    with s have "st' = st" "u' = u" unfolding val by simp_all
    then show ?thesis using that(1) True by blast
  next
    case nd: False
    show ?thesis
    proof (cases "?rem = 0")
      case True
      with nd s have "st' = st\<lparr>ss_disk_done := True\<rparr>" "u' = u" unfolding val by simp_all
      then show ?thesis using that(2) True by blast
    next
      case nr: False
      show ?thesis
      proof (cases "d = []")
        case True
        from s [unfolded val if_not_P [OF nd] if_not_P [OF nr] if_P [OF True]] show ?thesis
          using that(3) by blast
      next
        case ne: False
        show ?thesis
        proof (cases "rc = 0")
          case True
          then have "\<not> rc \<noteq> 0" by simp
          from s [unfolded val if_not_P [OF nd] if_not_P [OF nr] if_not_P [OF ne] if_not_P [OF this]]
          show ?thesis using that(5) [OF ne] r True by blast
        next
          case False
          from s [unfolded val if_not_P [OF nd] if_not_P [OF nr] if_not_P [OF ne] if_P [OF False]]
          show ?thesis using that(4) [OF ne] r False by blast
        qed
      qed
    qed
  qed
  then have "send_inv P (out u') st' \<and> (\<not> ss_error st' \<longrightarrow> ss_bytes_read st' = sp_size P \<or> 0 < ss_active st')
      \<and> (\<not> ss_error st' \<longrightarrow> 2 * (sp_size P - ss_bytes_read st') + card (busy st') \<le> 2 * ?rem + card (busy st))"
  proof cases
    case finished
    then show ?thesis
      using inv by (auto simp: send_inv_def)
  next
    case zero
    then show ?thesis
      using inv by (auto simp: send_inv_def)
  next
    case disk
    then show ?thesis
      using inv by (auto simp: send_inv_def)
  next
    case fail
    have out: "out u' = out u" using async_contractD(1) [OF assms(1) fail(2)] fail(3) by simp
    have b: "busy st' = busy st"
      using ib unfolding fail(4) by (auto simp: busy_set_xfr i set_xfr_nth Let_def)
    have f: "in_flight st' = in_flight st"
      using nfl unfolding fail(4) by (auto simp: in_flight_set_xfr i set_xfr_nth)
    have v: "valid_at st' = (valid_at st)(i := length d)"
      unfolding fail(4) by (simp add: valid_at_set_xfr i set_xfr_nth)
    have "send_inv P (out u') st'"
      using inv ib assms(3) unfolding send_inv_def out b f v sum_upd [OF ib]
      by (auto simp: fail(4) set_xfr_nth i ik)
    then show ?thesis
      by (simp add: fail(4))
  next
    case ok
    have out: "out u' = insert i (out u)" using async_contractD(1) [OF assms(1) ok(2)] by simp
    have b: "busy st' = insert i (busy st)" unfolding ok(3) by (simp add: busy_set_xfr [OF i] Let_def)
    have f: "in_flight st' = insert i (in_flight st)" unfolding ok(3) by (simp add: in_flight_set_xfr [OF i])
    have v: "valid_at st' = (valid_at st)(i := length d)" unfolding ok(3) by (simp add: valid_at_set_xfr [OF i])
    have len: "0 < length d" "length d \<le> ?rem" "length d \<le> kChunkSize"
      "ss_bytes_read st + length d \<le> length (sp_disk P)"
      using ok(1) inv by (auto simp: send_inv_def d)
    have cat: "take (ss_bytes_read st) (sp_disk P) @ d = take (ss_bytes_read st + length d) (sp_disk P)"
      using ok(1) by (auto simp: d take_add min_def)
    have sum: "sum ((valid_at st)(i := length d)) (insert i (busy st)) = length d + sum (valid_at st) (busy st)"
      using ib sum_upd [OF ib, of "valid_at st" "length d"] by simp
    have "send_inv P (out u') st'"
      using inv ib assms(3) id len cat unfolding send_inv_def out b f v sum
      by (auto simp: ok(3) set_xfr_nth i ik)
    moreover have "0 < ss_active st'" using inv by (simp add: ok(3) send_inv_def)
    moreover have "2 * (sp_size P - ss_bytes_read st') + card (busy st') \<le> 2 * ?rem + card (busy st)"
    proof -
      have "card (busy st') = Suc (card (busy st))" using ib by (simp add: b)
      moreover have "sp_size P - ss_bytes_read st' = ?rem - length d" by (simp add: ok(3))
      ultimately show ?thesis using len(1,2) by linarith
    qed
    ultimately show ?thesis
      by simp
  qed
  then show "send_inv P (out u') st'"
    and "\<not> ss_error st' \<Longrightarrow> ss_bytes_read st' = sp_size P \<or> 0 < ss_active st'"
    and "\<not> ss_error st' \<Longrightarrow> 2 * (sp_size P - ss_bytes_read st') + card (busy st') \<le> 2 * ?rem + card (busy st)"
    by simp_all
qed

section \<open>The loops\<close>

text \<open>While no error is set, either everything was read or something is in flight.\<close>

definition send_live :: "send_params \<Rightarrow> send_state \<Rightarrow> bool" where
  "send_live P st \<longleftrightarrow> ss_error st \<or> ss_bytes_read st = sp_size P \<or> 0 < ss_active st"

definition send_measure :: "send_params \<Rightarrow> send_state \<Rightarrow> nat" where
  "send_measure P st = 2 * (sp_size P - ss_bytes_read st) + card (busy st)"

lemma prefill_inv:
  assumes "async_contract env out" and "send_inv P (out (snd s)) (fst s)"
    and "distinct ks" and "set ks \<inter> busy (fst s) = {}" and "set ks \<subseteq> {..<sp_depth P}"
  shows "send_inv P (out (snd (prefill env h t (sp_disk P) (sp_size P) ks s)))
      (fst (prefill env h t (sp_disk P) (sp_size P) ks s))
    \<and> (send_live P (fst s) \<or> ks \<noteq> [] \<longrightarrow> send_live P (fst (prefill env h t (sp_disk P) (sp_size P) ks s)))
    \<and> (\<not> ss_error (fst (prefill env h t (sp_disk P) (sp_size P) ks s)) \<longrightarrow>
        send_measure P (fst (prefill env h t (sp_disk P) (sp_size P) ks s)) \<le> send_measure P (fst s))"
  using assms(2-5)
proof (induction "ks" arbitrary: s)
  case Nil
  then show ?case by simp
next
  case (Cons i ks)
  obtain st u where s: "s = (st, u)" by fastforce
  show ?case
  proof (cases "ss_disk_done st \<or> ss_error st")
    case True
    then show ?thesis using Cons.prems(1) by (auto simp: s send_live_def send_inv_def)
  next
    case False
    obtain st1 u1 where n: "submit_next env h t (sp_disk P) (sp_size P) i (st, u) = (st1, u1)" by fastforce
    have i: "i \<notin> busy st" "i < sp_depth P" using Cons.prems(3,4) by (auto simp: s)
    note sub = submit_next_inv [OF assms(1) _ _ i n]
    have inv: "send_inv P (out u) st" and ne: "\<not> ss_error st" using Cons.prems(1) False by (simp_all add: s)
    have inv1: "send_inv P (out u1) st1" by (rule sub(1) [OF inv ne])
    have b: "set ks \<inter> busy st1 = {}"
    proof -
      have "j \<notin> busy st1" if "j \<in> set ks" for j
      proof -
        from that Cons.prems(2,3) have "j \<noteq> i" "j \<notin> busy st" by (auto simp: s)
        moreover from sub(4) [OF inv ne this(1)] have "ss_queue st1 ! j = ss_queue st ! j" .
        moreover have "length (ss_queue st1) = length (ss_queue st)" using inv inv1 by (simp add: send_inv_def)
        ultimately show ?thesis by (simp add: busy_def)
      qed
      then show ?thesis by blast
    qed
    have live: "send_live P st1" using sub(2) [OF inv ne] by (auto simp: send_live_def)
    have err: "ss_error (fst (prefill env h t (sp_disk P) (sp_size P) ks (st1, u1)))" if "ss_error st1"
      using that by (cases "ks") simp_all
    have le: "send_measure P st1 \<le> send_measure P st" if "\<not> ss_error st1"
      using sub(3) [OF inv ne that] by (simp add: send_measure_def)
    show ?thesis
      using Cons.IH [of "(st1, u1)"] inv1 b Cons.prems(2,4) False live le err
      by (auto simp: s n intro: le_trans)
  qed
qed

lemma scan_queue_inv:
  assumes "async_contract env out" and "send_inv P (out u) st" and "\<not> ss_error st" and "send_live P st"
    and "distinct ks" and "set ks \<subseteq> {..<kQueueDepth}"
    and "scan_queue env h t (sp_disk P) (sp_size P) ks (st, u) = (st', u')"
  shows "send_inv P (out u') st' \<and> send_live P st'
    \<and> (\<not> ss_error st' \<longrightarrow> send_measure P st' + length (filter (\<lambda>i. qx_completed (ss_queue st ! i)) ks) \<le> send_measure P st)"
  using assms(2-7)
proof (induction "ks" arbitrary: st u)
  case Nil
  then show ?case by simp
next
  case (Cons i ks)
  let ?q = "ss_queue st ! i"
  have i: "i < kQueueDepth" using Cons.prems(5) by simp
  show ?case
  proof (cases "qx_completed ?q")
    case False
    with Cons show ?thesis by simp
  next
    case True
    note r = retire_inv [OF Cons.prems(1) i True]
    let ?st1 = "(set_xfr i (\<lambda>q. q\<lparr>qx_completed := False\<rparr>) st)\<lparr>ss_active := ss_active st - 1\<rparr>"
    show ?thesis
    proof (cases "qx_status ?q = LIBUSB_TRANSFER_COMPLETED")
      case False
      have "st' = ?st1\<lparr>ss_error := True, ss_error_msg := ''USB transfer failed, status='' @ show_int (qx_status ?q)\<rparr>"
        and "u' = u"
        using Cons.prems(6) True False by (simp_all add: Let_def)
      with r(4) show ?thesis by (auto simp: send_live_def)
    next
      case ok: True
      let ?st2 = "?st1\<lparr>ss_bytes_sent := ss_bytes_sent st + qx_valid_bytes ?q\<rparr>"
      have inv2: "send_inv P (out u) ?st2" by (rule r(6) [OF Cons.prems(2)])
      have i2: "i \<notin> busy ?st2" "i < sp_depth P"
        using r(1,2) Cons.prems(1) by (auto simp: send_inv_def)
      have ne2: "\<not> ss_error ?st2" using Cons.prems(2) by simp
      have m2: "send_measure P ?st2 + 1 = send_measure P st"
      proof -
        have "card (busy st) = Suc (card (busy st - {i}))" using r(1) by (metis card.remove finite_busy)
        then show ?thesis using r(2) by (simp add: send_measure_def)
      qed
      have q2: "ss_queue ?st2 ! j = ss_queue st ! j" if "j \<noteq> i" for j
        using that by (simp add: set_xfr_def)
      define s3 where "s3 = (if \<not> ss_disk_done ?st2 \<and> \<not> ss_error ?st2
        then submit_next env h t (sp_disk P) (sp_size P) i (?st2, u) else (?st2, u))"
      obtain st3 u3 where s3: "s3 = (st3, u3)" by fastforce
      have step: "scan_queue env h t (sp_disk P) (sp_size P) ks (st3, u3) = (st', u')"
        using Cons.prems(6) True ok unfolding s3 [symmetric] s3_def by (simp add: Let_def)
      have "send_inv P (out u3) st3 \<and> send_live P st3
          \<and> (\<not> ss_error st3 \<longrightarrow> send_measure P st3 \<le> send_measure P ?st2)
          \<and> (\<forall>j. j \<noteq> i \<longrightarrow> ss_queue st3 ! j = ss_queue st ! j)"
      proof (cases "ss_disk_done ?st2")
        case True
        then have "st3 = ?st2" "u3 = u" using s3 by (simp_all add: s3_def)
        moreover have "ss_bytes_read ?st2 = sp_size P" using inv2 True by (auto simp: send_inv_def)
        ultimately show ?thesis
          using inv2 q2 by (simp add: send_live_def)
      next
        case False
        then have n: "submit_next env h t (sp_disk P) (sp_size P) i (?st2, u) = (st3, u3)"
          using s3 ne2 by (simp add: s3_def)
        note sub = submit_next_inv [OF assms(1) inv2 ne2 i2 n]
        show ?thesis
          using sub(1-3) sub(4) q2 by (auto simp: send_live_def send_measure_def)
      qed
      then have three: "send_inv P (out u3) st3" "send_live P st3"
        "\<not> ss_error st3 \<longrightarrow> send_measure P st3 \<le> send_measure P ?st2"
        "\<forall>j. j \<noteq> i \<longrightarrow> ss_queue st3 ! j = ss_queue st ! j"
        by blast+
      have same: "filter (\<lambda>j. qx_completed (ss_queue st3 ! j)) ks = filter (\<lambda>j. qx_completed (ss_queue st ! j)) ks"
        using three(4) Cons.prems(4) by (intro filter_cong) auto
      show ?thesis
      proof (cases "ss_error st3")
        case False
        from Cons.IH [OF three(1) False three(2) _ _ step] Cons.prems(4,5) three(3) False m2 True
        show ?thesis by (auto simp: same)
      next
        case True
        have err: "send_inv P (out u') st' \<and> ss_error st'" if "send_inv P (out v) st4" "ss_error st4"
          "scan_queue env h t (sp_disk P) (sp_size P) js (st4, v) = (st', u')" "set js \<subseteq> {..<kQueueDepth}" for js st4 v
          using that
        proof (induction js arbitrary: st4)
          case Nil
          then show ?case by simp
        next
          case (Cons j js)
          show ?case
          proof (cases "qx_completed (ss_queue st4 ! j)")
            case False
            with Cons show ?thesis by simp
          next
            case True
            have j: "j < kQueueDepth" using Cons.prems(4) by simp
            note rj = retire_inv [OF Cons.prems(1) j True]
            show ?thesis
            proof (cases "qx_status (ss_queue st4 ! j) = LIBUSB_TRANSFER_COMPLETED")
              case False
              with Cons.prems(3) True rj(4) show ?thesis by (auto simp: Let_def)
            next
              case ok: True
              let ?st5 = "((set_xfr j (\<lambda>q. q\<lparr>qx_completed := False\<rparr>) st4)\<lparr>ss_active := ss_active st4 - 1\<rparr>)
                  \<lparr>ss_bytes_sent := ss_bytes_sent st4 + qx_valid_bytes (ss_queue st4 ! j)\<rparr>"
              have "send_inv P (out v) ?st5"
              proof -
                have "sum (valid_at st4) (busy st4) = qx_valid_bytes (ss_queue st4 ! j) + sum (valid_at st4) (busy st4 - {j})"
                  using sum.remove [OF finite_busy rj(1), of "valid_at st4"] by (simp add: valid_at_def)
                then show ?thesis
                  using rj(5) [OF Cons.prems(2)] rj(2,3) Cons.prems(1,2)
                  by (simp add: send_inv_def)
              qed
              moreover have "scan_queue env h t (sp_disk P) (sp_size P) js (?st5, v) = (st', u')"
                using Cons.prems(2,3) True ok by (simp add: Let_def)
              ultimately show ?thesis using Cons.IH [of ?st5] Cons.prems(2,4) by simp
            qed
          qed
        qed
        show ?thesis using err [OF three(1) True step] Cons.prems(5) by (simp add: send_live_def)
      qed
    qed
  qed
qed

lemma inv_in_flight: "send_inv P outs st \<Longrightarrow> in_flight st = outs"
  by (simp add: send_inv_def)

lemma inv_idle: "send_inv P outs st \<Longrightarrow> \<not> 0 < ss_active st \<Longrightarrow> busy st = {} \<and> outs = {}"
  by (auto simp: send_inv_def busy_def in_flight_def card_eq_0_iff)

lemma inv_active: "send_inv P outs st \<Longrightarrow> ss_active st \<le> int (sp_depth P) \<and> outs \<subseteq> {..<sp_depth P}"
proof -
  assume inv: "send_inv P outs st"
  then have "card (busy st) \<le> sp_depth P" using card_mono [of "{..<sp_depth P}" "busy st"] by (simp add: send_inv_def)
  moreover have "in_flight st \<subseteq> busy st" by (auto simp: in_flight_def busy_def)
  ultimately show ?thesis using inv by (auto simp: send_inv_def)
qed

text \<open>After an event wait that made progress some busy slot is completed.\<close>

lemma events_complete:
  assumes "async_contract env out" and "async_progress env out" and "send_inv P (out u) st" and "0 < ss_active st"
    and "ue_handle_events env u = (cs, u1)"
  shows "\<exists>i < kQueueDepth. qx_completed (ss_queue (fold queued_cb cs st) ! i)"
proof -
  let ?st1 = "fold queued_cb cs st"
  note ev = async_contractD(2) [OF assms(1,5)]
  from fold_queued_cb_inv [OF assms(3)] ev
  have f: "send_inv P (out u1) ?st1" "busy ?st1 = busy st" by auto
  have ne: "busy st \<noteq> {}" using assms(3,4) by (auto simp: send_inv_def)
  have "busy ?st1 \<noteq> in_flight ?st1"
  proof (cases "out u = {}")
    case True
    with f ne show ?thesis using ev by (auto simp: send_inv_def)
  next
    case False
    then have "fst (ue_handle_events env u) \<noteq> []" using assms(2) by (simp add: async_progress_def)
    with assms(5) obtain c where "c \<in> set cs" by (cases cs) auto
    then have "cp_slot c \<in> out u" "cp_slot c \<notin> out u1" using ev by auto
    moreover have "in_flight st = out u" "in_flight ?st1 = out u1"
      by (rule inv_in_flight [OF assms(3)], rule inv_in_flight [OF f(1)])
    moreover have "in_flight st \<subseteq> busy st" by (auto simp: in_flight_def busy_def)
    ultimately have "cp_slot c \<in> busy st" "cp_slot c \<notin> in_flight ?st1" by auto
    with f(2) show ?thesis by auto
  qed
  moreover have "in_flight ?st1 \<subseteq> busy ?st1" by (auto simp: in_flight_def busy_def)
  ultimately obtain i where "i \<in> busy ?st1" "i \<notin> in_flight ?st1" by auto
  then show ?thesis using f(1) by (auto simp: busy_def in_flight_def send_inv_def)
qed

lemma send_round_inv:
  assumes "async_contract env out" and "send_inv P (out u) st" and "\<not> ss_error st" and "send_live P st"
    and "send_round env h t (sp_disk P) (sp_size P) (st, u) = (st', u')"
  shows "send_inv P (out u') st'" and "send_live P st'"
    and "async_progress env out \<Longrightarrow> 0 < ss_active st \<Longrightarrow> \<not> ss_error st' \<Longrightarrow> send_measure P st' < send_measure P st"
proof -
  obtain cs u1 where e: "ue_handle_events env u = (cs, u1)" by fastforce
  let ?st1 = "fold queued_cb cs st"
  note ev = async_contractD(2) [OF assms(1) e]
  have f: "send_inv P (out u1) ?st1" "busy ?st1 = busy st" "ss_error ?st1 = ss_error st"
    "ss_bytes_read ?st1 = ss_bytes_read st" "ss_active ?st1 = ss_active st"
    using fold_queued_cb_inv [OF assms(2)] ev by auto
  have step: "scan_queue env h t (sp_disk P) (sp_size P) [0..<kQueueDepth] (?st1, u1) = (st', u')"
    using assms(5) by (simp add: send_round_def e)
  have live: "send_live P ?st1" using assms(4) f by (simp add: send_live_def)
  have meas: "send_measure P ?st1 = send_measure P st" using f by (simp add: send_measure_def)
  have idx: "distinct [0..<kQueueDepth]" "set [0..<kQueueDepth] \<subseteq> {..<kQueueDepth}" by auto
  have ne1: "\<not> ss_error ?st1" using assms(3) f(3) by simp
  note sc = scan_queue_inv [OF assms(1) f(1) ne1 live idx step]
  show "send_inv P (out u') st'" and "send_live P st'" using sc assms(3) f(3) by auto
  show "send_measure P st' < send_measure P st"
    if "async_progress env out" "0 < ss_active st" "\<not> ss_error st'"
  proof -
    from events_complete [OF assms(1) that(1) assms(2) that(2) e]
    have "filter (\<lambda>i. qx_completed (ss_queue ?st1 ! i)) [0..<kQueueDepth] \<noteq> []"
      by (auto simp: filter_empty_conv)
    then have "0 < length (filter (\<lambda>i. qx_completed (ss_queue ?st1 ! i)) [0..<kQueueDepth])" by blast
    moreover have "send_measure P st' + length (filter (\<lambda>i. qx_completed (ss_queue ?st1 ! i)) [0..<kQueueDepth])
        \<le> send_measure P st"
      using sc that(3) unfolding meas by blast
    ultimately show ?thesis by linarith
  qed
qed

lemma send_loop_inv:
  assumes "async_contract env out" and "send_inv P (out u) st" and "send_live P st"
    and "send_loop fuel env h t (sp_disk P) (sp_size P) (st, u) = Some (st', u')"
  shows "send_inv P (out u') st' \<and> send_live P st' \<and> (ss_error st' \<or> \<not> 0 < ss_active st')"
  using assms(2-4)
proof (induction fuel arbitrary: st u)
  case 0
  then show ?case by (subst (asm) send_loop.simps) (auto split: if_splits)
next
  case (Suc n)
  show ?case
  proof (cases "0 < ss_active st \<and> \<not> ss_error st")
    case True
    obtain st1 u1 where r: "send_round env h t (sp_disk P) (sp_size P) (st, u) = (st1, u1)" by fastforce
    have "send_loop n env h t (sp_disk P) (sp_size P) (st1, u1) = Some (st', u')"
      using Suc.prems(3) True r by (subst (asm) send_loop.simps) simp
    then show ?thesis
      using Suc.IH send_round_inv(1,2) [OF assms(1) Suc.prems(1) _ Suc.prems(2) r] True by blast
  next
    case False
    with Suc.prems show ?thesis by (subst (asm) send_loop.simps) auto
  qed
qed

lemma send_loop_terminates:
  assumes "async_contract env out" and "async_progress env out" and "send_inv P (out u) st" and "send_live P st"
    and "send_measure P st \<le> fuel"
  shows "send_loop fuel env h t (sp_disk P) (sp_size P) (st, u) \<noteq> None"
  using assms(3-5)
proof (induction fuel arbitrary: st u)
  case 0
  then have "busy st = {}" by (simp add: send_measure_def)
  with 0 have "\<not> 0 < ss_active st" by (simp add: send_inv_def)
  then show ?case by (subst send_loop.simps) simp
next
  case (Suc n)
  show ?case
  proof (cases "0 < ss_active st \<and> \<not> ss_error st")
    case True
    obtain st1 u1 where r: "send_round env h t (sp_disk P) (sp_size P) (st, u) = (st1, u1)" by fastforce
    note ri = send_round_inv [OF assms(1) Suc.prems(1) _ Suc.prems(2) r]
    have "send_loop n env h t (sp_disk P) (sp_size P) (st1, u1) \<noteq> None"
    proof (cases "ss_error st1")
      case True
      then show ?thesis by (subst send_loop.simps) simp
    next
      case False
      with ri(3) [OF _ assms(2)] True Suc.prems(3) have "send_measure P st1 \<le> n" by simp
      with Suc.IH ri(1,2) True show ?thesis by blast
    qed
    then show ?thesis using True r by (subst send_loop.simps) simp
  next
    case False
    then show ?thesis by (subst send_loop.simps) auto
  qed
qed

section \<open>Draining after an error\<close>

lemma cancel_out:
  assumes "async_contract env out"
  shows "out (cancel_in_flight env st u) = out u"
proof -
  have "out (fold (\<lambda>i v. if qx_in_flight (ss_queue st ! i) then ue_cancel env i v else v) ks v) = out v" for ks v
    by (induction ks arbitrary: v) (simp_all add: async_contractD(3) [OF assms])
  then show ?thesis by (simp add: cancel_in_flight_def)
qed

lemma fold_retire:
  assumes "send_inv P outs st" and "ss_error st" and "set ks \<subseteq> {..<kQueueDepth}"
  shows "send_inv P outs (fold retire_completed ks st)
    \<and> ss_error (fold retire_completed ks st) \<and> ss_error_msg (fold retire_completed ks st) = ss_error_msg st
    \<and> ss_bytes_sent (fold retire_completed ks st) = ss_bytes_sent st
    \<and> ss_wire (fold retire_completed ks st) = ss_wire st
    \<and> busy (fold retire_completed ks st) \<subseteq> busy st - {i \<in> set ks. qx_completed (ss_queue st ! i)}"
  using assms
proof (induction ks arbitrary: st)
  case Nil
  then show ?case by simp
next
  case (Cons i ks)
  let ?st1 = "retire_completed i st"
  show ?case
  proof (cases "qx_completed (ss_queue st ! i)")
    case False
    then have "?st1 = st" by (simp add: retire_completed_def)
    with Cons False show ?thesis by auto
  next
    case True
    have i: "i < kQueueDepth" using Cons.prems(3) by simp
    note r = retire_inv [OF Cons.prems(1) i True]
    have eq: "?st1 = (set_xfr i (\<lambda>q. q\<lparr>qx_completed := False\<rparr>) st)\<lparr>ss_active := ss_active st - 1\<rparr>"
      using True by (simp add: retire_completed_def)
    have st1: "send_inv P outs ?st1" "ss_error ?st1" "busy ?st1 = busy st - {i}"
      using r(5) [OF Cons.prems(2)] r(2) Cons.prems(2) unfolding eq by simp_all
    have fields: "ss_error_msg ?st1 = ss_error_msg st" "ss_bytes_sent ?st1 = ss_bytes_sent st" "ss_wire ?st1 = ss_wire st"
      "\<And>j. j \<noteq> i \<Longrightarrow> ss_queue ?st1 ! j = ss_queue st ! j"
      unfolding eq by (simp_all add: set_xfr_def)
    from Cons.IH [OF st1(1,2)] Cons.prems(3) st1(3) fields show ?thesis by auto
  qed
qed

lemma drain_loop_inv:
  assumes "async_contract env out" and "send_inv P (out u) st" and "ss_error st"
    and "drain_loop fuel env (st, u) = Some (st', u')"
  shows "send_inv P (out u') st' \<and> ss_error st' \<and> \<not> 0 < ss_active st' \<and> ss_error_msg st' = ss_error_msg st
    \<and> ss_bytes_sent st' = ss_bytes_sent st \<and> ss_wire st' = ss_wire st"
  using assms(2-4)
proof (induction fuel arbitrary: st u)
  case 0
  then show ?case by (subst (asm) drain_loop.simps) (auto split: if_splits)
next
  case (Suc n)
  show ?case
  proof (cases "0 < ss_active st")
    case True
    obtain cs u1 where e: "ue_handle_events env u = (cs, u1)" by fastforce
    let ?st1 = "fold queued_cb cs st" and ?st2 = "fold retire_completed [0..<kQueueDepth] (fold queued_cb cs st)"
    have cb: "ss_error_msg (fold queued_cb ds s) = ss_error_msg s \<and> ss_bytes_sent (fold queued_cb ds s) = ss_bytes_sent s
        \<and> ss_wire (fold queued_cb ds s) = ss_wire s" for ds s
      by (induction ds arbitrary: s) (simp_all add: queued_cb_def)
    have f: "send_inv P (out u1) ?st1" "ss_error ?st1"
      using fold_queued_cb_inv [OF Suc.prems(1)] async_contractD(2) [OF assms(1) e] Suc.prems(2) by auto
    have "set [0..<kQueueDepth] \<subseteq> {..<kQueueDepth}" by auto
    note r = fold_retire [OF f this]
    have "drain_loop n env (?st2, u1) = Some (st', u')"
      using Suc.prems(3) True e by (subst (asm) drain_loop.simps) simp
    with Suc.IH [of u1 ?st2] r cb [of cs st] show ?thesis by simp
  next
    case False
    with Suc.prems show ?thesis by (subst (asm) drain_loop.simps) auto
  qed
qed

lemma drain_loop_terminates:
  assumes "async_contract env out" and "async_progress env out" and "send_inv P (out u) st" and "ss_error st"
    and "card (busy st) \<le> fuel"
  shows "drain_loop fuel env (st, u) \<noteq> None"
  using assms(3-5)
proof (induction fuel arbitrary: st u)
  case 0
  then have "busy st = {}" by simp
  with 0 have "\<not> 0 < ss_active st" by (simp add: send_inv_def)
  then show ?case by (subst drain_loop.simps) simp
next
  case (Suc n)
  show ?case
  proof (cases "0 < ss_active st")
    case True
    obtain cs u1 where e: "ue_handle_events env u = (cs, u1)" by fastforce
    let ?st1 = "fold queued_cb cs st" and ?st2 = "fold retire_completed [0..<kQueueDepth] (fold queued_cb cs st)"
    have f: "send_inv P (out u1) ?st1" "ss_error ?st1" "busy ?st1 = busy st"
      using fold_queued_cb_inv [OF Suc.prems(1)] async_contractD(2) [OF assms(1) e] Suc.prems(2) by auto
    have "set [0..<kQueueDepth] \<subseteq> {..<kQueueDepth}" by auto
    note r = fold_retire [OF f(1,2) this]
    obtain i where i: "i < kQueueDepth" "qx_completed (ss_queue ?st1 ! i)"
      using events_complete [OF assms(1,2) Suc.prems(1) True e] by blast
    then have "i \<in> busy st" using f(1,3) by (auto simp: busy_def send_inv_def)
    moreover have "busy ?st2 \<subseteq> busy st - {i}" using r i f(3) by auto
    ultimately have "busy ?st2 \<subset> busy st" by auto
    then have "card (busy ?st2) < card (busy st)" by (intro psubset_card_mono) simp_all
    then have "drain_loop n env (?st2, u1) \<noteq> None"
      using Suc.IH [of u1 ?st2] r Suc.prems(3) by simp
    then show ?thesis using True e by (subst drain_loop.simps) simp
  next
    case False
    then show ?thesis by (subst drain_loop.simps) auto
  qed
qed

section \<open>The whole body\<close>

lemma prefill_start:
  assumes "async_contract env out" and "out u = {}" and "1 \<le> depth" and "depth \<le> kQueueDepth"
    and "P = \<lparr>sp_disk = disk, sp_size = sz, sp_depth = depth\<rparr>"
    and "prefill env h t disk sz [0..<depth] (initial_send, u) = (st, u1)"
  shows "send_inv P (out u1) st" and "send_live P st" and "\<not> ss_error st \<Longrightarrow> send_measure P st \<le> 2 * sz"
proof -
  have inv0: "send_inv P (out (snd (initial_send, u))) (fst (initial_send, u))"
    using initial_send_inv [of P] assms(2,4,5) by simp
  have idx: "distinct [0..<depth]" "set [0..<depth] \<inter> busy (fst (initial_send, u)) = {}"
    "set [0..<depth] \<subseteq> {..<sp_depth P}" by (auto simp: assms(5))
  have "[0..<depth] \<noteq> []" using assms(3) by simp
  with prefill_inv [OF assms(1) inv0 idx, of h t] assms(6)
  show "send_inv P (out u1) st" and "send_live P st" and "\<not> ss_error st \<Longrightarrow> send_measure P st \<le> 2 * sz"
    by (simp_all add: assms(5) send_measure_def) (simp add: initial_send_def)
qed

lemma send_body_inv:
  assumes "async_contract env out" and "out u = {}" and "1 \<le> depth" and "depth \<le> kQueueDepth"
    and "P = \<lparr>sp_disk = disk, sp_size = sz, sp_depth = depth\<rparr>"
    and "send_body fuel env h t depth disk sz u = Some (st', u')"
  shows "send_inv P (out u') st' \<and> out u' = {} \<and> busy st' = {} \<and> (ss_error st' \<or> ss_bytes_read st' = sz)"
proof -
  obtain st u1 where p: "prefill env h t disk sz [0..<depth] (initial_send, u) = (st, u1)" by fastforce
  note pre = prefill_start [OF assms(1-5) p]
  obtain st2 u2 where l: "send_loop fuel env h t disk sz (st, u1) = Some (st2, u2)"
    using assms(6) by (auto simp: send_body_def p split: option.splits)
  from send_loop_inv [OF assms(1) pre(1,2), of fuel h t] l
  have s2: "send_inv P (out u2) st2" "send_live P st2" "ss_error st2 \<or> \<not> 0 < ss_active st2"
    by (simp_all add: assms(5))
  show ?thesis
  proof (cases "ss_error st2")
    case True
    then have "drain_loop fuel env (st2, cancel_in_flight env st2 u2) = Some (st', u')"
      using assms(6) by (simp add: send_body_def p l)
    from drain_loop_inv [OF assms(1) _ True this] s2(1) cancel_out [OF assms(1)]
    have "send_inv P (out u') st'" "ss_error st'" "\<not> 0 < ss_active st'" by simp_all
    with inv_idle show ?thesis by blast
  next
    case False
    then have "st' = st2" "u' = u2" using assms(6) by (simp_all add: send_body_def p l)
    with s2 False inv_idle [OF s2(1)] show ?thesis by (auto simp: send_live_def assms(5))
  qed
qed

lemma send_body_terminates:
  assumes "async_contract env out" and "async_progress env out" and "out u = {}" and "1 \<le> depth" and "depth \<le> kQueueDepth"
    and "2 * sz + kQueueDepth \<le> fuel"
  shows "send_body fuel env h t depth disk sz u \<noteq> None"
proof -
  define P where "P = \<lparr>sp_disk = disk, sp_size = sz, sp_depth = depth\<rparr>"
  obtain st u1 where p: "prefill env h t disk sz [0..<depth] (initial_send, u) = (st, u1)" by fastforce
  note pre = prefill_start [OF assms(1,3-5) P_def p]
  have "send_loop fuel env h t disk sz (st, u1) \<noteq> None"
  proof (cases "ss_error st")
    case True
    then show ?thesis by (subst send_loop.simps) simp
  next
    case False
    with pre(3) assms(6) have "send_measure P st \<le> fuel" by simp
    from send_loop_terminates [OF assms(1,2) pre(1,2) this] show ?thesis by (simp add: P_def)
  qed
  then obtain st2 u2 where l: "send_loop fuel env h t disk sz (st, u1) = Some (st2, u2)" by auto
  from send_loop_inv [OF assms(1) pre(1,2), of fuel h t] l
  have s2: "send_inv P (out u2) st2" by (simp add: P_def)
  have "drain_loop fuel env (st2, cancel_in_flight env st2 u2) \<noteq> None" if "ss_error st2"
  proof (rule drain_loop_terminates [OF assms(1,2) _ that])
    show "send_inv P (out (cancel_in_flight env st2 u2)) st2" using s2 cancel_out [OF assms(1)] by simp
    have "card (busy st2) \<le> card {..<sp_depth P}" using s2 by (intro card_mono) (auto simp: send_inv_def)
    then show "card (busy st2) \<le> fuel" using assms(5,6) by (simp add: P_def)
  qed
  then show ?thesis by (simp add: send_body_def p l)
qed

section \<open>The calls around the body\<close>

text \<open>The synchronous calls neither submit nor complete asynchronous transfers.\<close>

definition sync_quiet :: "'u usb_env \<Rightarrow> ('u \<Rightarrow> nat set) \<Rightarrow> bool" where
  "sync_quiet env out \<longleftrightarrow>
     (\<forall>u. out (snd (ue_get_device_list env u)) = out u) \<and> (\<forall>d u. out (snd (ue_open env d u)) = out u)
     \<and> (\<forall>t u. out (ue_sleep env t u) = out u) \<and> (\<forall>d u. out (snd (ue_kernel_driver_active env d u)) = out u)
     \<and> (\<forall>d u. out (ue_detach_kernel_driver env d u) = out u)
     \<and> (\<forall>d u. out (snd (ue_claim_interface env d u)) = out u)
     \<and> (\<forall>d u. out (ue_release_interface env d u) = out u) \<and> (\<forall>d u. out (ue_close env d u) = out u)
     \<and> (\<forall>d e u. out (ue_clear_halt env d e u) = out u)
     \<and> (\<forall>d b t u. out (snd (ue_bulk_out env d b t u)) = out u) \<and> (\<forall>u. out (snd (ue_now env u)) = out u)"

lemma sync_quietD:
  assumes "sync_quiet env out"
  shows "ue_get_device_list env u = (a, u') \<Longrightarrow> out u' = out u" "ue_open env d u = (rc, u') \<Longrightarrow> out u' = out u"
    "out (ue_sleep env t u) = out u" "ue_kernel_driver_active env d u = (rc, u') \<Longrightarrow> out u' = out u"
    "out (ue_detach_kernel_driver env d u) = out u" "ue_claim_interface env d u = (rc, u') \<Longrightarrow> out u' = out u"
    "out (ue_release_interface env d u) = out u" "out (ue_close env d u) = out u"
    "out (ue_clear_halt env d e u) = out u" "ue_bulk_out env d b t u = (r, u') \<Longrightarrow> out u' = out u"
    "ue_now env u = (n, u') \<Longrightarrow> out u' = out u"
  using assms unfolding sync_quiet_def by (metis snd_conv)+

lemma try_open_quiet: "sync_quiet env out \<Longrightarrow> try_open env dev n u = (rc, u') \<Longrightarrow> out u' = out u"
proof (induction n arbitrary: u)
  case (Suc n)
  obtain r u1 where o: "ue_open env dev u = (r, u1)" by fastforce
  show ?case
    using Suc.prems(2) Suc.IH [OF Suc.prems(1), of "ue_sleep env 250 u1"] sync_quietD(2) [OF Suc.prems(1) o]
      sync_quietD(3) [OF Suc.prems(1), of 250 u1]
    by (auto simp: o split: if_splits)
qed simp

lemma open_device_quiet:
  assumes "sync_quiet env out" and "open_device_by_index env index n u = (r, u')"
  shows "out u' = out u"
proof -
  note q = sync_quietD [OF assms(1)]
  have l: "out u1 = out u" if "list_fabric_devices env u = (ds, u1)" for ds u1
    using that by (auto simp: list_fabric_devices_def split: prod.splits option.splits dest: q(1))
  obtain ds u1 where ds: "list_fabric_devices env u = (ds, u1)" by fastforce
  obtain lo u2 where g: "ue_get_device_list env u1 = (lo, u2)" by fastforce
  have u2: "out u2 = out u" "out u1 = out u" using l [OF ds] q(1) [OF g] by simp_all
  have rest: "out u6 = out u2" if "try_open env dev n u2 = (rc, u3)" "ue_kernel_driver_active env dev u3 = (a, u4)"
    "ue_claim_interface env dev (if a = 1 then ue_detach_kernel_driver env dev u4 else u4) = (c, u6)" for dev rc u3 a u4 c u6
    using try_open_quiet [OF assms(1) that(1)] q(4) [OF that(2)] q(6) [OF that(3)] q(5) by simp
  show ?thesis
    using assms(2) u2 rest q(8,9)
    by (auto simp: open_device_by_index_def ds g Let_def split: if_splits option.splits prod.splits dest: try_open_quiet [OF assms(1)])
qed

lemma bulk_write_quiet:
  "sync_quiet env out \<Longrightarrow> bulk_write_all fuel env h data t u = Some (r, u') \<Longrightarrow> out u' = out u"
proof (induction fuel arbitrary: data u)
  case 0
  then show ?case by (subst (asm) bulk_write_all.simps) (auto split: if_splits)
next
  case (Suc n)
  obtain rc k u1 where o: "ue_bulk_out env h (take kChunkSize data) t u = ((rc, k), u1)" by (metis surj_pair)
  show ?case
    using Suc.prems(2) Suc.IH [OF Suc.prems(1), of "drop k data" u1] sync_quietD(10) [OF Suc.prems(1) o]
    by (subst (asm) bulk_write_all.simps) (auto simp: o split: if_splits)
qed

lemma close_device_quiet: "sync_quiet env out \<Longrightarrow> out (close_device env h u) = out u"
  by (auto simp: close_device_def sync_quietD(7,8) split: option.splits)

text \<open>A successful bulk write moves every byte, in order, when each call moves a prefix.\<close>

definition bulk_out_prefix :: "'u usb_env \<Rightarrow> ('u \<Rightarrow> string) \<Rightarrow> bool" where
  "bulk_out_prefix env sent \<longleftrightarrow> (\<forall>h b t u. let ((rc, n), u') = ue_bulk_out env h b t u
     in rc = LIBUSB_SUCCESS \<longrightarrow> n \<le> length b \<and> sent u' = sent u @ take n b)"

lemma bulk_write_all_sends:
  assumes "bulk_out_prefix env sent" and "bulk_write_all fuel env h data t u = Some (Inr (), u')"
  shows "sent u' = sent u @ data"
  using assms(2)
proof (induction fuel arbitrary: data u)
  case 0
  then show ?case by (subst (asm) bulk_write_all.simps) (auto split: if_splits)
next
  case (Suc n)
  show ?case
  proof (cases "data = []")
    case True
    with Suc.prems show ?thesis by (subst (asm) bulk_write_all.simps) simp
  next
    case False
    obtain rc k u1 where o: "ue_bulk_out env h (take kChunkSize data) t u = ((rc, k), u1)" by (metis surj_pair)
    with Suc.prems False have rc: "rc = LIBUSB_SUCCESS" and rest: "bulk_write_all n env h (drop k data) t u1 = Some (Inr (), u')"
      by (subst (asm) bulk_write_all.simps, auto split: if_splits)+
    from assms(1) o rc have "k \<le> length (take kChunkSize data)" "sent u1 = sent u @ take k (take kChunkSize data)"
      unfolding bulk_out_prefix_def by (metis (mono_tags, lifting) case_prod_conv)+
    with Suc.IH [OF rest] show ?thesis by (simp add: min_absorb1)
  qed
qed

lemma bulk_write_terminates:
  assumes "\<forall>h b t u. b \<noteq> [] \<and> fst (fst (ue_bulk_out env h b t u)) = LIBUSB_SUCCESS \<longrightarrow> 0 < snd (fst (ue_bulk_out env h b t u))"
    and "length data \<le> fuel"
  shows "bulk_write_all fuel env h data t u \<noteq> None"
  using assms(2)
proof (induction fuel arbitrary: data u)
  case 0
  then show ?case by (subst bulk_write_all.simps) simp
next
  case (Suc n)
  show ?case
  proof (cases "data = []")
    case True
    then show ?thesis by (subst bulk_write_all.simps) simp
  next
    case False
    obtain rc k u1 where o: "ue_bulk_out env h (take kChunkSize data) t u = ((rc, k), u1)" by (metis surj_pair)
    have "0 < k" if "rc = LIBUSB_SUCCESS"
    proof -
      have "take kChunkSize data \<noteq> []" using False by (simp add: kChunkSize_def)
      with assms(1) o that show ?thesis by (metis fst_conv snd_conv)
    qed
    then have "rc = LIBUSB_SUCCESS \<longrightarrow> bulk_write_all n env h (drop k data) t u1 \<noteq> None"
      using Suc.prems False by (intro impI Suc.IH) (cases data; simp)
    then show ?thesis using False by (subst bulk_write_all.simps) (simp add: o)
  qed
qed

section \<open>A reliable device\<close>

text \<open>Every submission is accepted and every completion is a success.\<close>

definition reliable :: "'u usb_env \<Rightarrow> bool" where
  "reliable env \<longleftrightarrow> (\<forall>h i d t u. fst (ue_submit_out env h i d t u) = 0)
     \<and> (\<forall>u. \<forall>c \<in> set (fst (ue_handle_events env u)). cp_status c = LIBUSB_TRANSFER_COMPLETED)"

definition no_failure :: "send_state \<Rightarrow> bool" where
  "no_failure st \<longleftrightarrow> \<not> ss_error st
     \<and> (\<forall>q \<in> set (ss_queue st). qx_completed q \<longrightarrow> qx_status q = LIBUSB_TRANSFER_COMPLETED)"

lemma no_failure_set_xfr:
  "no_failure st \<Longrightarrow> (\<And>q. qx_completed (f q) \<Longrightarrow> qx_status (f q) = LIBUSB_TRANSFER_COMPLETED \<or> qx_completed q \<and> qx_status (f q) = qx_status q)
     \<Longrightarrow> no_failure (set_xfr i f st)"
proof -
  assume nf: "no_failure st"
    and f: "\<And>q. qx_completed (f q) \<Longrightarrow> qx_status (f q) = LIBUSB_TRANSFER_COMPLETED \<or> qx_completed q \<and> qx_status (f q) = qx_status q"
  show ?thesis
  proof (cases "i < length (ss_queue st)")
    case True
    then have "ss_queue st ! i \<in> set (ss_queue st)" by simp
    with nf f [of "ss_queue st ! i"] have "qx_completed (f (ss_queue st ! i)) \<longrightarrow> qx_status (f (ss_queue st ! i)) = LIBUSB_TRANSFER_COMPLETED"
      by (auto simp: no_failure_def)
    with nf show ?thesis
      unfolding no_failure_def set_xfr_def by (auto dest!: set_update_subset_insert [THEN subsetD])
  next
    case False
    then show ?thesis using nf by (simp add: no_failure_def set_xfr_def list_update_beyond)
  qed
qed

lemma no_failure_fields [simp]:
  "no_failure (st\<lparr>ss_bytes_read := a\<rparr>) = no_failure st" "no_failure (st\<lparr>ss_bytes_sent := a\<rparr>) = no_failure st"
  "no_failure (st\<lparr>ss_active := b\<rparr>) = no_failure st" "no_failure (st\<lparr>ss_disk_done := c\<rparr>) = no_failure st"
  "no_failure (st\<lparr>ss_wire := e\<rparr>) = no_failure st"
  by (simp_all add: no_failure_def)

lemma submit_next_ok:
  assumes "reliable env" and "sz \<le> length disk" and "no_failure st"
  shows "no_failure (fst (submit_next env h t disk sz i (st, u)))"
proof -
  define d where d: "d = take (min (sz - ss_bytes_read st) kChunkSize) (drop (ss_bytes_read st) disk)"
  obtain rc v where r: "ue_submit_out env h i d t u = (rc, v)" by fastforce
  have "fst (ue_submit_out env h i d t u) = 0" using assms(1) unfolding reliable_def by blast
  then have rc: "rc = 0" by (simp add: r)
  let ?st1 = "set_xfr i (\<lambda>q. q\<lparr>qx_buf := d, qx_valid_bytes := length d, qx_completed := False, qx_in_flight := True\<rparr>) st"
  have ne: "d \<noteq> []" if "sz - ss_bytes_read st \<noteq> 0"
    using that assms(2) by (simp add: d kChunkSize_def)
  have "no_failure ?st1" by (rule no_failure_set_xfr [OF assms(3)]) simp
  then have ok: "no_failure (?st1\<lparr>ss_bytes_read := a, ss_disk_done := b, ss_active := c, ss_wire := w\<rparr>)" for a b c w
    by simp
  show ?thesis
    unfolding submit_next_def prod.case Let_def d [symmetric] r rc
    using ne ok assms(3) by simp
qed

lemma prefill_ok:
  "reliable env \<Longrightarrow> sz \<le> length disk \<Longrightarrow> no_failure (fst s) \<Longrightarrow> no_failure (fst (prefill env h t disk sz ks s))"
proof (induction ks arbitrary: s)
  case (Cons i ks)
  then show ?case using submit_next_ok [of env sz disk "fst s" h t i "snd s"] by simp
qed simp

lemma scan_queue_ok:
  assumes "reliable env" and "sz \<le> length disk"
  shows "no_failure st \<Longrightarrow> length (ss_queue st) = kQueueDepth \<Longrightarrow> set ks \<subseteq> {..<kQueueDepth}
    \<Longrightarrow> no_failure (fst (scan_queue env h t disk sz ks (st, u)))"
proof (induction ks arbitrary: st u)
  case Nil
  then show ?case by simp
next
  case (Cons i ks)
  let ?q = "ss_queue st ! i"
  show ?case
  proof (cases "qx_completed ?q")
    case False
    with Cons show ?thesis by simp
  next
    case True
    have "?q \<in> set (ss_queue st)" using Cons.prems(2,3) by simp
    with Cons.prems(1) True have s: "qx_status ?q = LIBUSB_TRANSFER_COMPLETED" by (simp add: no_failure_def)
    let ?st2 = "((set_xfr i (\<lambda>q. q\<lparr>qx_completed := False\<rparr>) st)\<lparr>ss_active := ss_active st - 1\<rparr>)
        \<lparr>ss_bytes_sent := ss_bytes_sent st + qx_valid_bytes ?q\<rparr>"
    have n2: "no_failure ?st2" using Cons.prems(1) by (auto intro!: no_failure_set_xfr)
    obtain st3 u3 where sub: "submit_next env h t disk sz i (?st2, u) = (st3, u3)" by fastforce
    have n3: "no_failure st3" using submit_next_ok [OF assms n2, of h t i u] sub by simp
    have l3: "length (ss_queue st3) = kQueueDepth"
      using sub Cons.prems(2) by (auto simp: submit_next_def Let_def split: if_splits prod.splits)
    show ?thesis
      using True s n2 sub Cons.IH [OF n3 l3] Cons.IH [OF n2] Cons.prems(2,3) by (auto simp: Let_def)
  qed
qed

lemma send_round_ok:
  assumes "reliable env" and "sz \<le> length disk" and "no_failure st" and "length (ss_queue st) = kQueueDepth"
  shows "no_failure (fst (send_round env h t disk sz (st, u)))"
proof -
  obtain cs u1 where e: "ue_handle_events env u = (cs, u1)" by fastforce
  have "\<forall>c \<in> set cs. cp_status c = LIBUSB_TRANSFER_COMPLETED" using assms(1) e unfolding reliable_def by (metis fst_conv)
  then have "no_failure (fold queued_cb cs st) \<and> length (ss_queue (fold queued_cb cs st)) = kQueueDepth"
    using assms(3,4)
  proof (induction cs arbitrary: st)
    case (Cons c cs)
    have "no_failure (queued_cb c st)" unfolding queued_cb_def
      using Cons.prems by (intro no_failure_set_xfr) simp_all
    then show ?case using Cons by (simp add: queued_cb_def)
  qed simp
  then show ?thesis
    by (simp add: send_round_def e) (rule scan_queue_ok [OF assms(1,2)], auto)
qed

lemma send_loop_ok:
  assumes "async_contract env out" and "reliable env" and "sp_size P \<le> length (sp_disk P)"
    and "send_inv P (out u) st" and "send_live P st" and "no_failure st"
    and "send_loop fuel env h t (sp_disk P) (sp_size P) (st, u) = Some (st', u')"
  shows "no_failure st'"
  using assms(4-7)
proof (induction fuel arbitrary: st u)
  case 0
  then show ?case by (subst (asm) send_loop.simps) (auto split: if_splits)
next
  case (Suc n)
  show ?case
  proof (cases "0 < ss_active st \<and> \<not> ss_error st")
    case True
    obtain st1 u1 where r: "send_round env h t (sp_disk P) (sp_size P) (st, u) = (st1, u1)" by fastforce
    have step: "send_loop n env h t (sp_disk P) (sp_size P) (st1, u1) = Some (st', u')"
      using Suc.prems(4) True r by (subst (asm) send_loop.simps) simp
    have "\<not> ss_error st" using True by simp
    note ri = send_round_inv(1,2) [OF assms(1) Suc.prems(1) this Suc.prems(2) r]
    have "length (ss_queue st) = kQueueDepth" using Suc.prems(1) by (simp add: send_inv_def)
    from send_round_ok [OF assms(2,3) Suc.prems(3) this, of h t u] have "no_failure st1" by (simp add: r)
    from Suc.IH [OF ri this step] show ?thesis .
  next
    case False
    with Suc.prems show ?thesis by (subst (asm) send_loop.simps) auto
  qed
qed

lemma send_body_succeeds:
  assumes "async_contract env out" and "async_progress env out" and "reliable env" and "out u = {}"
    and "1 \<le> depth" and "depth \<le> kQueueDepth" and "sz \<le> length disk" and "2 * sz + kQueueDepth \<le> fuel"
  shows "\<exists>st u'. send_body fuel env h t depth disk sz u = Some (st, u') \<and> \<not> ss_error st"
proof -
  define P where "P = \<lparr>sp_disk = disk, sp_size = sz, sp_depth = depth\<rparr>"
  obtain st u1 where p: "prefill env h t disk sz [0..<depth] (initial_send, u) = (st, u1)" by fastforce
  note pre = prefill_start [OF assms(1,4-6) P_def p]
  have "no_failure initial_send" by (simp add: no_failure_def initial_send_def empty_xfr_def)
  with prefill_ok [OF assms(3,7), of "(initial_send, u)" h t "[0..<depth]"] have nf: "no_failure st" by (simp add: p)
  then have "send_measure P st \<le> fuel" using pre(3) assms(8) by (simp add: no_failure_def)
  from send_loop_terminates [OF assms(1,2) pre(1,2) this, of h t] obtain st2 u2 where
    l: "send_loop fuel env h t disk sz (st, u1) = Some (st2, u2)" by (auto simp: P_def)
  from send_loop_ok [OF assms(1,3) _ pre(1,2) nf, of fuel h t] l assms(7)
  have "no_failure st2" by (simp add: P_def)
  then have "\<not> ss_error st2" by (simp add: no_failure_def)
  then show ?thesis by (simp add: send_body_def p l)
qed

text \<open>A device that accepts everything; the state lists the outstanding transfers.\<close>

definition prompt_env :: "int \<Rightarrow> nat list usb_env" where
  "prompt_env status = \<lparr>ue_ctx = True, ue_get_device_list = (\<lambda>u. (Some [sample_device 7], u)),
     ue_open = (\<lambda>d u. (0, u)), ue_sleep = (\<lambda>_ u. u),
     ue_kernel_driver_active = (\<lambda>_ u. (0, u)), ue_detach_kernel_driver = (\<lambda>_ u. u),
     ue_claim_interface = (\<lambda>_ u. (0, u)), ue_release_interface = (\<lambda>_ u. u), ue_close = (\<lambda>_ u. u),
     ue_clear_halt = (\<lambda>_ _ u. u), ue_string_descriptor = (\<lambda>_ _ u. ([], u)),
     ue_bulk_out = (\<lambda>_ bs _ u. ((0, length bs), u)), ue_bulk_in = (\<lambda>_ n _ u. ((0, replicate n (CHR 0x00)), u)),
     ue_submit_out = (\<lambda>_ i _ _ u. (0, List.insert i u)), ue_cancel = (\<lambda>_ u. u),
     ue_handle_events = (\<lambda>u. (map (\<lambda>i. \<lparr>cp_slot = i, cp_status = status, cp_actual = 0, cp_data = []\<rparr>) (remdups u), [])),
     ue_now = (\<lambda>u. (0, u)), ue_strerror = (\<lambda>_. ''error'')\<rparr>"

lemma prompt_env_contract: "async_contract (prompt_env s) set" "sync_quiet (prompt_env s) set" "async_progress (prompt_env s) set"
  by (auto simp: async_contract_def sync_quiet_def async_progress_def prompt_env_def comp_def)

lemma prompt_open: "open_device_by_index (prompt_env s) 0 5 u = (Inr (sample_device 7), u)"
  by (simp add: open_device_by_index_def list_fabric_devices_def prompt_env_def is_fabric_def sample_device_def
      fabric_id_def eval_nat_numeral LIBUSB_SUCCESS_def)

lemma prompt_reliable: "reliable (prompt_env LIBUSB_TRANSFER_COMPLETED)"
  by (simp add: reliable_def prompt_env_def)

section \<open>Properties\<close>

lemma send_finished:
  assumes "async_contract env out" and "sync_quiet env out" and "out u = {}"
    and "send_body fuel env h t (unat (effective_queue_depth settings knob)) disk sz u = Some (st, u1)"
    and "ue_now env (close_device env (Some h) u1) = (now, u2)"
  shows "out u2 = {} \<and> (tr_ok (send_result sz secs st) \<longleftrightarrow> tr_error_message (send_result sz secs st) = [])
    \<and> (tr_ok (send_result sz secs st) \<longrightarrow> sz \<le> length disk \<and> concat (ss_wire st) = take sz disk
        \<and> tr_bytes_transferred (send_result sz secs st) = sz \<and> tr_expected_bytes (send_result sz secs st) = sz)
    \<and> (\<forall>w \<in> set (ss_wire st). w \<noteq> [] \<and> length w \<le> kChunkSize)"
proof -
  note inv = send_body_inv [OF assms(1,3) effective_queue_depth_range refl assms(4)]
  have "out u2 = {}"
    using sync_quietD(11) [OF assms(2,5)] close_device_quiet [OF assms(2)] inv by simp
  moreover have "ss_bytes_sent st = sz \<and> concat (ss_wire st) = take sz disk \<and> sz \<le> length disk"
    if "\<not> ss_error st" using that inv by (auto simp: send_inv_def)
  ultimately show ?thesis
    using inv by (auto simp: send_result_def Let_def send_inv_def)
qed





definition send_step :: "'u usb_env \<Rightarrow> libusb_device \<Rightarrow> int \<Rightarrow> string \<Rightarrow> nat \<Rightarrow> send_state \<times> 'u \<Rightarrow> send_state \<times> 'u" where
  "send_step env h t disk sz s = (if 0 < ss_active (fst s) \<and> \<not> ss_error (fst s) then send_round env h t disk sz s else s)"

text \<open>
  C32: the queue is never overrun. After any number of rounds the active count is the number
  of transfers whose completion was not processed, at most the computed depth; only slots
  below the depth are outstanding; what libusb accepted is a prefix of the file; and no
  byte is counted as sent before it was read.
\<close>


theorem send_window:
  assumes "async_contract env out" and "out u = {}" and "1 \<le> depth" and "depth \<le> kQueueDepth"
    and "((send_step env h t disk sz) ^^ n) (prefill env h t disk sz [0..<depth] (initial_send, u)) = (st, v)"
  shows "ss_active st \<le> int depth \<and> out v \<subseteq> {..<depth} \<and> concat (ss_wire st) = take (ss_bytes_read st) disk
    \<and> ss_bytes_sent st \<le> ss_bytes_read st \<and> ss_bytes_read st \<le> sz"
proof -
  define P where "P = \<lparr>sp_disk = disk, sp_size = sz, sp_depth = depth\<rparr>"
  obtain st0 u0 where p: "prefill env h t disk sz [0..<depth] (initial_send, u) = (st0, u0)" by fastforce
  note pre = prefill_start [OF assms(1-4) P_def p]
  have "send_inv P (out v) st \<and> send_live P st"
    using assms(5) unfolding p
  proof (induction n arbitrary: st v)
    case 0
    with pre show ?case by simp
  next
    case (Suc n)
    obtain st1 u1 where s1: "((send_step env h t disk sz) ^^ n) (st0, u0) = (st1, u1)" by fastforce
    note ih = Suc.IH [OF s1]
    have step: "send_step env h t disk sz (st1, u1) = (st, v)" using Suc.prems s1 by simp
    show ?case
    proof (cases "0 < ss_active st1 \<and> \<not> ss_error st1")
      case True
      then have "send_round env h t (sp_disk P) (sp_size P) (st1, u1) = (st, v)" using step by (simp add: send_step_def P_def)
      with send_round_inv(1,2) [OF assms(1)] ih True show ?thesis by blast
    next
      case False
      with step ih show ?thesis by (auto simp: send_step_def)
    qed
  qed
  then show ?thesis using inv_active [of P "out v" st] by (auto simp: send_inv_def P_def)
qed

lemma send_window_witness:
  "\<exists>st v. ((send_step (prompt_env 0) (sample_device 7) 8000 ''abc'' 3) ^^ 2) (prefill (prompt_env 0) (sample_device 7) 8000 ''abc'' 3 [0..<1] (initial_send, [])) = (st, v)
     \<and> ss_active st \<le> 1 \<and> set v \<subseteq> {..<1}"
proof -
  obtain st v where s: "((send_step (prompt_env 0) (sample_device 7) 8000 ''abc'' 3) ^^ 2)
      (prefill (prompt_env 0) (sample_device 7) 8000 ''abc'' 3 [0..<1] (initial_send, [])) = (st, v)" by fastforce
  from send_window [OF prompt_env_contract(1) _ _ _ s] s show ?thesis by (simp add: kQueueDepth_def)
qed

end
