(* ===== verification/Usb_Receive.thy ===== *)
theory Usb_Receive
  imports Usb_Device File_System
begin

text \<open>
  Receiving a file: \<open>receive_file_core\<close> of \<open>core/src/usb_transfer_core.cpp\<close>.

  The first part, up to the header, is sequential: bulk reads with fuel and the loop that
  skips stray session frames. The second part is a ring of 34 buffers shared by the USB
  thread, which submits, waits and accounts, and a writer thread, which writes completed
  buffers to the file. It is a step function on the shared state and the two threads' local
  variables: an action names the thread that moves and what its environment answers
  (return codes, completions, write failures). Runs are all sequences of actions.
\<close>

section \<open>The header\<close>

fun bulk_read_all :: "nat \<Rightarrow> 'u usb_env \<Rightarrow> libusb_device \<Rightarrow> string \<Rightarrow> nat \<Rightarrow> int \<Rightarrow> 'u
    \<Rightarrow> (string option \<times> 'u) option" where
  "bulk_read_all fuel env handle got len timeout_ms u =
     (if len \<le> length got then Some (Some got, u)
      else case fuel of 0 \<Rightarrow> None
      | Suc n \<Rightarrow> (let ((rc, bytes), u1) = ue_bulk_in env handle (min (len - length got) kChunkSize) timeout_ms u
          in if rc \<noteq> LIBUSB_SUCCESS then Some (None, u1)
             else bulk_read_all n env handle (got @ bytes) len timeout_ms u1))"

declare bulk_read_all.simps [simp del]

definition kMaxStraySessionBytes :: nat where "kMaxStraySessionBytes = 256 * 1024"

fun discard_loop :: "nat \<Rightarrow> 'u usb_env \<Rightarrow> libusb_device \<Rightarrow> nat \<Rightarrow> nat \<Rightarrow> int \<Rightarrow> 'u \<Rightarrow> (bool \<times> 'u) option" where
  "discard_loop fuel env handle scratch remaining timeout_ms u =
     (if remaining = 0 then Some (True, u)
      else case fuel of 0 \<Rightarrow> None
      | Suc n \<Rightarrow> (case bulk_read_all fuel env handle [] (min remaining scratch) timeout_ms u of
            None \<Rightarrow> None
          | Some (None, u1) \<Rightarrow> Some (False, u1)
          | Some (Some _, u1) \<Rightarrow> discard_loop n env handle scratch (remaining - min remaining scratch) timeout_ms u1))"

declare discard_loop.simps [simp del]

definition discard_incoming_bytes :: "nat \<Rightarrow> 'u usb_env \<Rightarrow> libusb_device \<Rightarrow> nat \<Rightarrow> int \<Rightarrow> 'u \<Rightarrow> (bool \<times> 'u) option" where
  "discard_incoming_bytes fuel env handle byte_count timeout_ms u =
     (if kMaxStraySessionBytes < byte_count then Some (False, u)
      else discard_loop fuel env handle (min byte_count kChunkSize) byte_count timeout_ms u)"

definition remaining_timeout_ms :: "'u usb_env \<Rightarrow> int \<Rightarrow> 'u \<Rightarrow> int \<times> 'u" where
  "remaining_timeout_ms env deadline u = (let (now, u1) = ue_now env u in (max 1 (deadline - now), u1))"

text \<open>The header loop: the error text, or the header that ends it.\<close>

fun receive_header :: "nat \<Rightarrow> 'u usb_env \<Rightarrow> libusb_device \<Rightarrow> int \<Rightarrow> u8 \<Rightarrow> 'u
    \<Rightarrow> ((string + file_header) \<times> 'u) option" where
  "receive_header 0 env handle deadline expected u = None"
| "receive_header (Suc n) env handle deadline expected u =
     (let (now, u1) = ue_now env u
      in if deadline \<le> now then Some (Inl ''Header read failed'', u1)
         else let (ms, u2) = remaining_timeout_ms env deadline u1
           in case bulk_read_all (Suc n) env handle [] kHeaderSize ms u2 of
               None \<Rightarrow> None
             | Some (None, u3) \<Rightarrow> Some (Inl ''Header read failed'', u3)
             | Some (Some bytes, u3) \<Rightarrow>
                 let hdr = header_of_bytes bytes
                 in if fh_magic hdr \<noteq> kHeaderMagic then Some (Inl ''Bad magic bytes in header'', u3)
                    else if expected = kFrameKindPayload \<and> fh_frame_kind hdr = kFrameKindSession
                    then let (ms2, u4) = remaining_timeout_ms env deadline u3
                      in (case discard_incoming_bytes (Suc n) env handle (unat (fh_file_size hdr)) ms2 u4 of
                            None \<Rightarrow> None
                          | Some (False, u5) \<Rightarrow> Some (Inl ''Stray session frame read failed'', u5)
                          | Some (True, u5) \<Rightarrow> receive_header n env handle deadline expected u5)
                    else if expected \<noteq> 0 \<and> fh_frame_kind hdr \<noteq> expected
                    then Some (Inl ''Unexpected frame kind in header'', u3)
                    else Some (Inr hdr, u3))"

text \<open>
  Everything before the ring: the device, the output file, the header. On an error the
  device is closed again and the (empty) output file stays.
\<close>

definition receive_prepare :: "nat \<Rightarrow> 'u usb_env \<Rightarrow> string \<Rightarrow> int \<Rightarrow> int \<Rightarrow> u8 \<Rightarrow> file_system \<Rightarrow> 'u
    \<Rightarrow> ((string + libusb_device \<times> file_header) \<times> file_system \<times> 'u) option" where
  "receive_prepare fuel env out_path port_index header_timeout_ms expected fs u =
     (case open_device_by_index env port_index 5 u of
        (Inl msg, u1) \<Rightarrow> Some (Inl (if msg = []
            then ''Could not open USB device at port index '' @ show_int port_index else msg), fs, u1)
      | (Inr handle, u1) \<Rightarrow> (case open_trunc out_path fs of
          None \<Rightarrow> Some (Inl (''Could not create output file: '' @ out_path), fs, close_device env (Some handle) u1)
        | Some fs1 \<Rightarrow> let (now, u2) = ue_now env u1
            in (case receive_header fuel env handle (now + header_timeout_ms) expected u2 of
                  None \<Rightarrow> None
                | Some (Inl e, u3) \<Rightarrow> Some (Inl e, fs1, close_device env (Some handle) u3)
                | Some (Inr hdr, u3) \<Rightarrow> Some (Inr (handle, hdr), fs1, u3))))"

section \<open>The ring: state\<close>

datatype buf_state = FREE | IN_FLIGHT | READY

text \<open>\<open>rs_seq\<close> is the number of the submission that last used the slot; it is not in the code.\<close>

record ring_slot =
  rs_buf :: string
  rs_state :: buf_state
  rs_actual :: nat
  rs_status :: int
  rs_real_bytes :: nat
  rs_seq :: nat

datatype main_pc = Submitting | Checking | Waiting | Processing | Finishing | Draining | Usb_Done | Joining | Finished

datatype writer_pc = Polling | Writing | Returned

record ring_state =
  rg_slots :: "ring_slot list"
  rg_write_error :: bool
  rg_usb_done :: bool
  rg_recv_aborted :: bool
  rg_total_submitted :: nat
  rg_out :: string
  rg_pc :: main_pc
  rg_bytes_submitted :: nat
  rg_bytes_received :: nat
  rg_active :: int
  rg_error :: bool
  rg_error_msg :: string
  rg_submit_count :: nat
  rg_next_complete :: nat
  rg_writer :: writer_pc
  rg_write_idx :: nat

text \<open>
  The parameters of a run: the size of the header, the depth, and what the bus may deliver
  for the \<open>k\<close>-th submission, a status and the received bytes.
\<close>

record ring_params =
  rp_size :: nat
  rp_depth :: nat
  rp_deliver :: "nat \<Rightarrow> int \<Rightarrow> string \<Rightarrow> bool"

definition empty_slot :: ring_slot where
  "empty_slot = \<lparr>rs_buf = replicate kChunkSize (CHR 0x00), rs_state = FREE, rs_actual = 0, rs_status = 0,
     rs_real_bytes = 0, rs_seq = 0\<rparr>"

definition initial_ring :: ring_state where
  "initial_ring = \<lparr>rg_slots = replicate kPoolSize empty_slot, rg_write_error = False, rg_usb_done = False,
     rg_recv_aborted = False, rg_total_submitted = 0, rg_out = [], rg_pc = Submitting,
     rg_bytes_submitted = 0, rg_bytes_received = 0, rg_active = 0, rg_error = False, rg_error_msg = [],
     rg_submit_count = 0, rg_next_complete = 0, rg_writer = Polling, rg_write_idx = 0\<rparr>"

definition ring_slot_of :: "nat \<Rightarrow> ring_state \<Rightarrow> ring_slot" where
  "ring_slot_of k s = rg_slots s ! (k mod kPoolSize)"

definition set_slot :: "nat \<Rightarrow> (ring_slot \<Rightarrow> ring_slot) \<Rightarrow> ring_state \<Rightarrow> ring_state" where
  "set_slot k f s = s\<lparr>rg_slots := (rg_slots s)[k mod kPoolSize := f (rg_slots s ! (k mod kPoolSize))]\<rparr>"

section \<open>The ring: steps\<close>

datatype ring_action = Main_Step | Submit_Result int | Events "(nat \<times> int \<times> string) list" | Drain_End
  | Writer_Step | Write_Fails

definition submit_wanted :: "ring_params \<Rightarrow> ring_state \<Rightarrow> bool" where
  "submit_wanted P s \<longleftrightarrow> rg_active s < int (rp_depth P) \<and> rg_bytes_submitted s < rp_size P \<and> \<not> rg_error s"

text \<open>One pass of the loop of \<open>try_submit\<close>, with the return code of libusb.\<close>

definition submit_slot :: "ring_params \<Rightarrow> int \<Rightarrow> ring_state \<Rightarrow> ring_state" where
  "submit_slot P rc s =
     (let k = rg_submit_count s;
          real = min (rp_size P - rg_bytes_submitted s) kChunkSize;
          s1 = set_slot k (\<lambda>q. q\<lparr>rs_real_bytes := real,
             rs_buf := (if real < kChunkSize then replicate kChunkSize (CHR 0x00) else rs_buf q),
             rs_status := 0, rs_state := IN_FLIGHT, rs_seq := k\<rparr>) s
      in if rc \<noteq> 0
         then (set_slot k (\<lambda>q. q\<lparr>rs_state := FREE\<rparr>) s1)\<lparr>rg_error := True,
           rg_error_msg := ''USB submit failed, rc='' @ show_int rc, rg_pc := Checking\<rparr>
         else s1\<lparr>rg_bytes_submitted := rg_bytes_submitted s + real, rg_submit_count := k + 1,
           rg_total_submitted := k + 1, rg_active := rg_active s + 1\<rparr>)"

text \<open>\<open>ring_cb\<close>: a transfer that was in flight completes.\<close>

definition ring_cb :: "nat \<times> int \<times> string \<Rightarrow> ring_state \<Rightarrow> ring_state" where
  "ring_cb c s = (let (i, status, data) = c
     in set_slot i (\<lambda>q. q\<lparr>rs_buf := data @ drop (length data) (rs_buf q), rs_actual := length data,
          rs_status := status, rs_state := READY\<rparr>) s)"

definition completions_ok :: "ring_params \<Rightarrow> (nat \<times> int \<times> string) list \<Rightarrow> ring_state \<Rightarrow> bool" where
  "completions_ok P cs s \<longleftrightarrow> distinct (map fst cs) \<and> list_all (\<lambda>(i, status, data). i < kPoolSize
     \<and> rs_state (rg_slots s ! i) = IN_FLIGHT \<and> length data \<le> kChunkSize
     \<and> rp_deliver P (rs_seq (rg_slots s ! i)) status data) cs"

text \<open>The accounting of one completed buffer.\<close>

definition process_slot :: "ring_params \<Rightarrow> ring_state \<Rightarrow> ring_state" where
  "process_slot P s =
     (let k = rg_next_complete s; slot = ring_slot_of k s
      in if rs_status slot \<noteq> LIBUSB_TRANSFER_COMPLETED
         then (set_slot k (\<lambda>q. q\<lparr>rs_state := FREE\<rparr>) s)\<lparr>rg_error := True,
           rg_error_msg := ''USB receive failed, status='' @ show_int (rs_status slot), rg_pc := Finishing\<rparr>
         else let real = min (rs_actual slot) (rp_size P - rg_bytes_received s)
           in (set_slot k (\<lambda>q. q\<lparr>rs_real_bytes := real\<rparr>) s)\<lparr>rg_bytes_received := rg_bytes_received s + real,
                rg_active := rg_active s - 1, rg_next_complete := k + 1, rg_pc := Submitting\<rparr>)"

text \<open>The steps of the USB thread. \<open>None\<close> means that the action is not possible there.\<close>

definition main_act :: "ring_params \<Rightarrow> ring_action \<Rightarrow> ring_state \<Rightarrow> ring_state option" where
  "main_act P a s = (case rg_pc s of
       Submitting \<Rightarrow>
         let free = (rs_state (ring_slot_of (rg_submit_count s) s) = FREE)
         in if \<not> submit_wanted P s then (if a = Main_Step then Some (s\<lparr>rg_pc := Checking\<rparr>) else None)
            else if free then (case a of Submit_Result rc \<Rightarrow> Some (submit_slot P rc s) | _ \<Rightarrow> None)
            else if rg_write_error s \<and> a = Main_Step then Some (s\<lparr>rg_error := True, rg_pc := Checking\<rparr>)
            else None
     | Checking \<Rightarrow> if a \<noteq> Main_Step then None
         else if rg_bytes_received s < rp_size P \<and> \<not> rg_error s \<and> \<not> rg_write_error s
         then Some (s\<lparr>rg_pc := Waiting\<rparr>) else Some (s\<lparr>rg_pc := Finishing\<rparr>)
     | Waiting \<Rightarrow>
         if rs_state (ring_slot_of (rg_next_complete s) s) = IN_FLIGHT
         then (if rg_write_error s then (if a = Main_Step then Some (s\<lparr>rg_error := True, rg_pc := Finishing\<rparr>) else None)
               else case a of Events cs \<Rightarrow> if completions_ok P cs s then Some (fold ring_cb cs s) else None
                 | _ \<Rightarrow> None)
         else if a \<noteq> Main_Step then None
         else if rg_error s \<or> rg_write_error s then Some (s\<lparr>rg_pc := Finishing\<rparr>)
         else Some (s\<lparr>rg_pc := Processing\<rparr>)
     | Processing \<Rightarrow> if a = Main_Step then Some (process_slot P s) else None
     | Finishing \<Rightarrow> if a \<noteq> Main_Step then None
         else if rg_error s \<or> rg_write_error s then Some (s\<lparr>rg_recv_aborted := True, rg_pc := Draining\<rparr>)
         else Some (s\<lparr>rg_pc := Usb_Done\<rparr>)
     | Draining \<Rightarrow> (case a of
           Events cs \<Rightarrow> if completions_ok P cs s then Some (fold ring_cb cs s) else None
         | Drain_End \<Rightarrow> Some (s\<lparr>rg_pc := Usb_Done\<rparr>)
         | _ \<Rightarrow> None)
     | Usb_Done \<Rightarrow> if a = Main_Step then Some (s\<lparr>rg_usb_done := True, rg_pc := Joining\<rparr>) else None
     | Joining \<Rightarrow> if a = Main_Step \<and> rg_writer s = Returned then Some (s\<lparr>rg_pc := Finished\<rparr>) else None
     | Finished \<Rightarrow> None)"

text \<open>The steps of the writer thread.\<close>

definition writer_act :: "ring_action \<Rightarrow> ring_state \<Rightarrow> ring_state option" where
  "writer_act a s = (let slot = ring_slot_of (rg_write_idx s) s in case rg_writer s of
       Polling \<Rightarrow> if a \<noteq> Writer_Step then None
         else if rs_state slot = READY then Some (s\<lparr>rg_writer := Writing\<rparr>)
         else if rg_recv_aborted s \<or> rg_usb_done s \<and> rg_total_submitted s \<le> rg_write_idx s
         then Some (s\<lparr>rg_writer := Returned\<rparr>)
         else None
     | Writing \<Rightarrow>
         if a = Write_Fails \<and> 0 < rs_real_bytes slot
         then Some ((set_slot (rg_write_idx s) (\<lambda>q. q\<lparr>rs_state := FREE\<rparr>) s)\<lparr>rg_write_error := True, rg_writer := Returned\<rparr>)
         else if a = Writer_Step
         then Some ((set_slot (rg_write_idx s) (\<lambda>q. q\<lparr>rs_state := FREE\<rparr>) s)\<lparr>
           rg_out := rg_out s @ take (rs_real_bytes slot) (rs_buf slot),
           rg_write_idx := rg_write_idx s + 1, rg_writer := Polling\<rparr>)
         else None
     | Returned \<Rightarrow> None)"

definition ring_act :: "ring_params \<Rightarrow> ring_action \<Rightarrow> ring_state \<Rightarrow> ring_state option" where
  "ring_act P a s = (if a \<in> {Writer_Step, Write_Fails} then writer_act a s else main_act P a s)"

inductive ring_reach :: "ring_params \<Rightarrow> ring_state \<Rightarrow> bool" for P where
  ring_start: "ring_reach P initial_ring"
| ring_next: "ring_reach P s \<Longrightarrow> ring_act P a s = Some s' \<Longrightarrow> ring_reach P s'"

text \<open>A schedule run from the start; \<open>None\<close> when an action of it is not possible.\<close>

fun ring_run :: "ring_params \<Rightarrow> ring_action list \<Rightarrow> ring_state \<Rightarrow> ring_state option" where
  "ring_run P [] s = Some s"
| "ring_run P (a # as) s = (case ring_act P a s of None \<Rightarrow> None | Some s' \<Rightarrow> ring_run P as s')"

lemma ring_run_reach: "ring_run P as s = Some s' \<Longrightarrow> ring_reach P s \<Longrightarrow> ring_reach P s'"
  by (induction as arbitrary: s) (auto split: option.splits intro: ring_next)

text \<open>The result the caller gets from the final state.\<close>

definition receive_result :: "ring_params \<Rightarrow> double \<Rightarrow> ring_state \<Rightarrow> transfer_result" where
  "receive_result P seconds s =
     (let ok = (\<not> rg_error s \<and> \<not> rg_write_error s \<and> rg_bytes_received s = rp_size P);
          msg = (if \<not> ok \<and> rg_write_error s then ''Disk write error'' else rg_error_msg s)
      in \<lparr>tr_ok = ok, tr_bytes_transferred = rg_bytes_received s, tr_expected_bytes = rp_size P,
          tr_seconds = seconds, tr_mbps = mib_per_second (rg_bytes_received s) seconds,
          tr_error_message = (if \<not> ok \<and> msg = []
            then ''Received '' @ show_nat (rg_bytes_received s) @ '' of '' @ show_nat (rp_size P) @ '' bytes'' else msg)\<rparr>)"

section \<open>Chunks of a file\<close>

definition chunk_len :: "nat \<Rightarrow> nat \<Rightarrow> nat" where
  "chunk_len sz j = min (sz - j * kChunkSize) kChunkSize"

definition chunk_at :: "string \<Rightarrow> nat \<Rightarrow> nat \<Rightarrow> string" where
  "chunk_at data sz j = take (chunk_len sz j) (drop (j * kChunkSize) data)"

lemma chunk_len_sum: "min sz (j * kChunkSize) + chunk_len sz j = min sz (Suc j * kChunkSize)"
  by (auto simp: chunk_len_def min_def)

lemma chunks_concat: "concat (map (chunk_at data sz) [0..<n]) = take (min sz (n * kChunkSize)) data"
proof (induction n)
  case 0
  show ?case by simp
next
  case (Suc n)
  have "take (min sz (n * kChunkSize)) data @ chunk_at data sz n = take (min sz (Suc n * kChunkSize)) data"
  proof (cases "n * kChunkSize \<le> sz")
    case True
    have "take (n * kChunkSize + chunk_len sz n) data = take (n * kChunkSize) data @ chunk_at data sz n"
      by (simp add: take_add chunk_at_def)
    with True chunk_len_sum [of sz n] show ?thesis by (simp add: min_absorb2)
  next
    case False
    then have "chunk_len sz n = 0" by (simp add: chunk_len_def)
    with False chunk_len_sum [of sz n] show ?thesis by (simp add: chunk_at_def min_absorb1)
  qed
  with Suc.IH show ?case by simp
qed

text \<open>
  The deliveries of a sender that keeps the framing: a successful completion of the \<open>k\<close>-th
  submission carries the \<open>k\<close>-th chunk; failed ones may carry anything.
\<close>

definition exact_delivery :: "string \<Rightarrow> nat \<Rightarrow> nat \<Rightarrow> int \<Rightarrow> string \<Rightarrow> bool" where
  "exact_delivery data sz k status bytes \<longleftrightarrow>
     (status = LIBUSB_TRANSFER_COMPLETED \<longrightarrow> bytes = chunk_at data sz k)"

section \<open>The ring invariant\<close>

abbreviation slot_at :: "ring_state \<Rightarrow> nat \<Rightarrow> ring_slot" where
  "slot_at s j \<equiv> ring_slot_of j s"

text \<open>The submissions whose slot still belongs to them.\<close>

definition window_start :: "ring_state \<Rightarrow> nat" where
  "window_start s = min (rg_next_complete s) (rg_write_idx s)"

definition slot_fine :: "string \<Rightarrow> nat \<Rightarrow> nat \<Rightarrow> ring_slot \<Rightarrow> bool" where
  "slot_fine data sz j q \<longleftrightarrow> rs_seq q = j \<and> rs_real_bytes q = chunk_len sz j
     \<and> (rs_state q \<noteq> IN_FLIGHT \<longrightarrow> rs_status q = LIBUSB_TRANSFER_COMPLETED \<longrightarrow>
          rs_actual q = chunk_len sz j \<and> take (chunk_len sz j) (rs_buf q) = chunk_at data sz j)"

definition ring_counts :: "ring_params \<Rightarrow> ring_state \<Rightarrow> bool" where
  "ring_counts P s \<longleftrightarrow> length (rg_slots s) = kPoolSize
     \<and> rg_write_idx s \<le> rg_submit_count s \<and> rg_next_complete s \<le> rg_submit_count s
     \<and> rg_active s = int (rg_submit_count s) - int (rg_next_complete s)
     \<and> rg_submit_count s \<le> rg_next_complete s + rp_depth P
     \<and> rg_submit_count s \<le> rg_write_idx s + kPoolSize
     \<and> rg_bytes_submitted s = min (rp_size P) (rg_submit_count s * kChunkSize)
     \<and> rg_bytes_received s = min (rp_size P) (rg_next_complete s * kChunkSize)
     \<and> rg_total_submitted s = rg_submit_count s
     \<and> (\<forall>j < rg_submit_count s. j * kChunkSize < rp_size P)"

definition ring_slots_ok :: "ring_params \<Rightarrow> string \<Rightarrow> ring_state \<Rightarrow> bool" where
  "ring_slots_ok P data s \<longleftrightarrow> (\<forall>j. window_start s \<le> j \<and> j < rg_submit_count s \<longrightarrow>
     slot_fine data (rp_size P) j (slot_at s j)
     \<and> (if j < rg_write_idx s then rs_state (slot_at s j) = FREE else rs_state (slot_at s j) \<noteq> FREE)
     \<and> (j < rg_next_complete s \<longrightarrow> rs_state (slot_at s j) \<noteq> IN_FLIGHT \<and> rs_status (slot_at s j) = LIBUSB_TRANSFER_COMPLETED))"

text \<open>Only slots of unwritten submissions are in use.\<close>

definition ring_busy :: "ring_state \<Rightarrow> bool" where
  "ring_busy s \<longleftrightarrow> (\<forall>j. rs_state (slot_at s j) \<noteq> FREE \<longrightarrow>
     (\<exists>k. rg_write_idx s \<le> k \<and> k < rg_submit_count s \<and> k mod kPoolSize = j mod kPoolSize))"

definition ring_written :: "ring_params \<Rightarrow> string \<Rightarrow> ring_state \<Rightarrow> bool" where
  "ring_written P data s \<longleftrightarrow> (\<exists>ps. length ps = rg_write_idx s \<and> rg_out s = concat ps
     \<and> (\<forall>j < rg_write_idx s. j < rg_next_complete s \<or> rs_status (slot_at s j) = LIBUSB_TRANSFER_COMPLETED
          \<longrightarrow> ps ! j = chunk_at data (rp_size P) j))"

definition ring_pc_ok :: "ring_params \<Rightarrow> ring_state \<Rightarrow> bool" where
  "ring_pc_ok P s \<longleftrightarrow>
     (rg_pc s \<in> {Checking, Waiting, Processing} \<longrightarrow>
        rg_submit_count s = rg_next_complete s + rp_depth P \<or> rg_bytes_submitted s = rp_size P)
     \<and> (rg_pc s \<in> {Waiting, Processing} \<longrightarrow> rg_bytes_received s < rp_size P)
     \<and> (rg_pc s = Processing \<longrightarrow> rs_state (slot_at s (rg_next_complete s)) \<noteq> IN_FLIGHT)
     \<and> (rg_pc s \<in> {Finishing, Draining, Usb_Done, Joining, Finished} \<longrightarrow> rg_bytes_received s = rp_size P)
     \<and> (rg_writer s = Writing \<longrightarrow> rg_write_idx s < rg_submit_count s \<and> rs_state (slot_at s (rg_write_idx s)) = READY)"

definition ring_core :: "ring_params \<Rightarrow> string \<Rightarrow> ring_state \<Rightarrow> bool" where
  "ring_core P data s \<longleftrightarrow> ring_counts P s \<and> ring_slots_ok P data s \<and> ring_busy s \<and> ring_written P data s \<and> ring_pc_ok P s"

definition ring_flags :: "ring_state \<Rightarrow> bool" where
  "ring_flags s \<longleftrightarrow> (rg_recv_aborted s \<longrightarrow> rg_error s \<or> rg_write_error s)
     \<and> (rg_usb_done s \<longrightarrow> rg_pc s \<in> {Joining, Finished})
     \<and> (rg_writer s = Returned \<longrightarrow> rg_error s \<or> rg_write_error s \<or> rg_usb_done s \<and> rg_total_submitted s \<le> rg_write_idx s)
     \<and> (rg_pc s = Finished \<longrightarrow> rg_writer s = Returned)
     \<and> (rg_pc s = Draining \<longrightarrow> rg_error s \<or> rg_write_error s)"

definition ring_inv :: "ring_params \<Rightarrow> string \<Rightarrow> ring_state \<Rightarrow> bool" where
  "ring_inv P data s \<longleftrightarrow> ring_flags s \<and> (rg_error s \<or> rg_write_error s \<or> ring_core P data s)"

section \<open>Slots and indices\<close>

lemma kPoolSize_pos [simp]: "0 < kPoolSize"
  by (simp add: kPoolSize_def)

lemma pool_index_inj:
  assumes "m \<le> a" and "a < m + kPoolSize" and "m \<le> b" and "b < m + kPoolSize" and "a mod kPoolSize = b mod kPoolSize"
  shows "a = b"
proof -
  have "x = y" if "x \<le> y" "y < x + kPoolSize" "x mod kPoolSize = y mod kPoolSize" for x y
  proof -
    from that have "kPoolSize dvd y - x" by (metis mod_eq_dvd_iff_nat)
    moreover have "y - x < kPoolSize" using that by simp
    ultimately have "y - x = 0" by (metis nat_dvd_not_less neq0_conv)
    with that show ?thesis by simp
  qed
  from this [of a b] this [of b a] assms show ?thesis by (cases "a \<le> b") auto
qed

lemma slot_set: "length (rg_slots s) = kPoolSize \<Longrightarrow>
    slot_at (set_slot k f s) j = (if j mod kPoolSize = k mod kPoolSize then f (slot_at s k) else slot_at s j)"
  by (auto simp: ring_slot_of_def set_slot_def)

lemma set_slot_fields [simp]:
  "length (rg_slots (set_slot k f s)) = length (rg_slots s)"
  "rg_write_error (set_slot k f s) = rg_write_error s" "rg_usb_done (set_slot k f s) = rg_usb_done s"
  "rg_recv_aborted (set_slot k f s) = rg_recv_aborted s" "rg_total_submitted (set_slot k f s) = rg_total_submitted s"
  "rg_out (set_slot k f s) = rg_out s" "rg_pc (set_slot k f s) = rg_pc s"
  "rg_bytes_submitted (set_slot k f s) = rg_bytes_submitted s" "rg_bytes_received (set_slot k f s) = rg_bytes_received s"
  "rg_active (set_slot k f s) = rg_active s" "rg_error (set_slot k f s) = rg_error s"
  "rg_error_msg (set_slot k f s) = rg_error_msg s" "rg_submit_count (set_slot k f s) = rg_submit_count s"
  "rg_next_complete (set_slot k f s) = rg_next_complete s" "rg_writer (set_slot k f s) = rg_writer s"
  "rg_write_idx (set_slot k f s) = rg_write_idx s"
  by (simp_all add: set_slot_def)

lemma slot_at_fields [simp]:
  "slot_at (s\<lparr>rg_write_error := b\<rparr>) j = slot_at s j" "slot_at (s\<lparr>rg_usb_done := b\<rparr>) j = slot_at s j"
  "slot_at (s\<lparr>rg_recv_aborted := b\<rparr>) j = slot_at s j" "slot_at (s\<lparr>rg_total_submitted := n\<rparr>) j = slot_at s j"
  "slot_at (s\<lparr>rg_out := t\<rparr>) j = slot_at s j" "slot_at (s\<lparr>rg_pc := pc\<rparr>) j = slot_at s j"
  "slot_at (s\<lparr>rg_bytes_submitted := n\<rparr>) j = slot_at s j" "slot_at (s\<lparr>rg_bytes_received := n\<rparr>) j = slot_at s j"
  "slot_at (s\<lparr>rg_active := i\<rparr>) j = slot_at s j" "slot_at (s\<lparr>rg_error := b\<rparr>) j = slot_at s j"
  "slot_at (s\<lparr>rg_error_msg := t\<rparr>) j = slot_at s j" "slot_at (s\<lparr>rg_submit_count := n\<rparr>) j = slot_at s j"
  "slot_at (s\<lparr>rg_next_complete := n\<rparr>) j = slot_at s j" "slot_at (s\<lparr>rg_writer := w\<rparr>) j = slot_at s j"
  "slot_at (s\<lparr>rg_write_idx := n\<rparr>) j = slot_at s j"
  by (simp_all add: ring_slot_of_def)

text \<open>Two numbers in the window that share a slot are the same.\<close>

lemma window_inj:
  assumes "ring_counts P s" and "rp_depth P \<le> kQueueDepth"
    and "window_start s \<le> a" and "a < rg_submit_count s" and "window_start s \<le> b" and "b < rg_submit_count s"
    and "a mod kPoolSize = b mod kPoolSize"
  shows "a = b"
proof (rule pool_index_inj [OF assms(3) _ assms(5) _ assms(7)])
  have "rg_submit_count s \<le> window_start s + kPoolSize"
    using assms(1,2) by (auto simp: ring_counts_def window_start_def kPoolSize_def)
  with assms(4,6) show "a < window_start s + kPoolSize" "b < window_start s + kPoolSize" by simp_all
qed

section \<open>Submitting\<close>

lemma submit_core:
  assumes core: "ring_core P data s" and depth: "rp_depth P \<le> kQueueDepth"
    and wanted: "submit_wanted P s" and free: "rs_state (slot_at s (rg_submit_count s)) = FREE" and pc: "rg_pc s = Submitting"
  shows "ring_core P data (submit_slot P 0 s)"
proof -
  let ?S = "rg_submit_count s" and ?W = "rg_write_idx s" and ?N = "rg_next_complete s"
  let ?s' = "submit_slot P 0 s"
  from core have counts: "ring_counts P s" and slots: "ring_slots_ok P data s" and written: "ring_written P data s"
    by (simp_all add: ring_core_def)
  have len: "length (rg_slots s) = kPoolSize" using counts by (simp add: ring_counts_def)
  have ltN: "?S < ?N + rp_depth P" using counts wanted by (simp add: ring_counts_def submit_wanted_def)
  have ltW: "?S < ?W + kPoolSize"
  proof (rule ccontr)
    assume "\<not> ?thesis"
    then have eq: "?S = ?W + kPoolSize" using counts by (simp add: ring_counts_def)
    then have "?W < ?S" "?S mod kPoolSize = ?W mod kPoolSize" by simp_all
    moreover have "window_start s \<le> ?W" by (simp add: window_start_def)
    ultimately have "rs_state (slot_at s ?W) \<noteq> FREE" using slots by (auto simp: ring_slots_ok_def)
    moreover have "slot_at s ?S = slot_at s ?W" using \<open>?S mod kPoolSize = ?W mod kPoolSize\<close> by (simp add: ring_slot_of_def)
    ultimately show False using free by simp
  qed
  have lt: "?S * kChunkSize < rp_size P"
    using wanted counts by (auto simp: submit_wanted_def ring_counts_def min_def split: if_splits)
  have real: "min (rp_size P - rg_bytes_submitted s) kChunkSize = chunk_len (rp_size P) ?S"
    using lt counts by (simp add: ring_counts_def chunk_len_def min_absorb2)
  define q where "q = (slot_at s ?S)\<lparr>rs_real_bytes := chunk_len (rp_size P) ?S,
      rs_buf := (if chunk_len (rp_size P) ?S < kChunkSize then replicate kChunkSize (CHR 0x00) else rs_buf (slot_at s ?S)),
      rs_status := 0, rs_state := IN_FLIGHT, rs_seq := ?S\<rparr>"
  have slot': "slot_at ?s' j = (if j mod kPoolSize = ?S mod kPoolSize then q else slot_at s j)" for j
    by (simp add: submit_slot_def Let_def slot_set len real q_def)
  have other: "j mod kPoolSize \<noteq> ?S mod kPoolSize" if "window_start s \<le> j" "j < ?S" for j
  proof
    assume eq: "j mod kPoolSize = ?S mod kPoolSize"
    have "?S < window_start s + kPoolSize" using ltN ltW depth by (auto simp: window_start_def kPoolSize_def)
    with pool_index_inj [OF that(1) _ _ _ eq] that show False by simp
  qed
  have fields: "rg_submit_count ?s' = Suc ?S" "rg_next_complete ?s' = ?N" "rg_write_idx ?s' = ?W" "rg_out ?s' = rg_out s"
    "rg_pc ?s' = rg_pc s" "rg_writer ?s' = rg_writer s" "window_start ?s' = window_start s"
    by (simp_all add: submit_slot_def Let_def window_start_def)
  have busy: "ring_busy ?s'"
    unfolding ring_busy_def fields
  proof (intro allI impI)
    fix j
    assume j: "rs_state (slot_at ?s' j) \<noteq> FREE"
    show "\<exists>k. ?W \<le> k \<and> k < Suc ?S \<and> k mod kPoolSize = j mod kPoolSize"
    proof (cases "j mod kPoolSize = ?S mod kPoolSize")
      case True
      then show ?thesis using counts by (intro exI [of _ ?S]) (simp add: ring_counts_def)
    next
      case False
      with j core obtain k where "?W \<le> k" "k < ?S" "k mod kPoolSize = j mod kPoolSize"
        by (auto simp: slot' ring_core_def ring_busy_def)
      then show ?thesis by (intro exI [of _ k]) simp
    qed
  qed
  have "ring_counts P ?s'"
    using counts ltN ltW chunk_len_sum [of "rp_size P" ?S] lt
    by (auto simp: ring_counts_def submit_slot_def Let_def real less_Suc_eq)
  moreover have "ring_slots_ok P data ?s'"
    unfolding ring_slots_ok_def fields
  proof (intro allI impI)
    fix j
    assume j: "window_start s \<le> j \<and> j < Suc ?S"
    show "slot_fine data (rp_size P) j (slot_at ?s' j)
      \<and> (if j < ?W then rs_state (slot_at ?s' j) = FREE else rs_state (slot_at ?s' j) \<noteq> FREE)
      \<and> (j < ?N \<longrightarrow> rs_state (slot_at ?s' j) \<noteq> IN_FLIGHT \<and> rs_status (slot_at ?s' j) = LIBUSB_TRANSFER_COMPLETED)"
    proof (cases "j = ?S")
      case True
      then show ?thesis using counts by (simp add: slot' q_def slot_fine_def ring_counts_def)
    next
      case False
      then show ?thesis using j other [of j] slots by (simp add: slot' ring_slots_ok_def)
    qed
  qed
  moreover have "ring_written P data ?s'"
  proof -
    have "slot_at ?s' j = slot_at s j" if "j < ?W" "\<not> j < ?N" for j
      using that other [of j] counts by (auto simp: slot' window_start_def ring_counts_def)
    with written show ?thesis unfolding ring_written_def fields by (metis (no_types, lifting))
  qed
  moreover have "ring_pc_ok P ?s'"
  proof -
    have "slot_at ?s' ?W = slot_at s ?W" if "?W < ?S"
      using that other [of ?W] by (simp add: slot' window_start_def)
    with core show ?thesis by (auto simp: ring_core_def ring_pc_ok_def fields pc)
  qed
  ultimately show ?thesis using busy by (simp add: ring_core_def)
qed

section \<open>Completions\<close>

lemma ring_cb_core:
  assumes core: "ring_core P data s" and depth: "rp_depth P \<le> kQueueDepth" and data: "rp_size P \<le> length data"
    and deliver: "rp_deliver P = exact_delivery data (rp_size P)"
    and i: "i < kPoolSize" and fl: "rs_state (rg_slots s ! i) = IN_FLIGHT"
    and d: "rp_deliver P (rs_seq (rg_slots s ! i)) status bytes"
  shows "ring_core P data (ring_cb (i, status, bytes) s)"
proof -
  let ?S = "rg_submit_count s" and ?W = "rg_write_idx s" and ?N = "rg_next_complete s"
  let ?s' = "ring_cb (i, status, bytes) s"
  from core have counts: "ring_counts P s" and slots: "ring_slots_ok P data s" and written: "ring_written P data s"
    and pc: "ring_pc_ok P s"
    by (simp_all add: ring_core_def)
  have len: "length (rg_slots s) = kPoolSize" using counts by (simp add: ring_counts_def)
  let ?old = "slot_at s i"
  have old: "rg_slots s ! i = ?old" using i by (simp add: ring_slot_of_def)
  define q where "q = ?old\<lparr>rs_buf := bytes @ drop (length bytes) (rs_buf ?old), rs_actual := length bytes,
      rs_status := status, rs_state := READY\<rparr>"
  have slot': "slot_at ?s' j = (if j mod kPoolSize = i then q else slot_at s j)" for j
    using i by (simp add: ring_cb_def slot_set len q_def)
  have fields: "rg_submit_count ?s' = ?S" "rg_next_complete ?s' = ?N" "rg_write_idx ?s' = ?W" "rg_out ?s' = rg_out s"
    "rg_pc ?s' = rg_pc s" "rg_writer ?s' = rg_writer s" "window_start ?s' = window_start s"
    "rg_bytes_submitted ?s' = rg_bytes_submitted s" "rg_bytes_received ?s' = rg_bytes_received s"
    by (simp_all add: ring_cb_def window_start_def)
  have at_i: "slot_at s j = ?old" if "j mod kPoolSize = i" for j
    using that i by (simp add: ring_slot_of_def)
  have busy: "ring_busy ?s'"
    unfolding ring_busy_def fields
  proof (intro allI impI)
    fix j
    assume "rs_state (slot_at ?s' j) \<noteq> FREE"
    then have "rs_state (slot_at s j) \<noteq> FREE"
      using fl old at_i [of j] by (cases "j mod kPoolSize = i") (auto simp: slot')
    with core show "\<exists>k. ?W \<le> k \<and> k < ?S \<and> k mod kPoolSize = j mod kPoolSize"
      by (simp add: ring_core_def ring_busy_def)
  qed
  have "ring_counts P ?s'" using counts by (simp add: ring_counts_def ring_cb_def)
  moreover have "ring_slots_ok P data ?s'"
    unfolding ring_slots_ok_def fields
  proof (intro allI impI)
    fix j
    assume j: "window_start s \<le> j \<and> j < ?S"
    note sj = slots [unfolded ring_slots_ok_def, rule_format, OF j]
    show "slot_fine data (rp_size P) j (slot_at ?s' j)
      \<and> (if j < ?W then rs_state (slot_at ?s' j) = FREE else rs_state (slot_at ?s' j) \<noteq> FREE)
      \<and> (j < ?N \<longrightarrow> rs_state (slot_at ?s' j) \<noteq> IN_FLIGHT \<and> rs_status (slot_at ?s' j) = LIBUSB_TRANSFER_COMPLETED)"
    proof (cases "j mod kPoolSize = i")
      case True
      note oldj = at_i [OF True]
      have "rs_seq ?old = j" "rs_real_bytes ?old = chunk_len (rp_size P) j" and fl': "rs_state ?old = IN_FLIGHT"
        using sj fl old oldj by (simp_all add: slot_fine_def)
      moreover have "\<not> j < ?W" "\<not> j < ?N" using sj fl' oldj by (auto split: if_splits)
      moreover have "status = LIBUSB_TRANSFER_COMPLETED \<longrightarrow> bytes = chunk_at data (rp_size P) j"
        using d \<open>rs_seq ?old = j\<close> by (simp add: old deliver exact_delivery_def)
      moreover have "length (chunk_at data (rp_size P) j) = chunk_len (rp_size P) j"
        using data by (auto simp: chunk_at_def chunk_len_def)
      ultimately show ?thesis using True by (auto simp: slot' q_def slot_fine_def)
    next
      case False
      with sj show ?thesis by (simp add: slot')
    qed
  qed
  moreover have "ring_written P data ?s'"
  proof -
    have "slot_at ?s' j = slot_at s j" if "j < ?W" "\<not> j < ?N" for j
    proof -
      have "window_start s \<le> j \<and> j < ?S" using that counts by (auto simp: window_start_def ring_counts_def)
      from slots [unfolded ring_slots_ok_def, rule_format, OF this] that(1) have "rs_state (slot_at s j) = FREE" by simp
      with fl old at_i [of j] show ?thesis by (auto simp: slot')
    qed
    with written show ?thesis unfolding ring_written_def fields by (metis (no_types, lifting))
  qed
  moreover have "ring_pc_ok P ?s'"
    using pc by (auto simp: ring_pc_ok_def fields slot' q_def)
  ultimately show ?thesis using busy by (simp add: ring_core_def)
qed

lemma ring_cb_other: "j < kPoolSize \<Longrightarrow> j \<noteq> i \<Longrightarrow> i < kPoolSize \<Longrightarrow> length (rg_slots s) = kPoolSize
    \<Longrightarrow> rg_slots (ring_cb (i, status, bytes) s) ! j = rg_slots s ! j"
  by (simp add: ring_cb_def set_slot_def)

lemma ring_cbs_core:
  assumes depth: "rp_depth P \<le> kQueueDepth" and data: "rp_size P \<le> length data"
    and deliver: "rp_deliver P = exact_delivery data (rp_size P)"
  shows "ring_core P data s \<Longrightarrow> completions_ok P cs s \<Longrightarrow> ring_core P data (fold ring_cb cs s)"
proof (induction cs arbitrary: s)
  case Nil
  then show ?case by simp
next
  case (Cons c cs)
  obtain i status bytes where c: "c = (i, status, bytes)" by (cases c)
  have ok: "i < kPoolSize" "rs_state (rg_slots s ! i) = IN_FLIGHT" "rp_deliver P (rs_seq (rg_slots s ! i)) status bytes"
    and dist: "i \<notin> fst ` set cs" "distinct (map fst cs)"
    using Cons.prems(2) by (auto simp: completions_ok_def c)
  have len: "length (rg_slots s) = kPoolSize" using Cons.prems(1) by (simp add: ring_core_def ring_counts_def)
  have core: "ring_core P data (ring_cb c s)"
    unfolding c by (rule ring_cb_core [OF Cons.prems(1) depth data deliver ok])
  have "completions_ok P cs (ring_cb c s)"
    unfolding completions_ok_def list_all_iff
  proof (intro conjI ballI)
    fix x
    assume x: "x \<in> set cs"
    obtain j st bs where xj: "x = (j, st, bs)" by (cases x)
    have "j \<noteq> i" using dist(1) x xj by force
    then have "j < kPoolSize \<Longrightarrow> rg_slots (ring_cb c s) ! j = rg_slots s ! j"
      unfolding c using ring_cb_other [OF _ _ ok(1) len] by blast
    then show "case x of (i, status, data) \<Rightarrow> i < kPoolSize \<and> rs_state (rg_slots (ring_cb c s) ! i) = IN_FLIGHT
        \<and> length data \<le> kChunkSize \<and> rp_deliver P (rs_seq (rg_slots (ring_cb c s) ! i)) status data"
      using Cons.prems(2) x by (auto simp: completions_ok_def list_all_iff xj)
  qed (rule dist(2))
  from Cons.IH [OF core this] show ?case by simp
qed

section \<open>Accounting and writing\<close>

lemma next_submitted:
  assumes "ring_core P data s" and "rg_pc s \<in> {Waiting, Processing}" and "1 \<le> rp_depth P"
  shows "rg_next_complete s < rg_submit_count s"
proof -
  from assms have lt: "rg_bytes_received s < rp_size P"
    and or: "rg_submit_count s = rg_next_complete s + rp_depth P \<or> rg_bytes_submitted s = rp_size P"
    and c: "ring_counts P s" by (auto simp: ring_core_def ring_pc_ok_def)
  from or show ?thesis
  proof
    assume "rg_bytes_submitted s = rp_size P"
    then have "rp_size P \<le> rg_submit_count s * kChunkSize" using c by (simp add: ring_counts_def min_def split: if_splits)
    moreover have "rg_next_complete s * kChunkSize < rp_size P" using lt c by (auto simp: ring_counts_def min_def split: if_splits)
    ultimately have "rg_next_complete s * kChunkSize < rg_submit_count s * kChunkSize" by (metis less_le_trans)
    then show ?thesis using mult_less_cancel2 by blast
  qed (use assms(3) in simp)
qed

lemma process_core:
  assumes core: "ring_core P data s" and depth: "1 \<le> rp_depth P" "rp_depth P \<le> kQueueDepth"
    and pc: "rg_pc s = Processing" and ok: "rs_status (slot_at s (rg_next_complete s)) = LIBUSB_TRANSFER_COMPLETED"
  shows "ring_core P data (process_slot P s)"
proof -
  let ?S = "rg_submit_count s" and ?W = "rg_write_idx s" and ?N = "rg_next_complete s"
  let ?s' = "process_slot P s"
  from core have counts: "ring_counts P s" and slots: "ring_slots_ok P data s" and written: "ring_written P data s"
    and pcok: "ring_pc_ok P s"
    by (simp_all add: ring_core_def)
  have len: "length (rg_slots s) = kPoolSize" using counts by (simp add: ring_counts_def)
  have NS: "?N < ?S" by (rule next_submitted [OF core _ depth(1)]) (simp add: pc)
  have win: "window_start s \<le> ?N \<and> ?N < ?S" using NS by (simp add: window_start_def)
  note sN = slots [unfolded ring_slots_ok_def, rule_format, OF win]
  have nfl: "rs_state (slot_at s ?N) \<noteq> IN_FLIGHT" using pcok pc by (simp add: ring_pc_ok_def)
  have act: "rs_actual (slot_at s ?N) = chunk_len (rp_size P) ?N" using sN nfl ok by (simp add: slot_fine_def)
  have lt: "?N * kChunkSize < rp_size P" using pcok pc counts by (auto simp: ring_pc_ok_def ring_counts_def min_def split: if_splits)
  have real: "min (rs_actual (slot_at s ?N)) (rp_size P - rg_bytes_received s) = chunk_len (rp_size P) ?N"
    using lt counts by (simp add: act ring_counts_def chunk_len_def min_absorb2)
  have same: "(slot_at s ?N)\<lparr>rs_real_bytes := chunk_len (rp_size P) ?N\<rparr> = slot_at s ?N"
    using sN by (cases "slot_at s ?N") (simp add: slot_fine_def)
  have "slot_at ?s' j = (if j mod kPoolSize = ?N mod kPoolSize then slot_at s ?N else slot_at s j)" for j
    using ok by (simp add: process_slot_def Let_def slot_set len real same)
  then have slot': "slot_at ?s' j = slot_at s j" for j by (simp add: ring_slot_of_def)
  have fields: "rg_submit_count ?s' = ?S" "rg_next_complete ?s' = Suc ?N" "rg_write_idx ?s' = ?W" "rg_out ?s' = rg_out s"
    "rg_pc ?s' = Submitting" "rg_writer ?s' = rg_writer s" "length (rg_slots ?s') = kPoolSize"
    "rg_active ?s' = rg_active s - 1" "rg_bytes_submitted ?s' = rg_bytes_submitted s"
    "rg_bytes_received ?s' = rg_bytes_received s + chunk_len (rp_size P) ?N" "rg_total_submitted ?s' = rg_total_submitted s"
    using ok len by (simp_all add: process_slot_def Let_def real)
  have busy: "ring_busy ?s'"
    using core by (simp add: ring_core_def ring_busy_def fields slot')
  have "ring_counts P ?s'"
    using counts NS chunk_len_sum [of "rp_size P" ?N] unfolding ring_counts_def fields by auto
  moreover have "ring_slots_ok P data ?s'"
    unfolding ring_slots_ok_def fields slot'
  proof (intro allI impI)
    fix j
    assume j: "window_start ?s' \<le> j \<and> j < ?S"
    then have "window_start s \<le> j \<and> j < ?S" by (auto simp: window_start_def fields)
    from slots [unfolded ring_slots_ok_def, rule_format, OF this] nfl ok
    show "slot_fine data (rp_size P) j (slot_at s j)
      \<and> (if j < ?W then rs_state (slot_at s j) = FREE else rs_state (slot_at s j) \<noteq> FREE)
      \<and> (j < Suc ?N \<longrightarrow> rs_state (slot_at s j) \<noteq> IN_FLIGHT \<and> rs_status (slot_at s j) = LIBUSB_TRANSFER_COMPLETED)"
      by (auto simp: less_Suc_eq)
  qed
  moreover have "ring_written P data ?s'"
    using written ok unfolding ring_written_def fields slot' by (metis less_SucE)
  moreover have "ring_pc_ok P ?s'"
    using pcok by (auto simp: ring_pc_ok_def fields slot')
  ultimately show ?thesis using busy by (simp add: ring_core_def)
qed

lemma write_core:
  assumes core: "ring_core P data s" and depth: "rp_depth P \<le> kQueueDepth" and w: "rg_writer s = Writing"
  defines "q \<equiv> slot_at s (rg_write_idx s)"
  defines "s' \<equiv> (set_slot (rg_write_idx s) (\<lambda>q. q\<lparr>rs_state := FREE\<rparr>) s)\<lparr>
           rg_out := rg_out s @ take (rs_real_bytes q) (rs_buf q), rg_write_idx := rg_write_idx s + 1, rg_writer := Polling\<rparr>"
  shows "ring_core P data s'"
proof -
  let ?S = "rg_submit_count s" and ?W = "rg_write_idx s" and ?N = "rg_next_complete s"
  from core have counts: "ring_counts P s" and slots: "ring_slots_ok P data s" and written: "ring_written P data s"
    and pcok: "ring_pc_ok P s"
    by (simp_all add: ring_core_def)
  have len: "length (rg_slots s) = kPoolSize" using counts by (simp add: ring_counts_def)
  have WS: "?W < ?S" and ready: "rs_state q = READY" using pcok w by (simp_all add: ring_pc_ok_def q_def)
  have win: "window_start s \<le> ?W \<and> ?W < ?S" using WS by (simp add: window_start_def)
  note sW = slots [unfolded ring_slots_ok_def, rule_format, OF win, folded q_def]
  have slot': "slot_at s' j = (if j mod kPoolSize = ?W mod kPoolSize then q\<lparr>rs_state := FREE\<rparr> else slot_at s j)" for j
    by (simp add: s'_def slot_set len q_def)
  have eqW: "j = ?W" if "window_start s \<le> j" "j < ?S" "j mod kPoolSize = ?W mod kPoolSize" for j
    using window_inj [OF counts depth that(1,2)] win that(3) by blast
  have fields: "rg_submit_count s' = ?S" "rg_next_complete s' = ?N" "rg_write_idx s' = Suc ?W"
    "rg_out s' = rg_out s @ take (rs_real_bytes q) (rs_buf q)" "rg_pc s' = rg_pc s" "rg_writer s' = Polling"
    "length (rg_slots s') = kPoolSize" "rg_active s' = rg_active s" "rg_bytes_submitted s' = rg_bytes_submitted s"
    "rg_bytes_received s' = rg_bytes_received s" "rg_total_submitted s' = rg_total_submitted s"
    using len by (simp_all add: s'_def)
  have winle: "window_start s \<le> window_start s'" by (simp add: window_start_def fields)
  have busy: "ring_busy s'"
    unfolding ring_busy_def fields
  proof (intro allI impI)
    fix j
    assume j: "rs_state (slot_at s' j) \<noteq> FREE"
    then have nW: "j mod kPoolSize \<noteq> ?W mod kPoolSize" and "rs_state (slot_at s j) \<noteq> FREE"
      by (auto simp: slot' split: if_splits)
    with core obtain k where k: "?W \<le> k" "k < ?S" "k mod kPoolSize = j mod kPoolSize"
      by (auto simp: ring_core_def ring_busy_def)
    with nW have "k \<noteq> ?W" by auto
    with k show "\<exists>k. Suc ?W \<le> k \<and> k < ?S \<and> k mod kPoolSize = j mod kPoolSize" by (intro exI [of _ k]) simp
  qed
  have "ring_counts P s'" using counts WS unfolding ring_counts_def fields by simp
  moreover have "ring_slots_ok P data s'"
    unfolding ring_slots_ok_def fields
  proof (intro allI impI)
    fix j
    assume j: "window_start s' \<le> j \<and> j < ?S"
    with winle have j': "window_start s \<le> j \<and> j < ?S" by simp
    note sj = slots [unfolded ring_slots_ok_def, rule_format, OF j']
    show "slot_fine data (rp_size P) j (slot_at s' j)
      \<and> (if j < Suc ?W then rs_state (slot_at s' j) = FREE else rs_state (slot_at s' j) \<noteq> FREE)
      \<and> (j < ?N \<longrightarrow> rs_state (slot_at s' j) \<noteq> IN_FLIGHT \<and> rs_status (slot_at s' j) = LIBUSB_TRANSFER_COMPLETED)"
    proof (cases "j = ?W")
      case True
      then show ?thesis using sW ready by (auto simp: slot' slot_fine_def)
    next
      case False
      with eqW [of j] j' have "j mod kPoolSize \<noteq> ?W mod kPoolSize" by blast
      then show ?thesis using sj False by (auto simp: slot' split: if_splits)
    qed
  qed
  moreover have "ring_written P data s'"
  proof -
    obtain ps where ps: "length ps = ?W" "rg_out s = concat ps"
      "\<forall>j < ?W. j < ?N \<or> rs_status (slot_at s j) = LIBUSB_TRANSFER_COMPLETED \<longrightarrow> ps ! j = chunk_at data (rp_size P) j"
      using written by (auto simp: ring_written_def)
    let ?p = "take (rs_real_bytes q) (rs_buf q)"
    have new: "?p = chunk_at data (rp_size P) ?W" if "?W < ?N \<or> rs_status q = LIBUSB_TRANSFER_COMPLETED"
      using that sW ready by (auto simp: slot_fine_def)
    have "(ps @ [?p]) ! j = chunk_at data (rp_size P) j"
      if j: "j < Suc ?W" and c: "j < ?N \<or> rs_status (slot_at s' j) = LIBUSB_TRANSFER_COMPLETED" for j
    proof (cases "j = ?W")
      case True
      then show ?thesis using new c ps(1) by (simp add: slot' nth_append)
    next
      case False
      with j have jW: "j < ?W" by simp
      have "j < ?N \<or> rs_status (slot_at s j) = LIBUSB_TRANSFER_COMPLETED"
      proof (cases "j < ?N")
        case False
        then have "window_start s \<le> j" "j < ?S" using jW WS by (auto simp: window_start_def)
        with eqW [of j] jW have "j mod kPoolSize \<noteq> ?W mod kPoolSize" by blast
        then show ?thesis using c by (simp add: slot')
      qed simp
      then show ?thesis using ps(1,3) jW by (auto simp: nth_append)
    qed
    then show ?thesis
      unfolding ring_written_def fields by (intro exI [of _ "ps @ [?p]"]) (simp add: ps(1,2))
  qed
  moreover have "ring_pc_ok P s'"
  proof -
    have "rs_state (slot_at s' ?N) \<noteq> IN_FLIGHT" if "rg_pc s = Processing"
      using that pcok by (simp add: slot' ring_pc_ok_def)
    then show ?thesis using pcok unfolding ring_pc_ok_def fields by simp
  qed
  ultimately show ?thesis using busy by (simp add: ring_core_def)
qed

section \<open>The invariant holds in every run\<close>

lemma ring_cbs_fields [simp]:
  "rg_write_error (fold ring_cb cs s) = rg_write_error s" "rg_usb_done (fold ring_cb cs s) = rg_usb_done s"
  "rg_recv_aborted (fold ring_cb cs s) = rg_recv_aborted s" "rg_total_submitted (fold ring_cb cs s) = rg_total_submitted s"
  "rg_pc (fold ring_cb cs s) = rg_pc s" "rg_error (fold ring_cb cs s) = rg_error s"
  "rg_writer (fold ring_cb cs s) = rg_writer s" "rg_write_idx (fold ring_cb cs s) = rg_write_idx s"
  by (induction cs arbitrary: s) (simp_all add: ring_cb_def split: prod.splits)

text \<open>What each step of the USB thread leaves alone, and what its control steps change.\<close>

lemma submit_slot_fields [simp]:
  "rg_recv_aborted (submit_slot P rc s) = rg_recv_aborted s" "rg_usb_done (submit_slot P rc s) = rg_usb_done s"
  "rg_writer (submit_slot P rc s) = rg_writer s" "rg_write_error (submit_slot P rc s) = rg_write_error s"
  "rg_write_idx (submit_slot P rc s) = rg_write_idx s"
  "rg_pc (submit_slot P rc s) = (if rc \<noteq> 0 then Checking else rg_pc s)"
  "rg_error (submit_slot P rc s) \<longleftrightarrow> rc \<noteq> 0 \<or> rg_error s"
  by (simp_all add: submit_slot_def Let_def)

lemma process_slot_fields [simp]:
  "rg_recv_aborted (process_slot P s) = rg_recv_aborted s" "rg_usb_done (process_slot P s) = rg_usb_done s"
  "rg_writer (process_slot P s) = rg_writer s" "rg_write_error (process_slot P s) = rg_write_error s"
  "rg_total_submitted (process_slot P s) = rg_total_submitted s" "rg_write_idx (process_slot P s) = rg_write_idx s"
  "rg_pc (process_slot P s) \<in> {Finishing, Submitting}"
  "rg_error s \<Longrightarrow> rg_error (process_slot P s)"
  by (simp_all add: process_slot_def Let_def)

lemma main_submitting:
  assumes "rg_pc s = Submitting" and "main_act P a s = Some s'"
  shows "(\<exists>rc. s' = submit_slot P rc s) \<or> s' = s\<lparr>rg_pc := Checking\<rparr> \<or> s' = s\<lparr>rg_error := True, rg_pc := Checking\<rparr>"
  using assms by (auto simp: main_act_def Let_def split: if_splits ring_action.splits)

lemma main_waiting:
  assumes "rg_pc s = Waiting" and "main_act P a s = Some s'"
  shows "(\<exists>cs. s' = fold ring_cb cs s) \<or> s' = s\<lparr>rg_error := True, rg_pc := Finishing\<rparr>
    \<or> s' = s\<lparr>rg_pc := Finishing\<rparr> \<or> s' = s\<lparr>rg_pc := Processing\<rparr>"
  using assms by (auto simp: main_act_def split: if_splits ring_action.splits)

lemma main_draining:
  assumes "rg_pc s = Draining" and "main_act P a s = Some s'"
  shows "(\<exists>cs. s' = fold ring_cb cs s) \<or> s' = s\<lparr>rg_pc := Usb_Done\<rparr>"
  using assms by (auto simp: main_act_def split: if_splits ring_action.splits)

lemma main_flags:
  assumes f: "ring_flags s" and act: "main_act P a s = Some s'"
  shows "ring_flags s' \<and> (rg_error s \<or> rg_write_error s \<longrightarrow> rg_error s' \<or> rg_write_error s')"
proof (cases "rg_pc s")
  case Submitting
  with main_submitting [OF Submitting act] f show ?thesis by (auto simp: ring_flags_def split: if_splits)
next
  case Checking
  with act f show ?thesis by (auto simp: main_act_def ring_flags_def split: if_splits)
next
  case Waiting
  with main_waiting [OF Waiting act] f show ?thesis by (auto simp: ring_flags_def)
next
  case Processing
  then have "s' = process_slot P s" using act by (simp add: main_act_def split: if_splits)
  then show ?thesis using f Processing process_slot_fields(7) [of P s] process_slot_fields(8) [of s P] by (auto simp: ring_flags_def)
next
  case Finishing
  with act f show ?thesis by (auto simp: main_act_def ring_flags_def split: if_splits)
next
  case Draining
  with main_draining [OF Draining act] f show ?thesis by (auto simp: ring_flags_def)
next
  case Usb_Done
  with act f show ?thesis by (auto simp: main_act_def ring_flags_def split: if_splits)
next
  case Joining
  with act f show ?thesis by (auto simp: main_act_def ring_flags_def split: if_splits)
next
  case Finished
  with act show ?thesis by (simp add: main_act_def)
qed

lemma writer_flags:
  assumes "ring_flags s" and "writer_act a s = Some s'"
  shows "ring_flags s'" and "rg_error s \<or> rg_write_error s \<Longrightarrow> rg_error s' \<or> rg_write_error s'"
  using assms
  by (cases "rg_writer s"; auto simp: writer_act_def ring_flags_def Let_def split: if_splits)+

lemma core_pc:
  "ring_core P data s \<Longrightarrow> ring_pc_ok P (s\<lparr>rg_pc := pc\<rparr>) \<Longrightarrow> ring_core P data (s\<lparr>rg_pc := pc\<rparr>)"
  by (simp add: ring_core_def ring_counts_def ring_slots_ok_def ring_busy_def ring_written_def window_start_def)

lemma main_core:
  assumes core: "ring_core P data s" and depth: "1 \<le> rp_depth P" "rp_depth P \<le> kQueueDepth"
    and data: "rp_size P \<le> length data" and deliver: "rp_deliver P = exact_delivery data (rp_size P)"
    and ne: "\<not> rg_error s" "\<not> rg_write_error s" and act: "main_act P a s = Some s'"
  shows "rg_error s' \<or> ring_core P data s'"
proof -
  have pcok: "ring_pc_ok P s" and counts: "ring_counts P s" using core by (simp_all add: ring_core_def)
  show ?thesis
  proof (cases "rg_pc s")
    case Submitting
    show ?thesis
    proof (cases "submit_wanted P s")
      case True
      with act Submitting ne obtain rc where rc: "a = Submit_Result rc" "s' = submit_slot P rc s"
        and free: "rs_state (slot_at s (rg_submit_count s)) = FREE"
        by (auto simp: main_act_def Let_def split: if_splits ring_action.splits)
      show ?thesis
      proof (cases "rc = 0")
        case True
        with rc submit_core [OF core depth(2) \<open>submit_wanted P s\<close> free Submitting] show ?thesis by simp
      next
        case False
        then show ?thesis by (simp add: rc submit_slot_def Let_def)
      qed
    next
      case False
      with act Submitting have s': "s' = s\<lparr>rg_pc := Checking\<rparr>" by (simp add: main_act_def Let_def split: if_splits)
      have "rg_submit_count s = rg_next_complete s + rp_depth P \<or> rg_bytes_submitted s = rp_size P"
        using False ne counts by (auto simp: submit_wanted_def ring_counts_def min_def split: if_splits)
      then have "ring_pc_ok P (s\<lparr>rg_pc := Checking\<rparr>)" using pcok by (auto simp: ring_pc_ok_def)
      with core_pc [OF core] show ?thesis by (simp add: s')
    qed
  next
    case Checking
    have "rg_bytes_received s \<le> rp_size P" using counts by (simp add: ring_counts_def)
    then have "ring_pc_ok P s'" "s' = s\<lparr>rg_pc := rg_pc s'\<rparr>"
      using act Checking pcok ne by (auto simp: main_act_def ring_pc_ok_def split: if_splits)
    then show ?thesis using core_pc [OF core, of "rg_pc s'"] by simp
  next
    case Waiting
    show ?thesis
    proof (cases "rs_state (slot_at s (rg_next_complete s)) = IN_FLIGHT")
      case True
      then obtain cs where "completions_ok P cs s" "s' = fold ring_cb cs s"
        using act Waiting ne by (auto simp: main_act_def split: ring_action.splits if_splits)
      with ring_cbs_core [OF depth(2) data deliver core] show ?thesis by simp
    next
      case False
      with act Waiting ne have s': "s' = s\<lparr>rg_pc := Processing\<rparr>" by (simp add: main_act_def split: if_splits)
      have "ring_pc_ok P (s\<lparr>rg_pc := Processing\<rparr>)" using pcok Waiting False by (auto simp: ring_pc_ok_def)
      with core_pc [OF core] show ?thesis by (simp add: s')
    qed
  next
    case Processing
    then have s': "s' = process_slot P s" using act by (simp add: main_act_def split: if_splits)
    show ?thesis
    proof (cases "rs_status (slot_at s (rg_next_complete s)) = LIBUSB_TRANSFER_COMPLETED")
      case True
      with process_core [OF core depth Processing] show ?thesis by (simp add: s')
    next
      case False
      then show ?thesis by (simp add: s' process_slot_def Let_def)
    qed
  next
    case Finishing
    then have s': "s' = s\<lparr>rg_pc := Usb_Done\<rparr>" using act ne by (simp add: main_act_def split: if_splits)
    have "ring_pc_ok P (s\<lparr>rg_pc := Usb_Done\<rparr>)" using pcok Finishing by (auto simp: ring_pc_ok_def)
    with core_pc [OF core] show ?thesis by (simp add: s')
  next
    case Draining
    show ?thesis
    proof (cases "\<exists>cs. a = Events cs")
      case True
      then obtain cs where "completions_ok P cs s" "s' = fold ring_cb cs s"
        using act Draining by (auto simp: main_act_def split: if_splits)
      with ring_cbs_core [OF depth(2) data deliver core] show ?thesis by simp
    next
      case False
      then have s': "s' = s\<lparr>rg_pc := Usb_Done\<rparr>"
        using act Draining by (auto simp: main_act_def split: ring_action.splits)
      have "ring_pc_ok P (s\<lparr>rg_pc := Usb_Done\<rparr>)" using pcok Draining by (auto simp: ring_pc_ok_def)
      with core_pc [OF core] show ?thesis by (simp add: s')
    qed
  next
    case Usb_Done
    then have s': "s' = s\<lparr>rg_usb_done := True, rg_pc := Joining\<rparr>" using act by (simp add: main_act_def split: if_splits)
    have "ring_core P data s'"
      using core Usb_Done unfolding s'
      by (simp add: ring_core_def ring_counts_def ring_slots_ok_def ring_busy_def ring_written_def window_start_def ring_pc_ok_def)
    then show ?thesis by simp
  next
    case Joining
    then have s': "s' = s\<lparr>rg_pc := Finished\<rparr>" using act by (simp add: main_act_def split: if_splits)
    have "ring_pc_ok P (s\<lparr>rg_pc := Finished\<rparr>)" using pcok Joining by (auto simp: ring_pc_ok_def)
    with core_pc [OF core] show ?thesis by (simp add: s')
  next
    case Finished
    then show ?thesis using act by (simp add: main_act_def)
  qed
qed

lemma writer_core:
  assumes core: "ring_core P data s" and depth: "rp_depth P \<le> kQueueDepth" and act: "writer_act a s = Some s'"
  shows "rg_write_error s' \<or> ring_core P data s'"
proof -
  have pcok: "ring_pc_ok P s" and counts: "ring_counts P s" and slots: "ring_slots_ok P data s" using core by (simp_all add: ring_core_def)
  have upd: "ring_core P data (s\<lparr>rg_writer := w\<rparr>)" if "ring_pc_ok P (s\<lparr>rg_writer := w\<rparr>)" for w
    using core that by (simp add: ring_core_def ring_counts_def ring_slots_ok_def ring_busy_def ring_written_def window_start_def)
  show ?thesis
  proof (cases "rg_writer s")
    case Polling
    show ?thesis
    proof (cases "rs_state (slot_at s (rg_write_idx s)) = READY")
      case True
      then have s': "s' = s\<lparr>rg_writer := Writing\<rparr>" using act Polling by (simp add: writer_act_def Let_def split: if_splits)
      show ?thesis
      proof (cases "rg_write_idx s < rg_submit_count s")
        case lt: True
        then have "ring_pc_ok P (s\<lparr>rg_writer := Writing\<rparr>)" using pcok True by (auto simp: ring_pc_ok_def)
        with upd show ?thesis by (simp add: s')
      next
        case False
        then have "\<nexists>k. rg_write_idx s \<le> k \<and> k < rg_submit_count s" by simp
        moreover have "ring_busy s" using core by (simp add: ring_core_def)
        ultimately have "rs_state (slot_at s (rg_write_idx s)) = FREE" unfolding ring_busy_def by blast
        then show ?thesis using True by simp
      qed
    next
      case False
      then have s': "s' = s\<lparr>rg_writer := Returned\<rparr>" using act Polling by (simp add: writer_act_def Let_def split: if_splits)
      have "ring_pc_ok P (s\<lparr>rg_writer := Returned\<rparr>)" using pcok by (auto simp: ring_pc_ok_def)
      with upd show ?thesis by (simp add: s')
    qed
  next
    case Writing
    show ?thesis
    proof (cases "a = Writer_Step")
      case True
      with act Writing write_core [OF core depth Writing] show ?thesis by (simp add: writer_act_def Let_def)
    next
      case False
      with act Writing show ?thesis by (auto simp: writer_act_def Let_def split: if_splits)
    qed
  next
    case Returned
    then show ?thesis using act by (simp add: writer_act_def Let_def)
  qed
qed

lemma ring_act_inv:
  assumes "ring_inv P data s" and "1 \<le> rp_depth P" and "rp_depth P \<le> kQueueDepth"
    and "rp_size P \<le> length data" and "rp_deliver P = exact_delivery data (rp_size P)"
    and act: "ring_act P a s = Some s'"
  shows "ring_inv P data s'"
proof (cases "a \<in> {Writer_Step, Write_Fails}")
  case True
  then have w: "writer_act a s = Some s'" using act by (simp add: ring_act_def)
  show ?thesis
    using writer_flags [OF _ w] writer_core [OF _ assms(3) w] assms(1) by (auto simp: ring_inv_def)
next
  case False
  then have m: "main_act P a s = Some s'" using act by (simp add: ring_act_def)
  show ?thesis
    using main_flags [OF _ m] main_core [OF _ assms(2-5) _ _ m] assms(1) by (auto simp: ring_inv_def)
qed

lemma initial_ring_inv: "ring_inv P data initial_ring"
proof -
  have "rs_state (slot_at initial_ring j) = FREE" for j
    by (simp add: initial_ring_def ring_slot_of_def empty_slot_def)
  then show ?thesis
    unfolding ring_inv_def ring_core_def ring_busy_def
    by (simp add: initial_ring_def ring_flags_def ring_counts_def ring_slots_ok_def ring_written_def ring_pc_ok_def)
qed

lemma ring_reach_inv:
  assumes "ring_reach P s" and "1 \<le> rp_depth P" and "rp_depth P \<le> kQueueDepth"
    and "rp_size P \<le> length data" and "rp_deliver P = exact_delivery data (rp_size P)"
  shows "ring_inv P data s"
  using assms(1)
proof induction
  case ring_start
  show ?case by (rule initial_ring_inv)
next
  case (ring_next s a s')
  from ring_act_inv [OF ring_next.IH assms(2-5) ring_next.hyps(2)] show ?case .
qed

end
