(* ===== verification/Usb_Receive_Props.thy ===== *)
theory Usb_Receive_Props
  imports Usb_Receive
begin

text \<open>
  What \<open>receive_file_core\<close> promises: a success is a faithful copy in every interleaving,
  the two threads never wait for each other, and stray session frames are skipped.
\<close>

section \<open>Accounting facts\<close>

lemma received_all:
  assumes "ring_counts P s" and "rg_bytes_received s = rp_size P"
  shows "rg_next_complete s = rg_submit_count s"
proof (rule ccontr)
  assume "\<not> ?thesis"
  with assms(1) have "rg_next_complete s * kChunkSize < rp_size P" by (auto simp: ring_counts_def)
  with assms show False by (auto simp: ring_counts_def min_def split: if_splits)
qed

section \<open>The file that arrives\<close>

lemma receive_exact:
  assumes "ring_reach P s" and "rg_pc s = Finished" and "1 \<le> rp_depth P" and "rp_depth P \<le> kQueueDepth"
    and "rp_size P \<le> length data" and "rp_deliver P = exact_delivery data (rp_size P)"
  shows "(tr_ok (receive_result P secs s) \<longrightarrow>
      rg_out s = take (rp_size P) data \<and> tr_bytes_transferred (receive_result P secs s) = rp_size P)
    \<and> (\<not> tr_ok (receive_result P secs s) \<longrightarrow> tr_error_message (receive_result P secs s) \<noteq> [])"
proof -
  have inv: "ring_inv P data s" by (rule ring_reach_inv [OF assms(1,3-6)])
  have "rg_out s = take (rp_size P) data" if "\<not> rg_error s" "\<not> rg_write_error s" "rg_bytes_received s = rp_size P"
  proof -
    from inv that have core: "ring_core P data s" and flags: "ring_flags s" by (simp_all add: ring_inv_def)
    from flags assms(2) that have all: "rg_total_submitted s \<le> rg_write_idx s" by (auto simp: ring_flags_def)
    have counts: "ring_counts P s" using core by (simp add: ring_core_def)
    let ?W = "rg_write_idx s" and ?N = "rg_next_complete s" and ?S = "rg_submit_count s"
    have WS: "?W = ?S" "?N \<le> ?S" using all counts by (simp_all add: ring_counts_def)
    have N: "rp_size P \<le> ?N * kChunkSize" using that(3) counts by (auto simp: ring_counts_def min_def split: if_splits)
    obtain ps where ps: "length ps = ?W" "rg_out s = concat ps"
      "\<forall>j < ?W. j < ?N \<or> rs_status (slot_at s j) = LIBUSB_TRANSFER_COMPLETED \<longrightarrow> ps ! j = chunk_at data (rp_size P) j"
      using core by (auto simp: ring_core_def ring_written_def)
    have len0: "chunk_len (rp_size P) j = 0" if "?N \<le> j" for j
    proof -
      have "?N * kChunkSize \<le> j * kChunkSize" using that by (rule mult_le_mono1)
      with N have "rp_size P \<le> j * kChunkSize" by (rule le_trans)
      then show ?thesis by (simp add: chunk_len_def)
    qed
    have take: "concat (take ?N ps) = take (rp_size P) data"
    proof -
      have "take ?N ps = map (chunk_at data (rp_size P)) [0..<?N]"
        using ps(1,3) WS by (intro nth_equalityI) simp_all
      then show ?thesis using N by (simp add: chunks_concat min_absorb1)
    qed
    have "?N = ?S"
    proof (rule ccontr)
      assume "?N \<noteq> ?S"
      with WS have "window_start s \<le> ?N \<and> ?N < ?S" by (simp add: window_start_def)
      with counts N show False by (auto simp: ring_counts_def)
    qed
    with take WS ps(1,2) show ?thesis by simp
  qed
  then show ?thesis by (auto simp: receive_result_def Let_def)
qed



text \<open>A run on three bytes: one submission, one completion, one write, and the two exits.\<close>

definition sample_ring :: ring_params where
  "sample_ring = \<lparr>rp_size = 3, rp_depth = 1, rp_deliver = exact_delivery ''abc'' 3\<rparr>"

definition sample_schedule :: "ring_action list" where
  "sample_schedule = [Submit_Result 0, Main_Step, Main_Step, Events [(0, 0, ''abc'')], Main_Step, Main_Step, Main_Step,
     Main_Step, Main_Step, Main_Step, Writer_Step, Writer_Step, Writer_Step, Main_Step]"

lemma sample_ring_run:
  "\<exists>s. ring_run sample_ring sample_schedule initial_ring = Some s \<and> rg_pc s = Finished \<and> rg_out s = ''abc''
     \<and> tr_ok (receive_result sample_ring 1 s)"
proof -
  have small: "min 3 kChunkSize = 3" "3 < kChunkSize" "3 \<le> kChunkSize" by (simp_all add: kChunkSize_def)
  have exact: "exact_delivery ''abc'' 3 0 0 ''abc''"
    by (simp add: exact_delivery_def chunk_at_def chunk_len_def small)
  have slot: "rs_state empty_slot = FREE" by (simp add: empty_slot_def)
  have pool: "replicate kPoolSize empty_slot = empty_slot # replicate 33 empty_slot"
    by (simp add: kPoolSize_def kQueueDepth_def flip: replicate_Suc)
  have more: "Suc (Suc (Suc 0)) \<le> kChunkSize" "kPoolSize \<noteq> Suc 0" by (simp_all add: kChunkSize_def kPoolSize_def kQueueDepth_def)
  show ?thesis
    by (simp add: sample_ring_def sample_schedule_def initial_ring_def pool more ring_act_def main_act_def writer_act_def
        submit_wanted_def submit_slot_def process_slot_def ring_slot_of_def set_slot_def ring_cb_def completions_ok_def
        Let_def small exact slot LIBUSB_TRANSFER_COMPLETED_def receive_result_def)
qed



section \<open>The two threads make progress\<close>

text \<open>What keeps the writer from waiting for ever after an error.\<close>

definition ring_live :: "ring_state \<Rightarrow> bool" where
  "ring_live s \<longleftrightarrow> length (rg_slots s) = kPoolSize
     \<and> (rg_pc s \<in> {Draining, Usb_Done, Joining} \<and> rg_error s \<longrightarrow> rg_recv_aborted s)
     \<and> (rg_write_error s \<longrightarrow> rg_writer s = Returned)
     \<and> (rg_pc s = Joining \<longrightarrow> rg_usb_done s)"

lemma ring_cbs_length [simp]: "length (rg_slots (fold ring_cb cs s)) = length (rg_slots s)"
  by (induction cs arbitrary: s) (simp_all add: ring_cb_def split: prod.splits)

lemma slots_length [simp]:
  "length (rg_slots (submit_slot P rc s)) = length (rg_slots s)"
  "length (rg_slots (process_slot P s)) = length (rg_slots s)"
  by (simp_all add: submit_slot_def process_slot_def Let_def)

lemma ring_act_live:
  assumes live: "ring_live s" and act: "ring_act P a s = Some s'"
  shows "ring_live s'"
proof (cases "a \<in> {Writer_Step, Write_Fails}")
  case True
  then have "writer_act a s = Some s'" using act by (simp add: ring_act_def)
  with live show ?thesis
    by (cases "rg_writer s") (auto simp: writer_act_def ring_live_def Let_def split: if_splits)
next
  case False
  then have m: "main_act P a s = Some s'" using act by (simp add: ring_act_def)
  show ?thesis
  proof (cases "rg_pc s")
    case Submitting
    with main_submitting [OF Submitting m] live show ?thesis by (auto simp: ring_live_def split: if_splits)
  next
    case Waiting
    with main_waiting [OF Waiting m] live show ?thesis by (auto simp: ring_live_def)
  next
    case Processing
    then have "s' = process_slot P s" using m by (simp add: main_act_def split: if_splits)
    then show ?thesis using live process_slot_fields(7) [of P s] by (auto simp: ring_live_def)
  next
    case Draining
    with main_draining [OF Draining m] live show ?thesis by (auto simp: ring_live_def)
  qed (use m live in \<open>auto simp: main_act_def ring_live_def split: if_splits\<close>)
qed

lemma ring_reach_live: "ring_reach P s \<Longrightarrow> ring_live s"
proof (induction rule: ring_reach.induct)
  case ring_start
  show ?case by (simp add: ring_live_def initial_ring_def)
next
  case (ring_next s a s')
  then show ?case using ring_act_live by blast
qed

text \<open>The writer can always move when the slot it wants is completed or it may leave.\<close>

lemma writer_moves:
  assumes "rg_writer s \<noteq> Returned"
    and "rg_writer s = Polling \<Longrightarrow> rs_state (slot_at s (rg_write_idx s)) = READY \<or> rg_recv_aborted s
           \<or> rg_usb_done s \<and> rg_total_submitted s \<le> rg_write_idx s"
  shows "\<exists>a s'. ring_act P a s = Some s' \<and> s' \<noteq> s"
proof -
  have "rg_writer s' \<noteq> rg_writer s \<Longrightarrow> s' \<noteq> s" for s' by auto
  moreover have "\<exists>s'. ring_act P Writer_Step s = Some s' \<and> rg_writer s' \<noteq> rg_writer s"
    using assms by (cases "rg_writer s") (auto simp: ring_act_def writer_act_def Let_def)
  ultimately show ?thesis by blast
qed

lemma main_moves:
  assumes "main_act P a s = Some s'" and "rg_pc s' \<noteq> rg_pc s" and "a \<notin> {Writer_Step, Write_Fails}"
  shows "\<exists>a s'. ring_act P a s = Some s' \<and> s' \<noteq> s"
  using assms by (intro exI [of _ a] exI [of _ s']) (auto simp: ring_act_def)

text \<open>The writer frees the slot the USB thread waits for.\<close>

lemma busy_slot_ready:
  assumes core: "ring_core P data s" and depth: "rp_depth P \<le> kQueueDepth"
    and busy: "rs_state (slot_at s (rg_submit_count s)) \<noteq> FREE"
  shows "rs_state (slot_at s (rg_write_idx s)) = READY \<and> rg_write_idx s < rg_submit_count s"
proof -
  let ?S = "rg_submit_count s" and ?W = "rg_write_idx s" and ?N = "rg_next_complete s"
  have counts: "ring_counts P s" and slots: "ring_slots_ok P data s" using core by (simp_all add: ring_core_def)
  obtain k where k: "?W \<le> k" "k < ?S" "k mod kPoolSize = ?S mod kPoolSize"
    using core busy by (auto simp: ring_core_def ring_busy_def)
  have "?S = ?W + kPoolSize"
  proof (rule ccontr)
    assume "?S \<noteq> ?W + kPoolSize"
    then have "?S < ?W + kPoolSize" using counts by (simp add: ring_counts_def)
    with pool_index_inj [of ?W k ?S] k show False by simp
  qed
  then have "?W < ?N" using counts depth by (simp add: ring_counts_def kPoolSize_def)
  moreover from this have "window_start s \<le> ?W" "?W < ?S" using k by (simp_all add: window_start_def)
  ultimately have "rs_state (slot_at s ?W) \<noteq> FREE" "rs_state (slot_at s ?W) \<noteq> IN_FLIGHT"
    using slots by (auto simp: ring_slots_ok_def)
  then show ?thesis using \<open>?W < ?S\<close> by (cases "rs_state (slot_at s ?W)") simp_all
qed

text \<open>At the join every accounted buffer is written or ready to be written.\<close>

lemma join_slot_ready:
  assumes core: "ring_core P data s" and pc: "rg_pc s = Joining" and "rg_write_idx s < rg_total_submitted s"
  shows "rs_state (slot_at s (rg_write_idx s)) = READY"
proof -
  let ?S = "rg_submit_count s" and ?W = "rg_write_idx s" and ?N = "rg_next_complete s"
  have counts: "ring_counts P s" and slots: "ring_slots_ok P data s" and "rg_bytes_received s = rp_size P"
    using core pc by (simp_all add: ring_core_def ring_pc_ok_def)
  then have "?N = ?S" using received_all by blast
  then have "window_start s \<le> ?W" "?W < ?S" "?W < ?N"
    using assms(3) counts by (simp_all add: window_start_def ring_counts_def)
  then have "rs_state (slot_at s ?W) \<noteq> FREE" "rs_state (slot_at s ?W) \<noteq> IN_FLIGHT"
    using slots by (auto simp: ring_slots_ok_def)
  then show ?thesis by (cases "rs_state (slot_at s ?W)") simp_all
qed

lemma submit_moves:
  assumes "rg_pc s = Submitting" and "submit_wanted P s" and "rs_state (slot_at s (rg_submit_count s)) = FREE"
  shows "\<exists>a s'. ring_act P a s = Some s' \<and> s' \<noteq> s"
proof -
  have "ring_act P (Submit_Result 0) s = Some (submit_slot P 0 s)" using assms by (simp add: ring_act_def main_act_def)
  moreover have "rg_submit_count (submit_slot P 0 s) \<noteq> rg_submit_count s" by (simp add: submit_slot_def Let_def)
  ultimately show ?thesis by fastforce
qed

text \<open>One lemma for each position of the USB thread that may have to wait.\<close>

lemma submitting_progress:
  assumes pc: "rg_pc s = Submitting" and core: "rg_error s \<or> rg_write_error s \<or> ring_core P data s"
    and flags: "ring_flags s" and depth: "rp_depth P \<le> kQueueDepth"
  shows "\<exists>a s'. ring_act P a s = Some s' \<and> s' \<noteq> s"
proof (cases "submit_wanted P s \<and> rs_state (slot_at s (rg_submit_count s)) = FREE")
  case True
  with submit_moves [OF pc] show ?thesis by blast
next
  case full: False
  show ?thesis
  proof (cases "submit_wanted P s \<and> \<not> rg_write_error s")
    case True
    then have c: "ring_core P data s" "\<not> rg_error s" using core by (auto simp: submit_wanted_def)
    have "rg_writer s \<noteq> Returned" using flags True c(2) pc by (auto simp: ring_flags_def)
    with writer_moves busy_slot_ready [OF c(1) depth] True full show ?thesis by blast
  next
    case False
    with full pc obtain s' where "main_act P Main_Step s = Some s'" "rg_pc s' = Checking"
      by (cases "submit_wanted P s") (simp_all add: main_act_def)
    then show ?thesis using main_moves pc by fastforce
  qed
qed

lemma waiting_progress:
  assumes pc: "rg_pc s = Waiting" and live: "ring_live s" and deliver: "rp_deliver P = exact_delivery data (rp_size P)"
  shows "\<exists>a s'. ring_act P a s = Some s' \<and> s' \<noteq> s"
proof (cases "rs_state (slot_at s (rg_next_complete s)) = IN_FLIGHT \<and> \<not> rg_write_error s")
  case True
  let ?c = "(rg_next_complete s mod kPoolSize, 3, []) :: nat \<times> int \<times> string"
  have "completions_ok P [?c] s"
    using True by (simp add: completions_ok_def deliver exact_delivery_def LIBUSB_TRANSFER_COMPLETED_def ring_slot_of_def)
  then have "ring_act P (Events [?c]) s = Some (ring_cb ?c s)"
    using True pc by (simp add: ring_act_def main_act_def)
  moreover have "rs_state (slot_at (ring_cb ?c s) (rg_next_complete s)) = READY"
    using live by (simp add: ring_cb_def slot_set ring_live_def)
  ultimately show ?thesis using True by fastforce
next
  case False
  then have "\<exists>s'. main_act P Main_Step s = Some s' \<and> rg_pc s' \<noteq> Waiting"
    using pc by (auto simp: main_act_def)
  then show ?thesis using main_moves pc by fastforce
qed

lemma joining_progress:
  assumes pc: "rg_pc s = Joining" and core: "rg_error s \<or> rg_write_error s \<or> ring_core P data s" and live: "ring_live s"
  shows "\<exists>a s'. ring_act P a s = Some s' \<and> s' \<noteq> s"
proof (cases "rg_writer s = Returned")
  case True
  then have "main_act P Main_Step s = Some (s\<lparr>rg_pc := Finished\<rparr>)" using pc by (simp add: main_act_def)
  then show ?thesis by (rule main_moves) (simp_all add: pc)
next
  case False
  then have "rg_recv_aborted s \<or> ring_core P data s" "rg_usb_done s"
    using live core pc by (auto simp: ring_live_def)
  then have "rs_state (slot_at s (rg_write_idx s)) = READY \<or> rg_recv_aborted s
       \<or> rg_usb_done s \<and> rg_total_submitted s \<le> rg_write_idx s"
    using join_slot_ready [OF _ pc] by (meson not_le)
  with writer_moves [OF False] show ?thesis by blast
qed

text \<open>At the other positions the USB thread goes on by itself.\<close>

lemma running_progress:
  assumes "rg_pc s \<in> {Checking, Processing, Finishing, Draining, Usb_Done}"
  shows "\<exists>a s'. ring_act P a s = Some s' \<and> s' \<noteq> s"
proof (cases "rg_pc s = Draining")
  case True
  then have "main_act P Drain_End s = Some (s\<lparr>rg_pc := Usb_Done\<rparr>)" by (simp add: main_act_def)
  then show ?thesis by (rule main_moves) (simp_all add: True)
next
  case False
  with assms have "\<exists>s'. main_act P Main_Step s = Some s' \<and> rg_pc s' \<noteq> rg_pc s"
    using process_slot_fields(7) [of P s] by (auto simp: main_act_def)
  then show ?thesis using main_moves by fastforce
qed



section \<open>The header that starts a receive\<close>

text \<open>
  C38: only a header of the expected kind with the right magic starts a file: the loop that
  skips session frames never lets one through to a receiver that waits for a payload.
\<close>

theorem receive_header_filters:
  assumes "receive_header fuel env handle deadline expected u = Some (Inr hdr, u')"
  shows "fh_magic hdr = kHeaderMagic \<and> (expected \<noteq> 0 \<longrightarrow> fh_frame_kind hdr = expected)"
  using assms
proof (induction fuel arbitrary: u)
  case 0
  then show ?case by simp
next
  case (Suc fuel)
  then show ?case by (auto simp: Let_def split: prod.splits if_splits option.splits bool.splits)
qed

text \<open>A device whose bulk reads come from a byte stream.\<close>

definition stream_env :: "string usb_env" where
  "stream_env = \<lparr>ue_ctx = True, ue_get_device_list = (\<lambda>u. (Some [sample_device 7], u)),
     ue_open = (\<lambda>d u. (0, u)), ue_sleep = (\<lambda>_ u. u),
     ue_kernel_driver_active = (\<lambda>_ u. (0, u)), ue_detach_kernel_driver = (\<lambda>_ u. u),
     ue_claim_interface = (\<lambda>_ u. (0, u)), ue_release_interface = (\<lambda>_ u. u), ue_close = (\<lambda>_ u. u),
     ue_clear_halt = (\<lambda>_ _ u. u), ue_string_descriptor = (\<lambda>_ _ u. ([], u)),
     ue_bulk_out = (\<lambda>_ bs _ u. ((0, length bs), u)), ue_bulk_in = (\<lambda>_ n _ u. ((0, take n u), drop n u)),
     ue_submit_out = (\<lambda>_ i _ _ u. (0, u)), ue_cancel = (\<lambda>_ u. u), ue_handle_events = (\<lambda>u. ([], u)),
     ue_now = (\<lambda>u. (0, u)), ue_strerror = (\<lambda>_. ''error'')\<rparr>"

lemma stream_read:
  assumes "0 < n" and "n \<le> length u" and "n \<le> kChunkSize"
  shows "bulk_read_all (Suc k) stream_env handle [] n ms u = Some (Some (take n u), drop n u)"
  using assms by (simp add: bulk_read_all.simps [of "Suc k"] bulk_read_all.simps [of k] stream_env_def
      LIBUSB_SUCCESS_def min_absorb1 min_absorb2)

lemma stream_discard:
  assumes "0 < n" and "n \<le> length u" and "n \<le> kMaxStraySessionBytes"
  shows "discard_incoming_bytes (Suc k) stream_env handle n ms u = Some (True, drop n u)"
proof -
  have "n \<le> kChunkSize" using assms(3) by (simp add: kMaxStraySessionBytes_def kChunkSize_def)
  with assms show ?thesis
    by (simp add: discard_incoming_bytes_def discard_loop.simps [of "Suc k"] discard_loop.simps [of k]
        stream_read min_absorb1 del: One_nat_def)
qed

definition sample_session_header :: file_header where
  "sample_session_header = fill_file_header 3 kFrameKindSession None"

definition sample_payload_header :: file_header where
  "sample_payload_header = fill_file_header 5 kFrameKindPayload (Some ''f'')"

lemma receive_header_filters_witness:
  "\<exists>hdr u'. receive_header 2 stream_env (sample_device 7) 1000 kFrameKindPayload
       (header_bytes sample_session_header @ ''abc'' @ header_bytes sample_payload_header @ ''hello'') = Some (Inr hdr, u')
     \<and> u' = ''hello'' \<and> fh_magic hdr = kHeaderMagic \<and> fh_frame_kind hdr = kFrameKindPayload"
proof -
  let ?h = "header_bytes sample_session_header" and ?p = "header_bytes sample_payload_header"
  have wf: "header_wf sample_session_header" "header_wf sample_payload_header"
    by (simp_all add: sample_session_header_def sample_payload_header_def fill_file_header_wf)
  have len: "length ?h = kHeaderSize" "length ?p = kHeaderSize" by (simp_all add: header_bytes_length wf)
  have decode: "header_of_bytes ?h = sample_session_header" "header_of_bytes ?p = sample_payload_header"
    by (simp_all add: header_codec(1) wf)
  have fields: "fh_magic sample_session_header = kHeaderMagic" "fh_frame_kind sample_session_header = kFrameKindSession"
    "unat (fh_file_size sample_session_header) = 3" "fh_magic sample_payload_header = kHeaderMagic"
    "fh_frame_kind sample_payload_header = kFrameKindPayload"
    by (simp_all add: sample_session_header_def sample_payload_header_def fill_file_header_def)
  have hs: "0 < kHeaderSize" "kHeaderSize \<le> kChunkSize" by (simp_all add: kHeaderSize_def kChunkSize_def)
  have skip: "discard_incoming_bytes (Suc k) stream_env (sample_device 7) 3 ms (''abc'' @ r) = Some (True, r)" for k ms r
    using stream_discard [of 3 "''abc'' @ r" k "sample_device 7" ms] by (simp add: kMaxStraySessionBytes_def)
  have read: "bulk_read_all (Suc k) stream_env (sample_device 7) [] kHeaderSize ms (x @ r) = Some (Some x, r)"
    if "length x = kHeaderSize" for k ms x r
    using stream_read [OF hs(1) _ hs(2), of "x @ r" k "sample_device 7" ms] that by simp
  have kinds: "kFrameKindPayload \<noteq> kFrameKindSession" by (simp add: kFrameKindPayload_def kFrameKindSession_def)
  have now: "ue_now stream_env u = (0, u)" for u by (simp add: stream_env_def)
  let ?u = "?h @ ''abc'' @ ?p @ ''hello''"
  have "receive_header (Suc (Suc 0)) stream_env (sample_device 7) 1000 kFrameKindPayload ?u = Some (Inr sample_payload_header, ''hello'')"
    using read [OF len(1)] read [OF len(2)] skip kinds
    by (simp add: now remaining_timeout_ms_def decode fields del: append.simps)
  from this receive_header_filters [OF this] show ?thesis by (simp add: kFrameKindPayload_def numeral_2_eq_2 [symmetric])
qed

end
