(* ===== verification/Usb_Loopback.thy ===== *)
theory Usb_Loopback
  imports Usb_Send Usb_Receive
begin

text \<open>
  The loopback test of \<open>core/src/usb_transfer_core.cpp\<close>: a file is sent through one port,
  received through another and compared. \<open>file_cross_connect_core\<close> runs three threads over
  two slots: a reader fills them from the disk, the calling thread moves each one over the
  cable, a writer puts what was received into the copy. The threads are a step relation; a
  run of the function follows one schedule of it.
\<close>

section \<open>Comparing two files\<close>

definition kCompareBuf :: nat where "kCompareBuf = 64 * 1024"

text \<open>
  The loop over the two streams; a stream whose read got fewer bytes than it asked for is at
  its end.
\<close>

function files_equal_loop :: "string \<Rightarrow> string \<Rightarrow> bool" where
  "files_equal_loop left right =
     (let la = take kCompareBuf left; ra = take kCompareBuf right;
          left_eof = (length la < kCompareBuf); right_eof = (length ra < kCompareBuf)
      in if length la \<noteq> length ra then False
         else if 0 < length la \<and> la \<noteq> ra then False
         else if left_eof \<noteq> right_eof then False
         else if left_eof \<or> right_eof then left_eof \<and> right_eof
         else files_equal_loop (drop kCompareBuf left) (drop kCompareBuf right))"
  by pat_completeness auto
termination
  by (relation "measure (length \<circ> fst)") (auto simp: kCompareBuf_def)

declare files_equal_loop.simps [simp del]

definition files_equal :: "string \<Rightarrow> string \<Rightarrow> file_system \<Rightarrow> bool" where
  "files_equal a b fs = (case (read_file a fs, read_file b fs) of
       (Some left, Some right) \<Rightarrow> length left = length right \<and> files_equal_loop left right
     | _ \<Rightarrow> False)"

lemma files_equal_loop_iff: "files_equal_loop a b \<longleftrightarrow> a = b"
proof (induction a b rule: files_equal_loop.induct)
  case (1 a b)
  have pos: "0 < kCompareBuf" by (simp add: kCompareBuf_def)
  show ?case
  proof (cases "take kCompareBuf a = take kCompareBuf b \<and> \<not> length (take kCompareBuf a) < kCompareBuf")
    case True
    then have l: "take kCompareBuf b = take kCompareBuf a" "length (take kCompareBuf a) = kCompareBuf"
      by (auto simp: min_def split: if_splits)
    have "files_equal_loop a b = files_equal_loop (drop kCompareBuf a) (drop kCompareBuf b)"
      by (subst files_equal_loop.simps) (simp add: Let_def l del: length_take)
    also have "\<dots> \<longleftrightarrow> drop kCompareBuf a = drop kCompareBuf b"
      using 1 True by (metis (no_types, lifting))
    also have "\<dots> \<longleftrightarrow> a = b" using True by (metis append_take_drop_id)
    finally show ?thesis .
  next
    case False
    show ?thesis
    proof (cases "take kCompareBuf a = take kCompareBuf b")
      case True
      with False have short: "length (take kCompareBuf a) < kCompareBuf" "length (take kCompareBuf b) < kCompareBuf" by auto
      then have "a = b" using True by (metis length_take min_less_iff_conj nat_less_le take_all_iff not_le)
      moreover have "files_equal_loop a b" using short True by (subst files_equal_loop.simps) (simp add: Let_def del: length_take)
      ultimately show ?thesis by simp
    next
      case differ: False
      then have "\<not> files_equal_loop a b"
        by (subst files_equal_loop.simps) (cases "a = []", auto simp: Let_def pos simp del: length_take)
      with differ show ?thesis by auto
    qed
  qed
qed

section \<open>One chunk over the cable\<close>

text \<open>
  Both transfers of a chunk have completed; \<open>data\<close> is what the receiving one delivered. The
  return codes of the two submissions are ignored by the code: it waits for both callbacks.
\<close>

definition usb_transfer_chunk :: "int \<Rightarrow> int \<Rightarrow> string \<Rightarrow> bool \<times> nat" where
  "usb_transfer_chunk tx_status rx_status data =
     (tx_status = LIBUSB_TRANSFER_COMPLETED \<and> rx_status = LIBUSB_TRANSFER_COMPLETED, length data)"

section \<open>The three threads\<close>

record cross_slot =
  cs_tx_buf :: string
  cs_rx_buf :: string
  cs_filled :: bool
  cs_usb_done :: bool
  cs_eof :: bool

definition empty_cross_slot :: cross_slot where
  "empty_cross_slot = \<lparr>cs_tx_buf = [], cs_rx_buf = [], cs_filled = False, cs_usb_done = False, cs_eof = False\<rparr>"

datatype reader_pc = R_Check | R_Wait | R_Read | R_Done
datatype cross_writer_pc = W_Check | W_Wait | W_Write | W_Clear | W_Done
datatype cross_main_pc = M_Check | M_Wait | M_Chunk | M_Done

record cross_state =
  xs_slots :: "cross_slot list"
  xs_error :: bool
  xs_total :: nat
  xs_reader :: reader_pc
  xs_read :: nat
  xs_read_slot :: nat
  xs_writer :: cross_writer_pc
  xs_written :: nat
  xs_write_slot :: nat
  xs_out :: string
  xs_main :: cross_main_pc
  xs_main_slot :: nat
  xs_all_done :: bool

text \<open>The file: its size at opening, the bytes the reads deliver, and the size of a chunk.\<close>

record cross_params =
  xp_size :: nat
  xp_disk :: string
  xp_chunk :: nat

definition initial_cross :: cross_state where
  "initial_cross = \<lparr>xs_slots = [empty_cross_slot, empty_cross_slot], xs_error = False, xs_total = 0,
     xs_reader = R_Check, xs_read = 0, xs_read_slot = 0, xs_writer = W_Check, xs_written = 0, xs_write_slot = 0,
     xs_out = [], xs_main = M_Check, xs_main_slot = 0, xs_all_done = False\<rparr>"

definition update_slot :: "nat \<Rightarrow> (cross_slot \<Rightarrow> cross_slot) \<Rightarrow> cross_state \<Rightarrow> cross_state" where
  "update_slot i f s = s\<lparr>xs_slots := (xs_slots s)[i := f (xs_slots s ! i)]\<rparr>"

datatype cross_action = Cross_Reader | Cross_Writer | Cross_Write_Fails | Cross_Main | Cross_Chunk int int string

definition reader_act :: "cross_params \<Rightarrow> cross_state \<Rightarrow> cross_state option" where
  "reader_act P s = (let i = xs_read_slot s in case xs_reader s of
       R_Check \<Rightarrow> Some (s\<lparr>xs_reader := (if xs_read s < xp_size P \<and> \<not> xs_error s then R_Wait else R_Done)\<rparr>)
     | R_Wait \<Rightarrow> (if cs_filled (xs_slots s ! i) then None else Some (s\<lparr>xs_reader := R_Read\<rparr>))
     | R_Read \<Rightarrow>
         let data = take (min (xp_size P - xs_read s) (xp_chunk P)) (drop (xs_read s) (xp_disk P))
         in if data = [] then Some (s\<lparr>xs_error := True, xs_reader := R_Done\<rparr>)
            else let bytes_read = xs_read s + length data
              in Some ((update_slot i (\<lambda>q. q\<lparr>cs_tx_buf := data, cs_filled := True, cs_usb_done := False,
                     cs_eof := (xp_size P \<le> bytes_read)\<rparr>) s)
                   \<lparr>xs_read := bytes_read, xs_read_slot := 1 - i, xs_reader := R_Check\<rparr>)
     | R_Done \<Rightarrow> None)"

definition cross_writer_act :: "cross_params \<Rightarrow> bool \<Rightarrow> cross_state \<Rightarrow> cross_state option" where
  "cross_writer_act P fails s = (let i = xs_write_slot s; q = xs_slots s ! i in case xs_writer s of
       W_Check \<Rightarrow> (if fails then None
         else Some (s\<lparr>xs_writer := (if xs_written s < xp_size P \<and> \<not> xs_error s then W_Wait else W_Done)\<rparr>))
     | W_Wait \<Rightarrow> (if fails then None
         else if xs_error s then Some (s\<lparr>xs_writer := W_Done\<rparr>)
         else if cs_usb_done q then Some (s\<lparr>xs_writer := W_Write\<rparr>) else None)
     | W_Write \<Rightarrow> (if fails then Some (s\<lparr>xs_error := True, xs_writer := W_Done\<rparr>)
         else Some (s\<lparr>xs_out := xs_out s @ cs_rx_buf q, xs_written := xs_written s + length (cs_rx_buf q), xs_writer := W_Clear\<rparr>))
     | W_Clear \<Rightarrow> (if fails then None
         else Some ((update_slot i (\<lambda>q. q\<lparr>cs_filled := False, cs_usb_done := False\<rparr>) s)
           \<lparr>xs_write_slot := 1 - i, xs_writer := W_Check\<rparr>))
     | W_Done \<Rightarrow> None)"

text \<open>The calling thread; \<open>chunk\<close> is what the cable does with the slot it is sending.\<close>

definition cross_main_act :: "(int \<times> int \<times> string) option \<Rightarrow> cross_state \<Rightarrow> cross_state option" where
  "cross_main_act chunk s = (let i = xs_main_slot s; q = xs_slots s ! i in case (xs_main s, chunk) of
       (M_Check, None) \<Rightarrow> Some (s\<lparr>xs_main := (if \<not> xs_all_done s \<and> \<not> xs_error s then M_Wait else M_Done)\<rparr>)
     | (M_Wait, None) \<Rightarrow>
         (if xs_error s then Some (s\<lparr>xs_main := M_Done\<rparr>)
          else if cs_filled q then Some (s\<lparr>xs_main := M_Chunk\<rparr>) else None)
     | (M_Chunk, Some (tx_status, rx_status, data)) \<Rightarrow>
         (if length (cs_tx_buf q) < length data then None
          else let (ok, rx_actual) = usb_transfer_chunk tx_status rx_status data
            in if \<not> ok then Some ((update_slot i (\<lambda>q. q\<lparr>cs_usb_done := True\<rparr>) s)\<lparr>xs_error := True, xs_main := M_Done\<rparr>)
               else Some ((update_slot i (\<lambda>q. q\<lparr>cs_rx_buf := data, cs_usb_done := True\<rparr>) s)
                 \<lparr>xs_all_done := cs_eof q, xs_total := xs_total s + rx_actual, xs_main_slot := 1 - i, xs_main := M_Check\<rparr>))
     | _ \<Rightarrow> None)"

definition cross_act :: "cross_params \<Rightarrow> cross_action \<Rightarrow> cross_state \<Rightarrow> cross_state option" where
  "cross_act P a s = (case a of
       Cross_Reader \<Rightarrow> reader_act P s
     | Cross_Writer \<Rightarrow> cross_writer_act P False s
     | Cross_Write_Fails \<Rightarrow> cross_writer_act P True s
     | Cross_Main \<Rightarrow> cross_main_act None s
     | Cross_Chunk tx rx data \<Rightarrow> cross_main_act (Some (tx, rx, data)) s)"

text \<open>The join of the two threads at the end.\<close>

definition cross_finished :: "cross_state \<Rightarrow> bool" where
  "cross_finished s \<longleftrightarrow> xs_reader s = R_Done \<and> xs_writer s = W_Done \<and> xs_main s = M_Done"

inductive cross_reach :: "cross_params \<Rightarrow> cross_state \<Rightarrow> bool" for P where
  cross_start: "cross_reach P initial_cross"
| cross_next: "cross_reach P s \<Longrightarrow> cross_act P a s = Some s' \<Longrightarrow> cross_reach P s'"

fun cross_run :: "cross_params \<Rightarrow> cross_action list \<Rightarrow> cross_state \<Rightarrow> cross_state option" where
  "cross_run P [] s = Some s"
| "cross_run P (a # as) s = (case cross_act P a s of None \<Rightarrow> None | Some s' \<Rightarrow> cross_run P as s')"

lemma cross_run_reach: "cross_run P as s = Some s' \<Longrightarrow> cross_reach P s \<Longrightarrow> cross_reach P s'"
  by (induction as arbitrary: s) (auto split: option.splits intro: cross_next)

section \<open>The cross connect\<close>

definition cross_result :: "nat \<Rightarrow> double \<Rightarrow> cross_state \<Rightarrow> transfer_result" where
  "cross_result file_size seconds s =
     (if xs_error s \<or> xs_total s \<noteq> file_size
      then make_result False (xs_total s) file_size seconds
        (if xs_error s then ''USB transfer failed during loopback''
         else ''Received '' @ show_nat (xs_total s) @ '' of '' @ show_nat file_size @ '' bytes'')
      else make_result True (xs_total s) file_size seconds [])"

text \<open>An early return: both devices are closed, the copy stays as it is.\<close>

definition cross_fail :: "'u usb_env \<Rightarrow> libusb_device option \<Rightarrow> libusb_device option \<Rightarrow> int \<Rightarrow> nat \<Rightarrow> string
    \<Rightarrow> 'u \<Rightarrow> transfer_result \<times> 'u" where
  "cross_fail env send_handle recv_handle started file_size message u =
     (let u1 = close_device env recv_handle (close_device env send_handle u); (t1, u2) = ue_now env u1
      in (make_result False 0 file_size (of_int (t1 - started) / 1000) message, u2))"

text \<open>
  The threads, from their start to the result: \<open>acts\<close> is what they and the cable do. \<open>None\<close>:
  they do not all end.
\<close>

definition cross_move :: "'u usb_env \<Rightarrow> libusb_device \<Rightarrow> libusb_device \<Rightarrow> int \<Rightarrow> string \<Rightarrow> cross_action list \<Rightarrow> 'u
    \<Rightarrow> (transfer_result \<times> string \<times> 'u) option" where
  "cross_move env send_handle recv_handle started disk acts u =
     (case cross_run \<lparr>xp_size = length disk, xp_disk = disk, xp_chunk = kChunkSize\<rparr> acts initial_cross of
        None \<Rightarrow> None
      | Some s \<Rightarrow> if \<not> cross_finished s then None
          else let u1 = close_device env (Some recv_handle) (close_device env (Some send_handle) u); (t1, u2) = ue_now env u1
            in Some (cross_result (length disk) (of_int (t1 - started) / 1000) s, xs_out s, u2))"

text \<open>The header goes over the cable, then the threads run.\<close>

definition cross_headers :: "nat \<Rightarrow> 'u usb_env \<Rightarrow> ('u \<Rightarrow> cross_action list \<times> 'u) \<Rightarrow> libusb_device \<Rightarrow> libusb_device \<Rightarrow> int
    \<Rightarrow> string \<Rightarrow> 'u \<Rightarrow> (transfer_result \<times> string \<times> 'u) option" where
  "cross_headers fuel env schedule send_handle recv_handle started disk u =
     (let fail = (\<lambda>message v. let (r, v') = cross_fail env (Some send_handle) (Some recv_handle) started (length disk) message v
        in Some (r, [], v'))
      in case bulk_write_all fuel env send_handle (header_bytes (fill_file_header (length disk) kFrameKindPayload None))
             (uint kFileTimeoutMs) u of
           None \<Rightarrow> None
         | Some (Inl e, u1) \<Rightarrow> fail (''Header send failed: '' @ e) u1
         | Some (Inr _, u1) \<Rightarrow> (case bulk_read_all fuel env recv_handle [] kHeaderSize (uint kFileTimeoutMs) u1 of
               None \<Rightarrow> None
             | Some (None, u2) \<Rightarrow> fail ''Header read failed'' u2
             | Some (Some hdr, u2) \<Rightarrow>
                 if fh_magic (header_of_bytes hdr) \<noteq> kHeaderMagic then fail ''Bad magic bytes in header'' u2
                 else let (acts, u3) = schedule u2 in cross_move env send_handle recv_handle started disk acts u3))"

definition device_handle :: "string + libusb_device \<Rightarrow> libusb_device option" where
  "device_handle r = (case r of Inl _ \<Rightarrow> None | Inr h \<Rightarrow> Some h)"

text \<open>\<open>file_cross_connect_core\<close>; the disk delivers the whole file here.\<close>

definition file_cross_connect_core :: "nat \<Rightarrow> 'u usb_env \<Rightarrow> ('u \<Rightarrow> cross_action list \<times> 'u) \<Rightarrow> string \<Rightarrow> string \<Rightarrow> int \<Rightarrow> int
    \<Rightarrow> file_system \<Rightarrow> 'u \<Rightarrow> (transfer_result \<times> file_system \<times> 'u) option" where
  "file_cross_connect_core fuel env schedule in_path out_path send_port_index recv_port_index fs u =
     (let (started, u0) = ue_now env u
      in case read_file in_path fs of
        None \<Rightarrow> Some (make_result False 0 0 0 (''Could not open file: '' @ in_path), fs, u0)
      | Some disk \<Rightarrow> (case open_trunc out_path fs of
            None \<Rightarrow> Some (make_result False 0 (length disk) 0 (''Could not create output file: '' @ out_path), fs, u0)
          | Some fs1 \<Rightarrow>
              let (send, u1) = open_device_by_index env send_port_index 5 u0;
                  (recv, u2) = open_device_by_index env recv_port_index 5 u1
              in (case (send, recv) of
                (Inr send_handle, Inr recv_handle) \<Rightarrow>
                  map_option (\<lambda>(r, out, u3). (r, fs_put out_path (File out) fs1, u3))
                    (cross_headers fuel env schedule send_handle recv_handle started disk u2)
              | _ \<Rightarrow> let (r, u3) = cross_fail env (device_handle send) (device_handle recv) started (length disk)
                    ''Could not open both USB devices for loopback'' u2
                  in Some (r, fs1, u3))))"

definition loopback_transfer_core :: "nat \<Rightarrow> 'u usb_env \<Rightarrow> ('u \<Rightarrow> cross_action list \<times> 'u) \<Rightarrow> string \<Rightarrow> int \<Rightarrow> int
    \<Rightarrow> file_system \<Rightarrow> 'u \<Rightarrow> (transfer_result \<times> file_system \<times> 'u) option" where
  "loopback_transfer_core fuel env schedule path send_port_index recv_port_index fs u =
     (let (t0, u0) = ue_now env u
      in if send_port_index = recv_port_index
         then Some (make_result False 0 0 0 ''Loopback requires two different port indexes'', fs, u0)
         else let (devices, u1) = count_fabric_devices env u0
           in if devices < 2
              then Some (make_result False 0 0 0 (''Loopback needs 2 USB cables from this PC to two CON ports (found ''
                @ show_int devices @ ''). Use a USB-C hub if the laptop has one port.''), fs, u1)
              else let recv_path = path @ ''.loopback_recv''
                in (case file_cross_connect_core fuel env schedule path recv_path send_port_index recv_port_index fs u1 of
                      None \<Rightarrow> None
                    | Some (cross, fs1, u2) \<Rightarrow>
                        let fs2 = snd (remove_path recv_path fs1)
                        in if \<not> tr_ok cross then Some (cross, fs2, u2)
                           else if \<not> files_equal path recv_path fs1
                           then let (t1, u3) = ue_now env u2
                             in Some (make_result False (tr_bytes_transferred cross) (tr_expected_bytes cross)
                               (of_int (t1 - t0) / 1000) ''Loopback data mismatch'', fs2, u3)
                           else Some (cross, fs2, u2)))"

section \<open>What the threads do\<close>

text \<open>An empty file: nobody fills a slot, so the calling thread waits for ever.\<close>

lemma cross_empty_waits:
  assumes "cross_reach P s" and "xp_size P = 0"
  shows "xs_main s \<in> {M_Check, M_Wait} \<and> \<not> xs_error s \<and> \<not> xs_all_done s
    \<and> xs_reader s \<in> {R_Check, R_Done} \<and> xs_writer s \<in> {W_Check, W_Done} \<and> (\<forall>q \<in> set (xs_slots s). \<not> cs_filled q)
    \<and> length (xs_slots s) = 2 \<and> xs_main_slot s < 2"
  using assms
proof (induction rule: cross_reach.induct)
  case cross_start
  show ?case by (simp add: initial_cross_def empty_cross_slot_def)
next
  case (cross_next s a s')
  then have inv: "xs_main s \<in> {M_Check, M_Wait}" "\<not> xs_error s" "\<not> xs_all_done s" "xs_reader s \<in> {R_Check, R_Done}"
    "xs_writer s \<in> {W_Check, W_Done}" "\<forall>q \<in> set (xs_slots s). \<not> cs_filled q" "length (xs_slots s) = 2" "xs_main_slot s < 2"
    by auto
  have "\<not> cs_filled (xs_slots s ! xs_main_slot s)" using inv(6,7,8) by simp
  with cross_next(2) inv cross_next(4) show ?case
    by (auto simp: cross_act_def reader_act_def cross_writer_act_def cross_main_act_def split: cross_action.splits)
qed

text \<open>
  The calling thread does not look at \<open>usb_done\<close>: while the writer is slow, it sends a slot
  that it has sent before once more. With three chunks, a working cable and a slow writer the
  copy is right and the test reports a failure all the same.
\<close>

definition slow_writer :: "cross_action list" where
  "slow_writer = [Cross_Reader, Cross_Reader, Cross_Reader, Cross_Reader, Cross_Reader, Cross_Reader, Cross_Reader,
     Cross_Main, Cross_Main, Cross_Chunk 0 0 ''a'', Cross_Main, Cross_Main, Cross_Chunk 0 0 ''b'',
     Cross_Main, Cross_Main, Cross_Chunk 0 0 ''a'', Cross_Writer, Cross_Writer, Cross_Writer, Cross_Writer,
     Cross_Main, Cross_Main, Cross_Chunk 0 0 ''b'', Cross_Writer, Cross_Writer, Cross_Writer, Cross_Writer,
     Cross_Reader, Cross_Reader, Cross_Reader, Cross_Main, Cross_Main, Cross_Chunk 0 0 ''c'', Cross_Main,
     Cross_Writer, Cross_Writer, Cross_Writer, Cross_Writer, Cross_Writer]"

lemma cross_slow_writer:
  "case cross_run \<lparr>xp_size = 3, xp_disk = ''abc'', xp_chunk = 1\<rparr> slow_writer initial_cross of None \<Rightarrow> False
     | Some s \<Rightarrow> cross_finished s \<and> xs_out s = ''abc'' \<and> \<not> xs_error s \<and> xs_total s = 5
         \<and> \<not> tr_ok (cross_result 3 1 s)"
  by code_simp

text \<open>A failed transfer while both slots are filled: the reader waits for a slot nobody clears.\<close>

definition cable_fails :: "cross_action list" where
  "cable_fails = [Cross_Reader, Cross_Reader, Cross_Reader, Cross_Reader, Cross_Reader, Cross_Reader, Cross_Reader,
     Cross_Writer, Cross_Main, Cross_Main, Cross_Chunk 2 0 ''a'', Cross_Writer]"

lemma cross_reader_stuck:
  "case cross_run \<lparr>xp_size = 3, xp_disk = ''abc'', xp_chunk = 1\<rparr> cable_fails initial_cross of None \<Rightarrow> False
     | Some s \<Rightarrow> \<not> cross_finished s \<and> xs_reader s = R_Wait \<and> xs_writer s = W_Done \<and> xs_main s = M_Done
         \<and> reader_act \<lparr>xp_size = 3, xp_disk = ''abc'', xp_chunk = 1\<rparr> s = None"
  by code_simp

section \<open>Properties\<close>

lemma cross_fail_not_ok: "cross_fail env a b t n m u = (r, u') \<Longrightarrow> \<not> tr_ok r"
  by (auto simp: cross_fail_def make_result_def Let_def split: prod.splits)

lemma cross_headers_ok:
  assumes "cross_headers fuel env schedule h1 h2 t disk u = Some (r, out, u')" and "tr_ok r"
  shows "\<exists>acts s secs. cross_run \<lparr>xp_size = length disk, xp_disk = disk, xp_chunk = kChunkSize\<rparr> acts initial_cross = Some s
    \<and> cross_finished s \<and> out = xs_out s \<and> r = cross_result (length disk) secs s"
proof -
  obtain acts v where "cross_move env h1 h2 t disk acts v = Some (r, out, u')"
    using assms by (auto simp: cross_headers_def Let_def dest: cross_fail_not_ok
        split: option.splits sum.splits prod.splits if_splits)
  then show ?thesis by (auto simp: cross_move_def Let_def split: option.splits if_splits prod.splits)
qed

lemma cross_connect_files:
  assumes "file_cross_connect_core fuel env schedule in_path out_path sp rp fs u = Some (r, fs1, u1)" and "in_path \<noteq> out_path"
  shows "(\<forall>q. q \<noteq> out_path \<longrightarrow> fs_lookup fs1 q = fs_lookup fs q) \<and> fs_denied fs1 = fs_denied fs \<and> fs_room fs1 = fs_room fs
    \<and> (fs_lookup fs1 out_path = fs_lookup fs out_path \<or> (\<exists>c. fs_lookup fs1 out_path = Some (File c)))
    \<and> (tr_ok r \<longrightarrow> (\<exists>disk acts s. read_file in_path fs = Some disk \<and> tr_bytes_transferred r = length disk
         \<and> cross_run \<lparr>xp_size = length disk, xp_disk = disk, xp_chunk = kChunkSize\<rparr> acts initial_cross = Some s
         \<and> cross_finished s \<and> fs_lookup fs1 out_path = Some (File (xs_out s))))"
proof -
  obtain t0 u0 where t: "ue_now env u = (t0, u0)" by fastforce
  show ?thesis
  proof (cases "read_file in_path fs")
    case None
    with assms(1) show ?thesis by (auto simp: file_cross_connect_core_def t make_result_def)
  next
    case disk: (Some disk)
    show ?thesis
    proof (cases "open_trunc out_path fs")
      case None
      with assms(1) disk show ?thesis by (auto simp: file_cross_connect_core_def t make_result_def)
    next
      case (Some fs0)
      note look = open_trunc_lookup [OF Some] and fields = open_trunc_fields [OF Some]
      let ?P = "\<lparr>xp_size = length disk, xp_disk = disk, xp_chunk = kChunkSize\<rparr>"
      obtain send u2 where o1: "open_device_by_index env sp 5 u0 = (send, u2)" by fastforce
      obtain recv u3 where o2: "open_device_by_index env rp 5 u2 = (recv, u3)" by fastforce
      have "fs1 = fs0 \<and> \<not> tr_ok r \<or> (\<exists>out. fs1 = fs_put out_path (File out) fs0 \<and> (tr_ok r \<longrightarrow>
          (\<exists>acts s secs. cross_run ?P acts initial_cross = Some s \<and> cross_finished s \<and> out = xs_out s
          \<and> r = cross_result (length disk) secs s)))"
      proof (cases "\<exists>h1 h2. send = Inr h1 \<and> recv = Inr h2")
        case False
        obtain r' u4 where "cross_fail env (device_handle send) (device_handle recv) t0 (length disk)
            ''Could not open both USB devices for loopback'' u3 = (r', u4)" by fastforce
        moreover from this have "\<not> tr_ok r'" by (rule cross_fail_not_ok)
        ultimately show ?thesis using False assms(1)
          by (cases send; cases recv) (auto simp: file_cross_connect_core_def t disk Some o1 o2)
      next
        case True
        then obtain h1 h2 where "send = Inr h1" "recv = Inr h2" by blast
        with assms(1) obtain out where ch: "cross_headers fuel env schedule h1 h2 t0 disk u3 = Some (r, out, u1)"
          and fs1: "fs1 = fs_put out_path (File out) fs0"
          by (auto simp: file_cross_connect_core_def t disk Some o1 o2)
        show ?thesis by (rule disjI2, rule exI [of _ out]) (use fs1 cross_headers_ok [OF ch] in simp)
      qed
      then show ?thesis
      proof
        assume "fs1 = fs0 \<and> \<not> tr_ok r"
        with look fields show ?thesis by auto
      next
        assume "\<exists>out. fs1 = fs_put out_path (File out) fs0 \<and> (tr_ok r \<longrightarrow>
          (\<exists>acts s secs. cross_run ?P acts initial_cross = Some s \<and> cross_finished s \<and> out = xs_out s
          \<and> r = cross_result (length disk) secs s))"
        then obtain out where fs1: "fs1 = fs_put out_path (File out) fs0" and ok: "tr_ok r \<Longrightarrow>
          \<exists>acts s secs. cross_run ?P acts initial_cross = Some s \<and> cross_finished s \<and> out = xs_out s
          \<and> r = cross_result (length disk) secs s" by blast
        have "tr_ok (cross_result n secs s) \<Longrightarrow> tr_bytes_transferred (cross_result n secs s) = n" for n secs s
          by (auto simp: cross_result_def make_result_def split: if_splits)
        with ok have "tr_ok r \<Longrightarrow> \<exists>acts s. tr_bytes_transferred r = length disk
            \<and> cross_run ?P acts initial_cross = Some s \<and> cross_finished s \<and> out = xs_out s" by metis
        with look fields disk show ?thesis by (auto simp: fs1)
      qed
    qed
  qed
qed

text \<open>
  C13: The loopback test reports success only when the bytes that came back are the file, all of
  them, whatever the three threads and the cable did; and however it ends, it leaves every other
  file as it was and its own copy is gone.
\<close>

theorem loopback_sound:
  assumes "loopback_transfer_core fuel env schedule path sp rp fs u = Some (r, fs', u')"
    and "fs_lookup fs (path @ ''.loopback_recv'') = None" and "\<not> fs_denied fs (path @ ''.loopback_recv'')"
  shows "fs_lookup fs' = fs_lookup fs
    \<and> (tr_ok r \<longrightarrow> (\<exists>disk acts s. fs_lookup fs path = Some (File disk) \<and> tr_bytes_transferred r = length disk
        \<and> cross_run \<lparr>xp_size = length disk, xp_disk = disk, xp_chunk = kChunkSize\<rparr> acts initial_cross = Some s
        \<and> cross_finished s \<and> xs_out s = disk))"
proof -
  let ?recv = "path @ ''.loopback_recv''"
  consider "fs' = fs" "\<not> tr_ok r"
    | cross fs1 u1 u2 where "file_cross_connect_core fuel env schedule path ?recv sp rp fs u1 = Some (cross, fs1, u2)"
      "fs' = snd (remove_path ?recv fs1)" "tr_ok r \<longrightarrow> r = cross \<and> files_equal path ?recv fs1"
    using assms(1) by (auto simp: loopback_transfer_core_def Let_def make_result_def case_prod_beta
        split: if_splits option.splits)
  then show ?thesis
  proof cases
    case 1
    then show ?thesis by simp
  next
    case (2 cross fs1 u1 u2)
    have ne: "path \<noteq> ?recv" by simp
    note c = cross_connect_files [OF 2(1) ne]
    note c_ok = c [THEN conjunct2, THEN conjunct2, THEN conjunct2, THEN conjunct2, rule_format]
    have clean: "fs_lookup fs' = fs_lookup fs"
    proof
      fix q
      show "fs_lookup fs' q = fs_lookup fs q"
        using c assms(2,3) by (cases "q = ?recv") (auto simp: 2(2) remove_path_def split: option.splits node.splits)
    qed
    moreover have "\<exists>disk acts s. fs_lookup fs path = Some (File disk) \<and> tr_bytes_transferred r = length disk
        \<and> cross_run \<lparr>xp_size = length disk, xp_disk = disk, xp_chunk = kChunkSize\<rparr> acts initial_cross = Some s
        \<and> cross_finished s \<and> xs_out s = disk" if "tr_ok r"
    proof -
      have eq: "files_equal path ?recv fs1" "r = cross" using that 2(3) by auto
      obtain disk acts s where x: "read_file path fs = Some disk" "tr_bytes_transferred r = length disk"
        "cross_run \<lparr>xp_size = length disk, xp_disk = disk, xp_chunk = kChunkSize\<rparr> acts initial_cross = Some s"
        "cross_finished s" "fs_lookup fs1 ?recv = Some (File (xs_out s))"
        using c_ok [OF \<open>tr_ok r\<close> [unfolded eq(2)]] unfolding eq(2) by (elim exE conjE) iprover
      have look: "fs_lookup fs path = Some (File disk)" using x(1) by (auto simp: read_file_def split: option.splits node.splits if_splits)
      then have "fs_lookup fs1 path = Some (File disk)" using c ne by metis
      with eq(1) x(5) have "disk = xs_out s"
        by (auto simp: files_equal_def read_file_def files_equal_loop_iff split: if_splits)
      with look x show ?thesis by blast
    qed
    ultimately show ?thesis by blast
  qed
qed

text \<open>Two cables on one hub, a file of one byte, threads that take turns.\<close>

definition loop_env :: "int usb_env" where
  "loop_env = (static_env [sample_device 7, sample_device 8] (\<lambda>_. 0))\<lparr>ue_bulk_in :=
     \<lambda>_ _ _ u. ((0, header_bytes (fill_file_header (Suc 0) kFrameKindPayload None)), u)\<rparr>"

definition one_file :: file_system where
  "one_file = \<lparr>fs_entries = [(''/d'', Directory), (''/d/x'', File ''x'')], fs_denied = (\<lambda>_. False), fs_room = (\<lambda>_. None)\<rparr>"

definition in_turns :: "cross_action list" where
  "in_turns = [Cross_Reader, Cross_Reader, Cross_Reader, Cross_Reader, Cross_Main, Cross_Main, Cross_Chunk 0 0 ''x'',
     Cross_Main, Cross_Writer, Cross_Writer, Cross_Writer, Cross_Writer, Cross_Writer]"

lemma in_turns_ends:
  "\<exists>s. cross_run \<lparr>xp_size = length ''x'', xp_disk = ''x'', xp_chunk = kChunkSize\<rparr> in_turns initial_cross = Some s
     \<and> cross_finished s \<and> xs_out s = ''x'' \<and> \<not> xs_error s \<and> xs_total s = 1"
proof -
  have m: "min (Suc 0) kChunkSize = Suc 0" by (simp add: kChunkSize_def)
  show ?thesis
    by (simp add: in_turns_def cross_act_def reader_act_def cross_writer_act_def cross_main_act_def initial_cross_def
        empty_cross_slot_def update_slot_def usb_transfer_chunk_def LIBUSB_TRANSFER_COMPLETED_def m cross_finished_def)
qed

lemma loop_env_io:
  "bulk_write_all (Suc 0) loop_env h (header_bytes (fill_file_header n k f)) t u = Some (Inr (), u)"
  "bulk_read_all (Suc 0) loop_env h [] kHeaderSize t u = Some (Some (header_bytes (fill_file_header (Suc 0) kFrameKindPayload None)), u)"
proof -
  have l: "length (header_bytes (fill_file_header n k f)) = 32" for n k f
    using header_bytes_length [OF fill_file_header_wf] by (simp add: kHeaderSize_def)
  then have t: "take kChunkSize (header_bytes (fill_file_header n k f)) = header_bytes (fill_file_header n k f)" for n k f
    by (simp add: kChunkSize_def)
  have ne: "header_bytes (fill_file_header n k f) \<noteq> []" using l [of n k f] by auto
  have nil: "bulk_write_all 0 loop_env h [] t u = Some (Inr (), u)" by (subst bulk_write_all.simps) simp
  have "fst (ue_bulk_out loop_env h d t u) = (0, length d)" "snd (ue_bulk_out loop_env h d t u) = u" for d
    by (simp_all add: loop_env_def static_env_def)
  then have o: "ue_bulk_out loop_env h d t u = ((0, length d), u)" for d by (metis prod.collapse)
  show "bulk_write_all (Suc 0) loop_env h (header_bytes (fill_file_header n k f)) t u = Some (Inr (), u)"
    by (subst bulk_write_all.simps) (simp add: ne t o nil LIBUSB_SUCCESS_def)
  have got: "bulk_read_all 0 loop_env h (header_bytes (fill_file_header n k f)) kHeaderSize t u
      = Some (Some (header_bytes (fill_file_header n k f)), u)" for n k f
    by (subst bulk_read_all.simps) (simp add: l kHeaderSize_def)
  show "bulk_read_all (Suc 0) loop_env h [] kHeaderSize t u = Some (Some (header_bytes (fill_file_header (Suc 0) kFrameKindPayload None)), u)"
  proof -
    have "ue_bulk_in loop_env h n t u = ((0, header_bytes (fill_file_header (Suc 0) kFrameKindPayload None)), u)" for n
      by (simp add: loop_env_def)
    then show ?thesis by (subst bulk_read_all.simps) (simp add: got LIBUSB_SUCCESS_def kHeaderSize_def got [unfolded kHeaderSize_def])
  qed
qed

lemma loopback_sound_witness:
  "\<exists>r fs' u'. loopback_transfer_core (Suc 0) loop_env (\<lambda>u. (in_turns, u)) ''/d/x'' 0 1 one_file 0 = Some (r, fs', u')
     \<and> tr_ok r \<and> fs_lookup fs' = fs_lookup one_file"
proof -
  obtain s where s: "cross_run \<lparr>xp_size = length ''x'', xp_disk = ''x'', xp_chunk = kChunkSize\<rparr> in_turns initial_cross = Some s"
    "cross_finished s" "xs_out s = ''x''" "\<not> xs_error s" "xs_total s = 1" using in_turns_ends by blast
  have now: "ue_now loop_env u = (0, u)" for u by (simp add: loop_env_def static_env_def)
  have magic: "fh_magic (header_of_bytes (header_bytes (fill_file_header (Suc 0) kFrameKindPayload None))) = kHeaderMagic"
    by (simp add: header_codec(1) fill_file_header_wf) (simp add: fill_file_header_def Let_def)
  have move: "\<exists>r u'. cross_headers (Suc 0) loop_env (\<lambda>u. (in_turns, u)) h1 h2 0 ''x'' u = Some (r, ''x'', u') \<and> tr_ok r" for h1 h2 u
    using s by (simp add: cross_headers_def loop_env_io magic cross_move_def now cross_result_def make_result_def Let_def)
  have two: "count_fabric_devices loop_env 0 = (2, 0)" by code_simp
  have opens: "open_device_by_index loop_env 0 5 0 = (Inr (sample_device 7), 1)"
    "open_device_by_index loop_env 1 5 1 = (Inr (sample_device 8), 2)" by code_simp+
  have rd: "read_file ''/d/x'' one_file = Some ''x''" by code_simp
  obtain fs1 where tr: "open_trunc ''/d/x.loopback_recv'' one_file = Some fs1"
    by (simp add: open_trunc_def can_create_def) (simp add: one_file_def fs_lookup_def is_directory_def path_parent_def strip_back_def)
  note f1 = open_trunc_lookup [OF tr] open_trunc_fields [OF tr]
  obtain r u' where mv: "cross_headers (Suc 0) loop_env (\<lambda>u. (in_turns, u)) (sample_device 7) (sample_device 8) 0 ''x'' 2 = Some (r, ''x'', u')"
    "tr_ok r" using move by blast
  let ?fs2 = "fs_put ''/d/x.loopback_recv'' (File ''x'') fs1"
  have eq: "files_equal ''/d/x'' ''/d/x.loopback_recv'' ?fs2"
    using f1 by (simp add: files_equal_def read_file_def) (simp add: files_equal_loop_iff one_file_def fs_lookup_def)
  have "loopback_transfer_core (Suc 0) loop_env (\<lambda>u. (in_turns, u)) ''/d/x'' 0 1 one_file 0
      = Some (r, snd (remove_path ''/d/x.loopback_recv'' ?fs2), u')"
    by (simp add: loopback_transfer_core_def now two file_cross_connect_core_def rd tr opens mv eq Let_def)
  note run = this
  have "fs_lookup (snd (remove_path ''/d/x.loopback_recv'' ?fs2)) = fs_lookup one_file"
    using loopback_sound [OF run] by (simp add: one_file_def fs_lookup_def)
  with run mv(2) show ?thesis by blast
qed

text \<open>
  The comparison loop over 64 KiB blocks decides whether two files are the same: equal
  files of any length compare equal, and a difference in any byte or in the length is seen.
\<close>

theorem files_equal_decides:
  "files_equal a b fs \<longleftrightarrow> (\<exists>c. read_file a fs = Some c \<and> read_file b fs = Some c)"
  by (auto simp: files_equal_def files_equal_loop_iff split: option.splits)

text \<open>
  The loopback test of an empty file never returns: in every state its threads can reach,
  the calling one has not left its loop, and once it waits no step of any thread moves it on.
\<close>

theorem cross_empty_never_ends:
  assumes "cross_reach P s" and "xp_size P = 0"
  shows "\<not> cross_finished s \<and> (xs_main s = M_Wait \<longrightarrow> (\<forall>a s'. cross_act P a s = Some s' \<longrightarrow> xs_main s' = M_Wait))"
proof -
  note w = cross_empty_waits [OF assms]
  then have "\<not> cs_filled (xs_slots s ! xs_main_slot s)" by simp
  then have "cross_act P a s = Some s' \<Longrightarrow> xs_main s = M_Wait \<Longrightarrow> xs_main s' = M_Wait" for a s'
    using w by (auto simp: cross_act_def reader_act_def cross_writer_act_def cross_main_act_def split: cross_action.splits if_splits)
  with w show ?thesis by (auto simp: cross_finished_def)
qed

lemma cross_empty_never_ends_witness:
  "\<exists>s. cross_run \<lparr>xp_size = 0, xp_disk = [], xp_chunk = kChunkSize\<rparr> [Cross_Reader, Cross_Writer, Cross_Main] initial_cross = Some s
     \<and> xs_main s = M_Wait \<and> \<not> cross_finished s"
proof -
  let ?P = "\<lparr>xp_size = 0, xp_disk = [], xp_chunk = kChunkSize\<rparr>"
  obtain s where r: "cross_run ?P [Cross_Reader, Cross_Writer, Cross_Main] initial_cross = Some s" "xs_main s = M_Wait"
    by (simp add: cross_act_def reader_act_def cross_writer_act_def cross_main_act_def initial_cross_def)
  from cross_empty_never_ends [OF cross_run_reach [OF r(1) cross_start]] have "\<not> cross_finished s" by simp
  with r show ?thesis by blast
qed

end
