(* ===== verification/Fabric_Sim.thy ===== *)
theory Fabric_Sim
  imports Usb_Device File_System
begin

text \<open>
  The in-process fabric emulator, \<open>sim/src/fabric_sim.cpp\<close>: two ports whose receive
  channels are byte queues. It has the framing of the USB layer without the asynchronous
  transfers.

  A channel holds the bytes it has and, as \<open>ch_arriving\<close>, the pushes that other threads make
  before a waiting reader gives up; each operation runs under the channel's mutex. The
  locale \<open>byte_pipe\<close> is what a sender and a receiver need of the channel between them.
\<close>

section \<open>Byte pipes\<close>

locale byte_pipe =
  fixes put :: "string \<Rightarrow> 's \<Rightarrow> 's"
    and get :: "nat \<Rightarrow> 's \<Rightarrow> string option \<times> 's"
    and pending :: "'s \<Rightarrow> string"
  assumes put_pending: "pending (put d s) = pending s @ d"
    and get_pending: "n \<le> length (pending s) \<Longrightarrow>
      fst (get n s) = Some (take n (pending s)) \<and> pending (snd (get n s)) = drop n (pending s)"
begin

lemma puts_pending: "pending (fold put ds s) = pending s @ concat ds"
  by (induction ds arbitrary: s) (simp_all add: put_pending)

text \<open>What was put into an empty pipe is what the next reads of these sizes get, in order.\<close>

lemma get_front:
  assumes "pending s = a @ rest"
  shows "fst (get (length a) s) = Some a" and "pending (snd (get (length a) s)) = rest"
  using get_pending [of "length a" s] assms by simp_all

theorem put_get_frame:
  assumes "pending s = []" and "s1 = fold put (hdr # chunks) s"
  shows "fst (get (length hdr) s1) = Some hdr \<and> pending (snd (get (length hdr) s1)) = concat chunks"
  using get_front [of s1 hdr "concat chunks"] puts_pending [of "hdr # chunks" s] assms by simp

end

section \<open>Channels\<close>

record sim_channel =
  ch_buf :: string
  ch_arriving :: "string list"

definition channel_push :: "string \<Rightarrow> sim_channel \<Rightarrow> sim_channel" where
  "channel_push data ch = ch\<lparr>ch_buf := ch_buf ch @ data\<rparr>"

definition channel_clear :: "sim_channel \<Rightarrow> sim_channel" where
  "channel_clear ch = ch\<lparr>ch_buf := []\<rparr>"

text \<open>
  The loop of \<open>SimChannel::read\<close>: take what is there, wait for the next push unless the
  timeout is zero, and give up when no push comes. The bytes taken so far are lost then.
\<close>

function channel_loop :: "nat \<Rightarrow> bool \<Rightarrow> string \<Rightarrow> sim_channel \<Rightarrow> string option \<times> sim_channel" where
  "channel_loop len may_wait got ch =
     (if len \<le> length got then (Some got, ch)
      else if ch_buf ch \<noteq> []
        then let n = min (len - length got) (length (ch_buf ch))
          in channel_loop len may_wait (got @ take n (ch_buf ch)) (ch\<lparr>ch_buf := drop n (ch_buf ch)\<rparr>)
      else if \<not> may_wait then (None, ch)
      else case ch_arriving ch of
          [] \<Rightarrow> (None, ch)
        | p # ps \<Rightarrow> channel_loop len may_wait got (ch\<lparr>ch_buf := p, ch_arriving := ps\<rparr>))"
  by pat_completeness auto
termination
  by (relation "measures [\<lambda>(len, w, got, ch). length (ch_arriving ch), \<lambda>(len, w, got, ch). len - length got]")
    (auto simp: min_def neq_Nil_conv split: if_splits)

declare channel_loop.simps [simp del]

definition channel_read :: "nat \<Rightarrow> nat \<Rightarrow> sim_channel \<Rightarrow> string option \<times> sim_channel" where
  "channel_read len timeout_ms ch = channel_loop len (timeout_ms \<noteq> 0) [] ch"

definition channel_content :: "sim_channel \<Rightarrow> string" where
  "channel_content ch = ch_buf ch @ concat (ch_arriving ch)"

lemma channel_loop_content:
  "length got \<le> len \<Longrightarrow> len - length got \<le> length (channel_content ch) \<Longrightarrow>
     fst (channel_loop len True got ch) = Some (got @ take (len - length got) (channel_content ch))
     \<and> channel_content (snd (channel_loop len True got ch)) = drop (len - length got) (channel_content ch)"
proof (induction len "True" got ch rule: channel_loop.induct)
  case (1 len got ch)
  show ?case
  proof (cases "len \<le> length got")
    case True
    with 1(3) show ?thesis by (subst (1 2) channel_loop.simps) simp
  next
    case lt: False
    show ?thesis
    proof (cases "ch_buf ch = []")
      case False
      let ?n = "min (len - length got) (length (ch_buf ch))"
      let ?ch = "ch\<lparr>ch_buf := drop ?n (ch_buf ch)\<rparr>"
      have c: "channel_content ch = take ?n (ch_buf ch) @ channel_content ?ch"
        by (simp add: channel_content_def)
      have len: "length (got @ take ?n (ch_buf ch)) \<le> len" "length (take ?n (ch_buf ch)) = ?n" using lt by auto
      have "len - length (got @ take ?n (ch_buf ch)) \<le> length (channel_content ?ch)"
      proof -
        have "len - length got \<le> ?n + length (channel_content ?ch)"
          using 1(4) by (subst (asm) c) (simp only: length_append len(2))
        then show ?thesis by (simp only: length_append len(2)) arith
      qed
      note ih = 1(1) [OF lt False refl len(1) this]
      have "take (len - length got) (channel_content ch)
          = take ?n (ch_buf ch) @ take (len - length got - ?n) (channel_content ?ch)"
        and "drop (len - length got) (channel_content ch) = drop (len - length got - ?n) (channel_content ?ch)"
        unfolding c using len(2) by simp_all
      moreover have "channel_loop len True got ch = channel_loop len True (got @ take ?n (ch_buf ch)) ?ch"
        using lt False by (subst channel_loop.simps) (simp add: Let_def)
      ultimately show ?thesis using ih len(2) by (simp add: diff_diff_add)
    next
      case empty: True
      then obtain p ps where a: "ch_arriving ch = p # ps"
        using 1(4) lt by (cases "ch_arriving ch") (auto simp: channel_content_def)
      have same: "channel_content (ch\<lparr>ch_buf := p, ch_arriving := ps\<rparr>) = channel_content ch"
        using empty a by (simp add: channel_content_def)
      have "channel_loop len True got ch = channel_loop len True got (ch\<lparr>ch_buf := p, ch_arriving := ps\<rparr>)"
        using lt empty a by (subst channel_loop.simps) simp
      with 1(2) [OF lt _ _ a] 1(3,4) empty same show ?thesis by simp
    qed
  qed
qed

section \<open>The hub\<close>

record sim_hub =
  hub_rx0 :: sim_channel
  hub_rx1 :: sim_channel

definition hub_channel :: "int \<Rightarrow> sim_hub \<Rightarrow> sim_channel" where
  "hub_channel port_index hub = (if port_index = 0 then hub_rx0 hub else hub_rx1 hub)"

definition set_hub_channel :: "int \<Rightarrow> sim_channel \<Rightarrow> sim_hub \<Rightarrow> sim_hub" where
  "set_hub_channel port_index ch hub = (if port_index = 0 then hub\<lparr>hub_rx0 := ch\<rparr> else hub\<lparr>hub_rx1 := ch\<rparr>)"

definition hub_reset :: "sim_hub \<Rightarrow> sim_hub" where
  "hub_reset hub = \<lparr>hub_rx0 = channel_clear (hub_rx0 hub), hub_rx1 = channel_clear (hub_rx1 hub)\<rparr>"

definition hub_transmit :: "int \<Rightarrow> string \<Rightarrow> sim_hub \<Rightarrow> sim_hub" where
  "hub_transmit from_port data hub =
     (if from_port < 0 \<or> 1 < from_port \<or> data = [] then hub
      else set_hub_channel (1 - from_port) (channel_push data (hub_channel (1 - from_port) hub)) hub)"

definition hub_read :: "int \<Rightarrow> nat \<Rightarrow> nat \<Rightarrow> sim_hub \<Rightarrow> string option \<times> sim_hub" where
  "hub_read port_index timeout_ms len hub =
     (let (r, ch) = channel_read len timeout_ms (hub_channel port_index hub) in (r, set_hub_channel port_index ch hub))"

text \<open>The bytes a reader of a port will see, when nobody else sends to it.\<close>

definition hub_pending :: "int \<Rightarrow> sim_hub \<Rightarrow> string" where
  "hub_pending port_index hub = channel_content (hub_channel port_index hub)"

lemma hub_channel_set [simp]: "hub_channel p (set_hub_channel p ch hub) = ch"
  by (simp add: hub_channel_def set_hub_channel_def)

lemma hub_read_pending:
  assumes "n \<le> length (hub_pending p hub)" and "0 < t"
  shows "fst (hub_read p t n hub) = Some (take n (hub_pending p hub))
    \<and> hub_pending p (snd (hub_read p t n hub)) = drop n (hub_pending p hub)"
  using channel_loop_content [of "[]" n "hub_channel p hub"] assms
  by (auto simp: hub_read_def channel_read_def hub_pending_def split: prod.splits)

text \<open>
  Reading while pushes are still to arrive and putting more behind them is not a pipe; with
  no outstanding arrivals it is, in both directions.
\<close>

definition settled :: "sim_hub \<Rightarrow> sim_hub" where
  "settled hub = hub\<lparr>hub_rx0 := \<lparr>ch_buf = channel_content (hub_rx0 hub), ch_arriving = []\<rparr>,
     hub_rx1 := \<lparr>ch_buf = channel_content (hub_rx1 hub), ch_arriving = []\<rparr>\<rparr>"

lemma settled_pending [simp]: "hub_pending p (settled hub) = hub_pending p hub"
  by (simp add: hub_pending_def hub_channel_def settled_def channel_content_def)

lemma settled_transmit:
  "p \<in> {0, 1} \<Longrightarrow> hub_pending (1 - p) (hub_transmit p d (settled hub)) = hub_pending (1 - p) hub @ d"
  by (auto simp: hub_pending_def hub_channel_def settled_def channel_content_def hub_transmit_def
      set_hub_channel_def channel_push_def)

interpretation pipe01: byte_pipe "\<lambda>d hub. hub_transmit 0 d (settled hub)" "hub_read 1 8000" "hub_pending 1"
  by unfold_locales (use settled_transmit [of 0] in \<open>simp_all add: hub_read_pending\<close>)

interpretation pipe10: byte_pipe "\<lambda>d hub. hub_transmit 1 d (settled hub)" "hub_read 0 8000" "hub_pending 0"
  by unfold_locales (use settled_transmit [of 1] in \<open>simp_all add: hub_read_pending\<close>)

text \<open>Either port reads the header of the other one's frame first, and the body stays behind it.\<close>

lemma frame_crosses:
  assumes "hub_pending 0 hub = []" and "hub_pending 1 hub = []" and "p \<in> {0, 1}"
    and "hub1 = fold (\<lambda>d h. hub_transmit p d (settled h)) (hdr # chunks) hub"
  shows "fst (hub_read (1 - p) 8000 (length hdr) hub1) = Some hdr
    \<and> hub_pending (1 - p) (snd (hub_read (1 - p) 8000 (length hdr) hub1)) = concat chunks"
  using assms pipe01.put_get_frame [of hub hub1 hdr chunks] pipe10.put_get_frame [of hub hub1 hdr chunks] by auto

section \<open>The simulated devices\<close>

text \<open>\<open>g_sim_override\<close> is -1 unless a test set it; \<open>env\<close> is the \<open>ROCKETBOX_SIM\<close> variable.\<close>

definition sim_enabled_flag :: "string option \<Rightarrow> bool" where
  "sim_enabled_flag env = (case env of None \<Rightarrow> False | Some v \<Rightarrow> v \<noteq> [] \<and> hd v \<noteq> CHR ''0'')"

definition fabric_sim_enabled :: "int \<Rightarrow> string option \<Rightarrow> bool" where
  "fabric_sim_enabled g_sim_override env =
     (if 0 \<le> g_sim_override then g_sim_override \<noteq> 0 else sim_enabled_flag env)"

definition fabric_sim_set_enabled :: "bool \<Rightarrow> int" where
  "fabric_sim_set_enabled enabled = (if enabled then 1 else 0)"

definition fabric_sim_count_devices :: int where
  "fabric_sim_count_devices = 2"

definition fabric_sim_port_available :: "int \<Rightarrow> bool" where
  "fabric_sim_port_available port_index \<longleftrightarrow> port_index = 0 \<or> port_index = 1"

definition fabric_sim_device_bus_addr :: "int \<Rightarrow> (u8 \<times> u8) option" where
  "fabric_sim_device_bus_addr port_index =
     (if \<not> fabric_sim_port_available port_index then None
      else Some (of_int (port_index + 1), of_int (port_index + 10)))"

definition fabric_sim_list_devices :: "fabric_usb_device list" where
  "fabric_sim_list_devices = [Fabric_usb_device 1 10, Fabric_usb_device 2 11]"

lemma sim_devices_agree:
  "sorted fabric_sim_list_devices"
  "0 \<le> p \<Longrightarrow> p < fabric_sim_count_devices \<Longrightarrow> fabric_sim_device_bus_addr p
     = Some (fd_bus (fabric_sim_list_devices ! nat p), fd_addr (fabric_sim_list_devices ! nat p))"
proof -
  show "sorted fabric_sim_list_devices" by code_simp
  assume "0 \<le> p" "p < fabric_sim_count_devices"
  then have "p = 0 \<or> p = 1" by (auto simp: fabric_sim_count_devices_def)
  then show "fabric_sim_device_bus_addr p = Some (fd_bus (fabric_sim_list_devices ! nat p), fd_addr (fabric_sim_list_devices ! nat p))"
    by (auto simp: fabric_sim_device_bus_addr_def fabric_sim_port_available_def fabric_sim_list_devices_def)
qed

section \<open>Sending and receiving\<close>

definition make_ok :: "nat \<Rightarrow> nat \<Rightarrow> double \<Rightarrow> transfer_result" where
  "make_ok bytes expected seconds = empty_transfer_result\<lparr>tr_ok := True, tr_bytes_transferred := bytes,
     tr_expected_bytes := expected, tr_seconds := seconds, tr_mbps := mib_per_second bytes seconds\<rparr>"

definition make_fail :: "string \<Rightarrow> transfer_result" where
  "make_fail message = empty_transfer_result\<lparr>tr_error_message := message\<rparr>"

definition valid_port :: "int \<Rightarrow> bool" where
  "valid_port port_index \<longleftrightarrow> 0 \<le> port_index \<and> port_index \<le> 1"

definition sim_port_error :: string where
  "sim_port_error = ''Sim fabric supports port index 0 and 1 only''"

definition fill_header :: "nat \<Rightarrow> u8 \<Rightarrow> file_header" where
  "fill_header file_size frame_kind = \<lparr>fh_magic = kHeaderMagic, fh_file_size = of_nat file_size,
     fh_frame_kind = frame_kind, fh_filename = replicate 15 (CHR 0x00)\<rparr>"

text \<open>
  The chunk loop of the sender, as the list of pushes it makes; \<open>None\<close> when the disk
  delivers fewer bytes than announced.
\<close>

function sim_chunks :: "nat \<Rightarrow> string \<Rightarrow> string list \<times> bool" where
  "sim_chunks remaining disk =
     (if remaining = 0 then ([], True)
      else let n = min (min remaining kChunkSize) (length disk)
        in if n = 0 then ([], False)
           else let (ps, ok) = sim_chunks (remaining - n) (drop n disk) in (take n disk # ps, ok))"
  by pat_completeness auto
termination
  by (relation "measure fst") auto

declare sim_chunks.simps [simp del]

definition sim_send_pushes :: "nat \<Rightarrow> string \<Rightarrow> string list \<times> bool" where
  "sim_send_pushes file_size disk =
     (let (ps, ok) = sim_chunks file_size disk in (header_bytes (fill_header file_size kFrameKindPayload) # ps, ok))"

definition fabric_sim_send_file :: "string \<Rightarrow> (nat \<times> string) option \<Rightarrow> int \<Rightarrow> double \<Rightarrow> sim_hub
    \<Rightarrow> transfer_result \<times> sim_hub" where
  "fabric_sim_send_file path file port_index seconds hub =
     (if \<not> valid_port port_index then (make_fail sim_port_error, hub)
      else case file of
          None \<Rightarrow> (make_fail (''Could not open file: '' @ path), hub)
        | Some (file_size, disk) \<Rightarrow>
            let (ps, ok) = sim_send_pushes file_size disk; hub' = fold (hub_transmit port_index) ps hub
            in if ok then (make_ok file_size file_size seconds, hub')
               else (make_fail (''Disk read error at byte '' @ show_nat (length disk)), hub'))"

text \<open>The chunk loop of the receiver: \<open>None\<close> is a finished file, otherwise the error.\<close>

function sim_receive_loop :: "int \<Rightarrow> string \<Rightarrow> nat \<Rightarrow> sim_hub \<Rightarrow> file_system
    \<Rightarrow> string option \<times> sim_hub \<times> file_system" where
  "sim_receive_loop port_index out_path remaining hub fs =
     (if remaining = 0 then (None, hub, fs)
      else let want = min remaining kChunkSize
        in case hub_read port_index (unat kFileTimeoutMs) want hub of
            (None, hub1) \<Rightarrow> (Some ''Header read failed'', hub1, fs)
          | (Some chunk, hub1) \<Rightarrow> let (good, fs1) = append_file out_path chunk fs
              in if \<not> good then (Some ''Disk write error'', hub1, fs1)
                 else sim_receive_loop port_index out_path (remaining - want) hub1 fs1)"
  by pat_completeness auto
termination
  by (relation "measure (\<lambda>(p, out, r, h, f). r)") auto

declare sim_receive_loop.simps [simp del]

definition fabric_sim_receive_file :: "string \<Rightarrow> int \<Rightarrow> nat \<Rightarrow> double \<Rightarrow> sim_hub \<Rightarrow> file_system
    \<Rightarrow> transfer_result \<times> sim_hub \<times> file_system" where
  "fabric_sim_receive_file out_path port_index header_timeout_ms seconds hub fs =
     (if \<not> valid_port port_index then (make_fail sim_port_error, hub, fs)
      else case open_trunc out_path fs of
          None \<Rightarrow> (make_fail (''Could not create output file: '' @ out_path), hub, fs)
        | Some fs1 \<Rightarrow> (case hub_read port_index header_timeout_ms kHeaderSize hub of
            (None, hub1) \<Rightarrow> (make_fail ''Header read failed'', hub1, fs1)
          | (Some bytes, hub1) \<Rightarrow>
              let hdr = header_of_bytes bytes
              in if fh_magic hdr \<noteq> kHeaderMagic then (make_fail ''Bad magic bytes in header'', hub1, fs1)
                 else let size = unat (fh_file_size hdr)
                   in case sim_receive_loop port_index out_path size hub1 fs1 of
                       (Some e, hub2, fs2) \<Rightarrow> (make_fail e, hub2, fs2)
                     | (None, hub2, fs2) \<Rightarrow> (make_ok size size seconds, hub2, fs2)))"

text \<open>
  The loopback: the pushes of the sending thread arrive while the receiving thread waits.
  \<open>std::equal\<close> runs over the sent file, which the received one is at least as long as.
\<close>

definition fabric_sim_loopback :: "string \<Rightarrow> int \<Rightarrow> int \<Rightarrow> double \<Rightarrow> sim_hub \<Rightarrow> file_system
    \<Rightarrow> transfer_result \<times> sim_hub \<times> file_system" where
  "fabric_sim_loopback path send_port_index recv_port_index seconds hub fs =
     (if send_port_index = recv_port_index
      then (make_fail ''Loopback requires two different port indexes'', hub, fs)
      else if \<not> valid_port send_port_index \<or> \<not> valid_port recv_port_index then (make_fail sim_port_error, hub, fs)
      else let recv_path = path @ ''.loopback_recv'';
               file = map_option (\<lambda>c. (length c, c)) (read_file path fs);
               pushes = (case file of None \<Rightarrow> [] | Some (n, d) \<Rightarrow> fst (sim_send_pushes n d));
               (send_result, _) = fabric_sim_send_file path file send_port_index seconds hub;
               ch = hub_channel recv_port_index hub;
               waiting = set_hub_channel recv_port_index (ch\<lparr>ch_arriving := pushes\<rparr>) hub;
               (recv_result, hub1, fs1) = fabric_sim_receive_file recv_path recv_port_index
                 (unat kFileTimeoutMs) seconds waiting fs;
               fs2 = snd (remove_path recv_path fs1)
        in if \<not> tr_ok send_result then (send_result, hub1, fs2)
           else if \<not> tr_ok recv_result then (recv_result, hub1, fs2)
           else if (case (read_file path fs1, read_file recv_path fs1) of
               (Some a, Some b) \<Rightarrow> take (length a) b = a | _ \<Rightarrow> False)
             then (send_result, hub1, fs2)
           else (make_fail ''Loopback data mismatch'', hub1, fs2))"

section \<open>Facts about the transfer loops\<close>

lemma sim_chunks_ok: "sz \<le> length disk \<Longrightarrow> snd (sim_chunks sz disk) \<and> concat (fst (sim_chunks sz disk)) = take sz disk"
proof (induction sz disk rule: sim_chunks.induct)
  case (1 sz disk)
  show ?case
  proof (cases "sz = 0")
    case True
    then show ?thesis by (subst (1 2) sim_chunks.simps) simp
  next
    case False
    let ?n = "min (min sz kChunkSize) (length disk)"
    have n: "?n \<noteq> 0" "?n \<le> sz" "?n = min sz kChunkSize" using False 1(2) by (auto simp: kChunkSize_def)
    have "sz - ?n \<le> length (drop ?n disk)" using 1(2) by auto
    note ih = 1(1) [OF False refl n(1) this]
    obtain ps ok where r: "sim_chunks (sz - ?n) (drop ?n disk) = (ps, ok)" by fastforce
    have "sim_chunks sz disk = (take ?n disk # ps, ok)"
      using False n(1) r by (subst sim_chunks.simps) (simp add: Let_def)
    moreover have "take sz disk = take ?n disk @ take (sz - ?n) (drop ?n disk)"
      using n(2) by (metis le_add_diff_inverse take_add)
    ultimately show ?thesis using ih r by simp
  qed
qed

lemma sim_receive_ok:
  assumes "sz \<le> length (hub_pending p hub)" and "fs_lookup fs path = Some (File c)" and "fs_room fs path = None"
  shows "\<exists>hub' fs'. sim_receive_loop p path sz hub fs = (None, hub', fs')
    \<and> fs_lookup fs' path = Some (File (c @ take sz (hub_pending p hub)))
    \<and> hub_pending p hub' = drop sz (hub_pending p hub)
    \<and> (\<forall>q. q \<noteq> path \<longrightarrow> fs_lookup fs' q = fs_lookup fs q) \<and> fs_denied fs' = fs_denied fs"
  using assms
proof (induction sz arbitrary: hub fs c rule: less_induct)
  case (less sz)
  show ?case
  proof (cases "sz = 0")
    case True
    then show ?thesis using less.prems by (subst sim_receive_loop.simps) simp
  next
    case False
    let ?w = "min sz kChunkSize"
    have w: "0 < ?w" "?w \<le> sz" using False by (simp_all add: kChunkSize_def)
    have t: "0 < unat kFileTimeoutMs" by (simp add: kFileTimeoutMs_def)
    have "?w \<le> length (hub_pending p hub)" using w(2) less.prems(1) by simp
    from hub_read_pending [OF this t] obtain hub1 where
      r: "hub_read p (unat kFileTimeoutMs) ?w hub = (Some (take ?w (hub_pending p hub)), hub1)"
      and h1: "hub_pending p hub1 = drop ?w (hub_pending p hub)"
      by (metis prod.collapse)
    let ?chunk = "take ?w (hub_pending p hub)" and ?fs = "fs_put path (File (c @ take ?w (hub_pending p hub))) fs"
    have a: "append_file path ?chunk fs = (True, ?fs)"
      using less.prems(2,3) by (simp add: append_file_def)
    have "sz - ?w \<le> length (hub_pending p hub1)" using less.prems(1) h1 by simp
    from less.IH [OF _ this, of ?fs "c @ ?chunk"] w False less.prems(3) obtain hub' fs' where
      ih: "sim_receive_loop p path (sz - ?w) hub1 ?fs = (None, hub', fs')"
      "fs_lookup fs' path = Some (File ((c @ ?chunk) @ take (sz - ?w) (hub_pending p hub1)))"
      "hub_pending p hub' = drop (sz - ?w) (hub_pending p hub1)"
      "\<forall>q. q \<noteq> path \<longrightarrow> fs_lookup fs' q = fs_lookup ?fs q" "fs_denied fs' = fs_denied fs"
      by auto
    have "sim_receive_loop p path sz hub fs = (None, hub', fs')"
      using False r a ih(1) by (subst sim_receive_loop.simps) (simp add: Let_def)
    moreover have "take sz (hub_pending p hub) = ?chunk @ take (sz - ?w) (hub_pending p hub1)"
      using w(2) unfolding h1 by (metis le_add_diff_inverse take_add)
    moreover have "drop (sz - ?w) (hub_pending p hub1) = drop sz (hub_pending p hub)"
      using w(2) by (simp add: h1)
    ultimately show ?thesis using ih by simp
  qed
qed

text \<open>A frame that waits at a port is received as it is, whatever its kind.\<close>

lemma sim_receive_frame:
  assumes "valid_port q" and "header_wf hdr" and "hub_pending q hub = header_bytes hdr @ c"
    and "unat (fh_file_size hdr) = length c" and "0 < t" and "fh_magic hdr = kHeaderMagic"
    and "open_trunc path fs = Some fs1" and "fs_room fs path = None"
  obtains hub' fs' where "fabric_sim_receive_file path q t secs hub fs = (make_ok (length c) (length c) secs, hub', fs')"
    "hub_pending q hub' = []" "fs_lookup fs' path = Some (File c)" "fs_denied fs' = fs_denied fs"
    "\<forall>x. x \<noteq> path \<longrightarrow> fs_lookup fs' x = fs_lookup fs x"
proof -
  have hl: "length (header_bytes hdr) = kHeaderSize" by (rule header_bytes_length [OF assms(2)])
  then have le: "kHeaderSize \<le> length (hub_pending q hub)" by (simp add: assms(3))
  from hub_read_pending [OF le assms(5)] obtain hub1 where
    r: "hub_read q t kHeaderSize hub = (Some (header_bytes hdr), hub1)" and h1: "hub_pending q hub1 = c"
    by (metis (no_types, lifting) append_eq_conv_conj hl assms(3) prod.collapse)
  have hdr: "header_of_bytes (header_bytes hdr) = hdr" using header_codec(1) [OF assms(2)] .
  note o = open_trunc_lookup [OF assms(7)] open_trunc_fields [OF assms(7)]
  have "length c \<le> length (hub_pending q hub1)" by (simp add: h1)
  from sim_receive_ok [OF this, of fs1 path "[]"] assms(8) o obtain hub2 fs2 where
    l: "sim_receive_loop q path (length c) hub1 fs1 = (None, hub2, fs2)"
    and f2: "fs_lookup fs2 path = Some (File c)" "hub_pending q hub2 = []"
      "\<forall>x. x \<noteq> path \<longrightarrow> fs_lookup fs2 x = fs_lookup fs x" "fs_denied fs2 = fs_denied fs"
    by (auto simp: h1)
  have "fabric_sim_receive_file path q t secs hub fs = (make_ok (length c) (length c) secs, hub2, fs2)"
    using assms(1,4,6) by (simp add: fabric_sim_receive_file_def assms(7) r hdr l Let_def)
  with f2 that show ?thesis by blast
qed

section \<open>Properties\<close>

text \<open>
  C35: a file sent on one simulated port is received on the other one as it is: on an idle
  hub the loopback of a readable file whose copy can be created reports success with the
  file's size, and removes the copy.
\<close>

theorem sim_loopback_ok:
  assumes "p \<in> {0, 1}" and "hub_pending (1 - p) hub = []" and "read_file path fs = Some c"
    and "length c < 2 ^ 64" and "can_create fs (path @ ''.loopback_recv'')" and "fs_room fs (path @ ''.loopback_recv'') = None"
  shows "\<exists>hub' fs'. fabric_sim_loopback path p (1 - p) secs hub fs = (make_ok (length c) (length c) secs, hub', fs')
    \<and> hub_pending (1 - p) hub' = [] \<and> fs_lookup fs' (path @ ''.loopback_recv'') = None"
proof -
  let ?rp = "path @ ''.loopback_recv''" and ?q = "1 - p"
  obtain ps where ps: "sim_chunks (length c) c = (ps, True)" "concat ps = c"
    using sim_chunks_ok [of "length c" c] by (metis order_refl prod.collapse take_all)
  let ?hdr = "fill_header (length c) kFrameKindPayload"
  have wf: "header_wf ?hdr" by (simp add: header_wf_def fill_header_def kHeaderMagic_def)
  let ?pushes = "header_bytes ?hdr # ps"
  have pushes: "sim_send_pushes (length c) c = (?pushes, True)" by (simp add: sim_send_pushes_def ps)
  have ports: "valid_port p" "valid_port ?q" "p \<noteq> ?q" using assms(1) by (auto simp: valid_port_def)
  have ch: "ch_buf (hub_channel ?q hub) = []"
    using assms(2) by (simp add: hub_pending_def channel_content_def)
  define waiting where "waiting = set_hub_channel ?q ((hub_channel ?q hub)\<lparr>ch_arriving := ?pushes\<rparr>) hub"
  have pend: "hub_pending ?q waiting = header_bytes ?hdr @ c"
    using ch ps(2) by (simp add: waiting_def hub_pending_def channel_content_def)
  have sz: "unat (fh_file_size ?hdr) = length c"
    using assms(4) by (simp add: fill_header_def unat_of_nat)
  have t: "0 < unat kFileTimeoutMs" by (simp add: kFileTimeoutMs_def)
  have magic: "fh_magic ?hdr = kHeaderMagic" by (simp add: fill_header_def)
  have o: "open_trunc ?rp fs = Some (fs_put ?rp (File []) fs)" using assms(5) by (simp add: open_trunc_def)
  obtain hub2 fs2 where recv: "fabric_sim_receive_file ?rp ?q (unat kFileTimeoutMs) secs waiting fs
      = (make_ok (length c) (length c) secs, hub2, fs2)"
    and f2: "hub_pending ?q hub2 = []" "fs_lookup fs2 ?rp = Some (File c)" "fs_denied fs2 = fs_denied fs"
      "\<forall>x. x \<noteq> ?rp \<longrightarrow> fs_lookup fs2 x = fs_lookup fs x"
    by (rule sim_receive_frame [OF ports(2) wf pend sz t magic o assms(6)])
  have snd: "fst (fabric_sim_send_file path (Some (length c, c)) p secs hub) = make_ok (length c) (length c) secs"
    using ports(1) by (simp add: fabric_sim_send_file_def pushes Let_def)
  have nd: "\<not> fs_denied fs ?rp" using assms(5) by (simp add: can_create_def)
  have "read_file path fs2 = Some c"
    using assms(3) f2(3,4) by (auto simp: read_file_def split: option.splits node.splits if_splits)
  moreover have "read_file ?rp fs2 = Some c" using f2(2,3) nd by (simp add: read_file_def)
  moreover have "fs_lookup (snd (remove_path ?rp fs2)) ?rp = None"
    using f2(2,3) nd by (simp add: remove_path_def)
  ultimately show ?thesis
    using ports recv snd f2(1) unfolding fabric_sim_loopback_def assms(3)
    by (cases "fabric_sim_send_file path (Some (length c, c)) p secs hub")
      (simp add: pushes waiting_def [symmetric] Let_def make_ok_def)
qed

definition idle_hub :: sim_hub where
  "idle_hub = \<lparr>hub_rx0 = \<lparr>ch_buf = [], ch_arriving = []\<rparr>, hub_rx1 = \<lparr>ch_buf = [], ch_arriving = []\<rparr>\<rparr>"

definition loopback_store :: file_system where
  "loopback_store = \<lparr>fs_entries = [(''f'', File ''hello'')], fs_denied = (\<lambda>_. False), fs_room = (\<lambda>_. None)\<rparr>"

lemma sim_loopback_ok_witness:
  "fst (fabric_sim_loopback ''f'' 0 1 1 idle_hub loopback_store) = make_ok 5 5 1"
proof -
  have r: "read_file ''f'' loopback_store = Some ''hello''" by (simp add: read_file_def loopback_store_def fs_lookup_def)
  have c: "can_create loopback_store (''f'' @ ''.loopback_recv'')"
    by (simp add: can_create_def loopback_store_def fs_lookup_def path_parent_def)
  have idle: "hub_pending (1 - 0) idle_hub = []"
    by (simp add: idle_hub_def hub_pending_def hub_channel_def channel_content_def)
  have room: "fs_room loopback_store (''f'' @ ''.loopback_recv'') = None" by (simp add: loopback_store_def)
  have len: "length ''hello'' = 5" by simp
  obtain hub' fs' where "fabric_sim_loopback ''f'' 0 (1 - 0) 1 idle_hub loopback_store
      = (make_ok (length ''hello'') (length ''hello'') 1, hub', fs')"
    using sim_loopback_ok [of 0 idle_hub, OF _ idle r _ c room, of 1] by auto
  then have "fabric_sim_loopback ''f'' 0 1 1 idle_hub loopback_store = (make_ok 5 5 1, hub', fs')"
    unfolding len by (simp only: diff_zero)
  then show ?thesis by (simp only: fst_conv)
qed

end
