(* ===== verification/Transport.thy ===== *)
theory Transport
  imports Usb_Wire File_System
begin

text \<open>
  The interface \<open>RocketBoxTransport\<close> of \<open>sdks/cpp/include/rocketbox/sdk.h\<close>, the class the
  session layer is written against. Its virtual functions are the fields of a record over the
  files and an abstract state \<open>'u\<close> of the implementation. A call that may not return is an
  option: \<open>None\<close> stands for a call that never does. Progress callbacks are events of their own
  in the components that install them.

  The locale \<open>link_plane\<close> says what the session layer relies on: sending a file leaves the
  files as they are, receiving one changes its target only.
\<close>

type_synonym log_line = "int \<times> string \<times> string"

section \<open>The interface\<close>

record 'u transport =
  tp_port_index :: int
  tp_send_file_on_port :: "int \<Rightarrow> string \<Rightarrow> u32 \<Rightarrow> u8 \<Rightarrow> file_system \<times> 'u
    \<Rightarrow> (transfer_result \<times> file_system \<times> 'u) option"
  tp_receive_file_on_port :: "int \<Rightarrow> string \<Rightarrow> u32 \<Rightarrow> u8 \<Rightarrow> file_system \<times> 'u
    \<Rightarrow> (transfer_result \<times> file_system \<times> 'u) option"
  tp_loopback_files :: "string \<Rightarrow> int \<Rightarrow> int \<Rightarrow> file_system \<times> 'u
    \<Rightarrow> (transfer_result \<times> file_system \<times> 'u) option"
  tp_device_count :: "'u \<Rightarrow> int \<times> 'u"
  tp_port_available :: "'u \<Rightarrow> bool \<times> 'u"
  tp_resolved_port_index :: "'u \<Rightarrow> int \<times> 'u"
  tp_serial :: "'u \<Rightarrow> string \<times> 'u"
  tp_describe_device :: "'u \<Rightarrow> string \<times> 'u"
  tp_request_shutdown :: "'u \<Rightarrow> 'u"
  tp_is_shutting_down :: "'u \<Rightarrow> bool"

definition failed_transfer :: "string \<Rightarrow> transfer_result" where
  "failed_transfer message = empty_transfer_result\<lparr>tr_error_message := message\<rparr>"

text \<open>The bodies an implementation inherits when it overrides nothing (\<open>sdk_defaults.cpp\<close>).\<close>

definition default_send_file_on_port :: "int \<Rightarrow> string \<Rightarrow> u32 \<Rightarrow> u8 \<Rightarrow> file_system \<times> 'u
    \<Rightarrow> (transfer_result \<times> file_system \<times> 'u) option" where
  "default_send_file_on_port port path timeout_ms kind w = Some (failed_transfer ''send_file_on_port unsupported'', w)"

definition default_receive_file_on_port :: "int \<Rightarrow> string \<Rightarrow> u32 \<Rightarrow> u8 \<Rightarrow> file_system \<times> 'u
    \<Rightarrow> (transfer_result \<times> file_system \<times> 'u) option" where
  "default_receive_file_on_port port path timeout_ms kind w =
     Some (failed_transfer ''receive_file_on_port unsupported'', w)"

definition default_loopback_files :: "string \<Rightarrow> int \<Rightarrow> int \<Rightarrow> file_system \<times> 'u
    \<Rightarrow> (transfer_result \<times> file_system \<times> 'u) option" where
  "default_loopback_files path send_port recv_port w = Some (failed_transfer ''loopback_files unsupported'', w)"

section \<open>What the session layer relies on\<close>

locale link_plane =
  fixes tp :: "'u transport"
  assumes send_frame: "tp_send_file_on_port tp port path t k (fs, u) = Some (r, fs', u') \<Longrightarrow> fs' = fs"
    and receive_frame: "tp_receive_file_on_port tp port path t k (fs, u) = Some (r, fs', u') \<Longrightarrow>
      q \<noteq> path \<Longrightarrow> fs_lookup fs' q = fs_lookup fs q"
    and receive_denied: "tp_receive_file_on_port tp port path t k (fs, u) = Some (r, fs', u') \<Longrightarrow>
      fs_denied fs' = fs_denied fs"
    and receive_room: "tp_receive_file_on_port tp port path t k (fs, u) = Some (r, fs', u') \<Longrightarrow>
      fs_room fs' = fs_room fs"
    and receive_kind: "tp_receive_file_on_port tp port path t k (fs, u) = Some (r, fs', u') \<Longrightarrow>
      fs_lookup fs path \<noteq> Some Directory \<Longrightarrow> fs_lookup fs' path \<noteq> Some Directory"
begin

lemma receive_present:
  assumes "tp_receive_file_on_port tp port path t k (fs, u) = Some (r, fs', u')" and "q \<noteq> path"
  shows "fs_exists fs' q = fs_exists fs q" "is_regular_file fs' q = is_regular_file fs q"
  using receive_frame [OF assms] by (simp_all add: fs_exists_def is_regular_file_def)

lemma receive_removable:
  assumes "tp_receive_file_on_port tp port path t k (fs, u) = Some (r, fs', u')"
    and "fs_lookup fs path \<noteq> Some Directory" and "\<not> fs_denied fs path"
  shows "fs_lookup (snd (remove_path path fs')) path = None"
  using receive_kind [OF assms(1,2)] receive_denied [OF assms(1)] assms(3)
  by (auto simp: remove_path_def split: option.splits node.splits)

end

end
