(* ===== verification/Controller.thy ===== *)
theory Controller
  imports Transport Fabric_Sim Usb_Loopback Usb_Receive_Props Meta_File Link_Status Handshake
begin

text \<open>
  \<open>TransferController\<close> (\<open>lib/session/transfer_controller.cpp\<close>): the owner of the libusb
  context. It serialises all use of the cable by \<open>usb_mutex_\<close>, answers device queries from
  caches while the cable is in use, and runs one worker thread for the transfers of the simple
  user interface.

  Whether \<open>try_lock_for\<close> gets the mutex depends on the other threads: it is a field of the
  surroundings. So are the schedules of the two multi-threaded transfers and the time the
  simulator takes.
\<close>

section \<open>Receiving a file\<close>

text \<open>
  \<open>receive_file_core\<close> as one call: the header loop, then the two threads along a schedule
  \<open>acts\<close>. It returns when both have ended; \<open>None\<close>: it does not return.
\<close>

definition receive_file_core :: "nat \<Rightarrow> 'u usb_env \<Rightarrow> usb_settings \<Rightarrow> string option
    \<Rightarrow> (nat \<Rightarrow> int \<Rightarrow> string \<Rightarrow> bool) \<Rightarrow> ('u \<Rightarrow> ring_action list \<times> double \<times> 'u) \<Rightarrow> string \<Rightarrow> int \<Rightarrow> int \<Rightarrow> u8
    \<Rightarrow> file_system \<Rightarrow> 'u \<Rightarrow> (transfer_result \<times> file_system \<times> 'u) option" where
  "receive_file_core fuel env settings knob deliver schedule out_path port_index header_timeout_ms expected fs u =
     (case receive_prepare fuel env out_path port_index header_timeout_ms expected fs u of
        None \<Rightarrow> None
      | Some (Inl e, fs1, u1) \<Rightarrow> Some (failed_transfer e, fs1, u1)
      | Some (Inr (handle, hdr), fs1, u1) \<Rightarrow>
          let P = \<lparr>rp_size = unat (fh_file_size hdr), rp_depth = unat (effective_queue_depth settings knob), rp_deliver = deliver\<rparr>;
              (acts, seconds, u2) = schedule u1
          in (case ring_run P acts initial_ring of
                None \<Rightarrow> None
              | Some s \<Rightarrow> if rg_pc s \<noteq> Finished then None
                  else Some (receive_result P seconds s, fs_put out_path (File (rg_out s)) fs1,
                    close_device env (Some handle) u2)))"

section \<open>State\<close>

datatype transfer_kind = Worker_Send | Worker_Receive | Send_Meta_Then_File | Receive_Meta_Then_File | Worker_Loopback

record transfer_ui_state =
  tu_busy :: bool
  tu_waiting_for_sender :: bool
  tu_last_success :: bool
  tu_bytes_done :: u64
  tu_bytes_total :: u64
  tu_elapsed_secs :: double
  tu_live_mbps :: double
  tu_result_mbps :: double
  tu_status_message :: string
  tu_error_message :: string

definition initial_transfer_ui :: transfer_ui_state where
  "initial_transfer_ui = \<lparr>tu_busy = False, tu_waiting_for_sender = False, tu_last_success = False, tu_bytes_done = 0,
     tu_bytes_total = 0, tu_elapsed_secs = 0, tu_live_mbps = 0, tu_result_mbps = 0, tu_status_message = [],
     tu_error_message = []\<rparr>"

text \<open>The members; \<open>tc_usb\<close> is libusb's state, \<open>tc_hub\<close> the simulated fabric.\<close>

record 'u controller =
  tc_state :: transfer_ui_state
  tc_shutting_down :: bool
  tc_progress_seen :: bool
  tc_last_port_present :: bool
  tc_last_device_count :: int
  tc_cached_label :: string
  tc_cached_leg :: int
  tc_cached_serial :: string
  tc_detail :: string
  tc_published :: "transfer_ui_state list"
  tc_log :: "log_line list"
  tc_hub :: sim_hub
  tc_usb :: 'u

text \<open>The surroundings; \<open>ue_ctx\<close> of \<open>ce_usb\<close> says that the libusb context exists.\<close>

record 'u ctl_env =
  ce_port_index :: int
  ce_usb :: "'u usb_env"
  ce_settings :: usb_settings
  ce_knob :: "string option"
  ce_sim :: bool
  ce_sim_seconds :: double
  ce_fuel :: nat
  ce_deliver :: "nat \<Rightarrow> int \<Rightarrow> string \<Rightarrow> bool"
  ce_ring :: "'u \<Rightarrow> ring_action list \<times> double \<times> 'u"
  ce_cross :: "'u \<Rightarrow> cross_action list \<times> 'u"
  ce_lock :: "'u \<Rightarrow> bool \<times> 'u"
  ce_tmp :: string

definition kind_label :: "transfer_kind \<Rightarrow> string" where
  "kind_label kind = (case kind of
       Worker_Send \<Rightarrow> ''Send'' | Worker_Receive \<Rightarrow> ''Receive'' | Send_Meta_Then_File \<Rightarrow> ''Send''
     | Receive_Meta_Then_File \<Rightarrow> ''Receive'' | Worker_Loopback \<Rightarrow> ''Loopback'')"

definition set_transfer_ui :: "(transfer_ui_state \<Rightarrow> transfer_ui_state) \<Rightarrow> 'u controller \<Rightarrow> 'u controller" where
  "set_transfer_ui f c = c\<lparr>tc_state := f (tc_state c)\<rparr>"

definition should_emit_ui :: "'u controller \<Rightarrow> bool" where
  "should_emit_ui c \<longleftrightarrow> \<not> tc_shutting_down c"

definition publish_transfer_ui :: "'u controller \<Rightarrow> 'u controller" where
  "publish_transfer_ui c = (if \<not> should_emit_ui c then c else c\<lparr>tc_published := tc_published c @ [tc_state c]\<rparr>)"

definition controller_log :: "int \<Rightarrow> string \<Rightarrow> string \<Rightarrow> 'u controller \<Rightarrow> 'u controller" where
  "controller_log port event detail c = c\<lparr>tc_log := tc_log c @ [(port, event, detail)]\<rparr>"

text \<open>The constructor, when \<open>libusb_init\<close> succeeds or fails.\<close>

definition new_controller :: "'u ctl_env \<Rightarrow> sim_hub \<Rightarrow> 'u \<Rightarrow> 'u controller" where
  "new_controller env hub u =
     (let c = \<lparr>tc_state = initial_transfer_ui, tc_shutting_down = False, tc_progress_seen = False,
          tc_last_port_present = False, tc_last_device_count = 0, tc_cached_label = [], tc_cached_leg = - 1,
          tc_cached_serial = [], tc_detail = [], tc_published = [], tc_log = [], tc_hub = hub, tc_usb = u\<rparr>
      in if ue_ctx (ce_usb env) then c
         else publish_transfer_ui (set_transfer_ui (\<lambda>x. x\<lparr>tu_error_message := ''Failed to initialize libusb''\<rparr>) c))"

definition controller_request_shutdown :: "'u controller \<Rightarrow> 'u controller" where
  "controller_request_shutdown c = c\<lparr>tc_shutting_down := True\<rparr>"

definition controller_is_shutting_down :: "'u controller \<Rightarrow> bool" where
  "controller_is_shutting_down c = tc_shutting_down c"

definition controller_is_busy :: "'u controller \<Rightarrow> bool" where
  "controller_is_busy c = tu_busy (tc_state c)"

definition try_usb_lock :: "'u ctl_env \<Rightarrow> 'u controller \<Rightarrow> bool \<times> 'u controller" where
  "try_usb_lock env c = (let (got, u) = ce_lock env (tc_usb c) in (got, c\<lparr>tc_usb := u\<rparr>))"

section \<open>Transfers on a port\<close>

definition open_for_reading :: "string \<Rightarrow> file_system \<Rightarrow> (nat \<times> string) option" where
  "open_for_reading path fs = map_option (\<lambda>bytes. (length bytes, bytes)) (read_file path fs)"

text \<open>The transfer functions of the core on the controller's state.\<close>

definition core_send :: "'u ctl_env \<Rightarrow> string \<Rightarrow> int \<Rightarrow> u32 \<Rightarrow> u8 \<Rightarrow> file_system \<Rightarrow> 'u controller
    \<Rightarrow> (transfer_result \<times> 'u controller) option" where
  "core_send env path port_index timeout_ms frame_kind fs c =
     map_option (\<lambda>(r, st, u). (r, c\<lparr>tc_usb := u\<rparr>))
       (send_file_core (ce_fuel env) (ce_usb env) (ce_settings env) (ce_knob env) path (open_for_reading path fs)
         port_index (uint timeout_ms) frame_kind [] (tc_usb c))"

definition core_receive :: "'u ctl_env \<Rightarrow> string \<Rightarrow> int \<Rightarrow> u32 \<Rightarrow> u8 \<Rightarrow> file_system \<Rightarrow> 'u controller
    \<Rightarrow> (transfer_result \<times> file_system \<times> 'u controller) option" where
  "core_receive env path port_index header_timeout_ms expected fs c =
     map_option (\<lambda>(r, fs', u). (r, fs', c\<lparr>tc_usb := u\<rparr>))
       (receive_file_core (ce_fuel env) (ce_usb env) (ce_settings env) (ce_knob env) (ce_deliver env) (ce_ring env)
         path port_index (uint header_timeout_ms) expected fs (tc_usb c))"

definition core_loopback :: "'u ctl_env \<Rightarrow> string \<Rightarrow> int \<Rightarrow> int \<Rightarrow> file_system \<Rightarrow> 'u controller
    \<Rightarrow> (transfer_result \<times> file_system \<times> 'u controller) option" where
  "core_loopback env path send_port_index recv_port_index fs c =
     map_option (\<lambda>(r, fs', u). (r, fs', c\<lparr>tc_usb := u\<rparr>))
       (loopback_transfer_core (ce_fuel env) (ce_usb env) (ce_cross env) path send_port_index recv_port_index fs (tc_usb c))"

text \<open>The log line of a send.\<close>

definition log_sent :: "'u ctl_env \<Rightarrow> string \<Rightarrow> transfer_result \<Rightarrow> 'u controller \<Rightarrow> 'u controller" where
  "log_sent env path r c = controller_log (ce_port_index env) (if tr_ok r then ''usb_send_ok'' else ''usb_send_fail'')
     (path @ '' bytes='' @ show_nat (tr_bytes_transferred r)
      @ (if tr_error_message r = [] then [] else '' err='' @ tr_error_message r)) c"

definition send_on_port :: "'u ctl_env \<Rightarrow> int \<Rightarrow> string \<Rightarrow> u32 \<Rightarrow> u8 \<Rightarrow> file_system \<Rightarrow> 'u controller
    \<Rightarrow> (transfer_result \<times> 'u controller) option" where
  "send_on_port env port_index path timeout_ms frame_kind fs c =
     (if \<not> ue_ctx (ce_usb env) then Some (failed_transfer ''libusb not initialized'', c)
      else if tc_shutting_down c then Some (failed_transfer ''Shutting down'', c)
      else let (got, c1) = try_usb_lock env c
        in if \<not> got then Some (failed_transfer ''USB port busy'', c1)
           else map_option (\<lambda>(r, c2). (r, log_sent env path r c2))
             (if ce_sim env
              then let (r, hub) = fabric_sim_send_file path (open_for_reading path fs) port_index (ce_sim_seconds env) (tc_hub c1)
                in Some (r, c1\<lparr>tc_hub := hub\<rparr>)
              else core_send env path port_index timeout_ms frame_kind fs c1))"

text \<open>The listener polls often: its header timeouts are not logged.\<close>

definition log_received :: "'u ctl_env \<Rightarrow> string \<Rightarrow> u32 \<Rightarrow> transfer_result \<Rightarrow> 'u controller \<Rightarrow> 'u controller" where
  "log_received env path header_timeout_ms r c =
     (if \<not> tr_ok r \<and> header_timeout_ms \<le> kSessionHeaderTimeoutMs + 1
      then if tr_error_message r \<noteq> ''Header read failed''
        then controller_log (ce_port_index env) ''usb_recv_fail'' (path @ '' err='' @ tr_error_message r) c else c
      else if tr_ok r
      then controller_log (ce_port_index env) ''usb_recv_ok'' (path @ '' bytes='' @ show_nat (tr_bytes_transferred r)) c
      else c)"

definition receive_on_port :: "'u ctl_env \<Rightarrow> int \<Rightarrow> string \<Rightarrow> u32 \<Rightarrow> u8 \<Rightarrow> file_system \<Rightarrow> 'u controller
    \<Rightarrow> (transfer_result \<times> file_system \<times> 'u controller) option" where
  "receive_on_port env port_index path header_timeout_ms expected fs c =
     (if \<not> ue_ctx (ce_usb env) then Some (failed_transfer ''libusb not initialized'', fs, c)
      else if tc_shutting_down c then Some (failed_transfer ''Shutting down'', fs, c)
      else let (got, c1) = try_usb_lock env c
        in if \<not> got then Some (failed_transfer ''USB port busy'', fs, c1)
           else map_option (\<lambda>(r, fs', c2). (r, fs', log_received env path header_timeout_ms r c2))
             (if ce_sim env
              then let (r, hub, fs') = fabric_sim_receive_file path port_index (unat header_timeout_ms) (ce_sim_seconds env) (tc_hub c1) fs
                in Some (r, fs', c1\<lparr>tc_hub := hub\<rparr>)
              else core_receive env path port_index header_timeout_ms expected fs c1))"

definition loopback_on_ports :: "'u ctl_env \<Rightarrow> string \<Rightarrow> int \<Rightarrow> int \<Rightarrow> file_system \<Rightarrow> 'u controller
    \<Rightarrow> (transfer_result \<times> file_system \<times> 'u controller) option" where
  "loopback_on_ports env path send_port_index recv_port_index fs c =
     (if \<not> ue_ctx (ce_usb env) then Some (failed_transfer ''libusb not initialized'', fs, c)
      else let (got, c1) = try_usb_lock env c
        in if \<not> got then Some (failed_transfer ''USB port busy'', fs, c1)
           else if ce_sim env
           then let (r, hub, fs') = fabric_sim_loopback path send_port_index recv_port_index (ce_sim_seconds env) (tc_hub c1) fs
             in Some (r, fs', c1\<lparr>tc_hub := hub\<rparr>)
           else core_loopback env path send_port_index recv_port_index fs c1)"

section \<open>Device queries\<close>

text \<open>While the cable is in use the last answer is repeated.\<close>

definition fabric_device_count :: "'u ctl_env \<Rightarrow> 'u controller \<Rightarrow> int \<times> 'u controller" where
  "fabric_device_count env c =
     (if \<not> ue_ctx (ce_usb env) then (0, c)
      else let (got, c1) = try_usb_lock env c
        in if \<not> got then (tc_last_device_count c1, c1)
           else let (n, u) = (if ce_sim env then (fabric_sim_count_devices, tc_usb c1)
                  else count_fabric_devices (ce_usb env) (tc_usb c1))
             in (n, c1\<lparr>tc_usb := u, tc_last_device_count := n\<rparr>))"

definition controller_port_available :: "'u ctl_env \<Rightarrow> 'u controller \<Rightarrow> bool \<times> 'u controller" where
  "controller_port_available env c =
     (if \<not> ue_ctx (ce_usb env) then (False, c)
      else let (got, c1) = try_usb_lock env c
        in if \<not> got then (presence_when_probe_busy (tc_last_port_present c1), c1)
           else let (present, u) = (if ce_sim env then (fabric_sim_port_available (ce_port_index env), tc_usb c1)
                  else let (n, u) = count_fabric_devices (ce_usb env) (tc_usb c1) in (ce_port_index env < n, u))
             in (present, c1\<lparr>tc_usb := u, tc_last_port_present := present\<rparr>))"

definition controller_device_serial :: "'u ctl_env \<Rightarrow> 'u controller \<Rightarrow> string \<times> 'u controller" where
  "controller_device_serial env c =
     (if tc_cached_serial c \<noteq> [] \<or> ce_port_index env < 0 then (tc_cached_serial c, c)
      else if \<not> ue_ctx (ce_usb env) then ([], c)
      else let (got, c1) = try_usb_lock env c
        in if \<not> got then ([], c1)
           else let (serial, u) = (if ce_sim env then ([], tc_usb c1)
                  else fabric_device_serial (ce_usb env) (ce_port_index env) (tc_usb c1))
             in (serial, c1\<lparr>tc_usb := u, tc_cached_serial := serial\<rparr>))"

definition fabric_leg :: "'u ctl_env \<Rightarrow> 'u controller \<Rightarrow> int \<times> 'u controller" where
  "fabric_leg env c =
     (if 0 \<le> tc_cached_leg c then (tc_cached_leg c, c)
      else if ce_port_index env < 0 then (0, c)
      else let (serial, c1) = controller_device_serial env c; leg0 = fabric_leg_from_serial serial;
               leg = (if leg0 < 0 then ce_port_index env else leg0)
        in (leg, c1\<lparr>tc_cached_leg := leg, tc_cached_label := format_fabric_port_label leg\<rparr>))"

definition fabric_device_label :: "'u ctl_env \<Rightarrow> 'u controller \<Rightarrow> string \<times> 'u controller" where
  "fabric_device_label env c = (let (leg, c1) = fabric_leg env c in (tc_cached_label c1, c1))"

definition controller_device_bus_addr :: "'u ctl_env \<Rightarrow> int \<Rightarrow> 'u controller \<Rightarrow> (u8 \<times> u8) option \<times> 'u controller" where
  "controller_device_bus_addr env port_index c =
     (if \<not> ue_ctx (ce_usb env) then (None, c)
      else let (got, c1) = try_usb_lock env c
        in if \<not> got then (None, c1)
           else if ce_sim env then (fabric_sim_device_bus_addr port_index, c1)
           else let (r, u) = fabric_device_bus_addr (ce_usb env) port_index (tc_usb c1) in (r, c1\<lparr>tc_usb := u\<rparr>))"

definition controller_list_devices :: "'u ctl_env \<Rightarrow> 'u controller \<Rightarrow> fabric_usb_device list \<times> 'u controller" where
  "controller_list_devices env c =
     (if \<not> ue_ctx (ce_usb env) then ([], c)
      else let (got, c1) = try_usb_lock env c
        in if \<not> got then ([], c1)
           else if ce_sim env then (fabric_sim_list_devices, c1)
           else let (r, u) = list_fabric_devices (ce_usb env) (tc_usb c1) in (r, c1\<lparr>tc_usb := u\<rparr>))"

section \<open>The worker thread\<close>

text \<open>\<open>start_worker\<close> after the join of the last worker: whether a thread is started.\<close>

definition start_worker :: "transfer_kind \<Rightarrow> 'u controller \<Rightarrow> bool \<times> 'u controller" where
  "start_worker kind c =
     (if tu_busy (tc_state c) then (False, c)
      else let waiting = (kind = Worker_Receive \<or> kind = Receive_Meta_Then_File)
        in (True, publish_transfer_ui ((set_transfer_ui (\<lambda>x. x\<lparr>tu_busy := True, tu_waiting_for_sender := waiting,
               tu_bytes_done := 0, tu_bytes_total := 0, tu_elapsed_secs := 0, tu_live_mbps := 0, tu_result_mbps := 0,
               tu_last_success := False, tu_error_message := [],
               tu_status_message := (if waiting then ''Waiting for sender...''
                 else if kind = Worker_Loopback then ''Loopback: starting receive on port 1...''
                 else kind_label kind @ '' in progress...'')\<rparr>) c)\<lparr>tc_progress_seen := False, tc_detail := []\<rparr>)))"

text \<open>The progress callback of the worker; \<open>done * 100\<close> is computed in 64 bits.\<close>

definition progress_percent :: "u64 \<Rightarrow> u64 \<Rightarrow> int" where
  "progress_percent bytes_done bytes_total = sint (ucast ((bytes_done * 100) div bytes_total) :: 32 word)"

definition worker_progress :: "u64 \<Rightarrow> u64 \<Rightarrow> double \<Rightarrow> 'u controller \<Rightarrow> 'u controller" where
  "worker_progress bytes_done bytes_total elapsed c =
     (if \<not> should_emit_ui c then c
      else publish_transfer_ui (set_transfer_ui (\<lambda>x. x\<lparr>
        tu_waiting_for_sender := (if tc_progress_seen c then tu_waiting_for_sender x else False),
        tu_bytes_done := bytes_done, tu_bytes_total := bytes_total, tu_elapsed_secs := elapsed,
        tu_live_mbps := (if 0 < elapsed \<and> 0 < bytes_done then (of_nat (unat bytes_done) / (1024 * 1024)) / elapsed else 0),
        tu_status_message := (if 0 < bytes_total then ''Transferring... '' @ show_int (progress_percent bytes_done bytes_total) @ ''%''
          else ''Transferring...'')\<rparr>) (c\<lparr>tc_progress_seen := True\<rparr>)))"

text \<open>\<open>run_usb_locked\<close> around the calls of the core.\<close>

definition locked_send :: "'u ctl_env \<Rightarrow> string \<Rightarrow> file_system \<Rightarrow> 'u controller
    \<Rightarrow> (transfer_result \<times> file_system \<times> 'u controller) option" where
  "locked_send env path fs c = (let (got, c1) = try_usb_lock env c
     in if \<not> got then Some (failed_transfer ''USB port busy'', fs, c1)
        else map_option (\<lambda>(r, c2). (r, fs, c2)) (core_send env path (ce_port_index env) kFileTimeoutMs kFrameKindPayload fs c1))"

definition locked_receive :: "'u ctl_env \<Rightarrow> string \<Rightarrow> file_system \<Rightarrow> 'u controller
    \<Rightarrow> (transfer_result \<times> file_system \<times> 'u controller) option" where
  "locked_receive env path fs c = (let (got, c1) = try_usb_lock env c
     in if \<not> got then Some (failed_transfer ''USB port busy'', fs, c1)
        else core_receive env path (ce_port_index env) kFileTimeoutMs kFrameKindPayload fs c1)"

definition locked_loopback :: "'u ctl_env \<Rightarrow> string \<Rightarrow> file_system \<Rightarrow> 'u controller
    \<Rightarrow> (transfer_result \<times> file_system \<times> 'u controller) option" where
  "locked_loopback env path fs c = (let (got, c1) = try_usb_lock env c
     in if \<not> got then Some (failed_transfer ''USB port busy'', fs, c1) else core_loopback env path 0 1 fs c1)"

definition show_status :: "string \<Rightarrow> 'u controller \<Rightarrow> 'u controller" where
  "show_status text c = publish_transfer_ui (set_transfer_ui (\<lambda>x. x\<lparr>tu_status_message := text\<rparr>) c)"

text \<open>The three seconds the sender gives the receiver to open the payload path.\<close>

definition pause_before_payload :: "'u controller \<Rightarrow> 'u controller" where
  "pause_before_payload = show_status (''Metadata sent '' @ em_dash @ '' waiting for receiver to open payload path'' @ ellipsis)"

definition worker_send_meta :: "'u ctl_env \<Rightarrow> (nat \<Rightarrow> u32 \<times> u32) \<Rightarrow> string \<Rightarrow> fabric_send_meta \<Rightarrow> file_system
    \<Rightarrow> 'u controller \<Rightarrow> (transfer_result \<times> file_system \<times> 'u controller) option" where
  "worker_send_meta env rng path meta fs c =
     (let c1 = show_status (''Sending metadata (type=file)'' @ ellipsis) c;
          (meta_path, fs1) = write_meta_temp_file (ce_tmp env) rng meta fs
      in if meta_path = [] then Some (failed_transfer ''Could not create metadata file'', fs1, c1)
         else (case locked_send env meta_path fs1 c1 of
             None \<Rightarrow> None
           | Some (r, fs2, c2) \<Rightarrow> let fs3 = snd (remove_path meta_path fs2)
               in if \<not> tr_ok r then Some (r, fs3, c2)
                  else locked_send env path fs3 (publish_transfer_ui (set_transfer_ui (\<lambda>x. x\<lparr>
                    tu_status_message := ''Streaming payload'' @ ellipsis, tu_bytes_done := 0, tu_bytes_total := 0\<rparr>)
                    ((pause_before_payload c2)\<lparr>tc_progress_seen := False\<rparr>)))))"

definition worker_receive_meta :: "'u ctl_env \<Rightarrow> (nat \<Rightarrow> u32 \<times> u32) \<Rightarrow> string \<Rightarrow> file_system
    \<Rightarrow> 'u controller \<Rightarrow> (transfer_result \<times> file_system \<times> 'u controller) option" where
  "worker_receive_meta env rng target_dir fs c =
     (let (meta_path, fs1) = create_empty_temp_file (ce_tmp env) rng ''slsfabric-meta-recv-'' [] fs
      in if meta_path = [] then Some (failed_transfer ''Could not create temp path for metadata'', fs1, c)
         else (case locked_receive env meta_path fs1 c of
             None \<Rightarrow> None
           | Some (r, fs2, c2) \<Rightarrow>
               let (valid, meta) = read_meta_file meta_path fs2 default_send_meta; fs3 = snd (remove_path meta_path fs2)
               in if \<not> tr_ok r then Some (r, fs3, c2)
                  else if \<not> valid then Some (failed_transfer ''Received metadata file was invalid'', fs3, c2)
                  else let c3 = set_transfer_ui (\<lambda>x. x\<lparr>tu_bytes_done := 0, tu_bytes_total := 0\<rparr>)
                         ((publish_transfer_ui (set_transfer_ui (\<lambda>x. x\<lparr>tu_waiting_for_sender := False, tu_status_message :=
                           ''Metadata OK '' @ em_dash @ '' receiving '' @ fm_relative_name meta\<rparr>) c2))\<lparr>tc_progress_seen := False\<rparr>);
                       out_path = target_path_for_name target_dir (fm_relative_name meta)
                    in if out_path = [] then Some (failed_transfer (''Invalid target path for: '' @ fm_relative_name meta), fs3, c3)
                       else (case ensure_parent_directories out_path fs3 of
                           (Inl e, fs4) \<Rightarrow> Some (failed_transfer e, fs4, c3)
                         | (Inr _, fs4) \<Rightarrow> map_option (\<lambda>(r2, fs5, c4). (r2, fs5, if tr_ok r2 then c4\<lparr>tc_detail := out_path\<rparr> else c4))
                             (locked_receive env out_path fs4 c3))))"

definition finish_worker :: "transfer_result \<Rightarrow> transfer_kind \<Rightarrow> 'u controller \<Rightarrow> 'u controller" where
  "finish_worker r kind c = publish_transfer_ui (set_transfer_ui (\<lambda>x. x\<lparr>tu_busy := False, tu_waiting_for_sender := False,
     tu_bytes_done := of_nat (tr_bytes_transferred r), tu_bytes_total := of_nat (tr_expected_bytes r),
     tu_elapsed_secs := tr_seconds r, tu_result_mbps := tr_mbps r, tu_live_mbps := tr_mbps r, tu_last_success := tr_ok r,
     tu_status_message :=
       (if tr_ok r
        then if kind = Worker_Loopback then ''Loopback verified '' @ em_dash @ '' fabric path OK''
          else if kind = Receive_Meta_Then_File \<and> tc_detail c \<noteq> [] then ''Receive complete '' @ arrow @ '' '' @ tc_detail c
          else kind_label kind @ '' complete''
        else kind_label kind @ '' failed''),
     tu_error_message := (if tr_ok r then [] else tr_error_message r)\<rparr>) c)"

text \<open>The worker thread, from its start to its end.\<close>

definition run_worker :: "'u ctl_env \<Rightarrow> (nat \<Rightarrow> u32 \<times> u32) \<Rightarrow> transfer_kind \<Rightarrow> string \<Rightarrow> fabric_send_meta \<Rightarrow> file_system
    \<Rightarrow> 'u controller \<Rightarrow> (file_system \<times> 'u controller) option" where
  "run_worker env rng kind path meta fs c = map_option (\<lambda>(r, fs', c'). (fs', finish_worker r kind c'))
     (case kind of
        Worker_Send \<Rightarrow> locked_send env path fs c
      | Worker_Receive \<Rightarrow> locked_receive env path fs c
      | Send_Meta_Then_File \<Rightarrow> worker_send_meta env rng path meta fs c
      | Receive_Meta_Then_File \<Rightarrow> worker_receive_meta env rng path fs c
      | Worker_Loopback \<Rightarrow> locked_loopback env path fs c)"

section \<open>Facts\<close>

text \<open>
  The first query decides the leg for good: when the cable is in use at that moment, the serial
  is not read and the port index is cached in its place.
\<close>

lemma leg_cached_while_busy:
  assumes "ue_ctx (ce_usb env)" and "tc_cached_leg c < 0" and "0 \<le> ce_port_index env" and "tc_cached_serial c = []"
    and "ce_lock env (tc_usb c) = (False, u)" and "fabric_leg env c = (leg, c1)"
  shows "leg = ce_port_index env \<and> (\<forall>c2. tc_cached_leg c2 = tc_cached_leg c1 \<longrightarrow> fabric_leg env c2 = (ce_port_index env, c2))"
proof -
  have "fabric_leg_from_serial [] < 0" by code_simp
  with assms have "leg = ce_port_index env" "tc_cached_leg c1 = ce_port_index env"
    by (auto simp: fabric_leg_def controller_device_serial_def try_usb_lock_def Let_def)
  then show ?thesis using assms(3) by (simp add: fabric_leg_def)
qed

lemma receive_prepare_files:
  assumes "receive_prepare fuel env path port t expected fs u = Some (res, fs1, u1)"
  shows "fs1 = fs \<and> (\<exists>e. res = Inl e) \<or> open_trunc path fs = Some fs1"
  using assms by (auto simp: receive_prepare_def Let_def case_prod_beta split: sum.splits option.splits if_splits)

text \<open>Receiving changes its target only, and leaves a file there if it changes anything.\<close>

definition changes_file :: "string \<Rightarrow> file_system \<Rightarrow> file_system \<Rightarrow> bool" where
  "changes_file path fs fs' \<longleftrightarrow> (\<forall>q. q \<noteq> path \<longrightarrow> fs_lookup fs' q = fs_lookup fs q) \<and> fs_denied fs' = fs_denied fs
     \<and> fs_room fs' = fs_room fs \<and> (fs_lookup fs' path = fs_lookup fs path \<or> (\<exists>c. fs_lookup fs' path = Some (File c)))"

lemma changes_file_refl [simp]: "changes_file path fs fs" by (simp add: changes_file_def)

lemma changes_file_put: "changes_file path fs fs1 \<Longrightarrow> changes_file path fs (fs_put path (File c) fs1)"
  by (simp add: changes_file_def)

lemma changes_file_trunc: "open_trunc path fs = Some fs1 \<Longrightarrow> changes_file path fs fs1"
  using open_trunc_lookup open_trunc_fields by (fastforce simp: changes_file_def)

lemma receive_core_changes:
  assumes "receive_file_core fuel env settings knob deliver schedule path port t expected fs u = Some (r, fs', u')"
  shows "changes_file path fs fs'"
proof -
  obtain res fs1 u1 where p: "receive_prepare fuel env path port t expected fs u = Some (res, fs1, u1)"
    using assms by (auto simp: receive_file_core_def split: option.splits)
  have "changes_file path fs fs1" using receive_prepare_files [OF p] changes_file_trunc by auto
  moreover have "fs' = fs1 \<or> (\<exists>c. fs' = fs_put path (File c) fs1)"
    using assms by (auto simp: receive_file_core_def p Let_def split: sum.splits option.splits prod.splits if_splits)
  ultimately show ?thesis using changes_file_put by auto
qed

lemma append_changes:
  assumes "append_file path bytes fs = (good, fs')"
  shows "changes_file path fs fs'"
  using assms by (auto simp: append_file_def split: option.splits node.splits intro!: changes_file_put)

lemma changes_file_trans: "changes_file path a b \<Longrightarrow> changes_file path b c \<Longrightarrow> changes_file path a c"
  by (auto simp: changes_file_def)

lemma sim_loop_changes: "sim_receive_loop p path n hub fs = (e, hub', fs') \<Longrightarrow> changes_file path fs fs'"
proof (induction p path n hub fs rule: sim_receive_loop.induct)
  case (1 p path n hub fs)
  show ?case
  proof (cases "n = 0")
    case True
    with 1(2) show ?thesis by (subst (asm) sim_receive_loop.simps) simp
  next
    case False
    obtain r hub1 where rd: "hub_read p (unat kFileTimeoutMs) (min n kChunkSize) hub = (r, hub1)" by fastforce
    show ?thesis
    proof (cases r)
      case None
      with 1(2) False rd show ?thesis by (subst (asm) sim_receive_loop.simps) (simp add: Let_def)
    next
      case (Some chunk)
      obtain good fs1 where a: "append_file path chunk fs = (good, fs1)" by fastforce
      note app = append_changes [OF a]
      show ?thesis
      proof (cases good)
        case True
        with 1(2) False rd Some a have "sim_receive_loop p path (n - min n kChunkSize) hub1 fs1 = (e, hub', fs')"
          by (subst (asm) sim_receive_loop.simps) (simp add: Let_def)
        with 1(1) [OF False refl rd [symmetric] Some a [symmetric]] True app changes_file_trans show ?thesis by blast
      next
        case False
        with 1(2) \<open>n \<noteq> 0\<close> rd Some a app show ?thesis by (subst (asm) sim_receive_loop.simps) (simp add: Let_def)
      qed
    qed
  qed
qed

lemma sim_receive_changes:
  assumes "fabric_sim_receive_file path p t secs hub fs = (r, hub', fs')"
  shows "changes_file path fs fs'"
proof -
  consider "fs' = fs" | "open_trunc path fs = Some fs'"
    | fs1 n h e h' where "open_trunc path fs = Some fs1" "sim_receive_loop p path n h fs1 = (e, h', fs')"
    using assms by (auto simp: fabric_sim_receive_file_def Let_def split: if_splits option.splits prod.splits)
  then show ?thesis by cases (auto intro: changes_file_trunc changes_file_trans sim_loop_changes)
qed

lemma receive_on_port_changes:
  assumes "receive_on_port env port path t expected fs c = Some (r, fs', c')"
  shows "changes_file path fs fs'"
proof -
  consider "fs' = fs" | h h' r' where "fabric_sim_receive_file path port (unat t) (ce_sim_seconds env) h fs = (r', h', fs')"
    | c1 c2 r' where "core_receive env path port t expected fs c1 = Some (r', fs', c2)"
    using assms by (auto simp: receive_on_port_def Let_def split: if_splits prod.splits)
  then show ?thesis
  proof cases
    case (3 c1 c2 r')
    then show ?thesis by (auto simp: core_receive_def intro: receive_core_changes)
  qed (auto intro: sim_receive_changes)
qed

end
