(* ===== verification/Listener.thy ===== *)
theory Listener
  imports Transport Session_Message Handshake
begin

text \<open>
  Sending and listening for session messages: \<open>lib/session/session_listener.cpp\<close>. The listener
  is a loop on a thread of its own; the flags other threads set are a record, and one pass of
  the loop is three functions: from the top to the blocking receive, from its return to the
  callback, and the end of the pass. Waits and sleeps change nothing and are left out.
\<close>

section \<open>Sending\<close>

definition kSessionSendTimeoutMs :: u32 where "kSessionSendTimeoutMs = 2500"

text \<open>Sixteen rolls of the random generator.\<close>

definition make_session_id :: "(nat \<Rightarrow> nat) \<Rightarrow> string" where
  "make_session_id rolls = map (\<lambda>i. ''0123456789abcdef'' ! (rolls i mod 16)) [0..<16]"

text \<open>A left value is a failure with its text.\<close>

definition send_session_message :: "'u transport \<Rightarrow> string \<Rightarrow> (nat \<Rightarrow> u32 \<times> u32) \<Rightarrow> int
    \<Rightarrow> fabric_session_message \<Rightarrow> u32 \<Rightarrow> file_system \<times> 'u \<Rightarrow> ((string + unit) \<times> file_system \<times> 'u) option" where
  "send_session_message tp tmp rng sender_port_index message timeout_ms = (\<lambda>(fs, u).
     if tp_is_shutting_down tp u then Some (Inl ''Shutting down'', fs, u)
     else let (session_path, fs1) = write_session_temp_file tmp rng message fs
       in if session_path = [] then Some (Inl ''Could not create session message file'', fs1, u)
          else case tp_send_file_on_port tp sender_port_index session_path
                 (if 0 < timeout_ms then timeout_ms else kSessionSendTimeoutMs) kFrameKindSession (fs1, u) of
              None \<Rightarrow> None
            | Some (r, fs2, u1) \<Rightarrow> let fs3 = snd (remove_path session_path fs2)
                in Some (if tr_ok r then Inr () else Inl (tr_error_message r), fs3, u1))"

section \<open>The listener's flags\<close>

record listener =
  ls_session_header_timeout_ms :: u32
  ls_handshake_poll_timeout_ms :: u32
  ls_tight_poll :: bool
  ls_stop :: bool
  ls_paused :: bool
  ls_in_receive :: bool
  ls_last_receive_end_ms :: int

definition new_listener :: listener where
  "new_listener = \<lparr>ls_session_header_timeout_ms = 2000, ls_handshake_poll_timeout_ms = 350, ls_tight_poll = False,
     ls_stop = False, ls_paused = False, ls_in_receive = False, ls_last_receive_end_ms = 0\<rparr>"

definition set_session_header_timeout_ms :: "u32 \<Rightarrow> listener \<Rightarrow> listener" where
  "set_session_header_timeout_ms ms l =
     l\<lparr>ls_session_header_timeout_ms := (if 0 < ms then ms else kSessionHeaderTimeoutMs)\<rparr>"

definition set_tight_poll :: "bool \<Rightarrow> listener \<Rightarrow> listener" where
  "set_tight_poll enabled l = l\<lparr>ls_tight_poll := enabled\<rparr>"

definition listener_start :: "listener \<Rightarrow> listener" where
  "listener_start l = l\<lparr>ls_stop := False\<rparr>"

definition listener_stop :: "listener \<Rightarrow> listener" where
  "listener_stop l = l\<lparr>ls_stop := True\<rparr>"

text \<open>
  \<open>pause\<close> sets the flag and waits at most 1.5 s for a receive in progress; it returns in any
  case, so the flag is all it guarantees.
\<close>

definition listener_pause :: "listener \<Rightarrow> listener" where
  "listener_pause l = l\<lparr>ls_paused := True\<rparr>"

definition listener_resume :: "listener \<Rightarrow> listener" where
  "listener_resume l = l\<lparr>ls_paused := False\<rparr>"

definition is_paused :: "listener \<Rightarrow> bool" where
  "is_paused l = ls_paused l"

definition recently_finished_receive :: "int \<Rightarrow> int \<Rightarrow> listener \<Rightarrow> bool" where
  "recently_finished_receive now_ms gap l \<longleftrightarrow>
     ls_last_receive_end_ms l \<noteq> 0 \<and> now_ms - ls_last_receive_end_ms l < gap"

section \<open>One pass of the loop\<close>

datatype listen_next = Loop_Exit | Loop_Again | Loop_Receive string u32

definition temp_receive_path :: "string \<Rightarrow> (nat \<Rightarrow> u32 \<times> u32) \<Rightarrow> file_system \<Rightarrow> string \<times> file_system" where
  "temp_receive_path tmp rng fs = create_empty_temp_file tmp rng ''slsfabric-sess-recv-'' [] fs"

definition header_timeout :: "listener \<Rightarrow> u32" where
  "header_timeout l =
     (if ls_stop l then 400
      else if ls_tight_poll l then min (ls_session_header_timeout_ms l) (ls_handshake_poll_timeout_ms l)
      else ls_session_header_timeout_ms l)"

text \<open>From the loop condition to the blocking receive.\<close>

definition listen_top :: "'u transport \<Rightarrow> string \<Rightarrow> (nat \<Rightarrow> u32 \<times> u32) \<Rightarrow> listener \<Rightarrow> file_system \<times> 'u
    \<Rightarrow> listen_next \<times> listener \<times> file_system \<times> 'u" where
  "listen_top tp tmp rng l = (\<lambda>(fs, u).
     if ls_stop l then (Loop_Exit, l, fs, u)
     else if ls_paused l then (Loop_Again, l, fs, u)
     else let (available, u1) = tp_port_available tp u
       in if \<not> available then (Loop_Again, l, fs, u1)
          else let (recv_path, fs1) = temp_receive_path tmp rng fs
            in if recv_path = [] then (Loop_Again, l, fs1, u1)
               else (Loop_Receive recv_path (header_timeout l), l\<lparr>ls_in_receive := True\<rparr>, fs1, u1))"

text \<open>
  What follows the return of the receive: the exit when the listener was stopped meanwhile, an
  exception nobody catches, a message for the callback, or nothing. The lines are log entries.
\<close>

datatype listen_result = Result_Exit | Result_Uncaught std_exn | Result_Message fabric_session_message | Result_None

definition listen_received :: "int \<Rightarrow> int \<Rightarrow> string \<Rightarrow> transfer_result \<Rightarrow> listener \<Rightarrow> file_system
    \<Rightarrow> listen_result \<times> listener \<times> file_system \<times> log_line list" where
  "listen_received port_index now_ms recv_path r l fs =
     (let l1 = l\<lparr>ls_in_receive := False, ls_last_receive_end_ms := now_ms\<rparr>
      in if ls_stop l1 then (Result_Exit, l1, snd (remove_path recv_path fs), [])
         else if tr_ok r
         then (case read_session_file recv_path fs empty_session_message of
              Inl e \<Rightarrow> (Result_Uncaught e, l1, fs, [(port_index, ''usb_recv_ok'', recv_path)])
            | Inr (valid, message) \<Rightarrow>
                if valid then (Result_Message message, l1, fs, [(port_index, ''usb_recv_ok'', recv_path)])
                else (Result_None, l1, fs, [(port_index, ''usb_recv_ok'', recv_path),
                  (port_index, ''session_parse_fail'', recv_path)]))
         else if tr_error_message r \<noteq> [] \<and> tr_error_message r \<noteq> ''Header read failed''
         then (Result_None, l1, fs, [(port_index, ''usb_recv_fail'', tr_error_message r)])
         else (Result_None, l1, fs, []))"

definition listen_end :: "string \<Rightarrow> file_system \<Rightarrow> file_system" where
  "listen_end recv_path fs = snd (remove_path recv_path fs)"

section \<open>Facts about one pass\<close>

lemma remove_fresh:
  assumes "fs_lookup fs p = None" and "\<forall>q. q \<noteq> p \<longrightarrow> fs_lookup fs' q = fs_lookup fs q"
    and "fs_lookup fs' p \<noteq> Some Directory" and "\<not> fs_denied fs' p"
  shows "fs_lookup (snd (remove_path p fs')) = fs_lookup fs"
proof
  fix q
  show "fs_lookup (snd (remove_path p fs')) q = fs_lookup fs q"
    using assms by (auto simp: remove_path_def split: option.splits node.splits)
qed

lemma temp_receive_path_fresh:
  assumes "temp_receive_path tmp rng fs = (p, fs')" and "p \<noteq> []"
  shows "fs_lookup fs p = None \<and> (\<forall>q. fs_lookup fs' q = (if q = p then Some (File []) else fs_lookup fs q))
    \<and> fs_denied fs' = fs_denied fs"
  using create_temp_attempts_fresh [OF assms(1) [unfolded temp_receive_path_def create_empty_temp_file_def] assms(2)]
  by blast

lemma temp_receive_path_allowed:
  assumes "temp_receive_path tmp rng fs = (p, fs')" and "p \<noteq> []"
  shows "\<not> fs_denied fs p"
proof -
  have "create_temp_attempts n k tmp rng pre s fs = (p, fs') \<Longrightarrow> \<not> fs_denied fs p" for n k pre s
    using assms(2)
    by (induction n arbitrary: k) (auto simp: Let_def open_trunc_def can_create_def split: if_splits option.splits)
  then show ?thesis using assms(1) by (auto simp: temp_receive_path_def create_empty_temp_file_def)
qed

context link_plane
begin

text \<open>A message leaves no trace in the files, whether it was sent or not.\<close>

lemma session_send_frame:
  assumes "send_session_message tp tmp rng port m t (fs, u) = Some (r, fs', u')"
  shows "(\<forall>q. fs_lookup fs q \<noteq> None \<longrightarrow> fs_lookup fs' q = fs_lookup fs q) \<and> fs_denied fs' = fs_denied fs"
proof (cases "tp_is_shutting_down tp u \<or> sm_session_id m = []")
  case True
  with assms show ?thesis by (auto simp: send_session_message_def write_session_temp_file_def split: if_splits)
next
  case False
  obtain p fs1 where w: "write_temp_text_file tmp rng ''slsfabric-session-'' (session_payload m) fs = (p, fs1)"
    by fastforce
  have frame: "fs_lookup fs q \<noteq> None \<Longrightarrow> fs_lookup fs1 q = fs_lookup fs q" for q
    using write_temp_text_file_frame [OF w] by blast
  show ?thesis
  proof (cases "p = []")
    case True
    then have "fs' = fs1" using assms False w by (simp add: send_session_message_def write_session_temp_file_def)
    then show ?thesis using frame write_temp_denied [OF w] by simp
  next
    case ne: False
    note c = write_temp_text_file_cases [OF w ne]
    obtain r2 u2 where "tp_send_file_on_port tp port p (if 0 < t then t else kSessionSendTimeoutMs) kFrameKindSession
        (fs1, u) = Some (r2, fs1, u2)" and fs': "fs' = snd (remove_path p fs1)"
      using assms False w ne
      by (auto simp: send_session_message_def write_session_temp_file_def Let_def
          split: option.splits dest: send_frame)
    have "fs_lookup fs' q = fs_lookup fs q" if "fs_lookup fs q \<noteq> None" for q
      using that c(1,4) by (auto simp: fs' remove_path_def c(3) split: if_splits)
    moreover have "fs_denied fs' = fs_denied fs" using c(5) by (simp add: fs' remove_path_def c(3))
    ultimately show ?thesis by blast
  qed
qed

lemma session_send_clean:
  assumes "send_session_message tp tmp rng port m t (fs, u) = Some (Inr (), fs', u')"
  shows "fs_lookup fs' = fs_lookup fs"
proof -
  obtain p fs1 where w: "write_temp_text_file tmp rng ''slsfabric-session-'' (session_payload m) fs = (p, fs1)"
    by fastforce
  from assms have ne: "p \<noteq> []" and id: "sm_session_id m \<noteq> []"
    by (auto simp: send_session_message_def write_session_temp_file_def w split: if_splits)
  note c = write_temp_text_file_cases [OF w ne]
  have "fs' = snd (remove_path p fs1)"
    using assms w ne id
    by (auto simp: send_session_message_def write_session_temp_file_def Let_def
        split: option.splits if_splits dest: send_frame)
  with remove_fresh [OF c(1) _ _ c(2)] c(3,4) show ?thesis by simp
qed

end

end
