(* ===== verification/Usb_Plane.thy ===== *)
theory Usb_Plane
  imports Controller Listener
begin

text \<open>
  The C++ SDK: \<open>UsbPlane\<close> (\<open>sdks/cpp/src/usb_plane.cpp\<close>, \<open>usb_plane_files.cpp\<close>), the only
  implementation of \<open>RocketBoxTransport\<close>, its factory (\<open>sdk.cpp\<close>) and the port probe
  (\<open>port_probe.cpp\<close>). A plane owns a controller. The plane meets the contract \<open>link_plane\<close> the
  session layer is written against, so what that contract gives holds of the USB link.
\<close>

section \<open>The plane\<close>

text \<open>While there is no controller, \<open>up_rest\<close> keeps what lives outside it: the hub and libusb.\<close>

record 'u usb_plane =
  up_controller :: "'u controller option"
  up_connected :: bool
  up_rest :: "sim_hub \<times> 'u"

definition ensure_controller :: "'u ctl_env \<Rightarrow> 'u usb_plane \<Rightarrow> 'u usb_plane" where
  "ensure_controller env p = (case up_controller p of
       Some c \<Rightarrow> p
     | None \<Rightarrow> p\<lparr>up_controller := Some (new_controller env (fst (up_rest p)) (snd (up_rest p))), up_connected := True\<rparr>)"

definition new_plane :: "'u ctl_env \<Rightarrow> sim_hub \<Rightarrow> 'u \<Rightarrow> 'u usb_plane" where
  "new_plane env hub u = ensure_controller env \<lparr>up_controller = None, up_connected = False, up_rest = (hub, u)\<rparr>"

text \<open>The factory; the index of a plane is its display port less one.\<close>

definition create_rocketbox_transport :: "int \<Rightarrow> 'u ctl_env \<Rightarrow> sim_hub \<Rightarrow> 'u \<Rightarrow> string + 'u ctl_env \<times> 'u usb_plane" where
  "create_rocketbox_transport display_port env hub u =
     (if display_port < 1 then Inl ''display_port must be >= 1''
      else let env1 = env\<lparr>ce_port_index := display_port - 1\<rparr> in Inr (env1, new_plane env1 hub u))"

definition ask_controller :: "'a \<Rightarrow> ('u controller \<Rightarrow> 'a \<times> 'u controller) \<Rightarrow> 'u usb_plane \<Rightarrow> 'a \<times> 'u usb_plane" where
  "ask_controller dflt q p = (case up_controller p of
       None \<Rightarrow> (dflt, p)
     | Some c \<Rightarrow> let (a, c1) = q c in (a, p\<lparr>up_controller := Some c1\<rparr>))"

definition plane_port_index :: "'u ctl_env \<Rightarrow> int" where
  "plane_port_index env = ce_port_index env"

definition plane_resolved_port_index :: "'u ctl_env \<Rightarrow> 'u usb_plane \<Rightarrow> int \<times> 'u usb_plane" where
  "plane_resolved_port_index env = ask_controller (ce_port_index env) (fabric_leg env)"

definition plane_serial :: "'u ctl_env \<Rightarrow> 'u usb_plane \<Rightarrow> string \<times> 'u usb_plane" where
  "plane_serial env = ask_controller [] (controller_device_serial env)"

definition plane_describe_device :: "'u ctl_env \<Rightarrow> 'u usb_plane \<Rightarrow> string \<times> 'u usb_plane" where
  "plane_describe_device env = ask_controller [] (fabric_device_label env)"

definition plane_device_count :: "'u ctl_env \<Rightarrow> 'u usb_plane \<Rightarrow> int \<times> 'u usb_plane" where
  "plane_device_count env = ask_controller 0 (fabric_device_count env)"

definition plane_port_available :: "'u ctl_env \<Rightarrow> 'u usb_plane \<Rightarrow> bool \<times> 'u usb_plane" where
  "plane_port_available env = ask_controller False (controller_port_available env)"

definition plane_request_shutdown :: "'u usb_plane \<Rightarrow> 'u usb_plane" where
  "plane_request_shutdown p = p\<lparr>up_controller := map_option controller_request_shutdown (up_controller p)\<rparr>"

definition plane_is_shutting_down :: "'u usb_plane \<Rightarrow> bool" where
  "plane_is_shutting_down p = (case up_controller p of None \<Rightarrow> True | Some c \<Rightarrow> controller_is_shutting_down c)"

definition plane_is_transfer_busy :: "'u usb_plane \<Rightarrow> bool" where
  "plane_is_transfer_busy p = (case up_controller p of None \<Rightarrow> False | Some c \<Rightarrow> controller_is_busy c)"

definition plane_connect :: "'u ctl_env \<Rightarrow> 'u usb_plane \<Rightarrow> 'u usb_plane" where
  "plane_connect env p = ensure_controller env p"

definition plane_disconnect :: "'u usb_plane \<Rightarrow> 'u usb_plane" where
  "plane_disconnect p = (plane_request_shutdown p)\<lparr>up_connected := False\<rparr>"

text \<open>The controller is destroyed and a new one made; the hub and libusb outlive it.\<close>

definition plane_reset_connection :: "'u ctl_env \<Rightarrow> 'u usb_plane \<Rightarrow> 'u usb_plane" where
  "plane_reset_connection env p =
     (let p1 = plane_disconnect p;
          rest = (case up_controller p1 of None \<Rightarrow> up_rest p1 | Some c \<Rightarrow> (tc_hub c, tc_usb c))
      in ensure_controller env (p1\<lparr>up_controller := None, up_connected := False, up_rest := rest\<rparr>))"

section \<open>Files over the plane\<close>

definition plane_send_file_on_port :: "'u ctl_env \<Rightarrow> int \<Rightarrow> string \<Rightarrow> u32 \<Rightarrow> u8 \<Rightarrow> file_system \<times> 'u usb_plane
    \<Rightarrow> (transfer_result \<times> file_system \<times> 'u usb_plane) option" where
  "plane_send_file_on_port env port path timeout_ms frame_kind = (\<lambda>(fs, p).
     let p1 = ensure_controller env p
     in case up_controller p1 of None \<Rightarrow> None
      | Some c \<Rightarrow> map_option (\<lambda>(r, c1). (r, fs, p1\<lparr>up_controller := Some c1\<rparr>))
          (send_on_port env port path timeout_ms frame_kind fs c))"

definition plane_receive_file_on_port :: "'u ctl_env \<Rightarrow> int \<Rightarrow> string \<Rightarrow> u32 \<Rightarrow> u8 \<Rightarrow> file_system \<times> 'u usb_plane
    \<Rightarrow> (transfer_result \<times> file_system \<times> 'u usb_plane) option" where
  "plane_receive_file_on_port env port path header_timeout_ms expected = (\<lambda>(fs, p).
     let p1 = ensure_controller env p
     in case up_controller p1 of None \<Rightarrow> None
      | Some c \<Rightarrow> map_option (\<lambda>(r, fs1, c1). (r, fs1, p1\<lparr>up_controller := Some c1\<rparr>))
          (receive_on_port env port path header_timeout_ms expected fs c))"

definition plane_loopback_files :: "'u ctl_env \<Rightarrow> string \<Rightarrow> int \<Rightarrow> int \<Rightarrow> file_system \<times> 'u usb_plane
    \<Rightarrow> (transfer_result \<times> file_system \<times> 'u usb_plane) option" where
  "plane_loopback_files env path send_port recv_port = (\<lambda>(fs, p).
     let p1 = ensure_controller env p
     in case up_controller p1 of None \<Rightarrow> None
      | Some c \<Rightarrow> map_option (\<lambda>(r, fs1, c1). (r, fs1, p1\<lparr>up_controller := Some c1\<rparr>))
          (loopback_on_ports env path send_port recv_port fs c))"

text \<open>The virtual functions of the plane.\<close>

definition usb_transport :: "'u ctl_env \<Rightarrow> 'u usb_plane transport" where
  "usb_transport env = \<lparr>tp_port_index = plane_port_index env,
     tp_send_file_on_port = plane_send_file_on_port env,
     tp_receive_file_on_port = plane_receive_file_on_port env,
     tp_loopback_files = plane_loopback_files env,
     tp_device_count = plane_device_count env,
     tp_port_available = plane_port_available env,
     tp_resolved_port_index = plane_resolved_port_index env,
     tp_serial = plane_serial env,
     tp_describe_device = plane_describe_device env,
     tp_request_shutdown = plane_request_shutdown,
     tp_is_shutting_down = plane_is_shutting_down\<rparr>"

interpretation usb_link: link_plane "usb_transport env" for env
proof unfold_locales
  fix port path t k fs and u :: "'a usb_plane" and r fs' u'
  assume "tp_send_file_on_port (usb_transport env) port path t k (fs, u) = Some (r, fs', u')"
  then show "fs' = fs" by (auto simp: usb_transport_def plane_send_file_on_port_def Let_def split: option.splits)
next
  fix port path t k fs and u :: "'a usb_plane" and r fs' u' q
  assume a: "tp_receive_file_on_port (usb_transport env) port path t k (fs, u) = Some (r, fs', u')"
  then have c: "changes_file path fs fs'"
    by (auto simp: usb_transport_def plane_receive_file_on_port_def Let_def split: option.splits
        dest: receive_on_port_changes)
  from c show "q \<noteq> path \<Longrightarrow> fs_lookup fs' q = fs_lookup fs q" by (simp add: changes_file_def)
  from c show "fs_denied fs' = fs_denied fs" by (simp add: changes_file_def)
  from c show "fs_room fs' = fs_room fs" by (simp add: changes_file_def)
  from c show "fs_lookup fs path \<noteq> Some Directory \<Longrightarrow> fs_lookup fs' path \<noteq> Some Directory"
    by (auto simp: changes_file_def)
qed

section \<open>The port probe\<close>

record present_port =
  pp_libusb_index :: int
  pp_leg :: int
  pp_display_port :: int
  pp_serial :: string
  pp_bus :: u8
  pp_addr :: u8
  pp_available :: bool

definition leg_from_serial :: "string \<Rightarrow> int" where
  "leg_from_serial serial = fabric_leg_from_serial serial"

text \<open>The loop over the listed devices; \<open>i\<close> is the index of the first one of the list.\<close>

fun probe_ports :: "'u usb_env \<Rightarrow> int \<Rightarrow> fabric_usb_device list \<Rightarrow> 'u \<Rightarrow> present_port list \<times> 'u" where
  "probe_ports env i [] u = ([], u)"
| "probe_ports env i (d # ds) u =
     (let (serial, u1) = fabric_device_serial env i u; leg = leg_from_serial serial;
          (available, u2) = fabric_port_available env i u1; (ps, u3) = probe_ports env (i + 1) ds u2
      in (\<lparr>pp_libusb_index = i, pp_leg = leg, pp_display_port = (if 0 \<le> leg then display_port_from_leg leg else 0),
            pp_serial = serial, pp_bus = fd_bus d, pp_addr = fd_addr d, pp_available = available\<rparr> # ps, u3))"

definition list_present_ports :: "'u usb_env \<Rightarrow> 'u \<Rightarrow> present_port list \<times> 'u" where
  "list_present_ports env u =
     (if \<not> ue_ctx env then ([], u)
      else let (devices, u1) = list_fabric_devices env u in probe_ports env 0 devices u1)"

definition auto_pick_libusb_index :: "'u usb_env \<Rightarrow> 'u \<Rightarrow> int \<times> 'u" where
  "auto_pick_libusb_index env u = (if \<not> ue_ctx env then (- 1, u) else resolve_fabric_port_index env u)"

fun pick_port :: "int \<Rightarrow> int \<Rightarrow> present_port list \<Rightarrow> int" where
  "pick_port display_port fallback [] = fallback"
| "pick_port display_port fallback (p # ps) =
     (if pp_display_port p \<noteq> display_port then pick_port display_port fallback ps
      else if pp_available p then pp_libusb_index p
      else pick_port display_port (if fallback < 0 then pp_libusb_index p else fallback) ps)"

definition libusb_index_for_display_port :: "'u usb_env \<Rightarrow> int \<Rightarrow> 'u \<Rightarrow> int \<times> 'u" where
  "libusb_index_for_display_port env display_port u =
     (if display_port < 1 \<or> 4 < display_port then (- 1, u)
      else let (ports, u1) = list_present_ports env u in (pick_port display_port (- 1) ports, u1))"

section \<open>Facts\<close>

lemma pick_port_find:
  assumes "\<forall>p \<in> set ps. 0 \<le> pp_libusb_index p"
  shows "pick_port d fb ps = (case List.find (\<lambda>p. pp_display_port p = d \<and> pp_available p) ps of
      Some p \<Rightarrow> pp_libusb_index p
    | None \<Rightarrow> if 0 \<le> fb then fb else (case List.find (\<lambda>p. pp_display_port p = d) ps of
        Some p \<Rightarrow> pp_libusb_index p | None \<Rightarrow> fb))"
  using assms by (induction d fb ps rule: pick_port.induct) (auto split: option.splits)

lemma probe_ports_entries:
  assumes "probe_ports env i ds u = (ps, u')"
  shows "map pp_libusb_index ps = map (\<lambda>k. i + int k) [0..<length ds]
    \<and> (\<forall>p \<in> set ps. pp_leg p = leg_from_serial (pp_serial p)
      \<and> pp_display_port p = (if 0 \<le> pp_leg p then display_port_from_leg (pp_leg p) else 0))"
  using assms
proof (induction env i ds u arbitrary: ps u' rule: probe_ports.induct)
  case (2 env i d ds u)
  have "map (\<lambda>k. i + int k) (map Suc [0..<n]) = map (\<lambda>k. (i + 1) + int k) [0..<n]" for n
    by simp
  then have shift: "map (\<lambda>k. i + int k) [0..<Suc n] = i # map (\<lambda>k. (i + 1) + int k) [0..<n]" for n
    by (simp add: upt_conv_Cons map_Suc_upt del: upt_Suc)
  obtain serial u1 where a: "fabric_device_serial env i u = (serial, u1)" by fastforce
  obtain available u2 where b: "fabric_port_available env i u1 = (available, u2)" by fastforce
  obtain rest u3 where c: "probe_ports env (i + 1) ds u2 = (rest, u3)" by fastforce
  note ih = "2.IH" [OF a [symmetric] refl refl b [symmetric] refl c]
  show ?case using 2(2) ih by (simp only: length_Cons shift) (auto simp: a b c Let_def)
qed simp

lemma probed_at:
  assumes "list_present_ports env u = (ports, u1)" and "k < length ports"
  shows "pp_libusb_index (ports ! k) = int k \<and> pp_leg (ports ! k) = leg_from_serial (pp_serial (ports ! k))
    \<and> pp_display_port (ports ! k) = (if 0 \<le> pp_leg (ports ! k) then display_port_from_leg (pp_leg (ports ! k)) else 0)"
proof -
  have "ue_ctx env" using assms by (cases "ue_ctx env") (auto simp: list_present_ports_def)
  then obtain ds u2 where pr: "probe_ports env 0 ds u2 = (ports, u1)"
    using assms(1) by (auto simp: list_present_ports_def split: prod.splits)
  note e = probe_ports_entries [OF pr]
  from conjunct1 [OF e] have len: "length ports = length ds" by (metis diff_zero length_map length_upt)
  from conjunct1 [OF e] have "map pp_libusb_index ports ! k = map (\<lambda>k. 0 + int k) [0..<length ds] ! k" by simp
  then have "pp_libusb_index (ports ! k) = int k" using assms(2) len by simp
  with conjunct2 [OF e] nth_mem [OF assms(2)] show ?thesis by blast
qed

text \<open>
  \<open>connect\<close> after \<open>disconnect\<close> does nothing: the controller still exists, and it stays shut
  down. Only \<open>reset_connection\<close> makes the plane usable again.
\<close>

lemma connect_after_disconnect:
  assumes "up_controller p = Some c"
  shows "plane_is_shutting_down (plane_connect env (plane_disconnect p))
    \<and> \<not> up_connected (plane_connect env (plane_disconnect p))
    \<and> \<not> plane_is_shutting_down (plane_reset_connection env p) \<and> up_connected (plane_reset_connection env p)"
  using assms
  by (simp add: plane_connect_def plane_disconnect_def plane_request_shutdown_def ensure_controller_def
      plane_is_shutting_down_def controller_is_shutting_down_def controller_request_shutdown_def
      plane_reset_connection_def Let_def new_controller_def publish_transfer_ui_def should_emit_ui_def set_transfer_ui_def)

lemma plane_controller [simp]: "\<exists>c. up_controller (ensure_controller env p) = Some c"
  by (simp add: ensure_controller_def split: option.splits)

end
