(* ===== verification/Plane_Props.thy ===== *)
theory Plane_Props
  imports Usb_Plane
begin

text \<open>
  Session messages over the USB plane: a message sent through it leaves the files as they were,
  so does a pass of the listener, and on the simulated fabric the message that was sent is the
  one the listener of the other port hands to its callback. Also the choice of a port by its
  silkscreen number, and the file a payload receive leaves on disk.
\<close>

section \<open>Opening the temporary file again\<close>

lemma temp_attempts_reopen:
  "create_temp_attempts n k tmp rng pre suffix fs = (p, fs') \<Longrightarrow> p \<noteq> [] \<Longrightarrow> open_trunc p fs = Some fs'"
  by (induction n arbitrary: k) (auto simp: Let_def split: if_splits option.splits)

lemma reopen_trunc:
  assumes "open_trunc p fs = Some fs1"
  shows "\<exists>fs2. open_trunc p fs1 = Some fs2"
proof -
  have c: "can_create fs p" and fs1: "fs1 = fs_put p (File []) fs"
    using assms by (auto simp: open_trunc_def split: if_splits)
  have "path_parent p = [] \<or> path_parent p \<noteq> p" using c by (auto simp: can_create_def is_directory_def)
  with c have "can_create fs1 p" by (auto simp: can_create_def fs1 is_directory_def)
  then show ?thesis by (simp add: open_trunc_def)
qed

section \<open>Through the simulated hub\<close>

lemma transmit_pending:
  assumes "p \<in> {0, 1}" and "concat (ch_arriving (hub_channel (1 - p) hub)) = []"
  shows "hub_pending (1 - p) (hub_transmit p d hub) = hub_pending (1 - p) hub @ d
    \<and> concat (ch_arriving (hub_channel (1 - p) (hub_transmit p d hub))) = []"
  using assms by (auto simp: hub_pending_def hub_channel_def channel_content_def hub_transmit_def
      set_hub_channel_def channel_push_def simp del: concat_eq_Nil_conv)

lemma transmits_pending:
  assumes "p \<in> {0, 1}"
  shows "concat (ch_arriving (hub_channel (1 - p) hub)) = [] \<Longrightarrow>
    hub_pending (1 - p) (fold (hub_transmit p) ds hub) = hub_pending (1 - p) hub @ concat ds"
proof (induction ds arbitrary: hub)
  case (Cons d ds)
  note t = transmit_pending [OF assms Cons.prems, of d]
  from Cons.IH [OF conjunct2 [OF t]] conjunct1 [OF t] show ?case by simp
qed simp

lemma sim_send_pending:
  assumes "p \<in> {0, 1}" and "hub_pending (1 - p) hub = []"
    and "fabric_sim_send_file path (Some (length c, c)) p secs hub = (r, hub')"
  shows "hub_pending (1 - p) hub' = header_bytes (fill_header (length c) kFrameKindPayload) @ c"
proof -
  obtain ps where ps: "sim_chunks (length c) c = (ps, True)" "concat ps = c"
    using sim_chunks_ok [of "length c" c] by (metis order_refl prod.collapse take_all)
  have "concat (ch_arriving (hub_channel (1 - p) hub)) = []"
    using assms(2) by (simp add: hub_pending_def channel_content_def)
  from transmits_pending [OF assms(1) this, of "header_bytes (fill_header (length c) kFrameKindPayload) # ps"]
  have "hub_pending (1 - p) (fold (hub_transmit p) (header_bytes (fill_header (length c) kFrameKindPayload) # ps) hub)
      = header_bytes (fill_header (length c) kFrameKindPayload) @ c"
    by (simp only: assms(2) ps concat.simps append_Nil)
  moreover have "hub' = fold (hub_transmit p) (header_bytes (fill_header (length c) kFrameKindPayload) # ps) hub"
    using assms(1,3) by (auto simp: fabric_sim_send_file_def sim_send_pushes_def valid_port_def Let_def ps)
  ultimately show ?thesis by simp
qed

lemma fill_header_frame:
  assumes "n < 2 ^ 64"
  shows "header_wf (fill_header n k)" "unat (fh_file_size (fill_header n k)) = n"
    "fh_magic (fill_header n k) = kHeaderMagic"
  using assms by (simp_all add: header_wf_def fill_header_def kHeaderMagic_def unat_of_nat)

text \<open>A send on the simulated fabric that reports success went through the hub.\<close>

lemma sim_plane_send:
  assumes "tp_send_file_on_port (usb_transport env) p path t k (fs, P) = Some (r, fs1, P1)" and "tr_ok r"
    and "ce_sim env" and "up_controller P = Some c" and "read_file path fs = Some bytes"
  obtains r' c1 where "up_controller P1 = Some c1"
    "fabric_sim_send_file path (Some (length bytes, bytes)) p (ce_sim_seconds env) (tc_hub c) = (r', tc_hub c1)"
proof -
  obtain c1 where s: "send_on_port env p path t k fs c = Some (r, c1)" and P1: "up_controller P1 = Some c1"
    using assms(1,4) by (auto simp: usb_transport_def plane_send_file_on_port_def ensure_controller_def Let_def)
  obtain r' hub where f: "fabric_sim_send_file path (Some (length bytes, bytes)) p (ce_sim_seconds env) (tc_hub c) = (r', hub)"
    by fastforce
  have "open_for_reading path fs = Some (length bytes, bytes)" by (simp add: open_for_reading_def assms(5))
  moreover obtain got u where "ce_lock env (tc_usb c) = (got, u)" by fastforce
  ultimately have "tc_hub c1 = hub"
    using s assms(2,3) f
    by (auto simp: send_on_port_def try_usb_lock_def failed_transfer_def empty_transfer_result_def log_sent_def
        controller_log_def Let_def split: if_splits)
  with f P1 that show ?thesis by blast
qed

lemma sim_plane_receive:
  assumes "fabric_sim_receive_file path q (unat t) (ce_sim_seconds env) (tc_hub c) fs = (r, hub', fs')"
    and "ue_ctx (ce_usb env)" and "ce_sim env" and "fst (ce_lock env (tc_usb c))" and "up_controller Q = Some c"
    and "\<not> tc_shutting_down c"
  shows "\<exists>Q'. tp_receive_file_on_port (usb_transport env) q path t k (fs, Q) = Some (r, fs', Q')"
proof -
  obtain u where "ce_lock env (tc_usb c) = (True, u)" using assms(4) by (metis prod.collapse)
  with assms show ?thesis
    by (simp add: usb_transport_def plane_receive_file_on_port_def ensure_controller_def receive_on_port_def
        try_usb_lock_def Let_def)
qed

lemma sim_plane_send_ok:
  assumes "read_file path fs = Some bytes" and "p \<in> {0, 1}" and "ue_ctx (ce_usb env)" and "ce_sim env"
    and "fst (ce_lock env (tc_usb c))" and "up_controller P = Some c" and "\<not> tc_shutting_down c"
  shows "\<exists>r P1 c1. tp_send_file_on_port (usb_transport env) p path t k (fs, P) = Some (r, fs, P1) \<and> tr_ok r
    \<and> up_controller P1 = Some c1"
proof -
  obtain u where l: "ce_lock env (tc_usb c) = (True, u)" using assms(5) by (metis prod.collapse)
  obtain ps where ps: "sim_chunks (length bytes) bytes = (ps, True)"
    using sim_chunks_ok [of "length bytes" bytes] by (metis order_refl prod.collapse)
  have "valid_port p" using assms(2) by (auto simp: valid_port_def)
  then obtain r hub where "fabric_sim_send_file path (open_for_reading path fs) p (ce_sim_seconds env) (tc_hub c) = (r, hub)"
    and "tr_ok r"
    by (simp add: fabric_sim_send_file_def open_for_reading_def assms(1) sim_send_pushes_def ps make_ok_def Let_def)
  then show ?thesis using assms l
    by (simp add: usb_transport_def plane_send_file_on_port_def ensure_controller_def send_on_port_def
        try_usb_lock_def Let_def)
qed

section \<open>A file through the hub\<close>

text \<open>A plane on the simulator whose lock is free.\<close>

definition sim_ready :: "'u ctl_env \<Rightarrow> 'u usb_plane \<Rightarrow> 'u controller \<Rightarrow> bool" where
  "sim_ready env P c \<longleftrightarrow> ue_ctx (ce_usb env) \<and> ce_sim env \<and> fst (ce_lock env (tc_usb c))
     \<and> up_controller P = Some c \<and> \<not> tc_shutting_down c"

lemma sim_file_sent:
  assumes "read_file path fs = Some bytes" and "p \<in> {0, 1}" and "sim_ready env P c" and "hub_pending (1 - p) (tc_hub c) = []"
  obtains r P1 c1 where "tp_send_file_on_port (usb_transport env) p path t k (fs, P) = Some (r, fs, P1)" "tr_ok r"
    "up_controller P1 = Some c1"
    "hub_pending (1 - p) (tc_hub c1) = header_bytes (fill_header (length bytes) kFrameKindPayload) @ bytes"
proof -
  have ready: "ue_ctx (ce_usb env)" "ce_sim env" "fst (ce_lock env (tc_usb c))" "up_controller P = Some c" "\<not> tc_shutting_down c"
    using assms(3) by (simp_all add: sim_ready_def)
  obtain r P1 where s: "tp_send_file_on_port (usb_transport env) p path t k (fs, P) = Some (r, fs, P1)" "tr_ok r"
    using sim_plane_send_ok [OF assms(1,2) ready] by blast
  obtain r' c1 where c1: "up_controller P1 = Some c1"
    "fabric_sim_send_file path (Some (length bytes, bytes)) p (ce_sim_seconds env) (tc_hub c) = (r', tc_hub c1)"
    by (rule sim_plane_send [OF s ready(2,4) assms(1)])
  show thesis by (rule that [OF s c1(1) sim_send_pending [OF assms(2,4) c1(2)]])
qed

lemma sim_file_received:
  assumes "hub_pending q (tc_hub d) = header_bytes (fill_header (length bytes) kFrameKindPayload) @ bytes"
    and "length bytes < 2 ^ 64" and "q \<in> {0, 1}" and "sim_ready env Q d"
    and "open_trunc path fs = Some fs1" and "fs_room fs path = None" and "0 < t"
  obtains r fs' Q1 where "tp_receive_file_on_port (usb_transport env) q path t k (fs, Q) = Some (r, fs', Q1)"
    "tr_ok r" "tr_bytes_transferred r = length bytes" "fs_lookup fs' path = Some (File bytes)" "fs_denied fs' = fs_denied fs"
    "\<forall>x. x \<noteq> path \<longrightarrow> fs_lookup fs' x = fs_lookup fs x"
proof -
  note hdr = fill_header_frame [OF assms(2), of kFrameKindPayload]
  have port: "valid_port q" using assms(3) by (auto simp: valid_port_def)
  have t: "0 < unat t" using assms(7) by (simp add: word_less_nat_alt)
  obtain hub' fs' where rc: "fabric_sim_receive_file path q (unat t) (ce_sim_seconds env) (tc_hub d) fs
      = (make_ok (length bytes) (length bytes) (ce_sim_seconds env), hub', fs')"
    and f: "fs_lookup fs' path = Some (File bytes)" "fs_denied fs' = fs_denied fs"
      "\<forall>x. x \<noteq> path \<longrightarrow> fs_lookup fs' x = fs_lookup fs x"
    by (rule sim_receive_frame [OF port hdr(1) assms(1) hdr(2) t hdr(3) assms(5,6)])
  obtain Q1 where "tp_receive_file_on_port (usb_transport env) q path t k (fs, Q)
      = Some (make_ok (length bytes) (length bytes) (ce_sim_seconds env), fs', Q1)"
    using sim_plane_receive [OF rc] assms(4) by (auto simp: sim_ready_def)
  from that [OF this _ _ f] show thesis by (simp add: make_ok_def)
qed

section \<open>Properties\<close>

text \<open>
  sending a session message over the USB plane never leaves the message's temporary file
  behind when it reports success, and never touches a file that was there before, whether it
  reports success or failure.
\<close>

theorem usb_message_leaves_no_file:
  assumes "send_session_message (usb_transport env) tmp rng port m t (fs, P) = Some (r, fs', P')"
  shows "(r = Inr () \<longrightarrow> fs_lookup fs' = fs_lookup fs)
    \<and> (\<forall>q. fs_lookup fs q \<noteq> None \<longrightarrow> fs_lookup fs' q = fs_lookup fs q)"
  using usb_link.session_send_clean [of env tmp rng port m t fs P fs' P'] usb_link.session_send_frame [OF assms] assms
  by auto


text \<open>
  C8: on the simulated fabric a session message arrives as it was sent: when the sending port
  reports success and the other port had nothing pending, the receive of the other port's
  listener returns and the listener hands exactly this message to its callback, unless it was
  stopped meanwhile; afterwards the files are as before the send.
\<close>

theorem sim_message_delivered:
  assumes "sendable m" and "length (session_payload m) < 2 ^ 64" and "p \<in> {0, 1}" and "ce_sim env0"
    and "up_controller P = Some c" and "hub_pending (1 - p) (tc_hub c) = []"
    and "send_session_message (usb_transport env0) tmp rng p m t0 (fs, P) = Some (Inr (), fs1, P1)"
    and "up_controller P1 = Some c1" and "tc_hub d = tc_hub c1"
    and "ue_ctx (ce_usb env1)" and "ce_sim env1" and "fst (ce_lock env1 (tc_usb d))"
    and "up_controller Q = Some d" and "\<not> tc_shutting_down d"
    and "temp_receive_path tmp rng1 fs1 = (path, fs2)" and "path \<noteq> []" and "fs_room fs2 path = None" and "0 < t"
  shows "\<exists>r fs3 Q1. tp_receive_file_on_port (usb_transport env1) (1 - p) path t 0 (fs2, Q) = Some (r, fs3, Q1)
    \<and> (\<not> ls_stop l \<longrightarrow> fst (listen_received (1 - p) now path r l fs3) = Result_Message m)
    \<and> fs_lookup (listen_end path fs3) = fs_lookup fs"
proof -
  let ?bytes = "session_payload m" and ?hdr = "fill_header (length (session_payload m)) kFrameKindPayload"
  obtain sp fsw where w: "write_temp_text_file tmp rng ''slsfabric-session-'' ?bytes fs = (sp, fsw)" by fastforce
  obtain k r0 fs0 where ne: "sp \<noteq> []" and ok: "tr_ok r0"
    and s: "tp_send_file_on_port (usb_transport env0) p sp k kFrameKindSession (fsw, P) = Some (r0, fs0, P1)"
    using assms(1,7) w
    by (auto simp: send_session_message_def write_session_temp_file_def sendable_def Let_def split: if_splits option.splits)
  obtain r' c' where "up_controller P1 = Some c'"
    "fabric_sim_send_file sp (Some (length ?bytes, ?bytes)) p (ce_sim_seconds env0) (tc_hub c) = (r', tc_hub c')"
    by (rule sim_plane_send [OF s ok assms(4,5) temp_files.write_temp_read [OF w ne]])
  then have pend: "hub_pending (1 - p) (tc_hub d) = header_bytes ?hdr @ ?bytes"
    using sim_send_pending [OF assms(3,6)] assms(8,9) by simp
  obtain fs2' where o: "open_trunc path fs2 = Some fs2'"
    using reopen_trunc [OF temp_attempts_reopen [OF assms(15) [unfolded temp_receive_path_def create_empty_temp_file_def] assms(16)]]
    by blast
  have q: "1 - p \<in> {0, 1}" using assms(3) by auto
  have ready: "sim_ready env1 Q d" using assms(10-14) by (simp add: sim_ready_def)
  obtain r fs3 Q1 where rc: "tp_receive_file_on_port (usb_transport env1) (1 - p) path t 0 (fs2, Q) = Some (r, fs3, Q1)"
    "tr_ok r" "tr_bytes_transferred r = length ?bytes" and f3: "fs_lookup fs3 path = Some (File ?bytes)" "fs_denied fs3 = fs_denied fs2"
      "\<forall>x. x \<noteq> path \<longrightarrow> fs_lookup fs3 x = fs_lookup fs2 x"
    by (rule sim_file_received [OF pend assms(2) q ready o assms(17,18)])
  note fresh = temp_receive_path_fresh [OF assms(15,16)]
  have allowed: "\<not> fs_denied fs3 path" using temp_receive_path_allowed [OF assms(15,16)] fresh f3(2) by simp
  have "read_session_file path fs3 empty_session_message = Inr (True, m)"
    using read_sent_file [OF assms(1)] f3(1) allowed by (simp add: read_file_def)
  then have "\<not> ls_stop l \<longrightarrow> fst (listen_received (1 - p) now path r l fs3) = Result_Message m"
    using rc(2) by (simp add: listen_received_def Let_def)
  moreover have "fs_lookup (listen_end path fs3) = fs_lookup fs1"
    unfolding listen_end_def by (rule remove_fresh) (use fresh f3 allowed in auto)
  moreover have "fs_lookup fs1 = fs_lookup fs" by (rule usb_link.session_send_clean [OF assms(7)])
  ultimately show ?thesis using rc(1) by auto
qed



section \<open>Samples\<close>

definition sim_env :: "int \<Rightarrow> int ctl_env" where
  "sim_env p = \<lparr>ce_port_index = p, ce_usb = static_env [] (\<lambda>_. 0), ce_settings = default_usb_settings, ce_knob = None,
     ce_sim = True, ce_sim_seconds = 1, ce_fuel = 0, ce_deliver = (\<lambda>_ _ _. True), ce_ring = (\<lambda>u. ([], 0, u)),
     ce_cross = (\<lambda>u. ([], u)), ce_lock = (\<lambda>u. (True, u)), ce_tmp = ''/tmp''\<rparr>"

definition idle_plane :: "int \<Rightarrow> sim_hub \<Rightarrow> int usb_plane" where
  "idle_plane p hub = new_plane (sim_env p) hub 0"

lemma idle_plane_controller:
  "\<exists>c. up_controller (idle_plane p hub) = Some c \<and> tc_hub c = hub \<and> \<not> tc_shutting_down c \<and> tc_usb c = 0"
  by (simp add: idle_plane_def new_plane_def ensure_controller_def new_controller_def sim_env_def static_env_def)

lemma sim_env_fields: "ue_ctx (ce_usb (sim_env p))" "ce_sim (sim_env p)" "ce_lock (sim_env p) u = (True, u)"
  by (simp_all add: sim_env_def static_env_def)

definition sample_after :: file_system where
  "sample_after = snd (remove_path ''/tmp/slsfabric-session-12''
     (snd (write_session_temp_file ''/tmp'' (\<lambda>_. (1, 2)) sample_offer sample_store)))"

lemma sample_sent:
  obtains P1 c1 where "send_session_message (usb_transport (sim_env 0)) ''/tmp'' (\<lambda>_. (1, 2)) 0 sample_offer 0
      (sample_store, idle_plane 0 idle_hub) = Some (Inr (), sample_after, P1)" "up_controller P1 = Some c1"
proof -
  let ?w = "write_session_temp_file ''/tmp'' (\<lambda>_. (1, 2)) sample_offer sample_store"
  obtain fsw where w: "?w = (''/tmp/slsfabric-session-12'', fsw)" using sample_store_write by (metis prod.collapse)
  then have "write_temp_text_file ''/tmp'' (\<lambda>_. (1, 2)) ''slsfabric-session-'' (session_payload sample_offer) sample_store
      = (''/tmp/slsfabric-session-12'', fsw)"
    by (simp add: write_session_temp_file_def sample_offer_def split: if_splits)
  from temp_files.write_temp_read [OF this] have rd: "read_file ''/tmp/slsfabric-session-12'' fsw = Some (session_payload sample_offer)"
    by simp
  obtain c where c: "up_controller (idle_plane 0 idle_hub) = Some c" "\<not> tc_shutting_down c"
    using idle_plane_controller by blast
  have lock: "fst (ce_lock (sim_env 0) (tc_usb c))" by (simp add: sim_env_fields)
  have zero: "(0 :: int) \<in> {0, 1}" by simp
  obtain r P1 c1 where s: "tp_send_file_on_port (usb_transport (sim_env 0)) 0 ''/tmp/slsfabric-session-12'' kSessionSendTimeoutMs
      kFrameKindSession (fsw, idle_plane 0 idle_hub) = Some (r, fsw, P1)" "tr_ok r" "up_controller P1 = Some c1"
    using sim_plane_send_ok [OF rd zero sim_env_fields(1,2) lock c] by blast
  have "\<not> tp_is_shutting_down (usb_transport (sim_env 0)) (idle_plane 0 idle_hub)"
    using c by (simp add: usb_transport_def plane_is_shutting_down_def controller_is_shutting_down_def)
  then have "send_session_message (usb_transport (sim_env 0)) ''/tmp'' (\<lambda>_. (1, 2)) 0 sample_offer 0
      (sample_store, idle_plane 0 idle_hub) = Some (Inr (), sample_after, P1)"
    using s by (simp add: send_session_message_def w sample_after_def Let_def)
  with s(3) that show ?thesis by blast
qed

lemma usb_message_leaves_no_file_witness:
  "\<exists>fs1 P1. send_session_message (usb_transport (sim_env 0)) ''/tmp'' (\<lambda>_. (1, 2)) 0 sample_offer 0
      (sample_store, idle_plane 0 idle_hub) = Some (Inr (), fs1, P1) \<and> fs_lookup fs1 = fs_lookup sample_store"
proof -
  obtain fs1 P1 where s: "send_session_message (usb_transport (sim_env 0)) ''/tmp'' (\<lambda>_. (1, 2)) 0 sample_offer 0
      (sample_store, idle_plane 0 idle_hub) = Some (Inr (), fs1, P1)" using sample_sent by blast
  with usb_message_leaves_no_file [OF s] show ?thesis by blast
qed


lemma sim_message_delivered_witness:
  "\<exists>fs1 P1 c1 path fs2 r fs3 Q1.
     send_session_message (usb_transport (sim_env 0)) ''/tmp'' (\<lambda>_. (1, 2)) 0 sample_offer 0
       (sample_store, idle_plane 0 idle_hub) = Some (Inr (), fs1, P1) \<and> up_controller P1 = Some c1
   \<and> temp_receive_path ''/tmp'' (\<lambda>_. (1, 2)) fs1 = (path, fs2)
   \<and> tp_receive_file_on_port (usb_transport (sim_env 1)) 1 path 2000 0 (fs2, idle_plane 1 (tc_hub c1)) = Some (r, fs3, Q1)
   \<and> fst (listen_received 1 0 path r new_listener fs3) = Result_Message sample_offer"
proof -
  obtain P1 c1 where s: "send_session_message (usb_transport (sim_env 0)) ''/tmp'' (\<lambda>_. (1, 2)) 0 sample_offer 0
      (sample_store, idle_plane 0 idle_hub) = Some (Inr (), sample_after, P1)" and P1: "up_controller P1 = Some c1"
    by (rule sample_sent)
  obtain c where c: "up_controller (idle_plane 0 idle_hub) = Some c" "tc_hub c = idle_hub" using idle_plane_controller by blast
  obtain d where d: "tc_hub d = tc_hub c1" "up_controller (idle_plane 1 (tc_hub c1)) = Some d" "\<not> tc_shutting_down d"
    using idle_plane_controller by blast
  have "fst (temp_receive_path ''/tmp'' (\<lambda>_. (1, 2)) sample_after) = ''/tmp/slsfabric-sess-recv-12''" by code_simp
  then obtain fs2 where tmpf: "temp_receive_path ''/tmp'' (\<lambda>_. (1, 2)) sample_after = (''/tmp/slsfabric-sess-recv-12'', fs2)"
    by (metis prod.collapse)
  then have "snd (temp_receive_path ''/tmp'' (\<lambda>_. (1, 2)) sample_after) = fs2" by simp
  moreover have "fs_room (snd (temp_receive_path ''/tmp'' (\<lambda>_. (1, 2)) sample_after)) ''/tmp/slsfabric-sess-recv-12'' = None"
    by code_simp
  ultimately have room: "fs_room fs2 ''/tmp/slsfabric-sess-recv-12'' = None" by simp
  have "length (session_payload sample_offer) < 300" by code_simp
  then have small: "length (session_payload sample_offer) < 2 ^ 64" by simp
  have idle: "hub_pending (1 - 0) (tc_hub c) = []"
    by (simp add: c idle_hub_def hub_pending_def hub_channel_def channel_content_def)
  have lock: "fst (ce_lock (sim_env 1) (tc_usb d))" by (simp add: sim_env_fields)
  have zero: "(0 :: int) \<in> {0, 1}" by simp
  have nonempty: "''/tmp/slsfabric-sess-recv-12'' \<noteq> []" and t: "0 < (2000 :: u32)" by simp_all
  from sim_message_delivered [OF sendable_sample_offer small zero sim_env_fields(2) c(1) idle s P1 d(1)
      sim_env_fields(1,2) lock d(2,3) tmpf nonempty room t, of new_listener 0]
  obtain r fs3 Q1 where "tp_receive_file_on_port (usb_transport (sim_env 1)) 1 ''/tmp/slsfabric-sess-recv-12'' 2000 0
        (fs2, idle_plane 1 (tc_hub c1)) = Some (r, fs3, Q1)"
    "fst (listen_received 1 0 ''/tmp/slsfabric-sess-recv-12'' r new_listener fs3) = Result_Message sample_offer"
    by (auto simp: new_listener_def)
  with s P1 tmpf show ?thesis by blast
qed

text \<open>Two cables: the first one is at leg 1 and in use, the second one is at leg 1 as well and free.\<close>

definition probe_env :: "int usb_env" where
  "probe_env = (static_env [\<lparr>ld_bus = 1, ld_addr = 3, ld_descriptor = Some (kVendorId, kProductId, 1)\<rparr>,
       \<lparr>ld_bus = 1, ld_addr = 4, ld_descriptor = Some (kVendorId, kProductId, 1)\<rparr>] (\<lambda>_. 0))
     \<lparr>ue_string_descriptor := (\<lambda>d _ u. (''2'', u)),
      ue_claim_interface := (\<lambda>d u. (if ld_addr d = 3 then - 6 else 0, u))\<rparr>"

lemma two_leg: "fabric_leg_from_serial ''2'' = 1"
  by (simp add: fabric_leg_from_serial_def stoull_base_def strtol_def strip_front_def is_space_def skip_sign_def
      digit_val_def digits_value_def skip_hex_prefix_def Let_def)

lemma probe_env_ports:
  "map (\<lambda>p. (pp_libusb_index p, pp_display_port p, pp_available p)) (fst (list_present_ports probe_env 0))
     = [(0, 2, False), (1, 2, True)]"
  by (simp add: list_present_ports_def list_fabric_devices_def probe_env_def static_env_def is_fabric_def fabric_id_def
      fabric_device_serial_def fabric_port_available_def nth_fabric_def open_device_by_index_def leg_from_serial_def two_leg
      display_port_from_leg_def less_eq_fabric_usb_device_def sorted_before_def LIBUSB_SUCCESS_def LIBUSB_ERROR_ACCESS_def
      LIBUSB_ERROR_BUSY_def
      Let_def)


definition sample_frame :: file_header where
  "sample_frame = fill_file_header 3 kFrameKindPayload (Some ''f'')"

definition sample_settings :: usb_settings where
  "sample_settings = set_inflight_budget_mb 4 default_usb_settings"

lemma sample_frame_prepared:
  "\<exists>fs1. receive_prepare 1 stream_env ''/tmp/out'' 0 1000 kFrameKindPayload sample_store (header_bytes sample_frame)
     = Some (Inr (sample_device 7, sample_frame), fs1, [])"
proof -
  have wf: "header_wf sample_frame" by (simp add: sample_frame_def fill_file_header_wf)
  have len: "length (header_bytes sample_frame) = kHeaderSize" by (rule header_bytes_length [OF wf])
  have decode: "header_of_bytes (header_bytes sample_frame) = sample_frame" by (rule header_codec(1) [OF wf])
  have fields: "fh_magic sample_frame = kHeaderMagic" "fh_frame_kind sample_frame = kFrameKindPayload"
    by (simp_all add: sample_frame_def fill_file_header_def)
  have hs: "0 < kHeaderSize" "kHeaderSize \<le> kChunkSize" by (simp_all add: kHeaderSize_def kChunkSize_def)
  have read: "bulk_read_all (Suc 0) stream_env (sample_device 7) [] kHeaderSize ms (header_bytes sample_frame)
      = Some (Some (header_bytes sample_frame), [])" for ms
    using stream_read [OF hs(1) _ hs(2), of "header_bytes sample_frame" 0 "sample_device 7" ms] len by simp
  have now: "ue_now stream_env u = (0, u)" for u by (simp add: stream_env_def)
  have kinds: "kFrameKindPayload \<noteq> kFrameKindSession" by (simp add: kFrameKindPayload_def kFrameKindSession_def)
  have hdr: "receive_header (Suc 0) stream_env (sample_device 7) 1000 kFrameKindPayload (header_bytes sample_frame)
      = Some (Inr sample_frame, [])"
    using read kinds by (simp add: now remaining_timeout_ms_def decode fields)
  have dev: "open_device_by_index stream_env 0 5 u = (Inr (sample_device 7), u)" for u
    by (simp add: open_device_by_index_def list_fabric_devices_def stream_env_def is_fabric_def sample_device_def
        fabric_id_def LIBUSB_SUCCESS_def Let_def eval_nat_numeral)
  have "can_create sample_store ''/tmp/out''" by code_simp
  then show ?thesis by (simp add: receive_prepare_def dev open_trunc_def now hdr del: receive_header.simps)
qed


end
