(* ===== verification/Orch_State.thy ===== *)
theory Orch_State
  imports Listener Announce Roster Identity Link_Status Tar_Pack Receive_Payload Meta_File
begin

text \<open>
  The state of \<open>TransferOrchestrator\<close> (\<open>lib/session/transfer_orchestrator.h\<close>) and the helpers
  every handler uses: staging, publishing, the end of a transfer, progress and the dismissal of
  its display (\<open>lib/session/transfer_orchestrator.cpp\<close>).

  Each function is what the code does between two points where it may block; the mutex makes
  the accesses in between exclusive. Calls of the log and of the user interface callback are
  recorded in \<open>oc_log\<close> and \<open>oc_published\<close>, the timers that were started in \<open>oc_timers\<close>.
\<close>

section \<open>Helpers\<close>

definition file_size_bytes :: "file_system \<Rightarrow> string \<Rightarrow> u64" where
  "file_size_bytes fs path = fs_file_size fs path"

text \<open>A directory counts the regular files below it.\<close>

definition files_below :: "file_system \<Rightarrow> string \<Rightarrow> string list" where
  "files_below fs path = filter (\<lambda>q. is_below path q \<and> is_regular_file fs q) (remdups (map fst (fs_entries fs)))"

definition count_files_in_paths :: "file_system \<Rightarrow> string list \<Rightarrow> u32" where
  "count_files_in_paths fs paths = of_nat (sum_list (map (\<lambda>path.
     if is_directory fs path then length (files_below fs path)
     else if is_regular_file fs path then 1 else 0) paths))"

definition basename_of :: "string \<Rightarrow> string" where
  "basename_of path = path_filename path"

definition looks_like_done_display :: "string \<Rightarrow> bool" where
  "looks_like_done_display text \<longleftrightarrow> text \<noteq> [] \<and>
     (contains ''Sent at'' text \<or> contains ''Received at'' text \<or> text = ''Sent'' \<or> text = ''Received'')"

text \<open>One line of the file with the ports a test run found; a bad number keeps the old value.\<close>

definition booth_path_line :: "string \<Rightarrow> int \<times> int \<Rightarrow> int \<times> int" where
  "booth_path_line line ports = (case split_at CHR ''='' line of
       None \<Rightarrow> ports
     | Some (key, value) \<Rightarrow> (case stoi value of
         Inl _ \<Rightarrow> ports
       | Inr v \<Rightarrow> if key = ''send_port'' then (v, snd ports)
           else if key = ''recv_port'' then (fst ports, v) else ports))"

definition shared_booth_path_config :: "string \<Rightarrow> string" where
  "shared_booth_path_config tmp = tmp @ ''/slsfabric-booth-path.conf''"

definition load_shared_booth_path :: "string \<Rightarrow> file_system \<Rightarrow> int \<times> int \<Rightarrow> int \<times> int" where
  "load_shared_booth_path tmp fs ports = (case read_file (shared_booth_path_config tmp) fs of
       None \<Rightarrow> ports | Some text \<Rightarrow> fold booth_path_line (getlines text) ports)"

section \<open>State\<close>

datatype transfer_done_kind = Done_None | Done_Sent | Done_Received

record orch_ui =
  ui_roster :: "peer_entry list"
  ui_identity :: identity_profile
  ui_busy :: bool
  ui_waiting_for_partner :: bool
  ui_status_message :: string
  ui_error_message :: string
  ui_pending_offer :: "fabric_session_message option"
  ui_bytes_done :: u64
  ui_bytes_total :: u64
  ui_live_mbps :: double
  ui_peak_mbps :: double
  ui_result_mbps :: double
  ui_booth_display_mib_s :: double
  ui_transfer_label :: string
  ui_notification :: string
  ui_fabric_connected :: bool
  ui_fabric_devices_seen :: int
  ui_fabric_port_open :: bool
  ui_fabric_port_index :: int
  ui_fabric_device_label :: string
  ui_last_announce_ms :: int
  ui_fabric_activity_seq :: u32

definition initial_ui :: "identity_profile \<Rightarrow> peer_entry list \<Rightarrow> orch_ui" where
  "initial_ui identity roster = \<lparr>ui_roster = roster, ui_identity = identity, ui_busy = False,
     ui_waiting_for_partner = False, ui_status_message = [], ui_error_message = [], ui_pending_offer = None,
     ui_bytes_done = 0, ui_bytes_total = 0, ui_live_mbps = 0, ui_peak_mbps = 0, ui_result_mbps = 0,
     ui_booth_display_mib_s = ip_booth_display_mib_s identity, ui_transfer_label = [], ui_notification = [],
     ui_fabric_connected = False, ui_fabric_devices_seen = 0, ui_fabric_port_open = False,
     ui_fabric_port_index = 0, ui_fabric_device_label = [], ui_last_announce_ms = 0, ui_fabric_activity_seq = 0\<rparr>"

record staged_payload =
  stg_path :: string
  stg_display_name :: string
  stg_payload_type :: string
  stg_is_temp :: bool
  stg_file_count :: u32
  stg_total_bytes :: u64

definition no_staged :: staged_payload where
  "no_staged = \<lparr>stg_path = [], stg_display_name = [], stg_payload_type = [], stg_is_temp = False,
     stg_file_count = 1, stg_total_bytes = 0\<rparr>"

text \<open>Members of the class, with the files and the transport's state.\<close>

record 'u orch =
  oc_port_index :: int
  oc_identity :: identity_profile
  oc_handshake :: handshake_timing
  oc_roster :: "peer_entry list"
  oc_state :: orch_ui
  oc_shutting_down :: bool
  oc_outbound_offer :: "fabric_session_message option"
  oc_staged :: staged_payload
  oc_awaiting_ready :: bool
  oc_wiring_checked :: bool
  oc_listener_started :: bool
  oc_working_ports :: "int \<times> int"
  oc_fabric_was_connected :: bool
  oc_last_announce_ms :: int
  oc_instance_id :: string
  oc_accepting :: "string option"
  oc_last_completed :: "string option"
  oc_dismiss_epoch :: u64
  oc_last_probe_ms :: int
  oc_cached_port_ok :: bool
  oc_cached_devices :: int
  oc_listener :: listener
  oc_usb_settings :: usb_settings
  oc_timers :: "u64 list"
  oc_published :: "orch_ui list"
  oc_log :: "log_line list"
  oc_fs :: file_system
  oc_usb :: 'u

text \<open>The surroundings: transport, temporary directory, the \<open>tar\<close> program, the kernel's usbfs limit.\<close>

record 'u orch_env =
  oe_tp :: "'u transport"
  oe_tmp :: string
  oe_exec :: "string list \<Rightarrow> file_system \<Rightarrow> process_outcome \<times> file_system"
  oe_usbfs_knob :: "string option"

text \<open>What the clock and the random generators answer during one step.\<close>

record step_input =
  si_now :: int
  si_rng :: "nat \<Rightarrow> u32 \<times> u32"
  si_rolls :: "nat \<Rightarrow> nat"
  si_draw :: double

section \<open>Publishing and logging\<close>

definition booth_event :: "int \<Rightarrow> string \<Rightarrow> string \<Rightarrow> 'u orch \<Rightarrow> 'u orch" where
  "booth_event leg event detail s = s\<lparr>oc_log := oc_log s @ [(leg, event, detail)]\<rparr>"

definition publish_state :: "'u orch \<Rightarrow> 'u orch" where
  "publish_state s = (if oc_shutting_down s then s else s\<lparr>oc_published := oc_published s @ [oc_state s]\<rparr>)"

definition set_ui :: "(orch_ui \<Rightarrow> orch_ui) \<Rightarrow> 'u orch \<Rightarrow> 'u orch" where
  "set_ui f s = s\<lparr>oc_state := f (oc_state s)\<rparr>"

definition set_listener :: "(listener \<Rightarrow> listener) \<Rightarrow> 'u orch \<Rightarrow> 'u orch" where
  "set_listener f s = s\<lparr>oc_listener := f (oc_listener s)\<rparr>"

definition remove_file :: "string \<Rightarrow> 'u orch \<Rightarrow> 'u orch" where
  "remove_file path s = s\<lparr>oc_fs := snd (remove_path path (oc_fs s))\<rparr>"

definition is_busy :: "'u orch \<Rightarrow> bool" where
  "is_busy s \<longleftrightarrow> ui_busy (oc_state s) \<or> oc_accepting s \<noteq> None"

definition bump_fabric_activity :: "'u orch \<Rightarrow> 'u orch" where
  "bump_fabric_activity s =
     publish_state (set_ui (\<lambda>x. x\<lparr>ui_fabric_activity_seq := ui_fabric_activity_seq x + 1\<rparr>) s)"

text \<open>The reads of the transport that may update its caches.\<close>

definition read_transport :: "('u \<Rightarrow> 'a \<times> 'u) \<Rightarrow> 'u orch \<Rightarrow> 'a \<times> 'u orch" where
  "read_transport f s = (let (x, u) = f (oc_usb s) in (x, s\<lparr>oc_usb := u\<rparr>))"

section \<open>Construction and identity\<close>

definition apply_usb_settings :: "identity_profile \<Rightarrow> usb_settings \<Rightarrow> usb_settings" where
  "apply_usb_settings identity us =
     (let us1 = (if 0 < ip_transfer_timeout_ms identity
            then set_payload_timeout_ms (word_of_int (ip_transfer_timeout_ms identity)) us else us)
      in if 0 < ip_usb_inflight_mb identity
         then set_inflight_budget_mb (word_of_int (ip_usb_inflight_mb identity)) us1 else us1)"

definition new_orchestrator :: "'u orch_env \<Rightarrow> (nat \<Rightarrow> nat) \<Rightarrow> identity_profile \<Rightarrow> usb_settings
    \<Rightarrow> file_system \<Rightarrow> 'u \<Rightarrow> 'u orch" where
  "new_orchestrator env rolls identity us fs u =
     (let port = tp_port_index (oe_tp env); hs = handshake_timing_from_identity identity;
          us1 = apply_usb_settings identity us; roster = peer_entries_from_config (ip_peers identity);
          depth = effective_queue_depth us1 (oe_usbfs_knob env);
          log0 = [(port, ''usb_inflight'', ''usbfs_limit_mb='' @ show_nat (unat (read_usbfs_limit_mb (oe_usbfs_knob env)))
            @ '' queue_depth='' @ show_nat (unat depth))];
          log1 = (if 0 < ip_booth_display_mib_s identity
            then [(port, ''booth_display'', ''base_mib_s='' @ show_fixed 6 (ip_booth_display_mib_s identity)
              @ '' jitter_pct='' @ show_fixed 6 (ip_booth_display_jitter_pct identity))] else [])
      in publish_state \<lparr>oc_port_index = port, oc_identity = identity, oc_handshake = hs, oc_roster = roster,
           oc_state = initial_ui identity roster, oc_shutting_down = False, oc_outbound_offer = None,
           oc_staged = no_staged, oc_awaiting_ready = False, oc_wiring_checked = False, oc_listener_started = False,
           oc_working_ports = (1, 0), oc_fabric_was_connected = False, oc_last_announce_ms = 0,
           oc_instance_id = make_instance_id rolls, oc_accepting = None, oc_last_completed = None,
           oc_dismiss_epoch = 0, oc_last_probe_ms = 0, oc_cached_port_ok = False, oc_cached_devices = 0,
           oc_listener = set_session_header_timeout_ms (ht_session_header_timeout_ms hs) new_listener,
           oc_usb_settings = us1, oc_timers = [], oc_published = [], oc_log = log0 @ log1, oc_fs = fs, oc_usb = u\<rparr>)"

definition set_identity :: "identity_profile \<Rightarrow> 'u orch \<Rightarrow> 'u orch" where
  "set_identity identity s =
     (let roster = peer_entries_from_config (ip_peers identity);
          s1 = (set_ui (\<lambda>x. x\<lparr>ui_identity := identity, ui_booth_display_mib_s := ip_booth_display_mib_s identity,
              ui_roster := roster\<rparr>) s)\<lparr>oc_identity := identity, oc_handshake := handshake_timing_from_identity identity,
            oc_usb_settings := apply_usb_settings identity (oc_usb_settings s), oc_roster := roster,
            oc_last_announce_ms := 0\<rparr>
      in publish_state (s1\<lparr>oc_fs := snd (save_identity_profile identity (oc_fs s1))\<rparr>))"

section \<open>Staging\<close>

definition stage_paths :: "'u orch_env \<Rightarrow> (nat \<Rightarrow> u32 \<times> u32) \<Rightarrow> string list \<Rightarrow> file_system
    \<Rightarrow> (string + staged_payload) \<times> file_system" where
  "stage_paths env rng paths fs =
     (if paths = [] then (Inl ''No files selected'', fs)
      else let n = count_files_in_paths fs paths; p = hd paths
        in if length paths = 1 \<and> is_regular_file fs p
           then (Inr \<lparr>stg_path = p, stg_display_name = basename_of p, stg_payload_type = ''file'',
                  stg_is_temp = False, stg_file_count = n, stg_total_bytes = file_size_bytes fs p\<rparr>, fs)
           else if length paths = 1 \<and> is_directory fs p
           then (case create_tar_for_directory (oe_tmp env) rng (oe_exec env) p fs of
               (Inl e, fs1) \<Rightarrow> (Inl e, fs1)
             | (Inr tar, fs1) \<Rightarrow> (Inr \<lparr>stg_path = tar, stg_display_name = basename_of p @ ''.tar'', stg_payload_type = ''tar'',
                  stg_is_temp = True, stg_file_count = n, stg_total_bytes = file_size_bytes fs1 tar\<rparr>, fs1))
           else (case create_tar_for_paths (oe_tmp env) rng (oe_exec env) paths fs of
               (Inl e, fs1) \<Rightarrow> (Inl (if e = [] then ''Could not stage files'' else e), fs1)
             | (Inr tar, fs1) \<Rightarrow> (Inr \<lparr>stg_path = tar, stg_display_name = ''transfer-bundle.tar'', stg_payload_type = ''tar'',
                  stg_is_temp = True, stg_file_count = n, stg_total_bytes = file_size_bytes fs1 tar\<rparr>, fs1)))"

definition remove_staged :: "staged_payload \<Rightarrow> 'u orch \<Rightarrow> 'u orch" where
  "remove_staged staged s = (if stg_is_temp staged then remove_file (stg_path staged) s else s)"

section \<open>The end of a transfer\<close>

definition clear_outbound_session :: "'u orch \<Rightarrow> 'u orch" where
  "clear_outbound_session s = s\<lparr>oc_outbound_offer := None, oc_staged := no_staged, oc_awaiting_ready := False\<rparr>"

definition ensure_listener_active :: "'u orch \<Rightarrow> 'u orch" where
  "ensure_listener_active = set_listener listener_resume"

definition invalidate_dismiss :: "'u orch \<Rightarrow> 'u orch" where
  "invalidate_dismiss s = s\<lparr>oc_dismiss_epoch := oc_dismiss_epoch s + 1\<rparr>"

definition schedule_dismiss :: "'u orch \<Rightarrow> 'u orch" where
  "schedule_dismiss s = (let epoch = oc_dismiss_epoch s + 1
     in s\<lparr>oc_dismiss_epoch := epoch, oc_timers := oc_timers s @ [epoch]\<rparr>)"

text \<open>The byte counts and rates that a success displays.\<close>

definition show_finished :: "transfer_result option \<Rightarrow> orch_ui \<Rightarrow> orch_ui" where
  "show_finished result x = (case result of
       Some r \<Rightarrow>
         let transferred = of_nat (tr_bytes_transferred r);
             expected = (if 0 < tr_expected_bytes r then of_nat (tr_expected_bytes r) else ui_bytes_total x);
             x1 = (if 0 < expected then x\<lparr>ui_bytes_total := expected\<rparr> else x);
             x2 = (if 0 < transferred then x1\<lparr>ui_bytes_done := transferred\<rparr>
                else if 0 < expected then x1\<lparr>ui_bytes_done := expected\<rparr> else x1)
         in if 0 < ui_booth_display_mib_s x2
            then x2\<lparr>ui_result_mbps := ui_booth_display_mib_s x2, ui_peak_mbps := ui_booth_display_mib_s x2\<rparr>
            else let speed_bytes = (if 0 < transferred then transferred else expected);
                     measured = (if tr_mbps r \<le> 0 \<and> 0 < speed_bytes \<and> 0 < tr_seconds r
                       then (of_nat (unat speed_bytes) / (1024 * 1024)) / max (tr_seconds r) (1 / 1000) else tr_mbps r)
              in if 0 < measured
                 then x2\<lparr>ui_result_mbps := measured, ui_peak_mbps := max (ui_peak_mbps x2) measured\<rparr>
                 else if 0 < ui_peak_mbps x2 then x2\<lparr>ui_result_mbps := ui_peak_mbps x2\<rparr> else x2
     | None \<Rightarrow>
         if 0 < ui_bytes_total x
         then let x1 = x\<lparr>ui_bytes_done := ui_bytes_total x\<rparr>
           in if 0 < ui_booth_display_mib_s x1
              then x1\<lparr>ui_result_mbps := ui_booth_display_mib_s x1, ui_peak_mbps := ui_booth_display_mib_s x1\<rparr>
              else if 0 < ui_peak_mbps x1 then x1\<lparr>ui_result_mbps := ui_peak_mbps x1\<rparr> else x1
         else x)"

definition finish_transfer :: "bool \<Rightarrow> string \<Rightarrow> string \<Rightarrow> transfer_result option \<Rightarrow> transfer_done_kind
    \<Rightarrow> 'u orch \<Rightarrow> 'u orch" where
  "finish_transfer ok message error result done_kind s =
     (let s1 = booth_event (oc_port_index s) (if ok then ''transfer_done'' else ''transfer_fail'')
            (message @ (if error = [] then [] else '' err='' @ error)) s;
          s2 = set_ui (\<lambda>x. x\<lparr>ui_busy := False, ui_waiting_for_partner := False, ui_status_message := message,
            ui_error_message := (if ok then [] else error), ui_live_mbps := 0\<rparr>) (clear_outbound_session s1);
          s3 = (if ok
            then let t1 = set_ui (show_finished result) s2;
                     t2 = (if done_kind \<noteq> Done_None
                       then let done_msg = transfer_done_message (done_kind = Done_Sent) (ui_result_mbps (oc_state t1))
                         in set_ui (\<lambda>x. x\<lparr>ui_status_message := done_msg, ui_notification := done_msg\<rparr>) t1
                       else t1)
              in (if done_kind = Done_Received \<and> oc_accepting t2 \<noteq> None
                  then t2\<lparr>oc_last_completed := oc_accepting t2\<rparr> else t2)
            else (set_ui (\<lambda>x. x\<lparr>ui_bytes_done := 0, ui_bytes_total := 0, ui_peak_mbps := 0, ui_result_mbps := 0,
              ui_transfer_label := [], ui_last_announce_ms := 0\<rparr>) s2)\<lparr>oc_last_announce_ms := 0\<rparr>);
          s4 = ensure_listener_active (set_listener (set_tight_poll False) (publish_state s3))
      in if ok \<and> done_kind \<noteq> Done_None then schedule_dismiss s4 else s4)"

section \<open>Progress, rates and dismissal\<close>

definition on_progress :: "u64 \<Rightarrow> u64 \<Rightarrow> double \<Rightarrow> 'u orch \<Rightarrow> 'u orch" where
  "on_progress bytes_done bytes_total elapsed s = publish_state (set_ui (\<lambda>x.
     let live = (if 0 < elapsed \<and> 0 < bytes_done then (of_nat (unat bytes_done) / (1024 * 1024)) / elapsed else 0);
         x1 = x\<lparr>ui_bytes_done := bytes_done, ui_bytes_total := bytes_total\<rparr>;
         rate = (if 0 < ui_booth_display_mib_s x1 then ui_booth_display_mib_s x1 else live)
     in x1\<lparr>ui_live_mbps := rate, ui_peak_mbps := max (ui_peak_mbps x1) rate\<rparr>) s)"

definition begin_booth_display_rate :: "double \<Rightarrow> 'u orch \<Rightarrow> 'u orch" where
  "begin_booth_display_rate draw s =
     (if ip_booth_display_mib_s (oc_identity s) \<le> 0 then set_ui (\<lambda>x. x\<lparr>ui_booth_display_mib_s := 0\<rparr>) s
      else let base = ip_booth_display_mib_s (oc_identity s); jitter = ip_booth_display_jitter_pct (oc_identity s);
               rate = roll_booth_display_mib_s draw base jitter
        in booth_event (oc_port_index s) ''booth_display'' (''ui_rate_mib_s='' @ show_fixed 6 rate
             @ '' base_mib_s='' @ show_fixed 6 base @ '' jitter_pct='' @ show_fixed 6 jitter)
             (set_ui (\<lambda>x. x\<lparr>ui_booth_display_mib_s := rate, ui_live_mbps := rate\<rparr>) s))"

definition clear_done_display :: "orch_ui \<Rightarrow> orch_ui" where
  "clear_done_display x = x\<lparr>ui_notification := [], ui_status_message := [], ui_bytes_done := 0, ui_bytes_total := 0,
     ui_transfer_label := [], ui_peak_mbps := 0, ui_result_mbps := 0, ui_live_mbps := 0\<rparr>"

definition shows_done :: "orch_ui \<Rightarrow> bool" where
  "shows_done x \<longleftrightarrow> looks_like_done_display (ui_notification x) \<or> looks_like_done_display (ui_status_message x)"

definition dismiss_transfer_display :: "'u orch \<Rightarrow> 'u orch" where
  "dismiss_transfer_display s =
     (if ui_busy (oc_state s) \<or> \<not> shows_done (oc_state s) then s else publish_state (set_ui clear_done_display s))"

text \<open>The timer thread started with an epoch, two seconds later.\<close>

definition dismiss_timer :: "u64 \<Rightarrow> 'u orch \<Rightarrow> 'u orch" where
  "dismiss_timer epoch s = (let s = s\<lparr>oc_timers := remove1 epoch (oc_timers s)\<rparr>
     in if oc_shutting_down s \<or> epoch \<noteq> oc_dismiss_epoch s \<or> ui_busy (oc_state s) \<or> \<not> shows_done (oc_state s) then s
        else publish_state (set_ui clear_done_display s))"

text \<open>What one end of a transfer publishes.\<close>

lemma finish_publishes:
  assumes "\<not> oc_shutting_down s"
  shows "\<exists>st. oc_published (finish_transfer ok message error result kind s) = oc_published s @ [st]
    \<and> \<not> ui_busy st \<and> \<not> ui_waiting_for_partner st \<and> ui_error_message st = (if ok then [] else error)
    \<and> (ok \<and> kind \<noteq> Done_None \<longrightarrow> (\<exists>rate. ui_status_message st = transfer_done_message (kind = Done_Sent) rate
         \<and> ui_notification st = ui_status_message st))
    \<and> (\<not> ok \<longrightarrow> ui_status_message st = message \<and> ui_notification st = ui_notification (oc_state s))"
proof -
  have shown [simp]: "ui_busy (show_finished r x) = ui_busy x" "ui_waiting_for_partner (show_finished r x) = ui_waiting_for_partner x"
    "ui_error_message (show_finished r x) = ui_error_message x" for r x
    by (simp_all add: show_finished_def Let_def split: option.split)
  show ?thesis using assms
    by (auto simp: finish_transfer_def Let_def set_ui_def booth_event_def clear_outbound_session_def publish_state_def
        set_listener_def ensure_listener_active_def schedule_dismiss_def)
qed

end
