(* ===== verification/Orch_Handlers.thy ===== *)
theory Orch_Handlers
  imports Orch_State
begin

text \<open>
  The operations of \<open>TransferOrchestrator\<close> (\<open>lib/session/transfer_orchestrator.cpp\<close>): what the
  user interface calls, the handlers of the five message kinds, and the presence tick.

  An operation that takes the mutex more than once is cut where it lets go of it: each part is a
  definition of its own, the operation is their composition, and the threads of \<open>Orch_System\<close> run
  the parts one by one with the other threads in between. An operation that joins the payload
  thread is cut there as well, and what it starts is a payload job of \<open>Orch_Jobs\<close>. A function
  whose result is an option calls the transport; \<open>None\<close> means it does not return.
\<close>

section \<open>Sending session messages\<close>

definition send_session_with_routing :: "'u orch_env \<Rightarrow> step_input \<Rightarrow> fabric_session_message \<Rightarrow> 'u orch
    \<Rightarrow> ((string + unit) \<times> 'u orch) option" where
  "send_session_with_routing env inp message s =
     (case send_session_message (oe_tp env) (oe_tmp env) (si_rng inp) (oc_port_index s) message 0 (oc_fs s, oc_usb s) of
        None \<Rightarrow> None
      | Some (r, fs, u) \<Rightarrow>
          let s1 = s\<lparr>oc_fs := fs, oc_usb := u\<rparr>; kind = session_kind_to_string (sm_kind message)
          in Some (r, case r of
               Inl e \<Rightarrow> booth_event (oc_port_index s) ''session_send_fail''
                 (kind @ (if e \<noteq> [] then '' err='' @ e else [])) s1
             | Inr _ \<Rightarrow> bump_fabric_activity (booth_event (oc_port_index s) ''session_send_ok'' kind s1)))"

definition reply_message :: "'u orch \<Rightarrow> fabric_session_message \<Rightarrow> session_message_kind \<Rightarrow> fabric_session_message" where
  "reply_message s request kind = empty_session_message\<lparr>sm_kind := kind, sm_session_id := sm_session_id request,
     sm_from_name := ip_display_name (oc_identity s), sm_team := ip_team (oc_identity s),
     sm_to_name := sm_from_name request\<rparr>"

definition send_session_reply :: "'u orch_env \<Rightarrow> step_input \<Rightarrow> fabric_session_message \<Rightarrow> session_message_kind
    \<Rightarrow> 'u orch \<Rightarrow> (bool \<times> 'u orch) option" where
  "send_session_reply env inp request kind s =
     (case send_session_with_routing env inp (reply_message s request kind) s of
        None \<Rightarrow> None
      | Some (Inl e, s1) \<Rightarrow> Some (False, publish_state (set_ui (\<lambda>x. x\<lparr>ui_error_message := e\<rparr>) s1))
      | Some (Inr _, s1) \<Rightarrow> Some (True, s1))"

section \<open>Announcements\<close>

text \<open>The echo checks and the entry in the roster; the flag says that the entry was made.\<close>

definition announce_touch :: "'u orch_env \<Rightarrow> step_input \<Rightarrow> fabric_session_message \<Rightarrow> 'u orch \<Rightarrow> bool \<times> 'u orch" where
  "announce_touch env inp message s =
     (if sm_from_name message = [] then (False, s)
      else let (my_leg, s1) = read_transport (tp_resolved_port_index (oe_tp env)) s;
               parsed = parse_announce_note True (sm_note message) (default_remote_guess_leg my_leg);
               announced_port = an_port_index parsed; instance_id = an_instance_id parsed
        in if instance_id \<noteq> [] \<and> instance_id = oc_instance_id s1
           then (False, booth_event my_leg ''announce_echo_reject'' (''instance='' @ instance_id) s1)
           else if instance_id = [] \<and> sm_from_name message = ip_display_name (oc_identity s1) \<and> announced_port = my_leg
           then (False, booth_event my_leg ''announce_echo_reject'' (''legacy name='' @ sm_from_name message) s1)
           else let peer_port = resolve_remote_fabric_port my_leg announced_port
             in if peer_port < 0
                then (False, booth_event my_leg ''announce_echo_reject'' (sm_from_name message @ '' port=''
                  @ show_int (display_port_from_leg announced_port)) s1)
                else (True, booth_event my_leg ''announce_received'' (sm_from_name message @ '' port=''
                       @ show_int (display_port_from_leg peer_port) @ '' note='' @ sm_note message)
                       (s1\<lparr>oc_roster := touch_peer (si_now inp) (sm_from_name message) (sm_team message)
                           (an_receive_status parsed) peer_port instance_id (oc_roster s1)\<rparr>)))"

definition announce_show :: "'u orch \<Rightarrow> 'u orch" where
  "announce_show s = publish_state (set_ui (\<lambda>x. x\<lparr>ui_roster := oc_roster s\<rparr>) s)"

definition handle_announce :: "'u orch_env \<Rightarrow> step_input \<Rightarrow> fabric_session_message \<Rightarrow> 'u orch \<Rightarrow> 'u orch" where
  "handle_announce env inp message s = (let (touched, s1) = announce_touch env inp message s
     in if touched then announce_show s1 else s1)"

definition announce_message :: "step_input \<Rightarrow> int \<Rightarrow> 'u orch \<Rightarrow> fabric_session_message" where
  "announce_message inp my_leg s = empty_session_message\<lparr>sm_kind := Kind_Announce,
     sm_from_name := ip_display_name (oc_identity s), sm_team := ip_team (oc_identity s),
     sm_session_id := make_session_id (si_rolls inp),
     sm_note := build_announce_note my_leg (ip_receive_status (oc_identity s)) (oc_instance_id s)\<rparr>"

text \<open>The four conditions under which no announcement is sent.\<close>

definition announce_due :: "int \<Rightarrow> 'u orch \<Rightarrow> bool" where
  "announce_due now_ms s \<longleftrightarrow> ip_display_name (oc_identity s) \<noteq> [] \<and> \<not> is_paused (oc_listener s)
     \<and> oc_outbound_offer s = None \<and> ui_fabric_connected (oc_state s)
     \<and> (oc_last_announce_ms s = 0 \<or> kAnnounceIntervalMs \<le> now_ms - oc_last_announce_ms s)"

definition send_announce :: "'u orch_env \<Rightarrow> step_input \<Rightarrow> int \<Rightarrow> 'u orch \<Rightarrow> 'u orch option" where
  "send_announce env inp now_ms s =
     (let (my_leg, s1) = read_transport (tp_resolved_port_index (oe_tp env)) s;
          message = announce_message inp my_leg s1
      in (case send_session_with_routing env inp message s1 of
            None \<Rightarrow> None
          | Some (Inr _, s2) \<Rightarrow> Some (booth_event (oc_port_index s2) ''announce_sent'' (''from='' @ sm_from_name message
              @ '' note='' @ sm_note message) (s2\<lparr>oc_last_announce_ms := now_ms\<rparr>))
          | Some (Inl e, s2) \<Rightarrow> Some (if e \<noteq> [] then booth_event (oc_port_index s2) ''announce_fail'' e s2 else s2)))"

definition maybe_send_announce :: "'u orch_env \<Rightarrow> step_input \<Rightarrow> int \<Rightarrow> 'u orch \<Rightarrow> 'u orch option" where
  "maybe_send_announce env inp now_ms s = (if announce_due now_ms s then send_announce env inp now_ms s else Some s)"

section \<open>Presence\<close>

text \<open>The enumeration is repeated at most every 900 ms.\<close>

definition probe_devices :: "'u orch_env \<Rightarrow> int \<Rightarrow> 'u orch \<Rightarrow> 'u orch" where
  "probe_devices env now s =
     (if oc_last_probe_ms s = 0 \<or> 900 \<le> now - oc_last_probe_ms s
      then let (devices, s1) = read_transport (tp_device_count (oe_tp env)) s;
               (ok, s2) = read_transport (tp_port_available (oe_tp env)) s1
        in s2\<lparr>oc_cached_devices := devices, oc_cached_port_ok := ok, oc_last_probe_ms := now\<rparr>
      else s)"

text \<open>
  The parts of a tick: the probe, which takes every peer offline when the cable was lost; the end
  of the transfer that was running then; and the state that is shown.
\<close>

definition probe_presence :: "'u orch_env \<Rightarrow> int \<Rightarrow> 'u orch \<Rightarrow> bool \<times> 'u orch" where
  "probe_presence env now s = (let s1 = probe_devices env now s
     in if \<not> oc_cached_port_ok s1 \<and> oc_fabric_was_connected s1
        then (True, s1\<lparr>oc_roster := set_all_peers_offline (oc_roster s1)\<rparr>) else (False, s1))"

definition lose_fabric :: "bool \<Rightarrow> 'u orch \<Rightarrow> 'u orch" where
  "lose_fabric was_busy s = publish_state (if was_busy
     then finish_transfer False ''Device disconnected'' ''USB cable unplugged or power change'' None Done_None s else s)"

definition show_presence :: "'u orch_env \<Rightarrow> int \<Rightarrow> 'u orch \<Rightarrow> 'u orch" where
  "show_presence env now s =
     (let port_ok = oc_cached_port_ok s; connected = fabric_connected_from_enumeration port_ok;
          s3 = (if \<not> connected then s\<lparr>oc_roster := set_all_peers_offline (oc_roster s)\<rparr>
            else s\<lparr>oc_roster := mark_stale_peers_offline now (45 * 1000) (oc_roster s),
              oc_last_announce_ms := (if \<not> oc_fabric_was_connected s then 0 else oc_last_announce_ms s)\<rparr>);
          s4 = s3\<lparr>oc_fabric_was_connected := port_ok\<rparr>;
          (leg, s5) = read_transport (tp_resolved_port_index (oe_tp env)) s4;
          (label, s6) = (if connected then read_transport (tp_describe_device (oe_tp env)) s5 else ([], s5))
      in publish_state (set_ui (\<lambda>x. x\<lparr>ui_fabric_connected := connected, ui_fabric_devices_seen := oc_cached_devices s,
           ui_fabric_port_open := port_ok, ui_fabric_port_index := leg,
           ui_fabric_device_label := (if \<not> connected then [] else if label \<noteq> [] then label else ui_fabric_device_label x),
           ui_roster := oc_roster s4, ui_last_announce_ms := oc_last_announce_ms s4\<rparr>) s6))"

definition refresh_presence :: "'u orch_env \<Rightarrow> step_input \<Rightarrow> 'u orch \<Rightarrow> 'u orch" where
  "refresh_presence env inp s = (let (lost, s1) = probe_presence env (si_now inp) s
     in show_presence env (si_now inp) (if lost then lose_fabric (ui_busy (oc_state s1)) s1 else s1))"

definition tick_presence :: "'u orch_env \<Rightarrow> step_input \<Rightarrow> 'u orch \<Rightarrow> 'u orch option" where
  "tick_presence env inp s =
     (if oc_shutting_down s then Some s else maybe_send_announce env inp (si_now inp) (refresh_presence env inp s))"

section \<open>Accepting and declining\<close>

text \<open>\<open>accept_pending_offer\<close> up to the join; the offer is what the started thread works on.\<close>

definition accept_pending_offer :: "'u orch \<Rightarrow> fabric_session_message option \<times> 'u orch" where
  "accept_pending_offer s = (case ui_pending_offer (oc_state s) of
       None \<Rightarrow> (None, s)
     | Some offer \<Rightarrow>
         if oc_accepting s = Some (sm_session_id offer)
         then (None, booth_event (oc_port_index s) ''accept_inflight_ignore'' (''session='' @ sm_session_id offer) s)
         else if oc_last_completed s = Some (sm_session_id offer)
         then (None, set_ui (\<lambda>x. x\<lparr>ui_pending_offer := None\<rparr>)
           (booth_event (oc_port_index s) ''accept_completed_ignore'' (''session='' @ sm_session_id offer) s))
         else (Some offer, (set_ui (\<lambda>x. x\<lparr>ui_pending_offer := None\<rparr>) s)\<lparr>oc_accepting := Some (sm_session_id offer)\<rparr>))"

definition decline_pending_offer :: "'u orch \<Rightarrow> fabric_session_message option \<times> 'u orch" where
  "decline_pending_offer s = (case ui_pending_offer (oc_state s) of
       None \<Rightarrow> (None, s)
     | Some offer \<Rightarrow> (Some offer, set_ui (\<lambda>x. x\<lparr>ui_pending_offer := None\<rparr>) s))"

section \<open>Message handlers\<close>

text \<open>Why an offer is not considered.\<close>

definition offer_ignored :: "fabric_session_message \<Rightarrow> 'u orch \<Rightarrow> (string \<times> string) option" where
  "offer_ignored message s =
     (let session = sm_session_id message
      in if sm_to_name message \<noteq> [] \<and> sm_to_name message \<noteq> ip_display_name (oc_identity s)
         then Some (''offer_rejected'', ''to='' @ sm_to_name message @ '' local='' @ ip_display_name (oc_identity s)
           @ '' from='' @ sm_from_name message)
         else if oc_accepting s = Some session then Some (''offer_dup_ignore'', ''accepting session='' @ session)
         else if oc_last_completed s = Some session then Some (''offer_completed_ignore'', ''session='' @ session)
         else if (case ui_pending_offer (oc_state s) of None \<Rightarrow> False | Some p \<Rightarrow> sm_session_id p = session)
         then Some (''offer_dup_pending'', ''session='' @ session)
         else None)"

text \<open>
  The parts of \<open>handle_offer\<close>: the reasons to ignore the offer, the display, the test for a
  transfer that is under way, and the new pending offer, which is accepted at once or shown.
\<close>

definition offer_begin :: "fabric_session_message \<Rightarrow> 'u orch \<Rightarrow> bool \<times> 'u orch" where
  "offer_begin message s = (case offer_ignored message s of
       Some (event, detail) \<Rightarrow> (False, booth_event (oc_port_index s) event detail s)
     | None \<Rightarrow> (True, s))"

definition offer_clear :: "'u orch \<Rightarrow> 'u orch" where
  "offer_clear s = set_ui (\<lambda>x. x\<lparr>ui_error_message := []\<rparr>) s"

definition offer_busy :: "fabric_session_message \<Rightarrow> 'u orch \<Rightarrow> bool \<times> 'u orch" where
  "offer_busy message s =
     (if is_busy s then (True, booth_event (oc_port_index s) ''offer_rejected'' (''busy from='' @ sm_from_name message) s)
      else (False, s))"

definition offer_take :: "fabric_session_message \<Rightarrow> 'u orch \<Rightarrow> bool \<times> 'u orch" where
  "offer_take message s =
     (let effective = (if ip_receive_status (oc_identity s) = Status_Busy then Status_Open else ip_receive_status (oc_identity s));
          s1 = set_ui (\<lambda>x. x\<lparr>ui_pending_offer := Some message, ui_roster := oc_roster s\<rparr>) s
      in if effective = Status_Open then (True, s1)
         else (False, publish_state (set_ui (\<lambda>x. x\<lparr>ui_status_message :=
           ''Incoming transfer from '' @ sm_from_name message\<rparr>) s1)))"

text \<open>The returned offer is the one to accept at once.\<close>

definition handle_offer :: "fabric_session_message \<Rightarrow> 'u orch \<Rightarrow> fabric_session_message option \<times> 'u orch" where
  "handle_offer message s = (let (free, s1) = offer_begin message s in if \<not> free then (None, s1)
     else let (busy, s2) = offer_busy message (offer_clear s1) in if busy then (None, s2)
     else let (open_now, s3) = offer_take message s2 in if open_now then accept_pending_offer s3 else (None, s3))"

definition offer_matches :: "fabric_session_message \<Rightarrow> 'u orch \<Rightarrow> bool" where
  "offer_matches message s \<longleftrightarrow> (case oc_outbound_offer s of
     None \<Rightarrow> False | Some offer \<Rightarrow> sm_session_id offer = sm_session_id message)"

definition accepted_text :: string where
  "accepted_text = ''Accepted '' @ em_dash @ '' waiting for receiver to prepare'' @ ellipsis"

definition handle_accept :: "fabric_session_message \<Rightarrow> 'u orch \<Rightarrow> 'u orch" where
  "handle_accept message s = (if \<not> offer_matches message s then s
     else publish_state ((set_ui (\<lambda>x. x\<lparr>ui_waiting_for_partner := True, ui_status_message := accepted_text\<rparr>) s)
       \<lparr>oc_awaiting_ready := True\<rparr>))"

text \<open>The check and the copy of what was staged, and after it the removal and the end of the transfer.\<close>

definition decline_begin :: "fabric_session_message \<Rightarrow> 'u orch \<Rightarrow> staged_payload option \<times> 'u orch" where
  "decline_begin message s = (if \<not> offer_matches message s then (None, s) else (Some (oc_staged s), clear_outbound_session s))"

definition remove_if_temp :: "staged_payload \<Rightarrow> 'u orch \<Rightarrow> 'u orch" where
  "remove_if_temp staged s = (if stg_is_temp staged \<and> stg_path staged \<noteq> [] then remove_file (stg_path staged) s else s)"

definition decline_end :: "fabric_session_message \<Rightarrow> staged_payload \<Rightarrow> 'u orch \<Rightarrow> 'u orch" where
  "decline_end message staged s =
     finish_transfer False (''Transfer declined by '' @ sm_from_name message) ''Declined'' None Done_None (remove_if_temp staged s)"

definition handle_decline :: "fabric_session_message \<Rightarrow> 'u orch \<Rightarrow> 'u orch" where
  "handle_decline message s = (case decline_begin message s of
     (None, s1) \<Rightarrow> s1 | (Some staged, s1) \<Rightarrow> decline_end message staged s1)"

text \<open>
  \<open>handle_ready\<close> checks the offer under the mutex and lets go of it; \<open>start_outbound_payload\<close>,
  here up to the join, takes it again to copy what is staged then.
\<close>

definition start_outbound_payload :: "step_input \<Rightarrow> 'u orch \<Rightarrow> staged_payload \<times> 'u orch" where
  "start_outbound_payload inp s =
     (let s1 = set_listener listener_pause s; staged = oc_staged s1;
          s2 = set_ui (\<lambda>x. x\<lparr>ui_waiting_for_partner := False, ui_transfer_label := stg_display_name staged,
            ui_peak_mbps := 0, ui_result_mbps := 0, ui_bytes_done := 0, ui_bytes_total := stg_total_bytes staged,
            ui_status_message := ''Sending '' @ stg_display_name staged @ ellipsis\<rparr>) s1
      in (staged, publish_state (begin_booth_display_rate (si_draw inp) s2)))"

definition ready_begin :: "fabric_session_message \<Rightarrow> 'u orch \<Rightarrow> bool \<times> 'u orch" where
  "ready_begin message s = (if \<not> offer_matches message s then (False, s)
     else (True, if \<not> oc_awaiting_ready s
       then publish_state ((set_ui (\<lambda>x. x\<lparr>ui_status_message := accepted_text\<rparr>) s)\<lparr>oc_awaiting_ready := True\<rparr>)
       else s))"

definition handle_ready :: "step_input \<Rightarrow> fabric_session_message \<Rightarrow> 'u orch \<Rightarrow> staged_payload option \<times> 'u orch" where
  "handle_ready inp message s = (let (should_send, s1) = ready_begin message s in if \<not> should_send then (None, s1)
     else let (staged, s2) = start_outbound_payload inp s1 in (Some staged, s2))"

text \<open>What the listener thread has to do after the handler: nothing, or join and start a job.\<close>

datatype after_message = After_Nothing | After_Accept fabric_session_message | After_Outbound staged_payload

definition note_message :: "fabric_session_message \<Rightarrow> 'u orch \<Rightarrow> 'u orch" where
  "note_message message s = booth_event (oc_port_index s) ''session_recv'' (session_kind_to_string (sm_kind message)
     @ '' from='' @ sm_from_name message @ '' to='' @ sm_to_name message @ '' session='' @ sm_session_id message)
     (bump_fabric_activity s)"

definition on_session_message :: "'u orch_env \<Rightarrow> step_input \<Rightarrow> fabric_session_message \<Rightarrow> 'u orch
    \<Rightarrow> after_message \<times> 'u orch" where
  "on_session_message env inp message s =
     (let s1 = note_message message s
      in (case sm_kind message of
            Kind_Offer \<Rightarrow> (case handle_offer message s1 of
                (None, s2) \<Rightarrow> (After_Nothing, s2) | (Some offer, s2) \<Rightarrow> (After_Accept offer, s2))
          | Kind_Accept \<Rightarrow> (After_Nothing, handle_accept message s1)
          | Kind_Decline \<Rightarrow> (After_Nothing, handle_decline message s1)
          | Kind_Ready \<Rightarrow> (case handle_ready inp message s1 of
                (None, s2) \<Rightarrow> (After_Nothing, s2) | (Some staged, s2) \<Rightarrow> (After_Outbound staged, s2))
          | Kind_Announce \<Rightarrow> (After_Nothing, handle_announce env inp message s1)
          | Kind_Unknown \<Rightarrow> (After_Nothing, s1)))"

text \<open>
  A message in the listener thread, cut where the handlers let go of the mutex: a position names
  what is next, with the local variables it needs.
\<close>

datatype handling = Handle_Message fabric_session_message | Handle_Dispatch fabric_session_message
  | Handle_Clear fabric_session_message | Handle_Busy fabric_session_message | Handle_Take fabric_session_message
  | Handle_Accept | Handle_Ready fabric_session_message | Handle_Declined fabric_session_message staged_payload
  | Handle_Announced

definition handler_go :: "bool \<Rightarrow> handling \<Rightarrow> handling + after_message" where
  "handler_go b h = (if b then Inl h else Inr After_Nothing)"

fun handler_step :: "'u orch_env \<Rightarrow> step_input \<Rightarrow> handling \<Rightarrow> 'u orch \<Rightarrow> (handling + after_message) \<times> 'u orch" where
  "handler_step env inp (Handle_Message m) s = (Inl (Handle_Dispatch m), note_message m s)"
| "handler_step env inp (Handle_Dispatch m) s = (case sm_kind m of
       Kind_Offer \<Rightarrow> (let (free, s1) = offer_begin m s in (handler_go free (Handle_Clear m), s1))
     | Kind_Accept \<Rightarrow> (Inr After_Nothing, handle_accept m s)
     | Kind_Decline \<Rightarrow> (case decline_begin m s of
         (None, s1) \<Rightarrow> (Inr After_Nothing, s1) | (Some staged, s1) \<Rightarrow> (Inl (Handle_Declined m staged), s1))
     | Kind_Ready \<Rightarrow> (let (should_send, s1) = ready_begin m s in (handler_go should_send (Handle_Ready m), s1))
     | Kind_Announce \<Rightarrow> (let (touched, s1) = announce_touch env inp m s in (handler_go touched Handle_Announced, s1))
     | Kind_Unknown \<Rightarrow> (Inr After_Nothing, s))"
| "handler_step env inp (Handle_Clear m) s = (Inl (Handle_Busy m), offer_clear s)"
| "handler_step env inp (Handle_Busy m) s = (let (busy, s1) = offer_busy m s in (handler_go (\<not> busy) (Handle_Take m), s1))"
| "handler_step env inp (Handle_Take m) s = (let (open_now, s1) = offer_take m s in (handler_go open_now Handle_Accept, s1))"
| "handler_step env inp Handle_Accept s = (case accept_pending_offer s of
     (None, s1) \<Rightarrow> (Inr After_Nothing, s1) | (Some offer, s1) \<Rightarrow> (Inr (After_Accept offer), s1))"
| "handler_step env inp (Handle_Ready m) s = (let (staged, s1) = start_outbound_payload inp s in (Inr (After_Outbound staged), s1))"
| "handler_step env inp (Handle_Declined m staged) s = (Inr After_Nothing, decline_end m staged s)"
| "handler_step env inp Handle_Announced s = (Inr After_Nothing, announce_show s)"

text \<open>The parts one after the other, with no other thread in between, are the handler.\<close>

fun handler_run :: "nat \<Rightarrow> 'u orch_env \<Rightarrow> step_input \<Rightarrow> (handling + after_message) \<times> 'u orch \<Rightarrow> (handling + after_message) \<times> 'u orch" where
  "handler_run (Suc n) env inp (Inl h, s) = handler_run n env inp (handler_step env inp h s)"
| "handler_run n env inp x = x"

lemma handler_run_whole:
  "handler_run 6 env inp (Inl (Handle_Message m), s)
   = (Inr (fst (on_session_message env inp m s)), snd (on_session_message env inp m s))"
  by (cases "sm_kind m")
    (auto simp: on_session_message_def Let_def numeral_eq_Suc handler_go_def handle_offer_def handle_decline_def handle_ready_def
      handle_announce_def split: prod.splits option.splits)

section \<open>Sending to a peer\<close>

definition offer_message :: "step_input \<Rightarrow> 'u orch \<Rightarrow> peer_entry \<Rightarrow> staged_payload \<Rightarrow> string \<Rightarrow> fabric_session_message" where
  "offer_message inp s peer staged text = \<lparr>sm_kind = Kind_Offer, sm_from_name = ip_display_name (oc_identity s),
     sm_team = ip_team (oc_identity s), sm_session_id = make_session_id (si_rolls inp),
     sm_to_name = pe_display_name peer, sm_note = text, sm_payload_type = stg_payload_type staged,
     sm_payload_name = stg_display_name staged, sm_file_count = stg_file_count staged,
     sm_total_bytes = stg_total_bytes staged\<rparr>"

text \<open>\<open>send_to_peer\<close> up to the join: what the transfer thread will work on, if it is started.\<close>

definition send_to_peer :: "'u orch_env \<Rightarrow> step_input \<Rightarrow> string \<Rightarrow> string list \<Rightarrow> string \<Rightarrow> 'u orch
    \<Rightarrow> (staged_payload \<times> fabric_session_message \<times> string) option \<times> 'u orch" where
  "send_to_peer env inp peer_name paths text s =
     (if is_busy s then (None, s)
      else case find_by_name peer_name (oc_roster s) of
          None \<Rightarrow> (None, publish_state (set_ui (\<lambda>x. x\<lparr>ui_error_message := ''Peer not found: '' @ peer_name\<rparr>) s))
        | Some peer \<Rightarrow> (case stage_paths env (si_rng inp) paths (oc_fs s) of
            (Inl e, fs) \<Rightarrow> (None, publish_state (set_ui (\<lambda>x. x\<lparr>ui_error_message := e\<rparr>) (s\<lparr>oc_fs := fs\<rparr>)))
          | (Inr staged, fs) \<Rightarrow> let s1 = s\<lparr>oc_fs := fs\<rparr>
              in (Some (staged, offer_message inp s1 peer staged text, pe_display_name peer), s1)))"

text \<open>After the join, before the thread is started.\<close>

definition begin_offer :: "staged_payload \<Rightarrow> string \<Rightarrow> 'u orch \<Rightarrow> 'u orch" where
  "begin_offer staged peer_name s = publish_state (set_ui (\<lambda>x. x\<lparr>ui_busy := True, ui_waiting_for_partner := True,
     ui_transfer_label := [], ui_bytes_total := stg_total_bytes staged, ui_bytes_done := 0, ui_peak_mbps := 0,
     ui_result_mbps := 0, ui_status_message := ''Sending offer to '' @ peer_name @ ellipsis,
     ui_error_message := []\<rparr>) (invalidate_dismiss s))"

section \<open>Reset\<close>

text \<open>
  \<open>reset_connection\<close> takes the mutex once, for the display and for the copy of what was staged;
  the members of the protocol are cleared one by one after it, without the mutex.
\<close>

definition reset_begin :: "'u orch \<Rightarrow> staged_payload \<times> 'u orch" where
  "reset_begin s =
     (let s1 = booth_event (oc_port_index s) ''reset_connection'' ''user'' (invalidate_dismiss s)
      in (oc_staged s1, set_ui (\<lambda>x. x\<lparr>ui_waiting_for_partner := False, ui_busy := False, ui_error_message := [],
            ui_status_message := [], ui_notification := [], ui_bytes_done := 0, ui_bytes_total := 0,
            ui_transfer_label := [], ui_peak_mbps := 0, ui_result_mbps := 0, ui_live_mbps := 0,
            ui_booth_display_mib_s := ip_booth_display_mib_s (oc_identity s1), ui_pending_offer := None\<rparr>) s1))"

datatype member_clear = Clear_Accepting | Clear_Completed | Clear_Awaiting | Clear_Outbound | Clear_Staged

fun clear_member :: "member_clear \<Rightarrow> 'u orch \<Rightarrow> 'u orch" where
  "clear_member Clear_Accepting s = s\<lparr>oc_accepting := None\<rparr>"
| "clear_member Clear_Completed s = s\<lparr>oc_last_completed := None\<rparr>"
| "clear_member Clear_Awaiting s = s\<lparr>oc_awaiting_ready := False\<rparr>"
| "clear_member Clear_Outbound s = s\<lparr>oc_outbound_offer := None\<rparr>"
| "clear_member Clear_Staged s = s\<lparr>oc_staged := no_staged\<rparr>"

definition reset_clears :: "member_clear list" where
  "reset_clears = [Clear_Accepting, Clear_Completed, Clear_Awaiting, Clear_Outbound, Clear_Staged, Clear_Awaiting, Clear_Staged]"

text \<open>What follows the clears, up to the join, and what follows the join.\<close>

definition reset_resume :: "staged_payload \<Rightarrow> 'u orch \<Rightarrow> 'u orch" where
  "reset_resume staged s = set_listener listener_resume (remove_if_temp staged s)"

definition reset_end :: "bool \<Rightarrow> 'u orch \<Rightarrow> 'u orch" where
  "reset_end detached s =
     (let s1 = (if detached
        then booth_event (oc_port_index s) ''reset_connection'' ''payload thread detach on timeout'' s else s)
      in publish_state (ensure_listener_active s1))"

section \<open>Start and stop\<close>

definition ensure_wiring :: "'u orch \<Rightarrow> 'u orch" where
  "ensure_wiring s = (if oc_wiring_checked s then s
     else publish_state (booth_event (oc_port_index s) ''wiring_probe'' ''skipped (native bidirectional routing)''
       (s\<lparr>oc_wiring_checked := True\<rparr>)))"

text \<open>The flag says that the listener thread is started.\<close>

definition ensure_listener_started :: "'u orch_env \<Rightarrow> 'u orch \<Rightarrow> bool \<times> 'u orch" where
  "ensure_listener_started env s =
     (if oc_listener_started s then (False, s)
      else let s1 = (set_listener listener_start s)\<lparr>oc_listener_started := True\<rparr>;
               (leg, s2) = read_transport (tp_resolved_port_index (oe_tp env)) s1;
               (serial, s3) = read_transport (tp_serial (oe_tp env)) s2
        in (True, booth_event leg ''listener_started'' (''working_send='' @ show_int (fst (oc_working_ports s3))
             @ '' working_recv='' @ show_int (snd (oc_working_ports s3)))
             (booth_event leg ''cable_serial'' (if serial = [] then ''(none)'' else serial) s3)))"

definition orch_start :: "'u orch \<Rightarrow> 'u orch" where
  "orch_start s = (publish_state s)\<lparr>oc_shutting_down := False\<rparr>"

text \<open>The startup thread; the flags say that the listener and the presence thread are started.\<close>

definition run_startup :: "'u orch_env \<Rightarrow> bool \<Rightarrow> bool \<Rightarrow> 'u orch \<Rightarrow> (bool \<times> bool) \<times> 'u orch" where
  "run_startup env run_wiring_probe enable_listener s =
     (let s1 = booth_event (oc_port_index s) ''startup'' (''wiring_probe='' @ (if run_wiring_probe then ''yes'' else ''no'')) s
      in if oc_shutting_down s1 then ((False, False), s1)
         else let s2 = (if run_wiring_probe \<and> oc_port_index s1 = 0 then ensure_wiring s1
                else if run_wiring_probe \<and> 0 < oc_port_index s1
                then s1\<lparr>oc_working_ports := load_shared_booth_path (oe_tmp env) (oc_fs s1) (oc_working_ports s1)\<rparr>
                else s1);
                  (started, s3) = (if enable_listener then ensure_listener_started env s2 else (False, s2))
           in ((started, True), publish_state s3))"

definition stop_begin :: "'u orch_env \<Rightarrow> 'u orch \<Rightarrow> 'u orch" where
  "stop_begin env s = set_listener listener_stop
     ((invalidate_dismiss (s\<lparr>oc_shutting_down := True\<rparr>))\<lparr>oc_usb := tp_request_shutdown (oe_tp env) (oc_usb s)\<rparr>)"

definition stop_end :: "bool \<Rightarrow> 'u orch \<Rightarrow> 'u orch" where
  "stop_end detached s =
     (if detached then booth_event (oc_port_index s) ''shutdown'' ''payload thread detach on timeout'' s else s)"

end
