(* ===== verification/Orch_Jobs.thy ===== *)
theory Orch_Jobs
  imports Orch_Handlers
begin

text \<open>
  The payload thread of \<open>TransferOrchestrator\<close> (\<open>lib/session/transfer_orchestrator.cpp\<close>): the
  bodies of the threads that \<open>send_to_peer\<close>, \<open>accept_pending_offer\<close>,
  \<open>decline_pending_offer\<close>, \<open>start_outbound_payload\<close> and \<open>run_loopback_test\<close> start. A job is
  a position in one of these bodies; a step runs to the next position, over at most one
  blocking call of the transport or one hold of the mutex. Other threads may run between two
  steps. Members that a body writes without the mutex are written one per step.
\<close>

section \<open>Positions\<close>

text \<open>The local variables of the loop that waits for the partner.\<close>

record await =
  aw_accept_deadline :: int
  aw_retransmit_at :: int
  aw_retransmitted :: bool
  aw_ready_deadline :: int
  aw_accepted_seen :: bool
  aw_last_shown :: int

datatype job =
    Job_Offer staged_payload fabric_session_message string
  | Job_Offering staged_payload fabric_session_message string
  | Job_Offered staged_payload fabric_session_message string
  | Job_Await staged_payload fabric_session_message string await
  | Job_Round staged_payload fabric_session_message string bool await
  | Job_Retransmit staged_payload fabric_session_message string await int
  | Job_Give_Up "member_clear list" string
  | Job_Outbound staged_payload
  | Job_Sending staged_payload
  | Job_Accept fabric_session_message
  | Job_Accepting fabric_session_message
  | Job_Skip fabric_session_message
  | Job_Refused fabric_session_message
  | Job_Inbound fabric_session_message
  | Job_Readying fabric_session_message string
  | Job_Receive fabric_session_message string
  | Job_Ending fabric_session_message
  | Job_Decline fabric_session_message
  | Job_Declining fabric_session_message
  | Job_Loopback string
  | Job_Looping string
  | Job_Handler handling
  | Job_Done

text \<open>
  \<open>Job_Handler\<close> is the position of the listener thread inside a message handler. No payload thread
  has it: the listener runs it itself (\<open>handler_step\<close>).
\<close>

text \<open>The transfers that report progress.\<close>

fun reports_progress :: "job \<Rightarrow> bool" where
  "reports_progress (Job_Sending staged) = True"
| "reports_progress (Job_Receive offer path) = True"
| "reports_progress (Job_Looping path) = True"
| "reports_progress j = False"

definition pause_listener :: "'u orch \<Rightarrow> 'u orch" where
  "pause_listener = set_listener listener_pause"

definition resume_listener :: "'u orch \<Rightarrow> 'u orch" where
  "resume_listener = set_listener listener_resume"

section \<open>The offering side\<close>

definition waiting_text :: "string \<Rightarrow> int \<Rightarrow> string" where
  "waiting_text peer seconds = ''Waiting for '' @ peer @ '' to accept'' @ ellipsis @ '' ('' @ show_int seconds @ ''s)''"

definition new_await :: "int \<Rightarrow> handshake_timing \<Rightarrow> await" where
  "new_await now hs = \<lparr>aw_accept_deadline = now + 1000 * uint (ht_accept_timeout_sec hs),
     aw_retransmit_at = now + uint (ht_accept_reply_delay_ms hs + ht_accept_ready_gap_ms hs + 150),
     aw_retransmitted = False, aw_ready_deadline = 0, aw_accepted_seen = False, aw_last_shown = - 1\<rparr>"

definition begin_await :: "staged_payload \<Rightarrow> fabric_session_message \<Rightarrow> string \<Rightarrow> 'u orch \<Rightarrow> 'u orch" where
  "begin_await staged offer peer s =
     (let s1 = s\<lparr>oc_staged := staged, oc_outbound_offer := Some offer, oc_awaiting_ready := False\<rparr>
      in publish_state (set_ui (\<lambda>x. x\<lparr>ui_waiting_for_partner := True, ui_transfer_label := stg_display_name staged,
           ui_bytes_total := stg_total_bytes staged, ui_peak_mbps := 0, ui_result_mbps := 0,
           ui_status_message := waiting_text peer (uint (ht_accept_timeout_sec (oc_handshake s1))),
           ui_error_message := []\<rparr>) s1))"

text \<open>Giving up clears three members without the mutex, then ends the transfer.\<close>

definition give_up_clears :: "member_clear list" where
  "give_up_clears = [Clear_Outbound, Clear_Staged, Clear_Awaiting]"

definition give_up :: "staged_payload \<Rightarrow> string \<Rightarrow> 'u orch \<Rightarrow> job \<times> 'u orch" where
  "give_up staged error s = (Job_Give_Up give_up_clears error, remove_staged staged s)"

definition give_up_end :: "string \<Rightarrow> 'u orch \<Rightarrow> 'u orch" where
  "give_up_end error s = finish_transfer False ''Timed out'' error None Done_None s"

text \<open>The rest of one round of the waiting loop, after the retransmission.\<close>

definition await_deadlines :: "staged_payload \<Rightarrow> fabric_session_message \<Rightarrow> string \<Rightarrow> bool \<Rightarrow> int \<Rightarrow> await
    \<Rightarrow> 'u orch \<Rightarrow> job \<times> 'u orch" where
  "await_deadlines staged offer peer accepted now w s =
     (if \<not> accepted
      then if aw_accept_deadline w \<le> now
        then give_up staged (''No response from '' @ peer @ '' within ''
          @ show_int (uint (ht_accept_timeout_sec (oc_handshake s))) @ ''s'') s
        else let remaining = 1 + (aw_accept_deadline w - now) div 1000
          in if remaining \<noteq> aw_last_shown w
             then (Job_Await staged offer peer (w\<lparr>aw_last_shown := remaining\<rparr>),
               if ui_waiting_for_partner (oc_state s) \<and> \<not> oc_awaiting_ready s
               then publish_state (set_ui (\<lambda>x. x\<lparr>ui_status_message := waiting_text peer remaining\<rparr>) s) else s)
             else (Job_Await staged offer peer w, s)
      else let w1 = (if \<not> aw_accepted_seen w
             then w\<lparr>aw_accepted_seen := True,
               aw_ready_deadline := now + 1000 * uint (ht_ready_timeout_sec (oc_handshake s))\<rparr> else w)
        in if aw_ready_deadline w1 \<le> now
           then give_up staged (peer @ '' accepted but did not start receiving in time'') s
           else (Job_Await staged offer peer w1, s))"

text \<open>
  A round reads the three flags under the mutex; it acts on what it read after it let go of it,
  when the flags may have changed.
\<close>

definition await_read :: "staged_payload \<Rightarrow> fabric_session_message \<Rightarrow> string \<Rightarrow> await \<Rightarrow> 'u orch \<Rightarrow> job" where
  "await_read staged offer peer w s =
     (if \<not> ui_waiting_for_partner (oc_state s) \<or> oc_outbound_offer s = None then Job_Done
      else Job_Round staged offer peer (oc_awaiting_ready s) w)"

definition await_round :: "staged_payload \<Rightarrow> fabric_session_message \<Rightarrow> string \<Rightarrow> bool \<Rightarrow> int \<Rightarrow> await \<Rightarrow> 'u orch \<Rightarrow> job \<times> 'u orch" where
  "await_round staged offer peer accepted now w s =
     (if \<not> accepted \<and> \<not> aw_retransmitted w \<and> aw_retransmit_at w \<le> now
      then (Job_Retransmit staged offer peer (w\<lparr>aw_retransmitted := True\<rparr>) now, pause_listener s)
      else await_deadlines staged offer peer accepted now w s)"

section \<open>The receiving side\<close>

definition begin_inbound :: "step_input \<Rightarrow> fabric_session_message \<Rightarrow> 'u orch \<Rightarrow> 'u orch" where
  "begin_inbound inp offer s =
     (let s1 = set_ui (\<lambda>x. x\<lparr>ui_busy := True, ui_transfer_label := sm_payload_name offer, ui_peak_mbps := 0,
            ui_result_mbps := 0, ui_bytes_done := 0,
            ui_bytes_total := (if 0 < sm_total_bytes offer then sm_total_bytes offer else ui_bytes_total x),
            ui_status_message := ''Receiving '' @ sm_payload_name offer @ ellipsis\<rparr>) (invalidate_dismiss s)
      in publish_state (begin_booth_display_rate (si_draw inp) s1))"

text \<open>A cleanup with its log line.\<close>

definition cleanup_logged :: "string \<Rightarrow> string \<Rightarrow> 'u orch \<Rightarrow> 'u orch" where
  "cleanup_logged path why s =
     (let (c, fs) = cleanup_partial_receive_file path (oc_fs s); s1 = s\<lparr>oc_fs := fs\<rparr>
      in if cl_existed_before c
         then booth_event (oc_port_index s) ''partial_cleanup''
           (path @ why @ '' bytes='' @ show_nat (unat (cl_bytes_removed c))) s1 else s1)"

text \<open>What happens to the received file: kept, unpacked or removed.\<close>

definition inbound_received :: "'u orch_env \<Rightarrow> fabric_session_message \<Rightarrow> string \<Rightarrow> transfer_result \<Rightarrow> 'u orch \<Rightarrow> 'u orch" where
  "inbound_received env offer path r s =
     (if \<not> tr_ok r
      then let (failed, fs) = handle_failed_inbound_receive r path (oc_fs s);
               s1 = s\<lparr>oc_fs := fs\<rparr>; c = fr_cleanup failed;
               s2 = (if cl_existed_before c
                 then booth_event (oc_port_index s) ''partial_cleanup'' (path @ '' bytes='' @ show_nat (unat (cl_bytes_removed c))
                   @ (if cl_removed c then '' removed'' else '' remove_failed'')) s1 else s1)
        in finish_transfer False ''Receive failed'' (fr_error_message failed) None Done_None s2
      else if 0 < sm_total_bytes offer \<and> of_nat (tr_bytes_transferred r) \<noteq> sm_total_bytes offer
      then finish_transfer False ''Receive failed''
        (''Expected '' @ show_nat (unat (sm_total_bytes offer)) @ '' bytes, got '' @ show_nat (tr_bytes_transferred r))
        None Done_None (cleanup_logged path '' size_mismatch'' s)
      else if sm_payload_type offer = ''tar''
      then (case extract_tar_to_dir (oe_exec env) path (ip_receive_folder (oc_identity s)) (oc_fs s) of
          (Inl e, fs) \<Rightarrow> finish_transfer False ''Receive failed'' e None Done_None
            (cleanup_logged path '' tar_extract_fail'' (s\<lparr>oc_fs := fs\<rparr>))
        | (Inr _, fs) \<Rightarrow> finish_transfer True ''Receive complete'' [] (Some r) Done_Received
            (remove_file path (s\<lparr>oc_fs := fs\<rparr>)))
      else finish_transfer True ''Receive complete'' [] (Some r) Done_Received s)"

text \<open>The end of the accepting thread.\<close>

definition end_inbound :: "'u orch \<Rightarrow> 'u orch" where
  "end_inbound s = resume_listener (s\<lparr>oc_accepting := None\<rparr>)"

section \<open>Steps\<close>

text \<open>A transport call of a job, with the result written back.\<close>

definition run_transport :: "(file_system \<times> 'u \<Rightarrow> (transfer_result \<times> file_system \<times> 'u) option) \<Rightarrow> 'u orch
    \<Rightarrow> (transfer_result \<times> 'u orch) option" where
  "run_transport f s = (case f (oc_fs s, oc_usb s) of
     None \<Rightarrow> None | Some (r, fs, u) \<Rightarrow> Some (r, s\<lparr>oc_fs := fs, oc_usb := u\<rparr>))"

text \<open>
  Each position as a function; the flag says that the step starts the listener thread. First
  the thread of \<open>send_to_peer\<close>.
\<close>

definition offering_job :: "'u orch_env \<Rightarrow> step_input \<Rightarrow> staged_payload \<Rightarrow> fabric_session_message \<Rightarrow> string \<Rightarrow> 'u orch
    \<Rightarrow> (job \<times> bool \<times> 'u orch) option" where
  "offering_job env inp staged offer peer s = (case send_session_with_routing env inp offer s of
       None \<Rightarrow> None
     | Some (Inl e, s1) \<Rightarrow> Some (Job_Done, False,
         resume_listener (finish_transfer False ''Send failed'' e None Done_None (remove_staged staged s1)))
     | Some (Inr _, s1) \<Rightarrow> Some (Job_Offered staged offer peer, False, s1))"

definition offered_job :: "'u orch_env \<Rightarrow> step_input \<Rightarrow> staged_payload \<Rightarrow> fabric_session_message \<Rightarrow> string \<Rightarrow> 'u orch
    \<Rightarrow> (job \<times> bool \<times> 'u orch) option" where
  "offered_job env inp staged offer peer s =
     (let (started, s1) = ensure_listener_started env (resume_listener s);
          s2 = set_listener (set_tight_poll True) (ensure_listener_active s1)
      in Some (Job_Await staged offer peer (new_await (si_now inp) (oc_handshake s2)), started, begin_await staged offer peer s2))"

definition retransmit_job :: "'u orch_env \<Rightarrow> step_input \<Rightarrow> staged_payload \<Rightarrow> fabric_session_message \<Rightarrow> string \<Rightarrow> await \<Rightarrow> int
    \<Rightarrow> 'u orch \<Rightarrow> (job \<times> bool \<times> 'u orch) option" where
  "retransmit_job env inp staged offer peer w now s = (case send_session_with_routing env inp offer s of
       None \<Rightarrow> None
     | Some (r, s1) \<Rightarrow>
         let s2 = (case r of Inl _ \<Rightarrow> s1 | Inr _ \<Rightarrow> booth_event (oc_port_index s1) ''offer_retransmit'' (''to='' @ peer) s1);
             (j, s3) = await_deadlines staged offer peer False now w (ensure_listener_active (resume_listener s2))
         in Some (j, False, s3))"

text \<open>The thread of \<open>start_outbound_payload\<close>.\<close>

definition sending_job :: "'u orch_env \<Rightarrow> staged_payload \<Rightarrow> 'u orch \<Rightarrow> (job \<times> bool \<times> 'u orch) option" where
  "sending_job env staged s =
     (case run_transport (tp_send_file_on_port (oe_tp env) (oc_port_index s) (stg_path staged)
         (us_payload_timeout_ms (oc_usb_settings s)) kFrameKindPayload) s of
       None \<Rightarrow> None
     | Some (r, s1) \<Rightarrow> Some (Job_Done, False, resume_listener
         (finish_transfer (tr_ok r) (if tr_ok r then ''Send complete'' else ''Send failed'') (tr_error_message r) (Some r)
           (if tr_ok r then Done_Sent else Done_None) (remove_staged staged s1))))"

text \<open>The thread of \<open>accept_pending_offer\<close>, \<open>run_inbound_payload\<close> included.\<close>

definition accept_job :: "fabric_session_message \<Rightarrow> 'u orch \<Rightarrow> (job \<times> bool \<times> 'u orch) option" where
  "accept_job offer s =
     (if oc_last_completed s = Some (sm_session_id offer)
      then Some (Job_Skip offer, False, booth_event (oc_port_index s) ''inbound_dup_skip'' (''session='' @ sm_session_id offer) s)
      else Some (Job_Accepting offer, False, pause_listener s))"

definition accepting_job :: "'u orch_env \<Rightarrow> step_input \<Rightarrow> fabric_session_message \<Rightarrow> 'u orch
    \<Rightarrow> (job \<times> bool \<times> 'u orch) option" where
  "accepting_job env inp offer s = (case send_session_reply env inp offer Kind_Accept s of
       None \<Rightarrow> None
     | Some (False, s1) \<Rightarrow> Some (Job_Refused offer, False, s1\<lparr>oc_accepting := None\<rparr>)
     | Some (True, s1) \<Rightarrow> Some (Job_Inbound offer, False, s1))"

definition refused_job :: "'u orch \<Rightarrow> (job \<times> bool \<times> 'u orch) option" where
  "refused_job s = Some (Job_Done, False,
     resume_listener (finish_transfer False ''Accept failed'' (ui_error_message (oc_state s)) None Done_None s))"

definition inbound_job :: "fabric_session_message \<Rightarrow> 'u orch \<Rightarrow> (job \<times> bool \<times> 'u orch) option" where
  "inbound_job offer s =
     (let path = build_inbound_payload_path (ip_receive_folder (oc_identity s)) (sm_payload_name offer);
          s1 = pause_listener s
      in Some (Job_Readying offer path, False, s1\<lparr>oc_fs := snd (ensure_parent_directories path (oc_fs s1))\<rparr>))"

definition readying_job :: "'u orch_env \<Rightarrow> step_input \<Rightarrow> fabric_session_message \<Rightarrow> string \<Rightarrow> 'u orch
    \<Rightarrow> (job \<times> bool \<times> 'u orch) option" where
  "readying_job env inp offer path s = (case send_session_reply env inp offer Kind_Ready s of
       None \<Rightarrow> None
     | Some (False, s1) \<Rightarrow> Some (Job_Ending offer, False,
         finish_transfer False ''Ready failed'' (ui_error_message (oc_state s1)) None Done_None s1)
     | Some (True, s1) \<Rightarrow> Some (Job_Receive offer path, False, begin_inbound inp offer s1))"

definition receive_job :: "'u orch_env \<Rightarrow> fabric_session_message \<Rightarrow> string \<Rightarrow> 'u orch \<Rightarrow> (job \<times> bool \<times> 'u orch) option" where
  "receive_job env offer path s =
     (case run_transport (tp_receive_file_on_port (oe_tp env) (oc_port_index s) path
         (ht_payload_header_timeout_ms (oc_handshake s)) kFrameKindPayload) s of
       None \<Rightarrow> None
     | Some (r, s1) \<Rightarrow> Some (Job_Ending offer, False, inbound_received env offer path r s1))"

text \<open>The threads of \<open>decline_pending_offer\<close> and \<open>run_loopback_test\<close>.\<close>

definition declining_job :: "'u orch_env \<Rightarrow> step_input \<Rightarrow> fabric_session_message \<Rightarrow> 'u orch
    \<Rightarrow> (job \<times> bool \<times> 'u orch) option" where
  "declining_job env inp offer s = (case send_session_reply env inp offer Kind_Decline s of
       None \<Rightarrow> None
     | Some (_, s1) \<Rightarrow> Some (Job_Done, False, resume_listener (publish_state (set_ui (\<lambda>x. x\<lparr>ui_status_message :=
         ''Declined transfer from '' @ sm_from_name offer\<rparr>) s1))))"

definition loopback_job :: "step_input \<Rightarrow> string \<Rightarrow> 'u orch \<Rightarrow> (job \<times> bool \<times> 'u orch) option" where
  "loopback_job inp path s = Some (Job_Looping path, False, pause_listener (begin_booth_display_rate (si_draw inp)
     (set_ui (\<lambda>x. x\<lparr>ui_transfer_label := basename_of path, ui_peak_mbps := 0, ui_result_mbps := 0\<rparr>) s)))"

definition looping_job :: "'u orch_env \<Rightarrow> string \<Rightarrow> 'u orch \<Rightarrow> (job \<times> bool \<times> 'u orch) option" where
  "looping_job env path s =
     (case run_transport (tp_loopback_files (oe_tp env) path 0 1) s of
       None \<Rightarrow> None
     | Some (r, s1) \<Rightarrow> Some (Job_Done, False,
         finish_transfer (tr_ok r) (if tr_ok r then ''Loopback verified'' else ''Loopback failed'') (tr_error_message r)
           (Some r) Done_None (resume_listener s1)))"

lemmas job_defs = offering_job_def offered_job_def retransmit_job_def sending_job_def accept_job_def accepting_job_def
  refused_job_def inbound_job_def readying_job_def receive_job_def declining_job_def loopback_job_def looping_job_def

declare job_defs [simp]

fun job_step :: "'u orch_env \<Rightarrow> step_input \<Rightarrow> job \<Rightarrow> 'u orch \<Rightarrow> (job \<times> bool \<times> 'u orch) option" where
  "job_step env inp (Job_Offer staged offer peer) s = Some (Job_Offering staged offer peer, False, pause_listener s)"
| "job_step env inp (Job_Offering staged offer peer) s = offering_job env inp staged offer peer s"
| "job_step env inp (Job_Offered staged offer peer) s = offered_job env inp staged offer peer s"
| "job_step env inp (Job_Await staged offer peer w) s =
     Some (await_read staged offer peer w s, False, s)"
| "job_step env inp (Job_Round staged offer peer accepted w) s =
     (let (j, s1) = await_round staged offer peer accepted (si_now inp) w s in Some (j, False, s1))"
| "job_step env inp (Job_Give_Up [] error) s = Some (Job_Done, False, give_up_end error s)"
| "job_step env inp (Job_Give_Up (k # ks) error) s = Some (Job_Give_Up ks error, False, clear_member k s)"
| "job_step env inp (Job_Retransmit staged offer peer w now) s = retransmit_job env inp staged offer peer w now s"
| "job_step env inp (Job_Outbound staged) s = Some (Job_Sending staged, False, pause_listener s)"
| "job_step env inp (Job_Sending staged) s = sending_job env staged s"
| "job_step env inp (Job_Accept offer) s = accept_job offer s"
| "job_step env inp (Job_Accepting offer) s = accepting_job env inp offer s"
| "job_step env inp (Job_Skip offer) s = Some (Job_Done, False, s\<lparr>oc_accepting := None\<rparr>)"
| "job_step env inp (Job_Refused offer) s = refused_job s"
| "job_step env inp (Job_Inbound offer) s = inbound_job offer s"
| "job_step env inp (Job_Readying offer path) s = readying_job env inp offer path s"
| "job_step env inp (Job_Receive offer path) s = receive_job env offer path s"
| "job_step env inp (Job_Ending offer) s = Some (Job_Done, False, end_inbound s)"
| "job_step env inp (Job_Decline offer) s = Some (Job_Declining offer, False, pause_listener s)"
| "job_step env inp (Job_Declining offer) s = declining_job env inp offer s"
| "job_step env inp (Job_Loopback path) s = loopback_job inp path s"
| "job_step env inp (Job_Looping path) s = looping_job env path s"
| "job_step env inp (Job_Handler h) s = None"
| "job_step env inp Job_Done s = None"

end
