(* ===== verification/Orch_System.thy ===== *)
theory Orch_System
  imports Orch_Jobs
begin

text \<open>
  The threads of \<open>TransferOrchestrator\<close> together: the user interface thread, the session
  listener, the presence thread, the startup thread, the payload thread, payload threads that
  were detached, the detached threads that run \<open>reset_connection\<close>, and the dismissal timers. A
  step is one piece of one thread: one hold of the mutex, one write without it, or one blocking
  call, and any other thread may run before the next piece. A thread that joins the payload
  thread waits until that one is done; starting a payload thread while another one is joinable
  ends the process (\<open>std::terminate\<close>), as does an exception that leaves the listener.
\<close>

section \<open>Threads\<close>

datatype ui_thread = Ui_Idle | Ui_Join job | Ui_Begin job | Ui_Assign job | Ui_Stop_Listener | Ui_Stop_Payload | Ui_Stopped

datatype listen_thread = Ls_None | Ls_Top | Ls_Receive string u32 | Ls_Handle handling string | Ls_Join job string
  | Ls_Assign job string | Ls_End string | Ls_Exited

datatype presence_thread = Pr_None | Pr_Tick | Pr_Lost int bool | Pr_Show int | Pr_Announce int | Pr_Send int

text \<open>A run of \<open>reset_connection\<close>: the locked block, the members it has still to clear, the join.\<close>

datatype reset_thread = Rs_Begin | Rs_Clear "member_clear list" staged_payload | Rs_Join | Rs_Done

record 'u system =
  sy_orch :: "'u orch"
  sy_payload :: "job option"
  sy_detached :: "job list"
  sy_ui :: ui_thread
  sy_resets :: "reset_thread list"
  sy_listen :: listen_thread
  sy_presence :: presence_thread
  sy_startup :: "(bool \<times> bool) option"
  sy_terminated :: bool

definition initial_system :: "'u orch \<Rightarrow> 'u system" where
  "initial_system s = \<lparr>sy_orch = s, sy_payload = None, sy_detached = [], sy_ui = Ui_Idle, sy_resets = [], sy_listen = Ls_None,
     sy_presence = Pr_None, sy_startup = None, sy_terminated = False\<rparr>"

definition payload_joinable :: "'u system \<Rightarrow> bool" where
  "payload_joinable sys \<longleftrightarrow> sy_payload sys \<noteq> None"

text \<open>\<open>if (joinable()) join()\<close>, once the thread is done.\<close>

definition join_payload :: "'u system \<Rightarrow> 'u system option" where
  "join_payload sys = (if sy_payload sys = None \<or> sy_payload sys = Some Job_Done
     then Some (sys\<lparr>sy_payload := None\<rparr>) else None)"

text \<open>What the user interface thread does between the join and the start of the thread.\<close>

definition before_start :: "job \<Rightarrow> 'u orch \<Rightarrow> 'u orch" where
  "before_start j s = (case j of Job_Offer staged offer peer \<Rightarrow> begin_offer staged peer s | _ \<Rightarrow> s)"

text \<open>\<open>payload_thread_ = std::thread(...)\<close>.\<close>

definition assign_payload :: "job \<Rightarrow> 'u system \<Rightarrow> 'u system" where
  "assign_payload j sys = (if payload_joinable sys then sys\<lparr>sy_terminated := True\<rparr> else sys\<lparr>sy_payload := Some j\<rparr>)"

text \<open>The bounded wait for the payload thread ran out: it is detached.\<close>

definition detach_payload :: "'u system \<Rightarrow> 'u system" where
  "detach_payload sys = sys\<lparr>sy_detached := the (sy_payload sys) # sy_detached sys, sy_payload := None\<rparr>"

section \<open>The user interface thread\<close>

datatype ui_op = Op_Send string "string list" string | Op_Accept | Op_Decline | Op_Reset | Op_Dismiss
  | Op_Loopback string | Op_Set_Identity identity_profile | Op_Start bool bool | Op_Stop

definition ui_call :: "'u orch_env \<Rightarrow> step_input \<Rightarrow> ui_op \<Rightarrow> 'u orch \<Rightarrow> ui_thread \<times> 'u orch" where
  "ui_call env inp opn s = (case opn of
       Op_Send name paths text \<Rightarrow> (case send_to_peer env inp name paths text s of
           (None, s1) \<Rightarrow> (Ui_Idle, s1) | (Some (staged, offer, peer), s1) \<Rightarrow> (Ui_Join (Job_Offer staged offer peer), s1))
     | Op_Accept \<Rightarrow> (case accept_pending_offer s of
           (None, s1) \<Rightarrow> (Ui_Idle, s1) | (Some offer, s1) \<Rightarrow> (Ui_Join (Job_Accept offer), s1))
     | Op_Decline \<Rightarrow> (case decline_pending_offer s of
           (None, s1) \<Rightarrow> (Ui_Idle, s1) | (Some offer, s1) \<Rightarrow> (Ui_Join (Job_Decline offer), s1))
     | Op_Reset \<Rightarrow> (Ui_Idle, s)
     | Op_Dismiss \<Rightarrow> (Ui_Idle, dismiss_transfer_display s)
     | Op_Loopback path \<Rightarrow> (if is_busy s then (Ui_Idle, s) else (Ui_Join (Job_Loopback path), s))
     | Op_Set_Identity identity \<Rightarrow> (Ui_Idle, set_identity identity s)
     | Op_Start probe listen \<Rightarrow> (Ui_Idle, orch_start s)
     | Op_Stop \<Rightarrow> (Ui_Stop_Listener, stop_begin env s))"

text \<open>A reset only starts a detached thread (\<open>MainFrame::OnResetConnection\<close>).\<close>

definition ui_begin :: "'u orch_env \<Rightarrow> step_input \<Rightarrow> ui_op \<Rightarrow> 'u system \<Rightarrow> 'u system option" where
  "ui_begin env inp opn sys =
     (if sy_ui sys \<noteq> Ui_Idle then None
      else let (ui, s) = ui_call env inp opn (sy_orch sys); sys1 = sys\<lparr>sy_ui := ui, sy_orch := s\<rparr>
        in (case opn of
              Op_Start probe listen \<Rightarrow> (if sy_startup sys \<noteq> None then None else Some (sys1\<lparr>sy_startup := Some (probe, listen)\<rparr>))
            | Op_Reset \<Rightarrow> Some (sys1\<lparr>sy_resets := sy_resets sys @ [Rs_Begin]\<rparr>)
            | _ \<Rightarrow> Some sys1))"

text \<open>The flag says that a bounded wait for the payload thread ran out.\<close>

definition ui_continue :: "bool \<Rightarrow> 'u system \<Rightarrow> 'u system option" where
  "ui_continue timeout sys = (case sy_ui sys of
       Ui_Idle \<Rightarrow> None
     | Ui_Join j \<Rightarrow> map_option (\<lambda>sys1. sys1\<lparr>sy_ui := Ui_Begin j\<rparr>) (join_payload sys)
     | Ui_Begin j \<Rightarrow> Some (sys\<lparr>sy_ui := Ui_Assign j, sy_orch := before_start j (sy_orch sys)\<rparr>)
     | Ui_Assign j \<Rightarrow> Some ((assign_payload j sys)\<lparr>sy_ui := Ui_Idle\<rparr>)
     | Ui_Stop_Listener \<Rightarrow> (if sy_listen sys \<in> {Ls_None, Ls_Exited} \<and> sy_presence sys = Pr_None \<and> sy_startup sys = None
         then Some (sys\<lparr>sy_ui := Ui_Stop_Payload\<rparr>) else None)
     | Ui_Stop_Payload \<Rightarrow> (case join_payload sys of
           Some sys1 \<Rightarrow> Some (sys1\<lparr>sy_ui := Ui_Stopped\<rparr>)
         | None \<Rightarrow> if timeout
             then Some ((detach_payload sys)\<lparr>sy_ui := Ui_Stopped, sy_orch := stop_end True (sy_orch sys)\<rparr>) else None)
     | Ui_Stopped \<Rightarrow> None)"

section \<open>The reset threads\<close>

definition reset_step :: "nat \<Rightarrow> bool \<Rightarrow> 'u system \<Rightarrow> 'u system option" where
  "reset_step i timeout sys =
     (if length (sy_resets sys) \<le> i then None
      else let goto = (\<lambda>r sys1. sys1\<lparr>sy_resets := (sy_resets sys1)[i := r]\<rparr>); s = sy_orch sys
        in (case sy_resets sys ! i of
              Rs_Begin \<Rightarrow> (let (staged, s1) = reset_begin s in Some (goto (Rs_Clear reset_clears staged) (sys\<lparr>sy_orch := s1\<rparr>)))
            | Rs_Clear (k # ks) staged \<Rightarrow> Some (goto (Rs_Clear ks staged) (sys\<lparr>sy_orch := clear_member k s\<rparr>))
            | Rs_Clear [] staged \<Rightarrow> Some (goto Rs_Join (sys\<lparr>sy_orch := reset_resume staged s\<rparr>))
            | Rs_Join \<Rightarrow> (case join_payload sys of
                  Some sys1 \<Rightarrow> Some (goto Rs_Done (sys1\<lparr>sy_orch := reset_end False s\<rparr>))
                | None \<Rightarrow> if timeout then Some (goto Rs_Done ((detach_payload sys)\<lparr>sy_orch := reset_end True s\<rparr>)) else None)
            | Rs_Done \<Rightarrow> None))"

section \<open>The listener thread\<close>

definition after_job :: "after_message \<Rightarrow> job option" where
  "after_job a = (case a of After_Nothing \<Rightarrow> None | After_Accept offer \<Rightarrow> Some (Job_Accept offer)
     | After_Outbound staged \<Rightarrow> Some (Job_Outbound staged))"

definition listen_step :: "'u orch_env \<Rightarrow> step_input \<Rightarrow> 'u system \<Rightarrow> 'u system option" where
  "listen_step env inp sys = (let s = sy_orch sys in case sy_listen sys of
       Ls_None \<Rightarrow> None
     | Ls_Top \<Rightarrow> (case listen_top (oe_tp env) (oe_tmp env) (si_rng inp) (oc_listener s) (oc_fs s, oc_usb s) of
           (next, l, fs, u) \<Rightarrow> Some (sys\<lparr>sy_orch := s\<lparr>oc_listener := l, oc_fs := fs, oc_usb := u\<rparr>,
             sy_listen := (case next of Loop_Exit \<Rightarrow> Ls_Exited | Loop_Again \<Rightarrow> Ls_Top | Loop_Receive path t \<Rightarrow> Ls_Receive path t)\<rparr>))
     | Ls_Receive path t \<Rightarrow> (case run_transport (tp_receive_file_on_port (oe_tp env) (oc_port_index s) path t 0) s of
           None \<Rightarrow> None
         | Some (r, s1) \<Rightarrow>
             (case listen_received (oc_port_index s1) (si_now inp) path r (oc_listener s1) (oc_fs s1) of
                (res, l, fs, lines) \<Rightarrow>
                  let s2 = s1\<lparr>oc_listener := l, oc_fs := fs, oc_log := oc_log s1 @ lines\<rparr>
                  in Some (case res of
                       Result_Exit \<Rightarrow> sys\<lparr>sy_orch := s2, sy_listen := Ls_Exited\<rparr>
                     | Result_Uncaught e \<Rightarrow> sys\<lparr>sy_orch := s2, sy_terminated := True\<rparr>
                     | Result_None \<Rightarrow> sys\<lparr>sy_orch := s2, sy_listen := Ls_End path\<rparr>
                     | Result_Message m \<Rightarrow> sys\<lparr>sy_orch := s2, sy_listen := Ls_Handle (Handle_Message m) path\<rparr>)))
     | Ls_Handle h path \<Rightarrow> (let (next, s1) = handler_step env inp h s
         in Some (sys\<lparr>sy_orch := s1, sy_listen := (case next of Inl h1 \<Rightarrow> Ls_Handle h1 path
              | Inr a \<Rightarrow> (case after_job a of None \<Rightarrow> Ls_End path | Some j \<Rightarrow> Ls_Join j path))\<rparr>))
     | Ls_Join j path \<Rightarrow> map_option (\<lambda>sys1. sys1\<lparr>sy_listen := Ls_Assign j path\<rparr>) (join_payload sys)
     | Ls_Assign j path \<Rightarrow> Some ((assign_payload j sys)\<lparr>sy_listen := Ls_End path\<rparr>)
     | Ls_End path \<Rightarrow> Some (sys\<lparr>sy_orch := s\<lparr>oc_fs := listen_end path (oc_fs s)\<rparr>, sy_listen := Ls_Top\<rparr>)
     | Ls_Exited \<Rightarrow> None)"

section \<open>The other threads\<close>

definition start_listener_thread :: "bool \<Rightarrow> 'u system \<Rightarrow> 'u system" where
  "start_listener_thread started sys = (if started then sys\<lparr>sy_listen := Ls_Top\<rparr> else sys)"

text \<open>\<open>tick_presence\<close> in its parts; the time is read once a tick.\<close>

definition presence_step :: "'u orch_env \<Rightarrow> step_input \<Rightarrow> 'u system \<Rightarrow> 'u system option" where
  "presence_step env inp sys = (let s = sy_orch sys in case sy_presence sys of
       Pr_None \<Rightarrow> None
     | Pr_Tick \<Rightarrow> (if oc_shutting_down s then Some (sys\<lparr>sy_presence := Pr_None\<rparr>)
         else let (lost, s1) = probe_presence env (si_now inp) s
           in Some (sys\<lparr>sy_orch := s1, sy_presence := (if lost then Pr_Lost (si_now inp) (ui_busy (oc_state s1)) else Pr_Show (si_now inp))\<rparr>))
     | Pr_Lost now was_busy \<Rightarrow> Some (sys\<lparr>sy_orch := lose_fabric was_busy s, sy_presence := Pr_Show now\<rparr>)
     | Pr_Show now \<Rightarrow> Some (sys\<lparr>sy_orch := show_presence env now s, sy_presence := Pr_Announce now\<rparr>)
     | Pr_Announce now \<Rightarrow> Some (sys\<lparr>sy_presence := (if announce_due now s then Pr_Send now else Pr_Tick)\<rparr>)
     | Pr_Send now \<Rightarrow> map_option (\<lambda>s1. sys\<lparr>sy_orch := s1, sy_presence := Pr_Tick\<rparr>) (send_announce env inp now s))"

definition startup_step :: "'u orch_env \<Rightarrow> 'u system \<Rightarrow> 'u system option" where
  "startup_step env sys = (case sy_startup sys of
       None \<Rightarrow> None
     | Some (probe, listen) \<Rightarrow> (case run_startup env probe listen (sy_orch sys) of
         ((started, presence), s) \<Rightarrow> Some (start_listener_thread started
           (sys\<lparr>sy_orch := s, sy_startup := None, sy_presence := (if presence \<and> sy_presence sys = Pr_None then Pr_Tick else sy_presence sys)\<rparr>))))"

definition payload_step :: "'u orch_env \<Rightarrow> step_input \<Rightarrow> 'u system \<Rightarrow> 'u system option" where
  "payload_step env inp sys = (case sy_payload sys of
       None \<Rightarrow> None
     | Some j \<Rightarrow> map_option (\<lambda>(j', started, s). start_listener_thread started (sys\<lparr>sy_orch := s, sy_payload := Some j'\<rparr>))
         (job_step env inp j (sy_orch sys)))"

definition detached_step :: "'u orch_env \<Rightarrow> step_input \<Rightarrow> nat \<Rightarrow> 'u system \<Rightarrow> 'u system option" where
  "detached_step env inp i sys =
     (if length (sy_detached sys) \<le> i then None
      else map_option (\<lambda>(j', started, s). start_listener_thread started
             (sys\<lparr>sy_orch := s, sy_detached := (sy_detached sys)[i := j']\<rparr>))
           (job_step env inp (sy_detached sys ! i) (sy_orch sys)))"

text \<open>A progress report of some transfer that is under way.\<close>

definition progress_step :: "u64 \<Rightarrow> u64 \<Rightarrow> double \<Rightarrow> 'u system \<Rightarrow> 'u system option" where
  "progress_step bytes_done bytes_total elapsed sys =
     (if list_ex reports_progress (sy_detached sys) \<or> (case sy_payload sys of None \<Rightarrow> False | Some j \<Rightarrow> reports_progress j)
      then Some (sys\<lparr>sy_orch := on_progress bytes_done bytes_total elapsed (sy_orch sys)\<rparr>) else None)"

definition timer_step :: "u64 \<Rightarrow> 'u system \<Rightarrow> 'u system option" where
  "timer_step epoch sys = (if epoch \<in> set (oc_timers (sy_orch sys))
     then Some (sys\<lparr>sy_orch := dismiss_timer epoch (sy_orch sys)\<rparr>) else None)"

section \<open>Runs\<close>

datatype event = Ev_Ui ui_op | Ev_Ui_Continue bool | Ev_Reset nat bool | Ev_Listen | Ev_Presence | Ev_Startup | Ev_Payload
  | Ev_Detached nat | Ev_Progress u64 u64 double | Ev_Timer u64

definition system_step :: "'u orch_env \<Rightarrow> step_input \<Rightarrow> event \<Rightarrow> 'u system \<Rightarrow> 'u system option" where
  "system_step env inp ev sys =
     (if sy_terminated sys then None
      else case ev of
          Ev_Ui opn \<Rightarrow> ui_begin env inp opn sys
        | Ev_Ui_Continue timeout \<Rightarrow> ui_continue timeout sys
        | Ev_Reset i timeout \<Rightarrow> reset_step i timeout sys
        | Ev_Listen \<Rightarrow> listen_step env inp sys
        | Ev_Presence \<Rightarrow> presence_step env inp sys
        | Ev_Startup \<Rightarrow> startup_step env sys
        | Ev_Payload \<Rightarrow> payload_step env inp sys
        | Ev_Detached i \<Rightarrow> detached_step env inp i sys
        | Ev_Progress d t e \<Rightarrow> progress_step d t e sys
        | Ev_Timer epoch \<Rightarrow> timer_step epoch sys)"

section \<open>What a step exchanges over the cable\<close>

text \<open>The messages a job sends when it takes its next step; offers need no look at the state.\<close>

definition job_offers :: "job \<Rightarrow> fabric_session_message set" where
  "job_offers j = (case j of Job_Offering staged offer peer \<Rightarrow> {offer} | Job_Retransmit staged offer peer w now \<Rightarrow> {offer} | _ \<Rightarrow> {})"

definition job_sends :: "'u orch \<Rightarrow> job \<Rightarrow> fabric_session_message set" where
  "job_sends s j = (case j of Job_Accepting offer \<Rightarrow> {reply_message s offer Kind_Accept}
     | Job_Readying offer path \<Rightarrow> {reply_message s offer Kind_Ready}
     | Job_Declining offer \<Rightarrow> {reply_message s offer Kind_Decline} | _ \<Rightarrow> job_offers j)"

definition step_sends :: "event \<Rightarrow> 'u system \<Rightarrow> fabric_session_message set" where
  "step_sends ev sys = (case ev of
       Ev_Payload \<Rightarrow> (case sy_payload sys of None \<Rightarrow> {} | Some j \<Rightarrow> job_sends (sy_orch sys) j)
     | Ev_Detached i \<Rightarrow> (if i < length (sy_detached sys) then job_sends (sy_orch sys) (sy_detached sys ! i) else {})
     | _ \<Rightarrow> {})"

text \<open>The message the listener hears in its next step.\<close>

definition heard :: "'u orch_env \<Rightarrow> step_input \<Rightarrow> 'u system \<Rightarrow> fabric_session_message option" where
  "heard env inp sys = (let s = sy_orch sys in case sy_listen sys of
       Ls_Receive path t \<Rightarrow> (case run_transport (tp_receive_file_on_port (oe_tp env) (oc_port_index s) path t 0) s of
           None \<Rightarrow> None
         | Some (r, s1) \<Rightarrow> (case fst (listen_received (oc_port_index s1) (si_now inp) path r (oc_listener s1) (oc_fs s1)) of
             Result_Message m \<Rightarrow> Some m | _ \<Rightarrow> None))
     | _ \<Rightarrow> None)"

definition step_hears :: "'u orch_env \<Rightarrow> step_input \<Rightarrow> event \<Rightarrow> 'u system \<Rightarrow> fabric_session_message set" where
  "step_hears env inp ev sys = (if ev = Ev_Listen then set_option (heard env inp sys) else {})"

lemmas exchange_defs = job_offers_def job_sends_def step_sends_def heard_def step_hears_def

lemma job_offers_sent: "job_offers j \<subseteq> job_sends s j"
  by (cases j) (auto simp: job_offers_def job_sends_def)

section \<open>Reachable states\<close>

inductive system_reach :: "'u orch_env \<Rightarrow> 'u system \<Rightarrow> 'u system \<Rightarrow> bool" for env sys0 where
  reach_start: "system_reach env sys0 sys0"
| reach_step: "system_reach env sys0 sys \<Longrightarrow> system_step env inp ev sys = Some sys' \<Longrightarrow> system_reach env sys0 sys'"

fun run_events :: "'u orch_env \<Rightarrow> (step_input \<times> event) list \<Rightarrow> 'u system \<Rightarrow> 'u system option" where
  "run_events env [] sys = Some sys"
| "run_events env ((inp, ev) # evs) sys = (case system_step env inp ev sys of
     None \<Rightarrow> None | Some sys1 \<Rightarrow> run_events env evs sys1)"

lemma run_events_reach:
  "run_events env evs sys = Some sys' \<Longrightarrow> system_reach env sys0 sys \<Longrightarrow> system_reach env sys0 sys'"
proof (induction env evs sys rule: run_events.induct)
  case (2 env inp ev evs sys)
  from 2(2) obtain sys1 where st: "system_step env inp ev sys = Some sys1" "run_events env evs sys1 = Some sys'"
    by (auto split: option.splits)
  from 2(1) [OF st reach_step [OF 2(3) st(1)]] show ?case .
qed simp

lemma run_events_append:
  "run_events env (es @ fs) sys = (case run_events env es sys of None \<Rightarrow> None | Some sys1 \<Rightarrow> run_events env fs sys1)"
  by (induction env es sys rule: run_events.induct) (auto split: option.splits)

end
