(* ===== verification/Orch_Core.thy ===== *)
theory Orch_Core
  imports Orch_System
begin

text \<open>
  The session protocol of the orchestrator without display, log and files: the fields of the
  state the protocol is about, the abstract protocol on them, and the lemmas that say what
  each operation of the code does to them. Every invariant of the threads is proved on this
  projection.
\<close>

section \<open>The projection\<close>

record session_core =
  co_identity :: identity_profile
  co_roster :: "peer_entry list"
  co_busy :: bool
  co_waiting :: bool
  co_pending :: "fabric_session_message option"
  co_outbound :: "fabric_session_message option"
  co_staged :: staged_payload
  co_awaiting :: bool
  co_accepting :: "string option"
  co_completed :: "string option"
  co_listening :: bool

definition core_of :: "'u orch \<Rightarrow> session_core" where
  "core_of s = \<lparr>co_identity = oc_identity s, co_roster = oc_roster s, co_busy = ui_busy (oc_state s), co_waiting = ui_waiting_for_partner (oc_state s),
     co_pending = ui_pending_offer (oc_state s), co_outbound = oc_outbound_offer s, co_staged = oc_staged s,
     co_awaiting = oc_awaiting_ready s, co_accepting = oc_accepting s, co_completed = oc_last_completed s,
     co_listening = oc_listener_started s\<rparr>"

lemma core_of_fields [simp]:
  "co_identity (core_of s) = oc_identity s" "co_roster (core_of s) = oc_roster s"
  "co_busy (core_of s) = ui_busy (oc_state s)" "co_waiting (core_of s) = ui_waiting_for_partner (oc_state s)" "co_pending (core_of s) = ui_pending_offer (oc_state s)"
  "co_outbound (core_of s) = oc_outbound_offer s" "co_staged (core_of s) = oc_staged s"
  "co_awaiting (core_of s) = oc_awaiting_ready s" "co_accepting (core_of s) = oc_accepting s"
  "co_completed (core_of s) = oc_last_completed s" "co_listening (core_of s) = oc_listener_started s"
  by (simp_all add: core_of_def)

text \<open>Updates of single fields.\<close>

lemma core_of_updates [simp]:
  "core_of (s\<lparr>oc_identity := a\<rparr>) = (core_of s)\<lparr>co_identity := a\<rparr>"
  "core_of (s\<lparr>oc_roster := b\<rparr>) = (core_of s)\<lparr>co_roster := b\<rparr>"
  "core_of (s\<lparr>oc_outbound_offer := c\<rparr>) = (core_of s)\<lparr>co_outbound := c\<rparr>"
  "core_of (s\<lparr>oc_staged := d\<rparr>) = (core_of s)\<lparr>co_staged := d\<rparr>"
  "core_of (s\<lparr>oc_awaiting_ready := e\<rparr>) = (core_of s)\<lparr>co_awaiting := e\<rparr>"
  "core_of (s\<lparr>oc_accepting := f\<rparr>) = (core_of s)\<lparr>co_accepting := f\<rparr>"
  "core_of (s\<lparr>oc_last_completed := g\<rparr>) = (core_of s)\<lparr>co_completed := g\<rparr>"
  "core_of (s\<lparr>oc_listener_started := h\<rparr>) = (core_of s)\<lparr>co_listening := h\<rparr>"
  by (simp_all add: core_of_def)

lemma core_of_unrelated [simp]:
  "core_of (s\<lparr>oc_handshake := h\<rparr>) = core_of s" "core_of (s\<lparr>oc_shutting_down := b\<rparr>) = core_of s"
  "core_of (s\<lparr>oc_wiring_checked := b\<rparr>) = core_of s"
  "core_of (s\<lparr>oc_working_ports := p\<rparr>) = core_of s" "core_of (s\<lparr>oc_fabric_was_connected := b\<rparr>) = core_of s"
  "core_of (s\<lparr>oc_last_announce_ms := i\<rparr>) = core_of s" "core_of (s\<lparr>oc_dismiss_epoch := w\<rparr>) = core_of s"
  "core_of (s\<lparr>oc_last_probe_ms := i\<rparr>) = core_of s" "core_of (s\<lparr>oc_cached_port_ok := b\<rparr>) = core_of s"
  "core_of (s\<lparr>oc_cached_devices := i\<rparr>) = core_of s" "core_of (s\<lparr>oc_listener := l\<rparr>) = core_of s"
  "core_of (s\<lparr>oc_usb_settings := us\<rparr>) = core_of s" "core_of (s\<lparr>oc_timers := ts\<rparr>) = core_of s"
  "core_of (s\<lparr>oc_published := ps\<rparr>) = core_of s" "core_of (s\<lparr>oc_log := ls\<rparr>) = core_of s"
  "core_of (s\<lparr>oc_fs := fs\<rparr>) = core_of s" "core_of (s\<lparr>oc_usb := u\<rparr>) = core_of s"
  by (simp_all add: core_of_def)

lemma core_of_state [simp]:
  "core_of (s\<lparr>oc_state := x\<rparr>) = (core_of s)\<lparr>co_busy := ui_busy x, co_waiting := ui_waiting_for_partner x,
     co_pending := ui_pending_offer x\<rparr>"
  by (simp add: core_of_def)

lemma core_same [simp]:
  "oc_identity s = a \<Longrightarrow> (core_of s)\<lparr>co_identity := a\<rparr> = core_of s"
  "(core_of s)\<lparr>co_busy := ui_busy (oc_state s), co_waiting := w, co_pending := q\<rparr> = (core_of s)\<lparr>co_waiting := w, co_pending := q\<rparr>"
  "(core_of s)\<lparr>co_waiting := ui_waiting_for_partner (oc_state s), co_pending := q\<rparr> = (core_of s)\<lparr>co_pending := q\<rparr>"
  "(core_of s)\<lparr>co_pending := ui_pending_offer (oc_state s)\<rparr> = core_of s"
  "(core_of s)\<lparr>co_waiting := w, co_pending := ui_pending_offer (oc_state s)\<rparr> = (core_of s)\<lparr>co_waiting := w\<rparr>"
  by (simp_all add: core_of_def)

text \<open>A change of the display alone.\<close>

lemma core_set_ui:
  "core_of (set_ui f s) = (core_of s)\<lparr>co_busy := ui_busy (f (oc_state s)),
     co_waiting := ui_waiting_for_partner (f (oc_state s)), co_pending := ui_pending_offer (f (oc_state s))\<rparr>"
  by (simp add: set_ui_def)

lemma core_set_ui_same [simp]:
  "ui_busy (f (oc_state s)) = ui_busy (oc_state s) \<Longrightarrow> ui_pending_offer (f (oc_state s)) = ui_pending_offer (oc_state s)
   \<Longrightarrow> ui_waiting_for_partner (f (oc_state s)) = ui_waiting_for_partner (oc_state s)
   \<Longrightarrow> core_of (set_ui f s) = core_of s"
  by (simp add: core_set_ui)

lemma set_ui_state [simp]: "oc_state (set_ui f s) = f (oc_state s)"
  by (simp add: set_ui_def)

lemma core_plain [simp]:
  "core_of (booth_event leg ev detail s) = core_of s" "core_of (publish_state s) = core_of s"
  "core_of (set_listener h s) = core_of s" "core_of (remove_file path s) = core_of s"
  "core_of (bump_fabric_activity s) = core_of s" "core_of (invalidate_dismiss s) = core_of s"
  "core_of (schedule_dismiss s) = core_of s" "core_of (ensure_listener_active s) = core_of s"
  "core_of (pause_listener s) = core_of s" "core_of (resume_listener s) = core_of s"
  "core_of (remove_staged staged s) = core_of s" "core_of (on_progress a b e s) = core_of s"
  "core_of (begin_booth_display_rate draw s) = core_of s" "core_of (cleanup_logged path why s) = core_of s"
  by (simp_all add: booth_event_def publish_state_def set_listener_def remove_file_def bump_fabric_activity_def
      invalidate_dismiss_def schedule_dismiss_def ensure_listener_active_def pause_listener_def resume_listener_def
      remove_staged_def on_progress_def begin_booth_display_rate_def cleanup_logged_def core_set_ui Let_def
      split: prod.splits)

lemma core_read_transport [simp]: "core_of (snd (read_transport f s)) = core_of s"
  by (simp add: read_transport_def split: prod.splits)

lemma core_clear [simp]:
  "core_of (clear_outbound_session s) = (core_of s)\<lparr>co_outbound := None, co_staged := no_staged, co_awaiting := False\<rparr>"
  by (simp add: clear_outbound_session_def)

lemma core_dismiss [simp]:
  "core_of (dismiss_transfer_display s) = core_of s" "core_of (dismiss_timer epoch s) = core_of s"
  by (simp_all add: dismiss_transfer_display_def dismiss_timer_def core_set_ui clear_done_display_def Let_def)

section \<open>The end of a transfer\<close>

lemma show_finished_core [simp]:
  "ui_busy (show_finished r x) = ui_busy x" "ui_waiting_for_partner (show_finished r x) = ui_waiting_for_partner x" "ui_pending_offer (show_finished r x) = ui_pending_offer x"
  by (simp_all add: show_finished_def Let_def split: option.splits)

definition core_finish :: "bool \<Rightarrow> transfer_done_kind \<Rightarrow> session_core \<Rightarrow> session_core" where
  "core_finish ok kind c = c\<lparr>co_busy := False, co_waiting := False, co_outbound := None, co_staged := no_staged, co_awaiting := False,
     co_completed := (if ok \<and> kind = Done_Received \<and> co_accepting c \<noteq> None then co_accepting c else co_completed c)\<rparr>"

lemma accepting_plain [simp]:
  "oc_accepting (booth_event leg ev detail s) = oc_accepting s" "oc_accepting (set_ui f s) = oc_accepting s"
  "oc_accepting (clear_outbound_session s) = oc_accepting s"
  "oc_state (booth_event leg ev detail s) = oc_state s" "oc_state (clear_outbound_session s) = oc_state s"
  "oc_accepting (remove_file path s) = oc_accepting s" "oc_last_completed (remove_file path s) = oc_last_completed s"
  "oc_last_completed (clear_outbound_session s) = oc_last_completed s"
  "oc_last_completed (booth_event leg ev detail s) = oc_last_completed s"
  "oc_last_completed (set_ui f s) = oc_last_completed s" "oc_staged (set_ui f s) = oc_staged s"
  "oc_identity (set_ui f s) = oc_identity s" "oc_staged (publish_state s) = oc_staged s"
  by (simp_all add: booth_event_def set_ui_def clear_outbound_session_def remove_file_def publish_state_def)

lemma finish_core [simp]:
  "core_of (finish_transfer ok message error result kind s) = core_finish ok kind (core_of s)"
  by (auto simp: finish_transfer_def Let_def core_set_ui core_finish_def)

section \<open>Message handlers\<close>

lemma core_note [simp]: "core_of (note_message m s) = core_of s" "oc_roster (note_message m s) = oc_roster s"
    "oc_staged (note_message m s) = oc_staged s"
proof -
  show c: "core_of (note_message m s) = core_of s" by (simp add: note_message_def)
  show "oc_roster (note_message m s) = oc_roster s" "oc_staged (note_message m s) = oc_staged s"
    using arg_cong [OF c, of co_roster] arg_cong [OF c, of co_staged] by simp_all
qed

lemma core_handle_accept:
  "core_of (handle_accept m s) = (if offer_matches m s then (core_of s)\<lparr>co_awaiting := True, co_waiting := True\<rparr> else core_of s)"
  by (simp add: handle_accept_def core_set_ui)

lemma core_decline_begin:
  "core_of (snd (decline_begin m s)) =
     (if offer_matches m s then (core_of s)\<lparr>co_outbound := None, co_staged := no_staged, co_awaiting := False\<rparr> else core_of s)"
  "fst (decline_begin m s) = (if offer_matches m s then Some (oc_staged s) else None)"
  by (simp_all add: decline_begin_def)

lemma core_decline_end [simp]: "core_of (decline_end m st s) = core_finish False Done_None (core_of s)"
  by (simp add: decline_end_def remove_if_temp_def)

lemma core_finish_cleared [simp]:
  "core_finish False k (c\<lparr>co_outbound := None, co_staged := no_staged, co_awaiting := False\<rparr>) = core_finish False k c"
  by (simp add: core_finish_def)

lemma core_handle_decline:
  "core_of (handle_decline m s) = (if offer_matches m s then core_finish False Done_None (core_of s) else core_of s)"
  using core_decline_begin [of m s] by (cases "decline_begin m s") (auto simp: handle_decline_def split: option.split if_splits)

lemma core_start_outbound [simp]:
  "core_of (snd (start_outbound_payload inp s)) = (core_of s)\<lparr>co_waiting := False\<rparr>"
  "fst (start_outbound_payload inp s) = oc_staged s"
  by (simp_all add: start_outbound_payload_def Let_def core_set_ui set_listener_def)

lemma core_ready_begin:
  "core_of (snd (ready_begin m s)) = (if offer_matches m s then (core_of s)\<lparr>co_awaiting := True\<rparr> else core_of s)"
  "fst (ready_begin m s) = offer_matches m s" "oc_staged (snd (ready_begin m s)) = oc_staged s"
proof -
  have "(core_of s)\<lparr>co_awaiting := True\<rparr> = core_of s" if "oc_awaiting_ready s" using that by (simp add: core_of_def)
  then show "core_of (snd (ready_begin m s)) = (if offer_matches m s then (core_of s)\<lparr>co_awaiting := True\<rparr> else core_of s)"
    by (simp add: ready_begin_def core_set_ui)
qed (simp_all add: ready_begin_def)

lemma core_handle_ready:
  "core_of (snd (handle_ready inp m s)) =
     (if offer_matches m s then (core_of s)\<lparr>co_awaiting := True, co_waiting := False\<rparr> else core_of s)
   \<and> fst (handle_ready inp m s) = (if offer_matches m s then Some (oc_staged s) else None)"
  using core_ready_begin [of m s] by (cases "ready_begin m s") (auto simp: handle_ready_def case_prod_beta)

text \<open>An offer is taken when nothing speaks against it.\<close>

definition offer_taken :: "fabric_session_message \<Rightarrow> session_core \<Rightarrow> bool" where
  "offer_taken m c \<longleftrightarrow> (sm_to_name m = [] \<or> sm_to_name m = ip_display_name (co_identity c))
     \<and> co_accepting c = None \<and> co_completed c \<noteq> Some (sm_session_id m)
     \<and> (\<forall>p. co_pending c = Some p \<longrightarrow> sm_session_id p \<noteq> sm_session_id m) \<and> \<not> co_busy c"

definition asks_first :: "session_core \<Rightarrow> bool" where
  "asks_first c \<longleftrightarrow> ip_receive_status (co_identity c) = Status_AskFirst"

lemma offer_ignored_None:
  "offer_ignored m s = None \<longleftrightarrow> (sm_to_name m = [] \<or> sm_to_name m = ip_display_name (oc_identity s))
     \<and> oc_accepting s \<noteq> Some (sm_session_id m) \<and> oc_last_completed s \<noteq> Some (sm_session_id m)
     \<and> (\<forall>p. ui_pending_offer (oc_state s) = Some p \<longrightarrow> sm_session_id p \<noteq> sm_session_id m)"
  by (auto simp: offer_ignored_def Let_def split: option.splits)

lemma core_accept_pending:
  "core_of (snd (accept_pending_offer s)) \<in> {core_of s, (core_of s)\<lparr>co_pending := None\<rparr>}
     \<and> fst (accept_pending_offer s) = None
   \<or> (\<exists>offer. ui_pending_offer (oc_state s) = Some offer \<and> fst (accept_pending_offer s) = Some offer
        \<and> core_of (snd (accept_pending_offer s)) =
            (core_of s)\<lparr>co_pending := None, co_accepting := Some (sm_session_id offer)\<rparr>)"
  by (auto simp: accept_pending_offer_def core_set_ui split: option.splits)

lemma core_accept_fresh:
  assumes "ui_pending_offer (oc_state s) = Some m" and "oc_accepting s \<noteq> Some (sm_session_id m)" and "oc_last_completed s \<noteq> Some (sm_session_id m)"
  shows "fst (accept_pending_offer s) = Some m"
    "core_of (snd (accept_pending_offer s)) = (core_of s)\<lparr>co_pending := None, co_accepting := Some (sm_session_id m)\<rparr>"
  using assms by (simp_all add: accept_pending_offer_def core_set_ui)

text \<open>The parts of \<open>handle_offer\<close>.\<close>

lemma is_busy_core: "is_busy s \<longleftrightarrow> co_busy (core_of s) \<or> co_accepting (core_of s) \<noteq> None"
  by (simp add: is_busy_def)

lemma core_offer_parts [simp]:
  "core_of (snd (offer_begin m s)) = core_of s" "fst (offer_begin m s) \<longleftrightarrow> offer_ignored m s = None"
  "core_of (offer_clear s) = core_of s" "core_of (snd (offer_busy m s)) = core_of s" "fst (offer_busy m s) \<longleftrightarrow> is_busy s"
  "core_of (snd (offer_take m s)) = (core_of s)\<lparr>co_pending := Some m\<rparr>" "fst (offer_take m s) \<longleftrightarrow> \<not> asks_first (core_of s)"
  by (auto simp: offer_begin_def offer_clear_def offer_busy_def offer_take_def Let_def core_set_ui asks_first_def
      split: option.split prod.split intro: receive_status.exhaust [of "ip_receive_status (oc_identity s)"])

lemma core_handle_offer:
  "core_of (snd (handle_offer m s)) =
     (if \<not> offer_taken m (core_of s) then core_of s
      else if asks_first (core_of s) then (core_of s)\<lparr>co_pending := Some m\<rparr>
      else (core_of s)\<lparr>co_pending := None, co_accepting := Some (sm_session_id m)\<rparr>)
   \<and> fst (handle_offer m s) = (if offer_taken m (core_of s) \<and> \<not> asks_first (core_of s) then Some m else None)"
proof -
  obtain free s1 where b: "offer_begin m s = (free, s1)" by fastforce
  obtain busy s2 where y: "offer_busy m (offer_clear s1) = (busy, s2)" by fastforce
  obtain go s3 where t: "offer_take m s2 = (go, s3)" by fastforce
  have c1: "core_of s1 = core_of s" and f: "free \<longleftrightarrow> offer_ignored m s = None" using core_offer_parts(1,2) [of m s] by (simp_all add: b)
  have c2: "core_of s2 = core_of s" and bu: "busy \<longleftrightarrow> is_busy s"
    using core_offer_parts(4,5) [of m "offer_clear s1"] by (simp_all add: y c1 is_busy_core del: core_of_fields)
  have c3: "core_of s3 = (core_of s)\<lparr>co_pending := Some m\<rparr>" and g: "go \<longleftrightarrow> \<not> asks_first (core_of s)"
    using core_offer_parts(6,7) [of m s2] by (simp_all add: t c2)
  have taken: "offer_taken m (core_of s) \<longleftrightarrow> free \<and> \<not> busy"
    unfolding f offer_ignored_None bu by (auto simp: offer_taken_def is_busy_core)
  show ?thesis
  proof (cases "free \<and> \<not> busy \<and> go")
    case True
    note fields = c3 [THEN arg_cong, of co_pending] c3 [THEN arg_cong, of co_accepting] c3 [THEN arg_cong, of co_completed]
    have "oc_accepting s \<noteq> Some (sm_session_id m)" "oc_last_completed s \<noteq> Some (sm_session_id m)"
      using True offer_ignored_None [of m s] by (simp_all add: f)
    with fields have "ui_pending_offer (oc_state s3) = Some m" "oc_accepting s3 \<noteq> Some (sm_session_id m)" "oc_last_completed s3 \<noteq> Some (sm_session_id m)"
      by simp_all
    from core_accept_fresh [OF this] True taken g show ?thesis by (simp add: handle_offer_def b y t c3)
  next
    case False
    then show ?thesis using taken g by (auto simp: handle_offer_def b y t c1 c2 c3)
  qed
qed

lemma core_decline_pending:
  "core_of (snd (decline_pending_offer s)) = (core_of s)\<lparr>co_pending := None\<rparr>"
proof (cases "ui_pending_offer (oc_state s)")
  case None
  then have "(core_of s)\<lparr>co_pending := None\<rparr> = core_of s" by (metis core_same(4))
  with None show ?thesis by (simp add: decline_pending_offer_def)
qed (simp add: decline_pending_offer_def core_set_ui)

text \<open>An announcement changes the roster only, by one valid touch at most.\<close>

definition announced_by :: "peer_entry list \<Rightarrow> peer_entry list \<Rightarrow> bool" where
  "announced_by r r' \<longleftrightarrow> r' = r \<or> (\<exists>now name team st port inst. name \<noteq> [] \<and> 0 \<le> port \<and> r' = touch_peer now name team st port inst r)"

lemma announced_by_touch:
  "name \<noteq> [] \<Longrightarrow> 0 \<le> port \<Longrightarrow> announced_by r (touch_peer now name team st port inst r)"
  unfolding announced_by_def by blast

lemma core_announce_touch:
  "\<exists>r. core_of (snd (announce_touch env inp m s)) = (core_of s)\<lparr>co_roster := r\<rparr> \<and> announced_by (oc_roster s) r"
proof -
  have same: "(core_of s)\<lparr>co_roster := oc_roster s\<rparr> = core_of s" by (simp add: core_of_def)
  obtain leg s1 where rt: "read_transport (tp_resolved_port_index (oe_tp env)) s = (leg, s1)" by fastforce
  then have c1: "core_of s1 = core_of s" using core_read_transport by (metis snd_conv)
  then have r1: "oc_roster s1 = oc_roster s" by (metis core_of_fields(2))
  let ?p = "parse_announce_note True (sm_note m) (default_remote_guess_leg leg)"
  let ?port = "resolve_remote_fabric_port leg (an_port_index ?p)"
  let ?r = "touch_peer (si_now inp) (sm_from_name m) (sm_team m) (an_receive_status ?p) ?port (an_instance_id ?p) (oc_roster s)"
  let ?t = "snd (announce_touch env inp m s)"
  have "core_of ?t = core_of s \<or> sm_from_name m \<noteq> [] \<and> 0 \<le> ?port \<and> core_of ?t = (core_of s)\<lparr>co_roster := ?r\<rparr>"
  proof (cases "sm_from_name m = [] \<or> an_instance_id ?p \<noteq> [] \<and> an_instance_id ?p = oc_instance_id s1
      \<or> an_instance_id ?p = [] \<and> sm_from_name m = ip_display_name (oc_identity s1) \<and> an_port_index ?p = leg \<or> ?port < 0")
    case True
    then have "core_of ?t = core_of s"
      unfolding announce_touch_def rt Let_def by (simp only: prod.case if_distrib [of snd] if_distrib [of core_of] snd_conv core_plain c1) auto
    then show ?thesis ..
  next
    case False
    then have "core_of ?t = (core_of s)\<lparr>co_roster := ?r\<rparr>"
      unfolding announce_touch_def rt Let_def by (auto simp: c1 r1)
    with False show ?thesis by (simp add: not_less)
  qed
  then consider "core_of ?t = core_of s" | "sm_from_name m \<noteq> []" "0 \<le> ?port" "core_of ?t = (core_of s)\<lparr>co_roster := ?r\<rparr>"
    by blast
  then show ?thesis
  proof cases
    case 1
    with same show ?thesis by (intro exI [of _ "oc_roster s"]) (simp add: announced_by_def)
  next
    case 2
    from 2(3) announced_by_touch [OF 2(1,2)] show ?thesis by blast
  qed
qed

lemma core_announce_show [simp]: "core_of (announce_show s) = core_of s"
  by (simp add: announce_show_def)

lemma core_handle_announce:
  "\<exists>r. core_of (handle_announce env inp m s) = (core_of s)\<lparr>co_roster := r\<rparr> \<and> announced_by (oc_roster s) r"
  using core_announce_touch [of env inp m s] by (cases "announce_touch env inp m s") (auto simp: handle_announce_def)

end
