(* ===== verification/Orch_Steps.thy ===== *)
theory Orch_Steps
  imports Orch_Core
begin

text \<open>
  What the remaining operations of the orchestrator do to the projection of \<open>Orch_Core\<close>: the
  presence tick, the jobs of the payload thread, the parts of the message handlers, and the calls
  of the user interface. The summary lemmas \<open>core_on_session_message\<close>, \<open>core_job_step\<close>,
  \<open>core_handler_step\<close> and \<open>core_ui_call\<close> are what the invariants of the threads are proved from.
\<close>

section \<open>Sending and presence\<close>

lemma core_of_roster_same: "core_of s = (core_of s)\<lparr>co_roster := oc_roster s\<rparr>"
  by (simp add: core_of_def)

lemma core_send:
  assumes "send_session_with_routing env inp m s = Some (r, s')"
  shows "core_of s' = core_of s"
  using assms by (auto simp: send_session_with_routing_def Let_def split: option.splits sum.splits)

lemma core_reply:
  assumes "send_session_reply env inp m k s = Some (b, s')"
  shows "core_of s' = core_of s"
  using assms core_send by (fastforce simp: send_session_reply_def split: option.splits sum.splits)

lemma core_send_announce:
  assumes "send_announce env inp t s = Some s'"
  shows "core_of s' = core_of s"
proof -
  obtain leg s1 where rt: "read_transport (tp_resolved_port_index (oe_tp env)) s = (leg, s1)" by fastforce
  then have c1: "core_of s1 = core_of s" using core_read_transport by (metis snd_conv)
  let ?m = "announce_message inp leg s1"
  obtain r s2 where send: "send_session_with_routing env inp ?m s1 = Some (r, s2)"
    using assms by (auto simp: send_announce_def rt Let_def split: option.splits)
  show ?thesis
    using assms core_send [OF send] c1
    by (auto simp: send_announce_def rt Let_def send split: sum.splits if_splits)
qed

text \<open>Presence keeps the entries, and ends the transfer when the cable is lost.\<close>

definition presence_roster :: "peer_entry list \<Rightarrow> peer_entry list \<Rightarrow> bool" where
  "presence_roster r r' \<longleftrightarrow> map same_ids r' = map same_ids r"

lemma presence_roster_refl [simp]: "presence_roster r r" by (simp add: presence_roster_def)

lemma presence_roster_trans: "presence_roster a b \<Longrightarrow> presence_roster b c \<Longrightarrow> presence_roster a c"
  by (simp add: presence_roster_def)

lemma presence_roster_ops:
  "presence_roster r (set_all_peers_offline r)" "presence_roster r (mark_stale_peers_offline now ms r)"
  using online_ops_same_ids by (simp_all add: presence_roster_def)

lemma core_probe [simp]: "core_of (probe_devices env now s) = core_of s"
  by (simp add: probe_devices_def read_transport_def Let_def split: prod.splits)

lemma core_probe_presence:
  "\<exists>r. core_of (snd (probe_presence env now s)) = (core_of s)\<lparr>co_roster := r\<rparr> \<and> presence_roster (oc_roster s) r"
proof -
  have c: "core_of (probe_devices env now s) = core_of s" by simp
  then have "oc_roster (probe_devices env now s) = oc_roster s" by (metis core_of_fields(2))
  with c show ?thesis
    by (auto simp: probe_presence_def Let_def presence_roster_ops intro: exI [of _ "oc_roster s"] core_of_roster_same)
qed

lemma core_lose_fabric [simp]:
  "core_of (lose_fabric was_busy s) = (if was_busy then core_finish False Done_None (core_of s) else core_of s)"
  by (simp add: lose_fabric_def)

lemma core_show_presence:
  "\<exists>r. core_of (show_presence env now s) = (core_of s)\<lparr>co_roster := r\<rparr> \<and> presence_roster (oc_roster s) r"
proof -
  define s3 where "s3 = (if \<not> fabric_connected_from_enumeration (oc_cached_port_ok s)
    then s\<lparr>oc_roster := set_all_peers_offline (oc_roster s)\<rparr>
    else s\<lparr>oc_roster := mark_stale_peers_offline now (45 * 1000) (oc_roster s),
      oc_last_announce_ms := (if \<not> oc_fabric_was_connected s then 0 else oc_last_announce_ms s)\<rparr>)"
  have c3: "core_of s3 = (core_of s)\<lparr>co_roster := oc_roster s3\<rparr>" "presence_roster (oc_roster s) (oc_roster s3)"
    by (simp_all add: s3_def presence_roster_ops)
  have "core_of (show_presence env now s) = core_of s3"
    unfolding show_presence_def Let_def case_prod_beta s3_def [symmetric] by simp
  with c3 show ?thesis by metis
qed

section \<open>Jobs\<close>

text \<open>
  The payload thread as a transition relation on positions and projections: which position
  follows which, and what the step does to the protocol.
\<close>

fun core_clear :: "member_clear \<Rightarrow> session_core \<Rightarrow> session_core" where
  "core_clear Clear_Accepting c = c\<lparr>co_accepting := None\<rparr>"
| "core_clear Clear_Completed c = c\<lparr>co_completed := None\<rparr>"
| "core_clear Clear_Awaiting c = c\<lparr>co_awaiting := False\<rparr>"
| "core_clear Clear_Outbound c = c\<lparr>co_outbound := None\<rparr>"
| "core_clear Clear_Staged c = c\<lparr>co_staged := no_staged\<rparr>"

lemma core_clear_member [simp]: "core_of (clear_member k s) = core_clear k (core_of s)"
  by (cases k) simp_all

inductive core_job :: "job \<Rightarrow> session_core \<Rightarrow> job \<Rightarrow> session_core \<Rightarrow> bool" where
  Offer_start: "core_job (Job_Offer st m p) c (Job_Offering st m p) c"
| Offer_failed: "core_job (Job_Offering st m p) c Job_Done (core_finish False Done_None c)"
| Offer_sent: "core_job (Job_Offering st m p) c (Job_Offered st m p) c"
| Await_start: "core_job (Job_Offered st m p) c (Job_Await st m p w)
    (c\<lparr>co_staged := st, co_outbound := Some m, co_awaiting := False, co_waiting := True, co_listening := True\<rparr>)"
| Await_read: "co_waiting c \<Longrightarrow> co_outbound c \<noteq> None \<Longrightarrow> core_job (Job_Await st m p w) c (Job_Round st m p b w) c"
| Await_over: "\<not> co_waiting c \<or> co_outbound c = None \<Longrightarrow> core_job (Job_Await st m p w) c Job_Done c"
| Round_on: "core_job (Job_Round st m p b w) c (Job_Await st m p w') c"
| Round_retransmit: "core_job (Job_Round st m p b w) c (Job_Retransmit st m p w' t) c"
| Round_give_up: "core_job (Job_Round st m p b w) c (Job_Give_Up give_up_clears e) c"
| Retransmit_on: "core_job (Job_Retransmit st m p w t) c (Job_Await st m p w') c"
| Retransmit_give_up: "core_job (Job_Retransmit st m p w t) c (Job_Give_Up give_up_clears e) c"
| Give_up_clear: "core_job (Job_Give_Up (k # ks) e) c (Job_Give_Up ks e) (core_clear k c)"
| Give_up_end: "core_job (Job_Give_Up [] e) c Job_Done (core_finish False Done_None c)"
| Outbound_start: "core_job (Job_Outbound st) c (Job_Sending st) c"
| Outbound_end: "kind \<noteq> Done_Received \<Longrightarrow> core_job (Job_Sending st) c Job_Done (core_finish ok kind c)"
| Accept_skip: "core_job (Job_Accept m) c (Job_Skip m) c"
| Accept_skipped: "core_job (Job_Skip m) c Job_Done (c\<lparr>co_accepting := None\<rparr>)"
| Accept_start: "core_job (Job_Accept m) c (Job_Accepting m) c"
| Accept_failed: "core_job (Job_Accepting m) c (Job_Refused m) (c\<lparr>co_accepting := None\<rparr>)"
| Accept_refused: "core_job (Job_Refused m) c Job_Done (core_finish False Done_None c)"
| Accept_sent: "core_job (Job_Accepting m) c (Job_Inbound m) c"
| Inbound_start: "core_job (Job_Inbound m) c (Job_Readying m path) c"
| Ready_failed: "core_job (Job_Readying m path) c (Job_Ending m) (core_finish False Done_None c)"
| Ready_sent: "core_job (Job_Readying m path) c (Job_Receive m path) (c\<lparr>co_busy := True\<rparr>)"
| Receive_end: "core_job (Job_Receive m path) c (Job_Ending m) (core_finish ok kind c)"
| Accept_end: "core_job (Job_Ending m) c Job_Done (c\<lparr>co_accepting := None\<rparr>)"
| Decline_start: "core_job (Job_Decline m) c (Job_Declining m) c"
| Decline_end: "core_job (Job_Declining m) c Job_Done c"
| Loop_start: "core_job (Job_Loopback path) c (Job_Looping path) c"
| Loop_end: "core_job (Job_Looping path) c Job_Done (core_finish ok Done_None c)"
| Hear_message: "core_job (Job_Handler (Handle_Message m)) c (Job_Handler (Handle_Dispatch m)) c"
| Hear_nothing: "core_job (Job_Handler (Handle_Dispatch m)) c Job_Done c"
| Hear_offer: "sm_kind m = Kind_Offer \<Longrightarrow> core_job (Job_Handler (Handle_Dispatch m)) c (Job_Handler (Handle_Clear m)) c"
| Hear_accept: "sm_kind m = Kind_Accept \<Longrightarrow> core_job (Job_Handler (Handle_Dispatch m)) c Job_Done (c\<lparr>co_awaiting := True, co_waiting := True\<rparr>)"
| Hear_decline: "sm_kind m = Kind_Decline \<Longrightarrow> core_job (Job_Handler (Handle_Dispatch m)) c (Job_Handler (Handle_Declined m st))
    (c\<lparr>co_outbound := None, co_staged := no_staged, co_awaiting := False\<rparr>)"
| Hear_ready: "sm_kind m = Kind_Ready \<Longrightarrow> core_job (Job_Handler (Handle_Dispatch m)) c (Job_Handler (Handle_Ready m)) (c\<lparr>co_awaiting := True\<rparr>)"
| Hear_announce: "announced_by (co_roster c) r \<Longrightarrow> j = Job_Done \<or> j = Job_Handler Handle_Announced
    \<Longrightarrow> core_job (Job_Handler (Handle_Dispatch m)) c j (c\<lparr>co_roster := r\<rparr>)"
| Offer_clear: "core_job (Job_Handler (Handle_Clear m)) c (Job_Handler (Handle_Busy m)) c"
| Offer_busy: "core_job (Job_Handler (Handle_Busy m)) c Job_Done c"
| Offer_idle: "core_job (Job_Handler (Handle_Busy m)) c (Job_Handler (Handle_Take m)) c"
| Offer_take: "j = Job_Done \<or> j = Job_Handler Handle_Accept \<Longrightarrow> core_job (Job_Handler (Handle_Take m)) c j (c\<lparr>co_pending := Some m\<rparr>)"
| Offer_accept: "co_pending c = Some m \<Longrightarrow> core_job (Job_Handler Handle_Accept) c (Job_Accept m)
    (c\<lparr>co_pending := None, co_accepting := Some (sm_session_id m)\<rparr>)"
| Offer_old: "core_job (Job_Handler Handle_Accept) c Job_Done (c\<lparr>co_pending := None\<rparr>)"
| Offer_gone: "core_job (Job_Handler Handle_Accept) c Job_Done c"
| Ready_copy: "core_job (Job_Handler (Handle_Ready m)) c (Job_Outbound (co_staged c)) (c\<lparr>co_waiting := False\<rparr>)"
| Declined_end: "core_job (Job_Handler (Handle_Declined m st)) c Job_Done (core_finish False Done_None c)"
| Announced_end: "core_job (Job_Handler Handle_Announced) c Job_Done c"

inductive_simps core_job_simps [simp]:
  "core_job (Job_Offer st m p) c j c'" "core_job (Job_Offering st m p) c j c'" "core_job (Job_Offered st m p) c j c'"
  "core_job (Job_Await st m p w) c j c'" "core_job (Job_Round st m p b w) c j c'" "core_job (Job_Retransmit st m p w t) c j c'"
  "core_job (Job_Give_Up ks e) c j c'" "core_job (Job_Skip m) c j c'" "core_job (Job_Refused m) c j c'" "core_job (Job_Ending m) c j c'"
  "core_job (Job_Outbound st) c j c'" "core_job (Job_Sending st) c j c'" "core_job (Job_Accept m) c j c'"
  "core_job (Job_Accepting m) c j c'" "core_job (Job_Inbound m) c j c'" "core_job (Job_Readying m path) c j c'"
  "core_job (Job_Receive m path) c j c'" "core_job (Job_Decline m) c j c'" "core_job (Job_Declining m) c j c'"
  "core_job (Job_Loopback path) c j c'" "core_job (Job_Looping path) c j c'" "core_job Job_Done c j c'"

lemma core_begin_await [simp]:
  "core_of (begin_await st m p s) = (core_of s)\<lparr>co_staged := st, co_outbound := Some m, co_awaiting := False, co_waiting := True\<rparr>"
  by (simp add: begin_await_def Let_def core_set_ui)

lemma core_give_up [simp]: "core_of (snd (give_up st e s)) = core_of s" "fst (give_up st e s) = Job_Give_Up give_up_clears e"
    "core_of (give_up_end e s) = core_finish False Done_None (core_of s)"
  by (simp_all add: give_up_def give_up_end_def)

lemma core_await_deadlines:
  assumes "await_deadlines st m p b now w s = (j, s')"
  shows "core_of s' = core_of s \<and> ((\<exists>w'. j = Job_Await st m p w') \<or> (\<exists>e. j = Job_Give_Up give_up_clears e))"
  using assms by (auto simp: await_deadlines_def Let_def give_up_def split: if_splits)

lemma core_await_round:
  assumes "await_round st m p b now w s = (j, s')"
  shows "core_of s' = core_of s \<and> core_job (Job_Round st m p b w) (core_of s) j (core_of s')"
proof (cases "\<not> b \<and> \<not> aw_retransmitted w \<and> aw_retransmit_at w \<le> now")
  case False
  then have "await_deadlines st m p b now w s = (j, s')" using assms unfolding await_round_def by (simp only: if_False)
  from core_await_deadlines [OF this] show ?thesis by auto
qed (use assms in \<open>auto simp: await_round_def\<close>)

lemma core_begin_inbound [simp]: "core_of (begin_inbound inp m s) = (core_of s)\<lparr>co_busy := True\<rparr>"
  by (simp add: begin_inbound_def Let_def core_set_ui invalidate_dismiss_def)

lemma core_inbound_received: "\<exists>ok kind. core_of (inbound_received env m path r s) = core_finish ok kind (core_of s)"
proof -
  let ?x = "extract_tar_to_dir (oe_exec env) path (ip_receive_folder (oc_identity s)) (oc_fs s)"
  let ?h = "handle_failed_inbound_receive r path (oc_fs s)"
  show ?thesis by (cases ?x; cases "fst ?x"; cases ?h) (auto simp: inbound_received_def Let_def)
qed

lemma core_end_inbound [simp]: "core_of (end_inbound s) = (core_of s)\<lparr>co_accepting := None\<rparr>"
  by (simp add: end_inbound_def)

lemma core_listener_started:
  "core_of (snd (ensure_listener_started env s)) = (core_of s)\<lparr>co_listening := True\<rparr>"
  "fst (ensure_listener_started env s) \<longleftrightarrow> \<not> oc_listener_started s"
  by (simp_all add: ensure_listener_started_def read_transport_def Let_def case_prod_beta)

lemma core_run_transport: "run_transport f s = Some (r, s') \<Longrightarrow> core_of s' = core_of s"
  by (auto simp: run_transport_def split: option.splits)

text \<open>The code's jobs follow the relation.\<close>

lemma core_job_step:
  assumes "job_step env inp j s = Some (j', started, s')"
  shows "core_job j (core_of s) j' (core_of s')"
proof (cases j)
  case (Job_Offering st m p)
  then show ?thesis using assms
    by (auto split: option.splits sum.splits dest!: core_send)
next
  case (Job_Offered st m p)
  then show ?thesis using assms core_listener_started [of env "resume_listener s"]
    by (auto simp: Let_def case_prod_beta)
next
  case (Job_Await st m p w)
  then show ?thesis using assms by (auto simp: await_read_def split: if_splits)
next
  case (Job_Round st m p b w)
  then have "await_round st m p b (si_now inp) w s = (j', s')" using assms by (simp add: case_prod_beta prod_eq_iff)
  with Job_Round core_await_round show ?thesis by blast
next
  case (Job_Give_Up ks e)
  with assms show ?thesis by (cases ks) auto
next
  case (Job_Retransmit st m p w t)
  then obtain r s1 where send: "send_session_with_routing env inp m s = Some (r, s1)"
    using assms by (auto split: option.splits)
  define s2 where "s2 = (case r of Inl _ \<Rightarrow> s1 | Inr _ \<Rightarrow> booth_event (oc_port_index s1) ''offer_retransmit'' (''to='' @ p) s1)"
  have "core_of s2 = core_of s" by (simp add: s2_def core_send [OF send] split: sum.splits)
  moreover have "await_deadlines st m p False t w (ensure_listener_active (resume_listener s2)) = (j', s')"
    using assms Job_Retransmit by (simp add: send s2_def [symmetric] case_prod_beta Let_def prod_eq_iff)
  ultimately show ?thesis using core_await_deadlines [of st m p False t w _ j' s'] by (force simp: Job_Retransmit)
next
  case (Job_Sending st)
  then show ?thesis using assms
    by (auto simp del: core_job_simps split: option.splits dest!: core_run_transport) (auto intro!: Outbound_end simp del: core_job_simps)
next
  case (Job_Accepting m)
  then show ?thesis using assms
    by (auto simp: Let_def split: option.splits bool.splits dest!: core_reply)
next
  case (Job_Readying m path)
  then show ?thesis using assms
    by (auto split: option.splits bool.splits dest!: core_reply)
next
  case (Job_Receive m path)
  then obtain r s1 where "run_transport (tp_receive_file_on_port (oe_tp env) (oc_port_index s) path
      (ht_payload_header_timeout_ms (oc_handshake s)) kFrameKindPayload) s = Some (r, s1)"
    and s': "j' = Job_Ending m" "s' = inbound_received env m path r s1"
    using assms by (auto split: option.splits)
  then have "core_of s1 = core_of s" by (rule_tac core_run_transport)
  with core_inbound_received [of env m path r s1] obtain ok kind where
    "core_of (inbound_received env m path r s1) = core_finish ok kind (core_of s)" by auto
  then show ?thesis by (simp add: s' Job_Receive Receive_end del: core_job_simps)
next
  case (Job_Declining m)
  then show ?thesis using assms
    by (auto split: option.splits dest!: core_reply)
next
  case (Job_Looping path)
  then show ?thesis using assms
    by (auto split: option.splits dest!: core_run_transport)
qed (use assms in \<open>auto simp: Let_def core_set_ui split: if_splits intro: core_job.intros\<close>)

section \<open>Messages\<close>

text \<open>The handler on the projection; an announcement changes nothing but the roster.\<close>

definition core_matches :: "fabric_session_message \<Rightarrow> session_core \<Rightarrow> bool" where
  "core_matches m c \<longleftrightarrow> (case co_outbound c of None \<Rightarrow> False | Some x \<Rightarrow> sm_session_id x = sm_session_id m)"

lemma offer_matches_core [simp]: "offer_matches m s = core_matches m (core_of s)"
  by (simp add: offer_matches_def core_matches_def)

definition core_message :: "fabric_session_message \<Rightarrow> session_core \<Rightarrow> after_message \<times> session_core" where
  "core_message m c = (case sm_kind m of
       Kind_Offer \<Rightarrow>
         (if \<not> offer_taken m c then (After_Nothing, c)
          else if asks_first c then (After_Nothing, c\<lparr>co_pending := Some m\<rparr>)
          else (After_Accept m, c\<lparr>co_pending := None, co_accepting := Some (sm_session_id m)\<rparr>))
     | Kind_Accept \<Rightarrow> (After_Nothing, if core_matches m c then c\<lparr>co_awaiting := True, co_waiting := True\<rparr> else c)
     | Kind_Decline \<Rightarrow> (After_Nothing, if core_matches m c then core_finish False Done_None c else c)
     | Kind_Ready \<Rightarrow>
         (if core_matches m c then (After_Outbound (co_staged c), c\<lparr>co_awaiting := True, co_waiting := False\<rparr>)
          else (After_Nothing, c))
     | Kind_Announce \<Rightarrow> (After_Nothing, c)
     | Kind_Unknown \<Rightarrow> (After_Nothing, c))"

lemma core_roster_same: "(core_of s)\<lparr>co_roster := oc_roster s\<rparr> = core_of s"
  by (simp add: core_of_def)

lemma core_message_roster: "co_roster (snd (core_message m c)) = co_roster c"
  by (simp add: core_message_def core_finish_def split: session_message_kind.split)

lemma core_on_session_message:
  "\<exists>r. announced_by (oc_roster s) r \<and> (sm_kind m \<noteq> Kind_Announce \<longrightarrow> r = oc_roster s)
     \<and> fst (on_session_message env inp m s) = fst (core_message m (core_of s))
     \<and> core_of (snd (on_session_message env inp m s)) = (snd (core_message m (core_of s)))\<lparr>co_roster := r\<rparr>"
proof -
  define s1 where "s1 = note_message m s"
  have c1: "core_of s1 = core_of s" by (simp add: s1_def)
  then have r1: "oc_roster s1 = oc_roster s" "oc_staged s1 = oc_staged s" by (metis core_of_fields)+
  show ?thesis
  proof (cases "sm_kind m = Kind_Announce")
    case True
    from core_handle_announce [of env inp m s1] obtain r where
      "core_of (handle_announce env inp m s1) = (core_of s)\<lparr>co_roster := r\<rparr>" "announced_by (oc_roster s) r"
      unfolding c1 r1 by blast
    then show ?thesis using True unfolding on_session_message_def Let_def s1_def [symmetric]
      by (auto simp: core_message_def)
  next
    case False
    have "fst (on_session_message env inp m s) = fst (core_message m (core_of s))
        \<and> core_of (snd (on_session_message env inp m s)) = snd (core_message m (core_of s))"
    proof (cases "sm_kind m")
      case Kind_Offer
      with core_handle_offer [of m s1] show ?thesis unfolding c1 on_session_message_def Let_def s1_def [symmetric]
        by (auto simp: core_message_def case_prod_beta split: option.splits if_splits)
    next
      case Kind_Ready
      with core_handle_ready [of inp m s1] show ?thesis unfolding offer_matches_core c1 r1 on_session_message_def Let_def s1_def [symmetric]
        by (auto simp: core_message_def case_prod_beta split: option.splits if_splits)
    qed (use False in \<open>unfold on_session_message_def Let_def s1_def [symmetric],
        simp_all add: core_message_def core_handle_accept core_handle_decline c1\<close>)
    moreover have "(snd (core_message m (core_of s)))\<lparr>co_roster := oc_roster s\<rparr> = snd (core_message m (core_of s))"
      using core_message_roster [of m "core_of s"] by (metis core_of_fields(2) session_core.surjective session_core.update_convs(2) session_core.select_convs(2))
    ultimately show ?thesis by (intro exI [of _ "oc_roster s"]) (simp add: announced_by_def)
  qed
qed

section \<open>The handlers part by part\<close>

text \<open>Where the listener goes after a part of a handler.\<close>

definition next_position :: "handling + after_message \<Rightarrow> job" where
  "next_position x = (case x of Inl h \<Rightarrow> Job_Handler h | Inr a \<Rightarrow> (case after_job a of None \<Rightarrow> Job_Done | Some j \<Rightarrow> j))"

lemma next_position_simps [simp]:
  "next_position (Inl h) = Job_Handler h" "next_position (Inr After_Nothing) = Job_Done"
  "next_position (Inr (After_Accept m)) = Job_Accept m" "next_position (Inr (After_Outbound st)) = Job_Outbound st"
  "next_position (handler_go b h) = (if b then Job_Handler h else Job_Done)"
  by (simp_all add: next_position_def after_job_def handler_go_def)

inductive_simps core_handler_simps [simp]:
  "core_job (Job_Handler (Handle_Message m)) c j c'" "core_job (Job_Handler (Handle_Dispatch m)) c j c'"
  "core_job (Job_Handler (Handle_Clear m)) c j c'" "core_job (Job_Handler (Handle_Busy m)) c j c'"
  "core_job (Job_Handler (Handle_Take m)) c j c'" "core_job (Job_Handler Handle_Accept) c j c'"
  "core_job (Job_Handler (Handle_Ready m)) c j c'" "core_job (Job_Handler (Handle_Declined m st)) c j c'"
  "core_job (Job_Handler Handle_Announced) c j c'"

lemma core_dispatch:
  assumes "handler_step env inp (Handle_Dispatch m) s = (next, s')"
  shows "core_job (Job_Handler (Handle_Dispatch m)) (core_of s) (next_position next) (core_of s')"
proof (cases "sm_kind m")
  case Kind_Offer
  with assms core_offer_parts(1) [of m s] show ?thesis by (cases "offer_begin m s") (auto split: if_splits)
next
  case Kind_Accept
  with assms show ?thesis by (auto simp: core_handle_accept)
next
  case Kind_Decline
  obtain x s1 where d: "decline_begin m s = (x, s1)" by fastforce
  with Kind_Decline assms core_decline_begin [of m s] show ?thesis by (auto split: option.splits if_splits)
next
  case Kind_Ready
  obtain b s1 where d: "ready_begin m s = (b, s1)" by fastforce
  with Kind_Ready assms core_ready_begin [of m s] show ?thesis by (auto split: if_splits)
next
  case Kind_Announce
  obtain b s1 where d: "announce_touch env inp m s = (b, s1)" by fastforce
  with core_announce_touch [of env inp m s] obtain r where "core_of s1 = (core_of s)\<lparr>co_roster := r\<rparr>" "announced_by (oc_roster s) r" by auto
  moreover have "next = handler_go b Handle_Announced" "s' = s1" using d Kind_Announce assms by auto
  ultimately show ?thesis by (cases b) auto
qed (use assms in auto)

lemma core_handler_step:
  assumes "handler_step env inp h s = (next, s')"
  shows "core_job (Job_Handler h) (core_of s) (next_position next) (core_of s')"
proof (cases h)
  case (Handle_Dispatch m)
  with assms core_dispatch show ?thesis by blast
next
  case (Handle_Busy m)
  obtain b s1 where "offer_busy m s = (b, s1)" by fastforce
  with Handle_Busy assms core_offer_parts(4) [of m s] show ?thesis by (auto split: if_splits)
next
  case (Handle_Take m)
  obtain b s1 where "offer_take m s = (b, s1)" by fastforce
  with Handle_Take assms core_offer_parts(6) [of m s] show ?thesis by (auto split: if_splits)
next
  case Handle_Accept
  obtain x s1 where "accept_pending_offer s = (x, s1)" by fastforce
  with Handle_Accept assms core_accept_pending [of s] show ?thesis by (auto split: option.splits)
next
  case (Handle_Ready m)
  obtain x s1 where "start_outbound_payload inp s = (x, s1)" by fastforce
  with Handle_Ready assms core_start_outbound [of inp s] show ?thesis by auto
qed (use assms in auto)

section \<open>Calls of the user interface\<close>

text \<open>The offer of a transfer says what was staged for it.\<close>

definition describes :: "fabric_session_message \<Rightarrow> staged_payload \<Rightarrow> bool" where
  "describes m staged \<longleftrightarrow> sm_kind m = Kind_Offer \<and> sm_payload_type m = stg_payload_type staged
     \<and> sm_payload_name m = stg_display_name staged \<and> sm_file_count m = stg_file_count staged
     \<and> sm_total_bytes m = stg_total_bytes staged
     \<and> (\<not> stg_is_temp staged \<longrightarrow> stg_display_name staged = basename_of (stg_path staged))"

definition core_reset :: "session_core \<Rightarrow> session_core" where
  "core_reset c = c\<lparr>co_busy := False, co_waiting := False, co_pending := None\<rparr>"

lemma core_reset_begin: "core_of (snd (reset_begin s)) = core_reset (core_of s)" "fst (reset_begin s) = oc_staged s"
  by (simp_all add: reset_begin_def Let_def core_set_ui core_reset_def) (simp add: booth_event_def invalidate_dismiss_def)

lemma core_reset_resume [simp]: "core_of (reset_resume staged s) = core_of s"
  by (simp add: reset_resume_def remove_if_temp_def)

lemma core_reset_end [simp]: "core_of (reset_end d s) = core_of s" "core_of (stop_end d s) = core_of s"
  by (simp_all add: reset_end_def stop_end_def Let_def)

lemma core_stop_begin [simp]: "core_of (stop_begin env s) = core_of s"
  by (simp add: stop_begin_def)

lemma core_begin_offer [simp]:
  "core_of (begin_offer st p s) = (core_of s)\<lparr>co_busy := True, co_waiting := True\<rparr>"
  by (simp add: begin_offer_def core_set_ui invalidate_dismiss_def)

lemma core_set_identity:
  "core_of (set_identity i s) = (core_of s)\<lparr>co_identity := i, co_roster := peer_entries_from_config (ip_peers i)\<rparr>"
  by (simp add: set_identity_def Let_def)

lemma core_startup:
  "core_of (snd (run_startup env probe listen s)) = core_of s \<and> \<not> fst (fst (run_startup env probe listen s))
   \<or> core_of (snd (run_startup env probe listen s)) = (core_of s)\<lparr>co_listening := True\<rparr>
     \<and> fst (fst (run_startup env probe listen s)) = (\<not> oc_listener_started s)"
proof -
  define s1 where "s1 = booth_event (oc_port_index s) ''startup'' (''wiring_probe='' @ (if probe then ''yes'' else ''no'')) s"
  define s2 where "s2 = (if probe \<and> oc_port_index s1 = 0 then ensure_wiring s1
    else if probe \<and> 0 < oc_port_index s1
    then s1\<lparr>oc_working_ports := load_shared_booth_path (oe_tmp env) (oc_fs s1) (oc_working_ports s1)\<rparr> else s1)"
  have c1: "core_of s1 = core_of s" by (simp add: s1_def)
  then have c2: "core_of s2 = core_of s" by (simp add: s2_def ensure_wiring_def)
  then have l2: "oc_listener_started s2 = oc_listener_started s" by (metis core_of_fields(11))
  have "run_startup env probe listen s = (if oc_shutting_down s1 then ((False, False), s1)
      else ((fst (if listen then ensure_listener_started env s2 else (False, s2)), True),
        publish_state (snd (if listen then ensure_listener_started env s2 else (False, s2)))))"
    unfolding run_startup_def Let_def case_prod_beta s1_def [symmetric] unfolding s2_def [symmetric] ..
  then show ?thesis by (simp add: core_listener_started c1 c2 l2)
qed

inductive core_call :: "ui_op \<Rightarrow> session_core \<Rightarrow> ui_thread \<Rightarrow> session_core \<Rightarrow> bool" where
  Call_nothing: "core_call opn c Ui_Idle c"
| Call_send: "describes m st \<Longrightarrow> core_call (Op_Send name paths text) c (Ui_Join (Job_Offer st m p)) c"
| Call_accept: "co_pending c = Some m \<Longrightarrow> core_call Op_Accept c (Ui_Join (Job_Accept m))
    (c\<lparr>co_pending := None, co_accepting := Some (sm_session_id m)\<rparr>)"
| Call_accept_old: "core_call Op_Accept c Ui_Idle (c\<lparr>co_pending := None\<rparr>)"
| Call_decline: "core_call Op_Decline c (Ui_Join (Job_Decline m)) (c\<lparr>co_pending := None\<rparr>)"
| Call_loopback: "core_call (Op_Loopback path) c (Ui_Join (Job_Loopback path)) c"
| Call_identity: "core_call (Op_Set_Identity i) c Ui_Idle (c\<lparr>co_identity := i, co_roster := peer_entries_from_config (ip_peers i)\<rparr>)"
| Call_stop: "core_call Op_Stop c Ui_Stop_Listener c"

lemma staged_described:
  assumes "stage_paths env rng paths fs = (Inr st, fs')"
  shows "describes (offer_message inp s peer st text) st"
  using assms
  by (auto simp: stage_paths_def Let_def describes_def offer_message_def split: if_splits prod.splits sum.splits)

lemma core_send_to_peer:
  assumes "send_to_peer env inp name paths text s = (x, s')"
  shows "core_of s' = core_of s \<and> (\<forall>st m p. x = Some (st, m, p) \<longrightarrow> describes m st)"
  using assms staged_described
  by (auto simp: send_to_peer_def Let_def split: if_splits option.splits prod.splits sum.splits)

lemma core_ui_call: "core_call opn (core_of s) (fst (ui_call env inp opn s)) (core_of (snd (ui_call env inp opn s)))"
proof (cases opn)
  case (Op_Send name paths txt1)
  obtain x s' where send: "send_to_peer env inp name paths txt1 s = (x, s')" by fastforce
  note c = core_send_to_peer [OF send]
  show ?thesis
  proof (cases x)
    case None
    with c show ?thesis by (simp add: Op_Send ui_call_def send Call_nothing)
  next
    case (Some y)
    then obtain st m p where "x = Some (st, m, p)" by (cases y) auto
    with c show ?thesis by (simp add: Op_Send ui_call_def send Call_send)
  qed
next
  case Op_Accept
  from core_accept_pending [of s] show ?thesis
    by (auto simp: Op_Accept ui_call_def case_prod_beta Call_nothing Call_accept_old Call_accept split: option.splits)
next
  case Op_Decline
  show ?thesis
    by (auto simp: Op_Decline ui_call_def decline_pending_offer_def core_set_ui Call_nothing Call_decline
        split: option.splits)
qed (simp_all add: ui_call_def core_set_identity orch_start_def core_call.intros)

end
