(* ===== verification/Orch_Threads.thy ===== *)
theory Orch_Threads
  imports Orch_Steps
begin

text \<open>
  The threads of the orchestrator on the projection: which jobs exist and what each step of
  any thread does to the protocol, and the invariants the interleavings keep: what is staged was
  described by an offer, and the locks of the protocol, \<open>accepting_session_id_\<close> and \<open>busy\<close>, have a
  thread that will release them.
\<close>

section \<open>Steps on the projection\<close>

definition ui_jobs :: "ui_thread \<Rightarrow> job set" where
  "ui_jobs t = (case t of Ui_Join j \<Rightarrow> {j} | Ui_Begin j \<Rightarrow> {j} | Ui_Assign j \<Rightarrow> {j} | _ \<Rightarrow> {})"

definition listen_jobs :: "listen_thread \<Rightarrow> job set" where
  "listen_jobs t = (case t of Ls_Handle h path \<Rightarrow> {Job_Handler h} | Ls_Join j path \<Rightarrow> {j} | Ls_Assign j path \<Rightarrow> {j} | _ \<Rightarrow> {})"

text \<open>
  The jobs that run, were detached, or wait for the payload thread to be free, and the position of
  the listener in a handler.
\<close>

definition jobs_of :: "'u system \<Rightarrow> job set" where
  "jobs_of sys = set_option (sy_payload sys) \<union> set (sy_detached sys) \<union> ui_jobs (sy_ui sys) \<union> listen_jobs (sy_listen sys)"

text \<open>
  What the steps of a run are allowed: the profiles that are set, the messages that are heard and
  sent, whether a transfer may begin, and whether a reset may clear members.
\<close>

record core_scope =
  sc_ids :: "identity_profile set"
  sc_heard :: "fabric_session_message set"
  sc_sent :: "fabric_session_message set"
  sc_begins :: bool
  sc_clears :: bool

definition any_scope :: core_scope where
  "any_scope = \<lparr>sc_ids = UNIV, sc_heard = UNIV, sc_sent = UNIV, sc_begins = True, sc_clears = True\<rparr>"

inductive core_sys :: "core_scope \<Rightarrow> session_core \<Rightarrow> job set \<Rightarrow> session_core \<Rightarrow> job set \<Rightarrow> bool" for sc where
  Sys_quiet: "J - {Job_Done} \<subseteq> J' \<Longrightarrow> J' \<subseteq> J \<Longrightarrow> core_sys sc c J c J'"
| Sys_call: "core_call opn c ui c' \<Longrightarrow> (\<And>i. opn = Op_Set_Identity i \<Longrightarrow> i \<in> sc_ids sc) \<Longrightarrow> core_sys sc c J c' (J \<union> ui_jobs ui)"
| Sys_message: "m \<in> sc_heard sc \<Longrightarrow> core_sys sc c J c (insert (Job_Handler (Handle_Message m)) J)"
| Sys_job: "j \<in> J \<Longrightarrow> core_job j c j' c' \<Longrightarrow> insert j' (J - {j}) - {Job_Done} \<subseteq> J' \<Longrightarrow> J' \<subseteq> insert j' J
    \<Longrightarrow> job_offers j \<subseteq> sc_sent sc \<Longrightarrow> core_sys sc c J c' J'"
| Sys_presence: "presence_roster (co_roster c) r \<Longrightarrow> core_sys sc c J (c\<lparr>co_roster := r\<rparr>) J"
| Sys_lost: "core_sys sc c J (core_finish False Done_None c) J"
| Sys_listen: "core_sys sc c J (c\<lparr>co_listening := True\<rparr>) J"
| Sys_begin: "Job_Offer st m p \<in> J \<Longrightarrow> sc_begins sc \<Longrightarrow> core_sys sc c J (c\<lparr>co_busy := True, co_waiting := True\<rparr>) J"
| Sys_reset: "core_sys sc c J (core_reset c) J"
| Sys_clear: "sc_clears sc \<Longrightarrow> core_sys sc c J (core_clear k c) J"

lemma Sys_same: "core_sys sc c J c J" by (rule Sys_quiet) auto

lemma Sys_job_kept: "j \<in> J \<Longrightarrow> core_job j c j' c' \<Longrightarrow> insert j' (J - {j}) \<subseteq> J' \<Longrightarrow> J' \<subseteq> insert j' J
    \<Longrightarrow> job_offers j \<subseteq> sc_sent sc \<Longrightarrow> core_sys sc c J c' J'"
  by (rule Sys_job) auto

lemma join_payload_jobs:
  assumes "join_payload sys = Some sys1"
  shows "sy_orch sys1 = sy_orch sys \<and> sy_detached sys1 = sy_detached sys \<and> sy_payload sys1 = None
    \<and> sy_ui sys1 = sy_ui sys \<and> sy_listen sys1 = sy_listen sys \<and> set_option (sy_payload sys) \<subseteq> {Job_Done}"
  using assms by (auto simp: join_payload_def split: if_splits)

lemma assign_fields:
  assumes "\<not> sy_terminated (assign_payload j sys)"
  shows "sy_payload sys = None" "sy_payload (assign_payload j sys) = Some j"
    "sy_detached (assign_payload j sys) = sy_detached sys" "sy_ui (assign_payload j sys) = sy_ui sys"
    "sy_listen (assign_payload j sys) = sy_listen sys"
  using assms by (auto simp: assign_payload_def payload_joinable_def split: if_splits)

lemma assign_orch [simp]: "sy_orch (assign_payload j sys) = sy_orch sys"
  by (simp add: assign_payload_def)

lemma detach_fields [simp]:
  "sy_orch (detach_payload sys) = sy_orch sys" "sy_ui (detach_payload sys) = sy_ui sys" "sy_listen (detach_payload sys) = sy_listen sys"
  "sy_resets (detach_payload sys) = sy_resets sys"
  by (simp_all add: detach_payload_def)

lemma detach_jobs:
  assumes "join_payload sys = None"
  shows "jobs_of (detach_payload sys) = jobs_of sys"
  using assms by (auto simp: detach_payload_def jobs_of_def join_payload_def split: if_splits)

lemma join_jobs_of:
  assumes "join_payload sys = Some sys1"
  shows "jobs_of sys1 - {Job_Done} \<subseteq> jobs_of sys" "jobs_of sys - {Job_Done} \<subseteq> jobs_of sys1" "jobs_of sys1 \<subseteq> jobs_of sys"
  using join_payload_jobs [OF assms] by (auto simp: jobs_of_def)

lemma jobs_of_unrelated [simp]:
  "jobs_of (sys\<lparr>sy_orch := s\<rparr>) = jobs_of sys" "jobs_of (sys\<lparr>sy_resets := rs\<rparr>) = jobs_of sys"
  "jobs_of (sys\<lparr>sy_presence := p\<rparr>) = jobs_of sys" "jobs_of (sys\<lparr>sy_startup := st\<rparr>) = jobs_of sys"
  by (simp_all add: jobs_of_def)

text \<open>Steps in which a transfer begins, and resets that still clear members.\<close>

definition begins_transfer :: "event \<Rightarrow> 'u system \<Rightarrow> bool" where
  "begins_transfer ev sys \<longleftrightarrow> (case ev of Ev_Ui_Continue timeout \<Rightarrow>
     (case sy_ui sys of Ui_Begin (Job_Offer st m p) \<Rightarrow> True | _ \<Rightarrow> False) | _ \<Rightarrow> False)"

definition still_clearing :: "reset_thread \<Rightarrow> bool" where
  "still_clearing r \<longleftrightarrow> (case r of Rs_Clear ks staged \<Rightarrow> ks \<noteq> [] | _ \<Rightarrow> False)"

definition reset_clearing :: "'u system \<Rightarrow> bool" where
  "reset_clearing sys \<longleftrightarrow> list_ex still_clearing (sy_resets sys)"

lemma core_ui_continue:
  assumes "ui_continue timeout sys = Some sys'" and "\<not> sy_terminated sys'"
    and "begins_transfer (Ev_Ui_Continue timeout) sys \<Longrightarrow> sc_begins sc"
  shows "core_sys sc (core_of (sy_orch sys)) (jobs_of sys) (core_of (sy_orch sys')) (jobs_of sys')"
proof (cases "sy_ui sys")
  case (Ui_Assign j)
  with assms have s': "sys' = (assign_payload j sys)\<lparr>sy_ui := Ui_Idle\<rparr>" by (simp add: ui_continue_def)
  with assms(2) have live: "\<not> sy_terminated (assign_payload j sys)" by simp
  have "jobs_of sys' = jobs_of sys" by (auto simp: s' jobs_of_def assign_fields [OF live] Ui_Assign ui_jobs_def)
  then show ?thesis by (simp add: s' Sys_same)
next
  case (Ui_Begin j)
  with assms have s': "sys' = sys\<lparr>sy_ui := Ui_Assign j, sy_orch := before_start j (sy_orch sys)\<rparr>" by (simp add: ui_continue_def)
  have J: "jobs_of sys' = jobs_of sys" "j \<in> jobs_of sys" by (auto simp: s' jobs_of_def Ui_Begin ui_jobs_def)
  show ?thesis
  proof (cases "\<exists>st m p. j = Job_Offer st m p")
    case True
    with J(2) assms(3) show ?thesis by (auto simp: J(1)) (auto simp: s' before_start_def begins_transfer_def Ui_Begin intro: Sys_begin)
  next
    case False
    then have "before_start j (sy_orch sys) = sy_orch sys" by (cases j) (auto simp: before_start_def)
    with J(1) show ?thesis by (simp add: s' Sys_same)
  qed
next
  case (Ui_Join j)
  with assms obtain sys1 where "join_payload sys = Some sys1" "sys' = sys1\<lparr>sy_ui := Ui_Begin j\<rparr>"
    by (auto simp: ui_continue_def)
  with join_payload_jobs [of sys sys1] show ?thesis
    by (auto simp: jobs_of_def Ui_Join ui_jobs_def intro!: Sys_quiet)
next
  case Ui_Stop_Payload
  show ?thesis
  proof (cases "join_payload sys")
    case None
    with assms Ui_Stop_Payload show ?thesis
      by (auto simp: ui_continue_def jobs_of_def ui_jobs_def join_payload_def detach_payload_def split: if_splits intro!: Sys_quiet)
  next
    case (Some sys1)
    with assms Ui_Stop_Payload join_payload_jobs [OF Some] show ?thesis
      by (auto simp: ui_continue_def jobs_of_def ui_jobs_def intro!: Sys_quiet)
  qed
next
  case Ui_Stop_Listener
  with assms show ?thesis by (auto simp: ui_continue_def jobs_of_def ui_jobs_def split: if_splits intro!: Sys_quiet)
qed (use assms in \<open>simp_all add: ui_continue_def\<close>)

lemma core_reset_step:
  assumes "reset_step i timeout sys = Some sys'" and "reset_clearing sys \<Longrightarrow> sc_clears sc"
  shows "core_sys sc (core_of (sy_orch sys)) (jobs_of sys) (core_of (sy_orch sys')) (jobs_of sys')"
proof -
  have i: "i < length (sy_resets sys)" using assms(1) by (auto simp: reset_step_def split: if_splits)
  show ?thesis
  proof (cases "sy_resets sys ! i")
    case Rs_Begin
    with assms i core_reset_begin [of "sy_orch sys"] show ?thesis
      by (auto simp: reset_step_def Let_def case_prod_beta Sys_reset)
  next
    case (Rs_Clear ks staged)
    show ?thesis
    proof (cases ks)
      case Nil
      with Rs_Clear assms i show ?thesis by (auto simp: reset_step_def Let_def Sys_same)
    next
      case (Cons k ks')
      have "reset_clearing sys"
        using i Rs_Clear Cons by (auto simp: reset_clearing_def list_ex_iff still_clearing_def intro!: bexI [of _ "sy_resets sys ! i"] dest: nth_mem)
      with Rs_Clear Cons assms i show ?thesis by (auto simp: reset_step_def Let_def intro: Sys_clear)
    qed
  next
    case Rs_Join
    show ?thesis
    proof (cases "join_payload sys")
      case None
      with Rs_Join assms i show ?thesis by (auto simp: reset_step_def Let_def detach_jobs Sys_same split: if_splits)
    next
      case (Some sys1)
      with Rs_Join assms i join_jobs_of [OF Some] join_payload_jobs [OF Some] show ?thesis
        by (auto simp: reset_step_def Let_def intro!: Sys_quiet)
    qed
  qed (use assms i in \<open>simp add: reset_step_def Let_def\<close>)
qed

lemma core_ui_begin:
  assumes "ui_begin env inp opn sys = Some sys'" and "\<And>i. opn = Op_Set_Identity i \<Longrightarrow> i \<in> sc_ids sc"
  shows "core_sys sc (core_of (sy_orch sys)) (jobs_of sys) (core_of (sy_orch sys')) (jobs_of sys')"
proof -
  obtain ui s where call: "ui_call env inp opn (sy_orch sys) = (ui, s)" by fastforce
  with assms(1) have idle: "sy_ui sys = Ui_Idle" and
    s': "sy_orch sys' = s" "sy_ui sys' = ui" "sy_payload sys' = sy_payload sys" "sy_detached sys' = sy_detached sys"
    "sy_listen sys' = sy_listen sys"
    by (auto simp: ui_begin_def Let_def split: if_splits ui_op.splits)
  from core_ui_call [of opn "sy_orch sys" env inp] have c: "core_call opn (core_of (sy_orch sys)) ui (core_of s)" by (simp add: call)
  have "jobs_of sys' = jobs_of sys \<union> ui_jobs ui" by (auto simp: jobs_of_def s' idle ui_jobs_def)
  with Sys_call [OF c assms(2)] show ?thesis by (simp add: s')
qed

lemma core_listen_step:
  assumes "listen_step env inp sys = Some sys'" and "\<not> sy_terminated sys'" and "set_option (heard env inp sys) \<subseteq> sc_heard sc"
  shows "core_sys sc (core_of (sy_orch sys)) (jobs_of sys) (core_of (sy_orch sys')) (jobs_of sys')"
proof (cases "sy_listen sys")
  case Ls_Top
  with assms show ?thesis
    by (auto simp: listen_step_def jobs_of_def listen_jobs_def Let_def split: prod.splits listen_next.splits intro!: Sys_quiet)
next
  case (Ls_Receive path t)
  let ?s = "sy_orch sys"
  obtain r s1 where recv: "run_transport (tp_receive_file_on_port (oe_tp env) (oc_port_index ?s) path t 0) ?s = Some (r, s1)"
    using assms Ls_Receive by (auto simp: listen_step_def Let_def split: option.splits)
  obtain res l fs lines where rr: "listen_received (oc_port_index s1) (si_now inp) path r (oc_listener s1) (oc_fs s1) = (res, l, fs, lines)"
    using prod_cases4 by blast
  define s2 where "s2 = s1\<lparr>oc_listener := l, oc_fs := fs, oc_log := oc_log s1 @ lines\<rparr>"
  have c2: "core_of s2 = core_of ?s" by (simp add: s2_def core_run_transport [OF recv])
  have s': "sys' = (case res of
       Result_Exit \<Rightarrow> sys\<lparr>sy_orch := s2, sy_listen := Ls_Exited\<rparr>
     | Result_Uncaught e \<Rightarrow> sys\<lparr>sy_orch := s2, sy_terminated := True\<rparr>
     | Result_None \<Rightarrow> sys\<lparr>sy_orch := s2, sy_listen := Ls_End path\<rparr>
     | Result_Message m \<Rightarrow> sys\<lparr>sy_orch := s2, sy_listen := Ls_Handle (Handle_Message m) path\<rparr>)"
    using assms(1) Ls_Receive unfolding s2_def by (auto simp: listen_step_def Let_def recv rr)
  show ?thesis
  proof (cases res)
    case (Result_Message m)
    have "jobs_of sys' = insert (Job_Handler (Handle_Message m)) (jobs_of sys)"
      by (auto simp: s' Result_Message jobs_of_def Ls_Receive listen_jobs_def)
    moreover have "m \<in> sc_heard sc" using assms(3) by (simp add: heard_def Ls_Receive Let_def recv rr Result_Message)
    ultimately show ?thesis using Sys_message [of m sc "core_of ?s" "jobs_of sys"] by (simp add: s' Result_Message c2)
  next
    case (Result_Uncaught e)
    with assms(2) s' show ?thesis by simp
  qed (auto simp: s' jobs_of_def Ls_Receive listen_jobs_def c2 intro!: Sys_quiet)
next
  case (Ls_Handle h path)
  obtain nx s1 where h: "handler_step env inp h (sy_orch sys) = (nx, s1)" by fastforce
  have s': "sys' = sys\<lparr>sy_orch := s1, sy_listen := (case nx of Inl h1 \<Rightarrow> Ls_Handle h1 path
      | Inr a \<Rightarrow> (case after_job a of None \<Rightarrow> Ls_End path | Some j \<Rightarrow> Ls_Join j path))\<rparr>"
    using assms(1) by (simp add: listen_step_def Ls_Handle Let_def h)
  let ?j = "next_position nx"
  have "insert ?j (jobs_of sys - {Job_Handler h}) - {Job_Done} \<subseteq> jobs_of sys'" "jobs_of sys' \<subseteq> insert ?j (jobs_of sys)"
    by (auto simp: s' jobs_of_def listen_jobs_def Ls_Handle next_position_def split: sum.splits option.splits)
  moreover have "Job_Handler h \<in> jobs_of sys" by (simp add: jobs_of_def listen_jobs_def Ls_Handle)
  ultimately show ?thesis using Sys_job [OF _ core_handler_step [OF h]] by (simp add: job_offers_def s')
next
  case (Ls_Join j path)
  with assms obtain sys1 where "join_payload sys = Some sys1" "sys' = sys1\<lparr>sy_listen := Ls_Assign j path\<rparr>"
    by (auto simp: listen_step_def)
  with join_payload_jobs [of sys sys1] show ?thesis
    by (auto simp: jobs_of_def Ls_Join listen_jobs_def intro!: Sys_quiet)
next
  case (Ls_Assign j path)
  with assms have s': "sys' = (assign_payload j sys)\<lparr>sy_listen := Ls_End path\<rparr>" by (simp add: listen_step_def)
  with assms(2) have live: "\<not> sy_terminated (assign_payload j sys)" by simp
  have "jobs_of sys' = jobs_of sys" by (auto simp: s' jobs_of_def assign_fields [OF live] Ls_Assign listen_jobs_def)
  then show ?thesis by (simp add: s' Sys_same)
next
  case (Ls_End path)
  with assms show ?thesis by (auto simp: listen_step_def jobs_of_def listen_jobs_def Let_def intro!: Sys_quiet)
qed (use assms in \<open>simp_all add: listen_step_def\<close>)

text \<open>
  The listener thread is started once, when \<open>listener_started_\<close> was not set; until then there
  is no listener position to overwrite.
\<close>

definition listener_quiet :: "'u system \<Rightarrow> bool" where
  "listener_quiet sys \<longleftrightarrow> (oc_listener_started (sy_orch sys) \<or> sy_listen sys = Ls_None)"

lemma start_listener_jobs:
  assumes "listener_quiet sys" and "started \<Longrightarrow> \<not> oc_listener_started (sy_orch sys)" and "sy_listen sys1 = sy_listen sys"
  shows "jobs_of (start_listener_thread started sys1) = jobs_of sys1" "sy_orch (start_listener_thread started sys1) = sy_orch sys1"
  using assms by (auto simp: start_listener_thread_def jobs_of_def listener_quiet_def listen_jobs_def)

lemma job_step_started:
  assumes "job_step env inp j s = Some (j', True, s')"
  shows "\<not> oc_listener_started s \<and> co_listening (core_of s')"
proof (cases j)
  case (Job_Offered st m p)
  have "oc_listener_started (resume_listener s) = oc_listener_started s" by (simp add: resume_listener_def set_listener_def)
  then show ?thesis using assms core_listener_started [of env "resume_listener s"]
    by (auto simp: Job_Offered Let_def case_prod_beta simp del: core_of_fields)
next
  case (Job_Retransmit st m p w t)
  with assms show ?thesis by (auto simp: Let_def split: option.splits prod.splits)
next
  case (Job_Give_Up ks e)
  with assms show ?thesis by (cases ks) auto
qed (use assms in \<open>auto simp: Let_def split: option.splits prod.splits sum.splits bool.splits if_splits\<close>)

lemma core_payload_step:
  assumes q: "listener_quiet sys" and "payload_step env inp sys = Some sys'" and w: "step_sends Ev_Payload sys \<subseteq> sc_sent sc"
  shows "core_sys sc (core_of (sy_orch sys)) (jobs_of sys) (core_of (sy_orch sys')) (jobs_of sys')"
proof -
  obtain j j' started s where j: "sy_payload sys = Some j" and js: "job_step env inp j (sy_orch sys) = Some (j', started, s)"
    and s': "sys' = start_listener_thread started (sys\<lparr>sy_orch := s, sy_payload := Some j'\<rparr>)"
    using assms(2) by (auto simp: payload_step_def split: option.splits)
  let ?sys1 = "sys\<lparr>sy_orch := s, sy_payload := Some j'\<rparr>"
  have st: "started \<Longrightarrow> \<not> oc_listener_started (sy_orch sys)" using job_step_started js by (metis (full_types))
  have "jobs_of sys' = jobs_of ?sys1" "sy_orch sys' = s" using start_listener_jobs [of sys started ?sys1] q st by (simp_all add: s')
  moreover have "insert j' (jobs_of sys - {j}) \<subseteq> jobs_of ?sys1" "jobs_of ?sys1 \<subseteq> insert j' (jobs_of sys)" "j \<in> jobs_of sys"
    using j by (auto simp: jobs_of_def)
  moreover have "job_offers j \<subseteq> sc_sent sc" using w job_offers_sent [of j "sy_orch sys"] by (auto simp: step_sends_def j)
  ultimately show ?thesis using Sys_job_kept [OF _ core_job_step [OF js]] by metis
qed

lemma core_detached_step:
  assumes q: "listener_quiet sys" and "detached_step env inp i sys = Some sys'" and w: "step_sends (Ev_Detached i) sys \<subseteq> sc_sent sc"
  shows "core_sys sc (core_of (sy_orch sys)) (jobs_of sys) (core_of (sy_orch sys')) (jobs_of sys')"
proof -
  define j where "j = sy_detached sys ! i"
  obtain j' started s where i: "i < length (sy_detached sys)" and js: "job_step env inp j (sy_orch sys) = Some (j', started, s)"
    and s': "sys' = start_listener_thread started (sys\<lparr>sy_orch := s, sy_detached := (sy_detached sys)[i := j']\<rparr>)"
    using assms(2) by (auto simp: detached_step_def j_def split: option.splits if_splits)
  let ?sys1 = "sys\<lparr>sy_orch := s, sy_detached := (sy_detached sys)[i := j']\<rparr>"
  have st: "started \<Longrightarrow> \<not> oc_listener_started (sy_orch sys)" using job_step_started js by (metis (full_types))
  have "jobs_of sys' = jobs_of ?sys1" "sy_orch sys' = s" using start_listener_jobs [of sys started ?sys1] q st by (simp_all add: s')
  moreover have "insert j' (set (sy_detached sys) - {j}) \<subseteq> set ((sy_detached sys)[i := j'])"
    using i by (auto simp: in_set_conv_nth j_def nth_list_update) (metis length_list_update nth_list_update_eq nth_list_update_neq)+
  then have "insert j' (jobs_of sys - {j}) \<subseteq> jobs_of ?sys1" by (auto simp: jobs_of_def)
  moreover have "jobs_of ?sys1 \<subseteq> insert j' (jobs_of sys)" "j \<in> jobs_of sys"
    using i set_update_subset_insert [of "sy_detached sys" i j'] by (auto simp: jobs_of_def j_def)
  moreover have "job_offers j \<subseteq> sc_sent sc" using w job_offers_sent [of j "sy_orch sys"] i by (auto simp: step_sends_def j_def)
  ultimately show ?thesis using Sys_job_kept [OF _ core_job_step [OF js]] by metis
qed

lemma core_startup_step:
  assumes q: "listener_quiet sys" and "startup_step env sys = Some sys'"
  shows "core_sys sc (core_of (sy_orch sys)) (jobs_of sys) (core_of (sy_orch sys')) (jobs_of sys')"
proof -
  obtain probe listen where "sy_startup sys = Some (probe, listen)" using assms(2) by (auto simp: startup_step_def split: option.splits)
  moreover obtain started presence s where run: "run_startup env probe listen (sy_orch sys) = ((started, presence), s)"
    by (metis prod.exhaust)
  ultimately have s': "sys' = start_listener_thread started (sys\<lparr>sy_orch := s, sy_startup := None,
      sy_presence := (if presence \<and> sy_presence sys = Pr_None then Pr_Tick else sy_presence sys)\<rparr>)"
    using assms(2) by (simp add: startup_step_def)
  have st: "started \<Longrightarrow> \<not> oc_listener_started (sy_orch sys)" and
    c: "core_of s = core_of (sy_orch sys) \<or> core_of s = (core_of (sy_orch sys))\<lparr>co_listening := True\<rparr>"
    using core_startup [of env probe listen "sy_orch sys"] by (auto simp: run)
  have "jobs_of sys' = jobs_of sys" "sy_orch sys' = s"
    using start_listener_jobs [of sys started "sys\<lparr>sy_orch := s, sy_startup := None,
      sy_presence := (if presence \<and> sy_presence sys = Pr_None then Pr_Tick else sy_presence sys)\<rparr>"] q st
    by (simp_all add: s')
  with c show ?thesis by (auto intro: Sys_same Sys_listen)
qed

lemma core_presence_step:
  assumes "presence_step env inp sys = Some sys'"
  shows "core_sys sc (core_of (sy_orch sys)) (jobs_of sys) (core_of (sy_orch sys')) (jobs_of sys')"
proof (cases "sy_presence sys")
  case Pr_Tick
  obtain lost s1 where p: "probe_presence env (si_now inp) (sy_orch sys) = (lost, s1)" by fastforce
  with core_probe_presence [of env "si_now inp" "sy_orch sys"] obtain r where
    "core_of s1 = (core_of (sy_orch sys))\<lparr>co_roster := r\<rparr>" "presence_roster (co_roster (core_of (sy_orch sys))) r" by auto
  with assms Pr_Tick p show ?thesis
    by (auto simp: presence_step_def Let_def intro: Sys_same Sys_presence simp del: core_of_fields split: if_splits)
next
  case (Pr_Show now)
  with assms core_show_presence [of env now "sy_orch sys"] show ?thesis
    by (auto simp: presence_step_def Let_def intro!: Sys_presence)
next
  case (Pr_Send now)
  with assms show ?thesis by (auto simp: presence_step_def Let_def Sys_same dest!: core_send_announce)
qed (use assms in \<open>auto simp: presence_step_def Let_def Sys_same Sys_lost\<close>)

text \<open>Every step of the system is a step of the projection, or ends the process.\<close>

theorem core_system_step:
  assumes "system_step env inp ev sys = Some sys'" and "listener_quiet sys" and "\<not> sy_terminated sys'"
    and "\<And>i. ev = Ev_Ui (Op_Set_Identity i) \<Longrightarrow> i \<in> sc_ids sc"
    and "step_hears env inp ev sys \<subseteq> sc_heard sc" and "step_sends ev sys \<subseteq> sc_sent sc"
    and "begins_transfer ev sys \<Longrightarrow> sc_begins sc" and "reset_clearing sys \<Longrightarrow> sc_clears sc"
  shows "core_sys sc (core_of (sy_orch sys)) (jobs_of sys) (core_of (sy_orch sys')) (jobs_of sys')"
proof (cases ev)
  case (Ev_Ui opn)
  with assms show ?thesis by (auto simp: system_step_def split: if_splits intro!: core_ui_begin)
next
  case (Ev_Ui_Continue timeout)
  with assms show ?thesis by (auto simp: system_step_def split: if_splits intro!: core_ui_continue)
next
  case (Ev_Reset i timeout)
  with assms show ?thesis by (auto simp: system_step_def split: if_splits intro!: core_reset_step)
next
  case Ev_Listen
  with assms show ?thesis by (auto simp: system_step_def split: if_splits intro!: core_listen_step simp: step_hears_def)
next
  case Ev_Presence
  with assms show ?thesis by (auto simp: system_step_def split: if_splits intro!: core_presence_step)
next
  case Ev_Startup
  with assms show ?thesis by (auto simp: system_step_def split: if_splits intro!: core_startup_step)
next
  case Ev_Payload
  with assms show ?thesis by (auto simp: system_step_def split: if_splits intro!: core_payload_step)
next
  case (Ev_Detached i)
  with assms show ?thesis by (auto simp: system_step_def split: if_splits intro!: core_detached_step)
next
  case (Ev_Progress d t e)
  with assms show ?thesis
    by (auto simp: system_step_def progress_step_def jobs_of_def Sys_same split: if_splits)
next
  case (Ev_Timer epoch)
  with assms show ?thesis
    by (auto simp: system_step_def timer_step_def jobs_of_def Sys_same split: if_splits)
qed

lemma core_listening_mono: "core_sys sc c J c' J' \<Longrightarrow> co_listening c \<Longrightarrow> co_listening c'"
proof (induction rule: core_sys.induct)
  case (Sys_call opn c ui c' J)
  from Sys_call(1,3) show ?case by cases auto
next
  case (Sys_job j J c j' c' J')
  have clear: "co_listening (core_clear k c) = co_listening c" for k by (cases k) simp_all
  from Sys_job(2,6) show ?case by cases (auto simp: core_finish_def clear)
next
  case (Sys_clear c J k)
  then show ?case by (cases k) simp_all
qed (auto simp: core_finish_def core_reset_def)

end
