(* ===== verification/Orch_Invariants.thy ===== *)
theory Orch_Invariants
  imports Orch_Threads
begin

text \<open>
  What every step of the threads keeps (\<open>Orch_Threads\<close>): what is staged was described by an offer
  that was sent, the session being accepted has a job that will let go of it, and the busy flag
  has a thread that will clear it unless a transfer begins while a reset is still clearing.
\<close>

section \<open>What the jobs hold\<close>

definition staged_offer :: "job \<Rightarrow> (staged_payload \<times> fabric_session_message) option" where
  "staged_offer j = (case j of Job_Offer st m p \<Rightarrow> Some (st, m) | Job_Offering st m p \<Rightarrow> Some (st, m)
     | Job_Offered st m p \<Rightarrow> Some (st, m) | Job_Await st m p w \<Rightarrow> Some (st, m) | Job_Round st m p b w \<Rightarrow> Some (st, m)
     | Job_Retransmit st m p w t \<Rightarrow> Some (st, m) | _ \<Rightarrow> None)"

text \<open>The offer of a job that has sent it, and what a job is to send.\<close>

definition offer_out :: "job \<Rightarrow> fabric_session_message option" where
  "offer_out j = (case j of Job_Offered st m p \<Rightarrow> Some m | Job_Await st m p w \<Rightarrow> Some m | Job_Round st m p b w \<Rightarrow> Some m
     | Job_Retransmit st m p w t \<Rightarrow> Some m | _ \<Rightarrow> None)"

definition outbound_staged :: "job \<Rightarrow> staged_payload option" where
  "outbound_staged j = (case j of Job_Outbound st \<Rightarrow> Some st | Job_Sending st \<Rightarrow> Some st | _ \<Rightarrow> None)"

definition accept_session :: "job \<Rightarrow> string option" where
  "accept_session j = (case j of Job_Accept m \<Rightarrow> Some (sm_session_id m) | Job_Accepting m \<Rightarrow> Some (sm_session_id m)
     | Job_Skip m \<Rightarrow> Some (sm_session_id m) | Job_Inbound m \<Rightarrow> Some (sm_session_id m) | Job_Readying m path \<Rightarrow> Some (sm_session_id m)
     | Job_Receive m path \<Rightarrow> Some (sm_session_id m) | Job_Ending m \<Rightarrow> Some (sm_session_id m) | _ \<Rightarrow> None)"

text \<open>
  The threads that will clear the busy flag: some whatever happens, the others as long as an offer
  is outstanding and waited for.
\<close>

definition ends_transfer :: "job \<Rightarrow> bool" where
  "ends_transfer j = (case j of Job_Give_Up ks e \<Rightarrow> True | Job_Outbound st \<Rightarrow> True | Job_Sending st \<Rightarrow> True
     | Job_Receive m path \<Rightarrow> True | Job_Handler h \<Rightarrow> (case h of Handle_Declined m st \<Rightarrow> True | _ \<Rightarrow> False) | _ \<Rightarrow> False)"

definition holds_busy :: "session_core \<Rightarrow> job \<Rightarrow> bool" where
  "holds_busy c j = (ends_transfer j \<or> (case j of Job_Offer st m p \<Rightarrow> True | Job_Offering st m p \<Rightarrow> True | Job_Offered st m p \<Rightarrow> True
     | Job_Await st m p w \<Rightarrow> co_waiting c \<and> co_outbound c \<noteq> None
     | Job_Round st m p b w \<Rightarrow> co_waiting c \<and> co_outbound c \<noteq> None
     | Job_Retransmit st m p w t \<Rightarrow> co_waiting c \<and> co_outbound c \<noteq> None | _ \<Rightarrow> False))"

lemmas job_views = staged_offer_def offer_out_def outbound_staged_def accept_session_def ends_transfer_def holds_busy_def

text \<open>The steps of jobs and handlers, one case per position.\<close>

lemma clear_core [simp]:
  "co_busy (core_clear k c) = co_busy c" "co_waiting (core_clear k c) = co_waiting c" "co_pending (core_clear k c) = co_pending c"
  "co_roster (core_clear k c) = co_roster c" "co_listening (core_clear k c) = co_listening c"
  "co_accepting (core_clear k c) = None \<or> co_accepting (core_clear k c) = co_accepting c"
  "co_outbound (core_clear k c) = None \<or> co_outbound (core_clear k c) = co_outbound c"
  "co_staged (core_clear k c) = no_staged \<or> co_staged (core_clear k c) = co_staged c"
  by (cases k; simp)+

lemma clear_some:
  "co_accepting (core_clear k c) = Some x \<Longrightarrow> co_accepting c = Some x" "co_outbound (core_clear k c) = Some m \<Longrightarrow> co_outbound c = Some m"
  by (cases k; simp)+

section \<open>What is staged\<close>

definition from_offer :: "fabric_session_message set \<Rightarrow> staged_payload \<Rightarrow> bool" where
  "from_offer sent st \<longleftrightarrow> st = no_staged \<or> (\<exists>m \<in> sent. describes m st)"

definition job_described :: "fabric_session_message set \<Rightarrow> job \<Rightarrow> bool" where
  "job_described sent j \<longleftrightarrow> (\<forall>st m. staged_offer j = Some (st, m) \<longrightarrow> describes m st) \<and> set_option (offer_out j) \<subseteq> sent
     \<and> (\<forall>st. outbound_staged j = Some st \<longrightarrow> from_offer sent st)"

definition core_described :: "fabric_session_message set \<Rightarrow> session_core \<Rightarrow> bool" where
  "core_described sent c \<longleftrightarrow> from_offer sent (co_staged c)
     \<and> (\<forall>m. co_outbound c = Some m \<longrightarrow> co_staged c = no_staged \<or> describes m (co_staged c))"

definition offers_described :: "fabric_session_message set \<Rightarrow> session_core \<Rightarrow> job set \<Rightarrow> bool" where
  "offers_described sent c J \<longleftrightarrow> core_described sent c \<and> (\<forall>j \<in> J. job_described sent j)"

lemma described_mono: "offers_described sent c J \<Longrightarrow> sent \<subseteq> sent' \<Longrightarrow> offers_described sent' c J"
  unfolding offers_described_def core_described_def job_described_def from_offer_def by blast

lemma from_no_staged [simp]: "from_offer sent no_staged"
  by (simp add: from_offer_def)

lemma core_described_simps [simp]:
  "core_described sent (c\<lparr>co_busy := b\<rparr>) = core_described sent c" "core_described sent (c\<lparr>co_waiting := b\<rparr>) = core_described sent c"
  "core_described sent (c\<lparr>co_pending := p\<rparr>) = core_described sent c" "core_described sent (c\<lparr>co_accepting := a\<rparr>) = core_described sent c"
  "core_described sent (c\<lparr>co_awaiting := b\<rparr>) = core_described sent c" "core_described sent (c\<lparr>co_listening := b\<rparr>) = core_described sent c"
  "core_described sent (c\<lparr>co_roster := r\<rparr>) = core_described sent c" "core_described sent (c\<lparr>co_identity := i\<rparr>) = core_described sent c"
  "core_described sent (c\<lparr>co_outbound := None, co_staged := no_staged\<rparr>)" "core_described sent (core_finish ok kind c)"
  by (simp_all add: core_described_def core_finish_def)

lemma described_staged: "core_described sent c \<Longrightarrow> from_offer sent (co_staged c)"
  by (simp add: core_described_def)

lemma clear_described: "core_described sent c \<Longrightarrow> core_described sent (core_clear k c)"
  by (cases k) (auto simp: core_described_def)

lemma job_step_described:
  assumes "core_job j c j' c'" and "job_described sent j" and "core_described sent c" and "job_offers j \<subseteq> sent"
  shows "job_described sent j' \<and> core_described sent c'"
  using assms(1)
proof cases
  case (Await_start st m p w)
  then have "describes m st" "m \<in> sent" using assms(2) by (auto simp: job_described_def job_views)
  with Await_start show ?thesis by (auto simp: job_described_def job_views core_described_def from_offer_def)
next
  case (Give_up_clear k ks e)
  with assms(3) show ?thesis by (simp add: job_described_def job_views clear_described)
qed (use assms in \<open>auto simp: job_described_def job_views job_offers_def dest: described_staged\<close>)

lemma described_step:
  assumes "core_sys sc c J c' J'" and "sc_sent sc \<subseteq> sent" and inv: "offers_described sent c J"
  shows "offers_described sent c' J'"
  using assms(1)
proof cases
  case (Sys_call opn ui)
  have "job_described sent j" if "j \<in> ui_jobs ui" for j
    using Sys_call(2) that by cases (auto simp: ui_jobs_def job_described_def job_views)
  moreover have "core_described sent c'" using Sys_call(2) inv by cases (auto simp: offers_described_def)
  ultimately show ?thesis using inv by (auto simp: offers_described_def Sys_call(1))
next
  case (Sys_message m)
  then show ?thesis using inv by (auto simp: offers_described_def job_described_def job_views)
next
  case (Sys_job j j')
  have "job_described sent j' \<and> core_described sent c'"
    by (rule job_step_described [OF Sys_job(2)]) (use inv Sys_job(1,5) assms(2) in \<open>auto simp: offers_described_def\<close>)
  with inv Sys_job(4) show ?thesis by (auto simp: offers_described_def)
next
  case (Sys_clear k)
  with inv clear_described show ?thesis by (auto simp: offers_described_def)
qed (use inv in \<open>auto simp: offers_described_def core_reset_def\<close>)

section \<open>The session being accepted\<close>

definition accepting_held :: "session_core \<Rightarrow> job set \<Rightarrow> bool" where
  "accepting_held c J \<longleftrightarrow> (\<forall>x. co_accepting c = Some x \<longrightarrow> (\<exists>j \<in> J. accept_session j = Some x))"

lemma accept_session_done [simp]: "accept_session Job_Done = None" "accept_session (Job_Handler h) = None"
  by (simp_all add: accept_session_def)

lemma job_accepting:
  assumes "core_job j c j' c'" and "co_accepting c' = Some x"
  shows "accept_session j' = Some x \<or> co_accepting c = Some x \<and> accept_session j \<noteq> Some x"
  using assms by cases (auto simp: accept_session_def core_finish_def dest: clear_some)

lemma accepting_step:
  assumes "core_sys sc c J c' J'" and inv: "accepting_held c J"
  shows "accepting_held c' J'"
  unfolding accepting_held_def
proof (intro allI impI)
  fix x assume x: "co_accepting c' = Some x"
  have old: "\<exists>j \<in> J. accept_session j = Some x" if "co_accepting c = Some x" using that inv by (auto simp: accepting_held_def)
  show "\<exists>j \<in> J'. accept_session j = Some x" using assms(1)
  proof cases
    case Sys_quiet
    with x obtain j where "j \<in> J" "accept_session j = Some x" using old by auto
    moreover from this have "j \<noteq> Job_Done" by auto
    ultimately show ?thesis using Sys_quiet(2) by blast
  next
    case (Sys_call opn ui)
    from Sys_call(2) show ?thesis using x old unfolding Sys_call(1) by cases (auto simp: ui_jobs_def accept_session_def)
  next
    case (Sys_job j j')
    from job_accepting [OF Sys_job(2) x] show ?thesis
    proof
      assume j': "accept_session j' = Some x"
      then have "j' \<noteq> Job_Done" by auto
      with j' Sys_job(3) show ?thesis by blast
    next
      assume "co_accepting c = Some x \<and> accept_session j \<noteq> Some x"
      with old obtain k where "k \<in> J" "accept_session k = Some x" "k \<noteq> j" by blast
      moreover from this have "k \<noteq> Job_Done" by auto
      ultimately show ?thesis using Sys_job(3) by blast
    qed
  next
    case (Sys_clear k)
    with x old show ?thesis by (auto dest: clear_some)
  qed (use x old in \<open>auto simp: core_finish_def core_reset_def\<close>)
qed

section \<open>The busy flag\<close>

definition busy_held :: "bool \<Rightarrow> session_core \<Rightarrow> job set \<Rightarrow> bool" where
  "busy_held clearing c J \<longleftrightarrow> (co_busy c \<longrightarrow> (\<exists>j \<in> J. if clearing then ends_transfer j else holds_busy c j))"

lemma ends_holds [simp]: "ends_transfer j \<Longrightarrow> holds_busy c j"
  by (simp add: holds_busy_def)

lemma not_holding [simp]: "\<not> holds_busy c Job_Done" "\<not> ends_transfer Job_Done"
  by (simp_all add: job_views)

lemma busy_weaker: "busy_held True c J \<Longrightarrow> busy_held b c J"
  by (auto simp: busy_held_def)

lemma holds_busy_mono:
  assumes "holds_busy c k" and "co_waiting c \<Longrightarrow> co_outbound c \<noteq> None \<Longrightarrow> co_waiting c' \<and> co_outbound c' \<noteq> None"
  shows "holds_busy c' k"
  using assms by (cases k) (auto simp: holds_busy_def)

lemma job_busy:
  assumes "core_job j c j' c'" and "co_busy c'"
  shows "holds_busy c j \<longrightarrow> holds_busy c' j'" "ends_transfer j \<longrightarrow> ends_transfer j'"
    "(co_waiting c \<and> co_outbound c \<noteq> None \<longrightarrow> co_waiting c' \<and> co_outbound c' \<noteq> None) \<or> ends_transfer j'"
    "co_busy c \<or> ends_transfer j'"
  using assms by (cases; simp add: job_views core_finish_def)+

lemma busy_step:
  assumes "core_sys sc c J c' J'" and inv: "busy_held clearing c J" and mode: "if clearing then \<not> sc_begins sc else \<not> sc_clears sc"
  shows "busy_held clearing c' J'"
  unfolding busy_held_def
proof
  assume b: "co_busy c'"
  let ?P = "\<lambda>c j. if clearing then ends_transfer j else holds_busy c j"
  have done_free: "\<not> ?P c Job_Done" "\<not> ?P c' Job_Done" by simp_all
  have same: "\<exists>j \<in> J'. ?P c' j"
    if "co_busy c" and "co_waiting c' = co_waiting c" "co_outbound c' = co_outbound c" and "J - {Job_Done} \<subseteq> J'"
  proof -
    obtain j where "j \<in> J" "?P c j" using inv \<open>co_busy c\<close> by (auto simp: busy_held_def)
    moreover have "?P c' j" using \<open>?P c j\<close> that(2,3) holds_busy_mono [of c j c'] by (cases clearing) auto
    moreover have "j \<noteq> Job_Done" using \<open>?P c j\<close> done_free by metis
    ultimately show ?thesis using that(4) by blast
  qed
  show "\<exists>j \<in> J'. ?P c' j" using assms(1)
  proof cases
    case Sys_quiet
    with b show ?thesis by (intro same) auto
  next
    case (Sys_call opn ui)
    have "co_busy c' = co_busy c" "co_waiting c' = co_waiting c" "co_outbound c' = co_outbound c"
      using Sys_call(2) by (cases; simp)+
    with b Sys_call(1) show ?thesis by (intro same) auto
  next
    case (Sys_job j j')
    note jb = job_busy [OF Sys_job(2) b]
    have new: "?P c' j' \<Longrightarrow> \<exists>j \<in> J'. ?P c' j" using Sys_job(3) done_free(2) by (metis DiffI insertI1 singletonD subsetD)
    show ?thesis
    proof (cases "ends_transfer j'")
      case True
      then show ?thesis by (intro new) simp
    next
      case False
      with jb(4) inv obtain k where k: "k \<in> J" "?P c k" by (auto simp: busy_held_def)
      then have kd: "k \<noteq> Job_Done" using done_free by metis
      have "?P c' k" using k(2) jb(3) False holds_busy_mono [of c k c'] by (cases clearing) auto
      show ?thesis
      proof (cases "k = j")
        case True
        with k(2) jb(1,2) show ?thesis by (intro new) (auto split: if_splits)
      next
        case False
        with k kd Sys_job(3) \<open>?P c' k\<close> show ?thesis by blast
      qed
    qed
  next
    case (Sys_begin st m p)
    with mode have "?P c' (Job_Offer st m p)" by (auto simp: holds_busy_def split: if_splits)
    with Sys_begin show ?thesis by blast
  next
    case (Sys_clear k)
    with mode have "clearing" by (auto split: if_splits)
    with Sys_clear b inv show ?thesis by (auto simp: busy_held_def)
  next
    case (Sys_message m)
    with b show ?thesis by (intro same) auto
  next
    case (Sys_presence r)
    with b show ?thesis by (intro same) auto
  next
    case Sys_listen
    with b show ?thesis by (intro same) auto
  qed (use b in \<open>auto simp: core_finish_def core_reset_def intro!: same\<close>)
qed

end
