(* ===== verification/Orch_Props.thy ===== *)
theory Orch_Props
  imports Orch_Invariants
begin

text \<open>
  What the orchestrator promises: invariants of every interleaving of its threads, the
  refinement of the session protocol, the behaviour of its handlers on repeated and on
  unsuitable messages, and the end of the wait for a partner.
\<close>

section \<open>Reachable states\<close>

lemma listener_quiet_step:
  assumes st: "system_step env inp ev sys = Some sys'" and q: "listener_quiet sys" and live: "\<not> sy_terminated sys'"
  shows "listener_quiet sys'"
proof (cases "oc_listener_started (sy_orch sys)")
  case True
  from core_system_step [OF st q live, of any_scope] have "co_listening (core_of (sy_orch sys'))"
    using core_listening_mono True by (fastforce simp: any_scope_def)
  then show ?thesis by (simp add: listener_quiet_def)
next
  case False
  with q have none: "sy_listen sys = Ls_None" by (simp add: listener_quiet_def)
  have sl: "listener_quiet (start_listener_thread started sys1)"
    if "started \<Longrightarrow> co_listening (core_of (sy_orch sys1))" and "sy_listen sys1 = Ls_None" for started sys1
    using that by (auto simp: listener_quiet_def start_listener_thread_def)
  have as: "sy_listen (assign_payload j s) = sy_listen s" for j s by (simp add: assign_payload_def)
  show ?thesis
  proof (cases ev)
    case (Ev_Ui opn)
    with st none show ?thesis
      by (auto simp: system_step_def ui_begin_def listener_quiet_def Let_def split: if_splits prod.splits ui_op.splits)
  next
    case (Ev_Ui_Continue timeout)
    with st none show ?thesis
      by (auto simp: system_step_def ui_continue_def listener_quiet_def as split: if_splits ui_thread.splits option.splits
          dest: join_payload_jobs)
  next
    case (Ev_Reset i timeout)
    with st none show ?thesis
      by (auto simp: system_step_def reset_step_def listener_quiet_def Let_def case_prod_beta split: if_splits reset_thread.splits list.splits
          option.splits dest: join_payload_jobs)
  next
    case Ev_Listen
    with st none show ?thesis by (simp add: system_step_def listen_step_def split: if_splits)
  next
    case Ev_Presence
    with st none show ?thesis
      by (auto simp: system_step_def presence_step_def listener_quiet_def Let_def case_prod_beta split: if_splits presence_thread.splits)
  next
    case Ev_Startup
    with st obtain probe listen where "sy_startup sys = Some (probe, listen)"
      by (auto simp: system_step_def startup_step_def split: if_splits option.splits)
    with st Ev_Startup core_startup [of env probe listen "sy_orch sys"] none show ?thesis
      by (auto simp: system_step_def startup_step_def case_prod_beta split: if_splits intro!: sl)
  next
    case Ev_Payload
    with st none show ?thesis
      by (auto simp: system_step_def payload_step_def split: if_splits option.splits intro!: sl)
        (metis core_of_fields(11) job_step_started)
  next
    case (Ev_Detached i)
    with st none show ?thesis
      by (auto simp: system_step_def detached_step_def split: if_splits intro!: sl)
        (metis core_of_fields(11) job_step_started)
  next
    case (Ev_Progress d t e)
    with st none show ?thesis by (auto simp: system_step_def progress_step_def listener_quiet_def split: if_splits)
  next
    case (Ev_Timer epoch)
    with st none show ?thesis by (auto simp: system_step_def timer_step_def listener_quiet_def split: if_splits)
  qed
qed

text \<open>The protocol before anything happened.\<close>

definition idle_core :: "session_core \<Rightarrow> bool" where
  "idle_core c \<longleftrightarrow> \<not> co_busy c \<and> co_pending c = None \<and> co_outbound c = None \<and> co_staged c = no_staged \<and> \<not> co_awaiting c
     \<and> co_accepting c = None"

lemma new_orchestrator_idle: "idle_core (core_of (new_orchestrator env rolls identity us fs u))"
  unfolding new_orchestrator_def Let_def core_plain by (simp add: idle_core_def core_of_def initial_ui_def)

text \<open>The invariant, with the messages that were sent so far.\<close>

definition protocol_inv :: "fabric_session_message set \<Rightarrow> 'u system \<Rightarrow> bool" where
  "protocol_inv sent sys \<longleftrightarrow> offers_described sent (core_of (sy_orch sys)) (jobs_of sys)
     \<and> accepting_held (core_of (sy_orch sys)) (jobs_of sys)"

lemma inv_mono: "protocol_inv sent sys \<Longrightarrow> sent \<subseteq> sent' \<Longrightarrow> protocol_inv sent' sys"
  using described_mono by (auto simp: protocol_inv_def)

lemma initial_jobs [simp]: "jobs_of (initial_system s) = {}" "sy_orch (initial_system s) = s" "\<not> sy_terminated (initial_system s)"
  by (simp_all add: jobs_of_def initial_system_def ui_jobs_def listen_jobs_def)

lemma initial_quiet: "listener_quiet (initial_system s)"
  by (simp add: listener_quiet_def initial_system_def)

lemma initial_inv:
  assumes "idle_core (core_of s)"
  shows "protocol_inv {} (initial_system s)" "listener_quiet (initial_system s)"
  using assms initial_quiet
  by (auto simp: protocol_inv_def idle_core_def offers_described_def core_described_def accepting_held_def)

definition sending_scope :: "fabric_session_message set \<Rightarrow> core_scope" where
  "sending_scope sent = any_scope\<lparr>sc_sent := sent\<rparr>"

lemma inv_step:
  assumes "system_step env inp ev sys = Some sys'" and "listener_quiet sys" and "\<not> sy_terminated sys'" and "protocol_inv sent sys"
    and "step_sends ev sys \<subseteq> sent"
  shows "listener_quiet sys' \<and> protocol_inv sent sys'"
proof -
  have step: "core_sys (sending_scope sent) (core_of (sy_orch sys)) (jobs_of sys) (core_of (sy_orch sys')) (jobs_of sys')"
    by (rule core_system_step [OF assms(1-3)]) (use assms(5) in \<open>simp_all add: sending_scope_def any_scope_def\<close>)
  have "sc_sent (sending_scope sent) \<subseteq> sent" by (simp add: sending_scope_def)
  from described_step [OF step this] accepting_step [OF step] assms(4) have "protocol_inv sent sys'" by (auto simp: protocol_inv_def)
  with listener_quiet_step [OF assms(1-3)] show ?thesis by blast
qed

text \<open>What a run sends.\<close>

fun run_sends :: "'u orch_env \<Rightarrow> (step_input \<times> event) list \<Rightarrow> 'u system \<Rightarrow> fabric_session_message set" where
  "run_sends env [] sys = {}"
| "run_sends env ((inp, ev) # evs) sys = (case system_step env inp ev sys of
     None \<Rightarrow> {} | Some sys1 \<Rightarrow> step_sends ev sys \<union> run_sends env evs sys1)"

lemma run_live:
  assumes "run_events env evs sys = Some sys'" and "\<not> sy_terminated sys'"
  shows "\<not> sy_terminated sys"
proof (cases evs)
  case Nil
  with assms show ?thesis by simp
next
  case (Cons x xs)
  with assms(1) show ?thesis by (cases x) (auto simp: system_step_def)
qed

lemma run_inv:
  assumes "run_events env evs sys = Some sys'" and "\<not> sy_terminated sys'" and "listener_quiet sys" and "protocol_inv sent sys"
  shows "listener_quiet sys' \<and> protocol_inv (sent \<union> run_sends env evs sys) sys'"
  using assms
proof (induction env evs sys arbitrary: sent rule: run_events.induct)
  case (1 env sys)
  then show ?case by simp
next
  case (2 env inp ev evs sys)
  from 2(2) obtain sys1 where st: "system_step env inp ev sys = Some sys1" "run_events env evs sys1 = Some sys'"
    by (auto split: option.splits)
  have live: "\<not> sy_terminated sys1" by (rule run_live [OF st(2) 2(3)])
  have "protocol_inv (sent \<union> step_sends ev sys) sys" by (rule inv_mono [OF 2(5)]) simp
  from inv_step [OF st(1) 2(4) live this] have "listener_quiet sys1 \<and> protocol_inv (sent \<union> step_sends ev sys) sys1" by simp
  with 2(1) [OF st(1) st(2) 2(3)] have "listener_quiet sys' \<and> protocol_inv (sent \<union> step_sends ev sys \<union> run_sends env evs sys1) sys'"
    by blast
  then show ?case by (simp add: st(1) Un_assoc)
qed

lemma run_inv_start:
  assumes "run_events env evs (initial_system s) = Some sys" and "idle_core (core_of s)" and "\<not> sy_terminated sys"
  shows "protocol_inv (run_sends env evs (initial_system s)) sys"
  using run_inv [OF assms(1,3) initial_inv(2,1) [OF assms(2)]] by simp

lemma reach_inv:
  assumes "system_reach env (initial_system s) sys" and "idle_core (core_of s)"
  shows "sy_terminated sys \<or> listener_quiet sys \<and> protocol_inv UNIV sys"
  using assms(1)
proof (induction rule: system_reach.induct)
  case reach_start
  with initial_inv [OF assms(2)] show ?case using inv_mono by blast
next
  case (reach_step sys inp ev sys')
  show ?case
  proof (cases "sy_terminated sys'")
    case False
    have live: "\<not> sy_terminated sys" using reach_step.hyps(2) by (auto simp: system_step_def split: if_splits)
    with reach_step.IH inv_step [OF reach_step.hyps(2) _ False] show ?thesis by blast
  qed simp
qed

section \<open>A sample orchestrator\<close>

text \<open>One regular file, two configured peers, and a cable on which every send succeeds.\<close>

definition sample_files :: file_system where
  "sample_files = \<lparr>fs_entries = [(''/d'', Directory), (''/t'', Directory), (''/d/a.txt'', File ''abc'')], fs_denied = (\<lambda>_. False), fs_room = (\<lambda>_. None)\<rparr>"

definition sample_plane :: "unit transport" where
  "sample_plane = \<lparr>tp_port_index = 0,
     tp_send_file_on_port = (\<lambda>port path t k (fs, u). Some (empty_transfer_result\<lparr>tr_ok := True\<rparr>, fs, u)),
     tp_receive_file_on_port = (\<lambda>port path t k w. Some (failed_transfer ''Header read failed'', w)),
     tp_loopback_files = default_loopback_files, tp_device_count = (\<lambda>u. (1, u)), tp_port_available = (\<lambda>u. (True, u)),
     tp_resolved_port_index = (\<lambda>u. (0, u)), tp_serial = (\<lambda>u. ([], u)), tp_describe_device = (\<lambda>u. ([], u)),
     tp_request_shutdown = (\<lambda>u. u), tp_is_shutting_down = (\<lambda>u. False)\<rparr>"

definition sample_env :: "unit orch_env" where
  "sample_env = \<lparr>oe_tp = sample_plane, oe_tmp = ''/t'',
     oe_exec = (\<lambda>args fs. (Exited 1, fs)), oe_usbfs_knob = None\<rparr>"

definition sample_identity :: identity_profile where
  "sample_identity = default_identity_profile\<lparr>ip_display_name := ''Ann'', ip_receive_status := Status_Open,
     ip_peers := [default_peer_config\<lparr>pc_display_name := ''Bob'', pc_port_index := 1\<rparr>]\<rparr>"

definition sample_input :: step_input where
  "sample_input = \<lparr>si_now = 1000, si_rng = (\<lambda>_. (1, 2)), si_rolls = (\<lambda>_. 10), si_draw = 0\<rparr>"

definition sample_orch :: "unit orch" where
  "sample_orch = \<lparr>oc_port_index = 0, oc_identity = sample_identity, oc_handshake = handshake_timing_from_identity sample_identity,
     oc_roster = peer_entries_from_config (ip_peers sample_identity),
     oc_state = initial_ui sample_identity (peer_entries_from_config (ip_peers sample_identity)), oc_shutting_down = False,
     oc_outbound_offer = None, oc_staged = no_staged, oc_awaiting_ready = False, oc_wiring_checked = False,
     oc_listener_started = False, oc_working_ports = (1, 0), oc_fabric_was_connected = False, oc_last_announce_ms = 0,
     oc_instance_id = ''x'', oc_accepting = None, oc_last_completed = None, oc_dismiss_epoch = 0, oc_last_probe_ms = 0,
     oc_cached_port_ok = False, oc_cached_devices = 0, oc_listener = new_listener,
     oc_usb_settings = default_usb_settings, oc_timers = [], oc_published = [], oc_log = [], oc_fs = sample_files, oc_usb = ()\<rparr>"

text \<open>Ann offers a file to Bob and waits for the answer.\<close>

definition offering_run :: "(step_input \<times> event) list" where
  "offering_run = map (Pair sample_input) [Ev_Ui (Op_Send ''Bob'' [''/d/a.txt''] []), Ev_Ui_Continue False,
     Ev_Ui_Continue False, Ev_Ui_Continue False, Ev_Payload, Ev_Payload, Ev_Payload]"

text \<open>Bob announces himself ready for the session of the offer.\<close>

definition ready_message :: fabric_session_message where
  "ready_message = empty_session_message\<lparr>sm_kind := Kind_Ready, sm_session_id := ''aaaaaaaaaaaaaaaa'', sm_from_name := ''Bob''\<rparr>"

lemma offering_run_result:
  "case run_events sample_env offering_run (initial_system sample_orch) of None \<Rightarrow> False
     | Some sys \<Rightarrow> \<not> sy_terminated sys \<and> ui_busy (oc_state (sy_orch sys))
         \<and> (case fst (on_session_message sample_env sample_input ready_message (sy_orch sys)) of
              After_Outbound st \<Rightarrow> stg_path st = ''/d/a.txt'' \<and> \<not> stg_is_temp st | _ \<Rightarrow> False)"
  by code_simp

lemma offering_run_reaches:
  obtains sys st where "system_reach sample_env (initial_system sample_orch) sys" "\<not> sy_terminated sys"
    "ui_busy (oc_state (sy_orch sys))" "stg_path st = ''/d/a.txt'' \<and> \<not> stg_is_temp st"
    "fst (on_session_message sample_env sample_input ready_message (sy_orch sys)) = After_Outbound st"
    "run_events sample_env offering_run (initial_system sample_orch) = Some sys"
proof (cases "run_events sample_env offering_run (initial_system sample_orch)")
  case None
  with offering_run_result show thesis by simp
next
  case (Some sys)
  note r = offering_run_result [unfolded Some option.case]
  obtain st where "fst (on_session_message sample_env sample_input ready_message (sy_orch sys)) = After_Outbound st"
    using r by (cases "fst (on_session_message sample_env sample_input ready_message (sy_orch sys))") auto
  with r run_events_reach [OF Some reach_start] Some show thesis by (intro that) auto
qed

lemma sample_orch_idle: "idle_core (core_of sample_orch)"
  by (simp add: idle_core_def core_of_def sample_orch_def initial_ui_def)

section \<open>Locks\<close>

text \<open>The runs in which no transfer begins while a reset is still clearing members.\<close>

fun calm_run :: "'u orch_env \<Rightarrow> (step_input \<times> event) list \<Rightarrow> 'u system \<Rightarrow> bool" where
  "calm_run env [] sys = True"
| "calm_run env ((inp, ev) # evs) sys = (\<not> (begins_transfer ev sys \<and> reset_clearing sys)
     \<and> (case system_step env inp ev sys of None \<Rightarrow> True | Some sys1 \<Rightarrow> calm_run env evs sys1))"

lemma clearing_update:
  assumes "i < length rs" and "list_ex still_clearing (rs[i := r])"
  shows "still_clearing r \<or> list_ex still_clearing rs"
  using assms set_update_subset_insert [of rs i r] by (auto simp: list_ex_iff)

lemma resets_kept:
  assumes "system_step env inp ev sys = Some sys'" and "\<And>i timeout. ev \<noteq> Ev_Reset i timeout"
  shows "reset_clearing sys' = reset_clearing sys"
proof -
  have join: "join_payload s = Some s1 \<Longrightarrow> sy_resets s1 = sy_resets s" for s s1 :: "'a system" by (auto simp: join_payload_def split: if_splits)
  have parts: "sy_resets (assign_payload j s) = sy_resets s" "sy_resets (start_listener_thread b s) = sy_resets s" for j b and s :: "'a system"
    by (simp_all add: assign_payload_def start_listener_thread_def)
  have first: "still_clearing Rs_Begin = False" by (simp add: still_clearing_def)
  show ?thesis using assms
    by (cases ev) (auto simp: system_step_def reset_clearing_def parts first Let_def
      ui_begin_def ui_continue_def listen_step_def presence_step_def startup_step_def payload_step_def detached_step_def
      progress_step_def timer_step_def dest: join
      split: if_splits option.splits prod.splits ui_op.splits ui_thread.splits listen_thread.splits presence_thread.splits
        listen_result.splits)
qed

lemma clearing_starts:
  assumes "system_step env inp ev sys = Some sys'" and "reset_clearing sys'" and "\<not> reset_clearing sys"
  shows "\<not> ui_busy (oc_state (sy_orch sys'))"
proof -
  obtain i timeout where ev: "ev = Ev_Reset i timeout" using resets_kept [OF assms(1)] assms(2,3) by blast
  with assms(1) have st: "reset_step i timeout sys = Some sys'" by (simp add: system_step_def split: if_splits)
  then have i: "i < length (sy_resets sys)" by (auto simp: reset_step_def split: if_splits)
  have old: "\<not> still_clearing (sy_resets sys ! i)" using assms(3) i by (auto simp: reset_clearing_def list_ex_iff dest: nth_mem)
  have upd: "still_clearing r" if "sy_resets sys' = (sy_resets sys)[i := r]" for r
    using clearing_update [OF i, of r] assms(2,3) that by (auto simp: reset_clearing_def)
  show ?thesis
  proof (cases "sy_resets sys ! i")
    case Rs_Begin
    with st i show ?thesis by (auto simp: reset_step_def Let_def reset_begin_def)
  next
    case (Rs_Clear ks staged)
    with old have "ks = []" by (simp add: still_clearing_def)
    with Rs_Clear st i have "sy_resets sys' = (sy_resets sys)[i := Rs_Join]" by (auto simp: reset_step_def Let_def)
    from upd [OF this] show ?thesis by (simp add: still_clearing_def)
  next
    case Rs_Join
    have "join_payload sys = Some sys1 \<Longrightarrow> sy_resets sys1 = sy_resets sys" for sys1 by (auto simp: join_payload_def split: if_splits)
    with Rs_Join st i have "sy_resets sys' = (sy_resets sys)[i := Rs_Done]"
      by (auto simp: reset_step_def Let_def split: option.splits if_splits)
    from upd [OF this] show ?thesis by (simp add: still_clearing_def)
  qed (use st i in \<open>simp add: reset_step_def Let_def\<close>)
qed

definition busy_inv :: "'u system \<Rightarrow> bool" where
  "busy_inv sys \<longleftrightarrow> busy_held (reset_clearing sys) (core_of (sy_orch sys)) (jobs_of sys)"

lemma busy_inv_step:
  assumes st: "system_step env inp ev sys = Some sys'" and q: "listener_quiet sys" and live: "\<not> sy_terminated sys'"
    and calm: "\<not> (begins_transfer ev sys \<and> reset_clearing sys)" and inv: "busy_inv sys"
  shows "busy_inv sys'"
proof -
  define sc where "sc = any_scope\<lparr>sc_begins := \<not> reset_clearing sys, sc_clears := reset_clearing sys\<rparr>"
  have "core_sys sc (core_of (sy_orch sys)) (jobs_of sys) (core_of (sy_orch sys')) (jobs_of sys')"
    by (rule core_system_step [OF st q live]) (use calm in \<open>auto simp: sc_def any_scope_def\<close>)
  from busy_step [OF this inv [unfolded busy_inv_def]]
  have held: "busy_held (reset_clearing sys) (core_of (sy_orch sys')) (jobs_of sys')" by (simp add: sc_def)
  show ?thesis
  proof (cases "reset_clearing sys' \<and> \<not> reset_clearing sys")
    case True
    with clearing_starts [OF st] show ?thesis by (simp add: busy_inv_def busy_held_def)
  next
    case False
    with held busy_weaker [of "core_of (sy_orch sys')" "jobs_of sys'"] show ?thesis
      unfolding busy_inv_def by (cases "reset_clearing sys") auto
  qed
qed

lemma run_busy_inv:
  assumes "run_events env evs sys = Some sys'" and "\<not> sy_terminated sys'" and "listener_quiet sys" and "calm_run env evs sys" and "busy_inv sys"
  shows "busy_inv sys'"
  using assms
proof (induction env evs sys rule: run_events.induct)
  case (2 env inp ev evs sys)
  from 2(2) obtain sys1 where st: "system_step env inp ev sys = Some sys1" "run_events env evs sys1 = Some sys'"
    by (auto split: option.splits)
  have live: "\<not> sy_terminated sys1" by (rule run_live [OF st(2) 2(3)])
  from 2(5) st(1) have calm: "\<not> (begins_transfer ev sys \<and> reset_clearing sys)" "calm_run env evs sys1" by simp_all
  show ?case
    by (rule 2(1) [OF st(1) st(2) 2(3) listener_quiet_step [OF st(1) 2(4) live] calm(2) busy_inv_step [OF st(1) 2(4) live calm(1) 2(6)]])
qed simp



text \<open>
  A reset lets go of the mutex, the user sends a file, and the reset then clears the new offer: the
  waiting thread finds none and ends, and nobody clears the busy flag.
\<close>

definition reset_race :: "(step_input \<times> event) list" where
  "reset_race = map (Pair sample_input) [Ev_Ui Op_Reset, Ev_Reset 0 False] @ offering_run
     @ map (Pair sample_input) (replicate 7 (Ev_Reset 0 False) @ [Ev_Payload, Ev_Reset 0 False, Ev_Reset 0 False])"

lemma reset_race_leaves_busy:
  "case run_events sample_env reset_race (initial_system sample_orch) of None \<Rightarrow> False
     | Some sys \<Rightarrow> ui_busy (oc_state (sy_orch sys)) \<and> \<not> sy_terminated sys \<and> sy_payload sys = None \<and> sy_detached sys = []
         \<and> sy_resets sys = [Rs_Done] \<and> sy_ui sys = Ui_Idle \<and> oc_outbound_offer (sy_orch sys) = None"
  by code_simp

section \<open>Offers\<close>

text \<open>
  Without a reset and a stop there is one thread at most that waits for its partner, so what it
  gives up is its own.
\<close>

definition waits :: "job \<Rightarrow> bool" where
  "waits j = (case j of Job_Offering st m p \<Rightarrow> True | Job_Offered st m p \<Rightarrow> True | Job_Await st m p w \<Rightarrow> True
     | Job_Round st m p b w \<Rightarrow> True | Job_Retransmit st m p w t \<Rightarrow> True | Job_Give_Up ks e \<Rightarrow> True | _ \<Rightarrow> False)"

definition one_waits :: "job set \<Rightarrow> bool" where
  "one_waits J \<longleftrightarrow> (\<forall>j \<in> J. \<forall>k \<in> J. waits j \<longrightarrow> waits k \<longrightarrow> j = k)"

lemma one_waitsD: "one_waits J \<Longrightarrow> j \<in> J \<Longrightarrow> k \<in> J \<Longrightarrow> waits j \<Longrightarrow> waits k \<Longrightarrow> j = k"
  by (simp add: one_waits_def)

definition exactly_staged :: "session_core \<Rightarrow> job set \<Rightarrow> bool" where
  "exactly_staged c J \<longleftrightarrow> (\<forall>m. co_outbound c = Some m \<longrightarrow> describes m (co_staged c))
     \<and> (\<forall>ks e. Job_Give_Up ks e \<in> J \<longrightarrow> ks = give_up_clears \<or> Clear_Outbound \<notin> set ks \<and> co_outbound c = None)"

lemma give_up_position:
  assumes "core_job j c j' c'" and "j' = Job_Give_Up ks e"
  shows "ks = give_up_clears \<or> (\<exists>k. j = Job_Give_Up (k # ks) e)"
  using assms by cases auto

lemma exact_step:
  assumes "core_sys sc c J c' J'" and "\<not> sc_clears sc" and "one_waits J" and "offers_described sent c J" and inv: "exactly_staged c J"
  shows "exactly_staged c' J'"
  using assms(1)
proof cases
  case (Sys_call opn ui)
  have "Job_Give_Up ks e \<notin> ui_jobs ui" for ks e using Sys_call(2) by cases (auto simp: ui_jobs_def)
  moreover have "co_outbound c' = co_outbound c \<and> co_staged c' = co_staged c" using Sys_call(2) by cases auto
  ultimately show ?thesis using inv by (auto simp: exactly_staged_def Sys_call(1))
next
  case (Sys_job j j')
  note J = Sys_job(4)
  have quiet: ?thesis if "co_outbound c' = None \<or> co_outbound c' = co_outbound c \<and> co_staged c' = co_staged c"
      and new: "\<And>ks e. j' = Job_Give_Up ks e \<Longrightarrow> ks = give_up_clears"
  proof -
    have "ks = give_up_clears \<or> Job_Give_Up ks e \<in> J" if "Job_Give_Up ks e \<in> J'" for ks e using that J new by blast
    with that(1) inv show ?thesis unfolding exactly_staged_def by (metis option.distinct(1))
  qed
  from Sys_job(2) show ?thesis
  proof cases
    case (Await_start st m p w)
    have "Job_Give_Up ks e \<notin> J" for ks e
    proof
      assume "Job_Give_Up ks e \<in> J"
      from one_waitsD [OF assms(3) this Sys_job(1)] Await_start(1) show False by (simp add: waits_def)
    qed
    moreover have "describes m st" using assms(4) Sys_job(1) Await_start by (auto simp: offers_described_def job_described_def job_views)
    ultimately show ?thesis using Await_start J by (auto simp: exactly_staged_def)
  next
    case (Give_up_clear k ks e)
    have pos: "k # ks = give_up_clears \<or> Clear_Outbound \<notin> set (k # ks) \<and> co_outbound c = None"
      using inv Sys_job(1) Give_up_clear by (auto simp: exactly_staged_def)
    then have none: "co_outbound c' = None"
      using Give_up_clear by (cases k) (auto simp: give_up_clears_def)
    have rest: "Clear_Outbound \<notin> set ks" using pos by (auto simp: give_up_clears_def)
    have only: "Job_Give_Up ks' e' = j" if "Job_Give_Up ks' e' \<in> J" for ks' e'
      using one_waitsD [OF assms(3) that Sys_job(1)] Give_up_clear(1) by (simp add: waits_def)
    show ?thesis unfolding exactly_staged_def
    proof (intro conjI allI impI)
      fix ks' e' assume "Job_Give_Up ks' e' \<in> J'"
      with J Give_up_clear have "ks' = ks \<or> Job_Give_Up ks' e' \<in> J" by auto
      with only pos rest none Give_up_clear(1) inv show "ks' = give_up_clears \<or> Clear_Outbound \<notin> set ks' \<and> co_outbound c' = None"
        by (auto simp: exactly_staged_def)
    qed (simp add: none)
  qed (rule quiet; auto simp: core_finish_def)+
next
  case (Sys_clear k)
  with assms(2) show ?thesis by simp
next
  case Sys_quiet
  then have old: "Job_Give_Up ks e \<in> J" if "Job_Give_Up ks e \<in> J'" for ks e using that by blast
  show ?thesis unfolding exactly_staged_def Sys_quiet(1)
  proof (intro conjI allI impI)
    fix ks e assume "Job_Give_Up ks e \<in> J'"
    from old [OF this] inv show "ks = give_up_clears \<or> Clear_Outbound \<notin> set ks \<and> co_outbound c = None"
      unfolding exactly_staged_def by metis
  qed (use inv in \<open>simp add: exactly_staged_def\<close>)
qed (use inv in \<open>auto simp: exactly_staged_def core_finish_def core_reset_def\<close>)

definition alone :: "'u system \<Rightarrow> bool" where
  "alone sys \<longleftrightarrow> sy_resets sys = [] \<and> sy_detached sys = [] \<and> sy_ui sys \<notin> {Ui_Stop_Listener, Ui_Stop_Payload}
     \<and> (\<forall>j \<in> ui_jobs (sy_ui sys) \<union> listen_jobs (sy_listen sys). \<not> waits j)"

lemma alone_one: "alone sys \<Longrightarrow> one_waits (jobs_of sys)"
  by (auto simp: alone_def one_waits_def jobs_of_def)

lemma call_alone:
  assumes "core_call opn c ui c'" and "opn \<noteq> Op_Stop"
  shows "ui \<notin> {Ui_Stop_Listener, Ui_Stop_Payload} \<and> (\<forall>j \<in> ui_jobs ui. \<not> waits j)"
  using assms by cases (auto simp: ui_jobs_def waits_def)

lemma start_alone [simp]:
  "alone sys \<Longrightarrow> alone (start_listener_thread b sys)"
  by (auto simp: start_listener_thread_def alone_def listen_jobs_def)

lemma alone_fields [simp]:
  "alone (sys\<lparr>sy_orch := s\<rparr>) = alone sys" "alone (sys\<lparr>sy_presence := p\<rparr>) = alone sys" "alone (sys\<lparr>sy_startup := x\<rparr>) = alone sys"
  "alone (sys\<lparr>sy_payload := y\<rparr>) = alone sys" "alone (sys\<lparr>sy_terminated := b\<rparr>) = alone sys"
  by (simp_all add: alone_def)

lemma alone_join: "join_payload sys = Some sys1 \<Longrightarrow> alone sys \<Longrightarrow> alone sys1"
  by (auto simp: join_payload_def split: if_splits)

lemma alone_moves:
  "alone sys \<Longrightarrow> \<forall>j \<in> ui_jobs t. \<not> waits j \<Longrightarrow> t \<notin> {Ui_Stop_Listener, Ui_Stop_Payload} \<Longrightarrow> alone (sys\<lparr>sy_ui := t\<rparr>)"
  "alone sys \<Longrightarrow> \<forall>j \<in> listen_jobs l. \<not> waits j \<Longrightarrow> alone (sys\<lparr>sy_listen := l\<rparr>)"
  by (auto simp: alone_def)

lemma alone_jobs:
  "alone sys \<Longrightarrow> j \<in> ui_jobs (sy_ui sys) \<Longrightarrow> \<not> waits j" "alone sys \<Longrightarrow> j \<in> listen_jobs (sy_listen sys) \<Longrightarrow> \<not> waits j"
  "alone sys \<Longrightarrow> sy_resets sys = [] \<and> sy_detached sys = [] \<and> sy_ui sys \<noteq> Ui_Stop_Listener \<and> sy_ui sys \<noteq> Ui_Stop_Payload"
  by (auto simp: alone_def)

lemma alone_ui:
  assumes "ui_begin env inp opn sys = Some sys'" and "opn \<noteq> Op_Reset" and "opn \<noteq> Op_Stop" and "alone sys"
  shows "alone sys'"
proof -
  obtain ui s where call: "ui_call env inp opn (sy_orch sys) = (ui, s)" by fastforce
  have "alone (sys\<lparr>sy_ui := ui, sy_orch := s\<rparr>)"
    using call_alone [OF core_ui_call [of opn "sy_orch sys" env inp] assms(3)] alone_moves(1) [OF assms(4)] by (simp add: call)
  moreover have "sys' = sys\<lparr>sy_ui := ui, sy_orch := s\<rparr> \<or> (\<exists>x. sys' = sys\<lparr>sy_ui := ui, sy_orch := s, sy_startup := x\<rparr>)"
    using assms(1,2) by (auto simp: ui_begin_def call Let_def split: if_splits ui_op.splits)
  ultimately show ?thesis by auto
qed

lemma alone_continue:
  assumes "ui_continue timeout sys = Some sys'" and "alone sys"
  shows "alone sys'"
proof (cases "sy_ui sys")
  case (Ui_Join j)
  with assms obtain sys1 where "join_payload sys = Some sys1" "sys' = sys1\<lparr>sy_ui := Ui_Begin j\<rparr>" by (auto simp: ui_continue_def)
  with assms(2) Ui_Join show ?thesis using alone_jobs(1) [of sys j] by (auto simp: ui_jobs_def intro!: alone_moves dest: alone_join)
next
  case (Ui_Begin j)
  with assms show ?thesis using alone_jobs(1) [of sys j] by (auto simp: ui_continue_def ui_jobs_def intro!: alone_moves)
next
  case (Ui_Assign j)
  with assms show ?thesis by (auto simp: ui_continue_def ui_jobs_def assign_payload_def intro!: alone_moves split: if_splits)
qed (use assms alone_jobs(3) [of sys] in \<open>auto simp: ui_continue_def\<close>)

lemma alone_listen:
  assumes "listen_step env inp sys = Some sys'" and "alone sys"
  shows "alone sys'"
proof (cases "sy_listen sys")
  case (Ls_Join j path)
  with assms obtain sys1 where "join_payload sys = Some sys1" "sys' = sys1\<lparr>sy_listen := Ls_Assign j path\<rparr>" by (auto simp: listen_step_def)
  with assms(2) Ls_Join show ?thesis using alone_jobs(2) [of sys j] by (auto simp: listen_jobs_def intro!: alone_moves dest: alone_join)
next
  case (Ls_Assign j path)
  with assms show ?thesis by (auto simp: listen_step_def listen_jobs_def assign_payload_def intro!: alone_moves split: if_splits)
next
  case (Ls_Receive path t)
  with assms show ?thesis
    by (auto simp: listen_step_def listen_jobs_def waits_def Let_def intro!: alone_moves split: option.splits prod.splits listen_result.splits)
next
  case (Ls_Handle h path)
  with assms show ?thesis
    by (auto simp: listen_step_def listen_jobs_def waits_def after_job_def Let_def intro!: alone_moves
        split: option.splits prod.splits sum.splits after_message.splits)
qed (use assms in \<open>auto simp: listen_step_def listen_jobs_def Let_def intro!: alone_moves split: prod.splits listen_next.splits\<close>)

lemma alone_step:
  assumes "system_step env inp ev sys = Some sys'" and "ev \<noteq> Ev_Ui Op_Reset" and "ev \<noteq> Ev_Ui Op_Stop" and "alone sys"
  shows "alone sys'"
proof (cases ev)
  case (Ev_Ui opn)
  with assms show ?thesis by (auto simp: system_step_def split: if_splits intro: alone_ui)
next
  case (Ev_Ui_Continue timeout)
  with assms show ?thesis by (auto simp: system_step_def split: if_splits intro: alone_continue)
next
  case Ev_Listen
  with assms show ?thesis by (auto simp: system_step_def split: if_splits intro: alone_listen)
next
  case (Ev_Reset i timeout)
  with assms alone_jobs(3) [of sys] show ?thesis by (auto simp: system_step_def reset_step_def split: if_splits)
next
  case (Ev_Detached i)
  with assms alone_jobs(3) [of sys] show ?thesis by (auto simp: system_step_def detached_step_def split: if_splits)
next
  case Ev_Presence
  with assms show ?thesis
    by (auto simp: system_step_def presence_step_def Let_def split: if_splits presence_thread.splits prod.splits)
next
  case Ev_Startup
  with assms show ?thesis by (auto simp: system_step_def startup_step_def split: if_splits option.splits prod.splits)
next
  case Ev_Payload
  with assms show ?thesis by (auto simp: system_step_def payload_step_def split: if_splits option.splits)
qed (use assms in \<open>auto simp: system_step_def progress_step_def timer_step_def split: if_splits\<close>)

text \<open>The runs in which neither a reset nor a stop is called.\<close>

definition undisturbed :: "(step_input \<times> event) list \<Rightarrow> bool" where
  "undisturbed evs \<longleftrightarrow> Ev_Ui Op_Reset \<notin> snd ` set evs \<and> Ev_Ui Op_Stop \<notin> snd ` set evs"

lemma run_exact:
  assumes "run_events env evs sys = Some sys'" and "\<not> sy_terminated sys'" and "listener_quiet sys" and "protocol_inv UNIV sys"
    and "undisturbed evs" and "alone sys" and "exactly_staged (core_of (sy_orch sys)) (jobs_of sys)"
  shows "exactly_staged (core_of (sy_orch sys')) (jobs_of sys')"
  using assms
proof (induction env evs sys rule: run_events.induct)
  case (2 env inp ev evs sys)
  from 2(2) obtain sys1 where st: "system_step env inp ev sys = Some sys1" "run_events env evs sys1 = Some sys'"
    by (auto split: option.splits)
  have live: "\<not> sy_terminated sys1" by (rule run_live [OF st(2) 2(3)])
  have ev: "ev \<noteq> Ev_Ui Op_Reset" "ev \<noteq> Ev_Ui Op_Stop" and rest: "undisturbed evs" using 2(6) by (auto simp: undisturbed_def)
  define sc where "sc = any_scope\<lparr>sc_clears := False\<rparr>"
  have step: "core_sys sc (core_of (sy_orch sys)) (jobs_of sys) (core_of (sy_orch sys1)) (jobs_of sys1)"
    by (rule core_system_step [OF st(1) 2(4) live])
      (use alone_jobs(3) [OF 2(7)] in \<open>auto simp: sc_def any_scope_def reset_clearing_def\<close>)
  have "exactly_staged (core_of (sy_orch sys1)) (jobs_of sys1)"
    by (rule exact_step [OF step _ alone_one [OF 2(7)] _ 2(8)]) (use 2(5) in \<open>auto simp: sc_def protocol_inv_def\<close>)
  moreover have "listener_quiet sys1" "protocol_inv UNIV sys1" using inv_step [OF st(1) 2(4) live 2(5)] by simp_all
  ultimately show ?case by (rule_tac 2(1) [OF st 2(3) _ _ rest alone_step [OF st(1) ev 2(7)]])
qed simp

lemma run_exact_start:
  assumes "run_events env evs (initial_system s) = Some sys" and "idle_core (core_of s)" and "\<not> sy_terminated sys" and "undisturbed evs"
    and "oc_outbound_offer (sy_orch sys) = Some offer"
  shows "describes offer (oc_staged (sy_orch sys))"
proof -
  have "alone (initial_system s)" by (simp add: alone_def initial_system_def ui_jobs_def listen_jobs_def)
  moreover have "protocol_inv UNIV (initial_system s)" by (rule inv_mono [OF initial_inv(1) [OF assms(2)]]) simp
  moreover have "exactly_staged (core_of (sy_orch (initial_system s))) (jobs_of (initial_system s))"
    using assms(2) by (simp add: exactly_staged_def idle_core_def)
  ultimately have "exactly_staged (core_of (sy_orch sys)) (jobs_of sys)"
    by (rule_tac run_exact [OF assms(1,3) initial_quiet _ assms(4)])
  with assms(5) show ?thesis by (simp add: exactly_staged_def)
qed


text \<open>Bob answers that he is ready; the listener of Ann has checked it.\<close>

definition ready_plane :: "unit transport" where
  "ready_plane = sample_plane\<lparr>tp_receive_file_on_port := (\<lambda>port path t k (fs, u).
     Some (empty_transfer_result\<lparr>tr_ok := True\<rparr>, snd (append_file path (session_payload ready_message) fs), u))\<rparr>"

definition ready_env :: "unit orch_env" where
  "ready_env = sample_env\<lparr>oe_tp := ready_plane\<rparr>"

definition ready_run :: "(step_input \<times> event) list" where
  "ready_run = offering_run @ map (Pair sample_input) (replicate 4 Ev_Listen)"

text \<open>\<open>stoull\<close> with the comparison on integers, for evaluation.\<close>

lemma stoull_base_code [code]:
  "stoull_base base s = (case strtol base s of None \<Rightarrow> Inl Invalid_argument
     | Some (neg, n) \<Rightarrow> if 2 ^ 64 \<le> int n then Inl Out_of_range
         else Inr (if neg then - word_of_int (int n) else word_of_int (int n)))"
proof -
  have "(2 ^ 64 \<le> int n) = (2 ^ 64 \<le> n)" for n by (metis of_nat_le_iff of_nat_numeral of_nat_power)
  then show ?thesis unfolding stoull_base_def by (auto split: option.splits prod.splits)
qed

lemma ready_run_result:
  "case run_events ready_env ready_run (initial_system sample_orch) of None \<Rightarrow> False
     | Some sys \<Rightarrow> (case sy_listen sys of Ls_Handle (Handle_Ready m) path \<Rightarrow> True | _ \<Rightarrow> False)
         \<and> (case oc_outbound_offer (sy_orch sys) of None \<Rightarrow> False | Some offer \<Rightarrow> sm_payload_name offer = ''a.txt'')
         \<and> \<not> sy_terminated sys"
  by code_simp


text \<open>
  A reset between the check and the copy: the listener starts to send a payload without a path.
\<close>

lemma empty_payload_started:
  "case run_events ready_env (ready_run @ map (Pair sample_input) (Ev_Ui Op_Reset # replicate 8 (Ev_Reset 0 False) @ [Ev_Listen]))
       (initial_system sample_orch) of None \<Rightarrow> False
     | Some sys \<Rightarrow> (case sy_listen sys of Ls_Join (Job_Outbound st) path \<Rightarrow> st = no_staged | _ \<Rightarrow> False)"
  by code_simp

text \<open>The session of an offer is known while it waits for the user, is being accepted, or was completed last.\<close>

definition session_known :: "string \<Rightarrow> 'u orch \<Rightarrow> bool" where
  "session_known x s \<longleftrightarrow> oc_accepting s = Some x \<or> oc_last_completed s = Some x
     \<or> (\<exists>p. ui_pending_offer (oc_state s) = Some p \<and> sm_session_id p = x)"

text \<open>A change of the log and of the activity counter alone.\<close>

definition only_noted :: "'u orch \<Rightarrow> 'u orch \<Rightarrow> bool" where
  "only_noted s s' \<longleftrightarrow> (\<exists>states lines. s' = s\<lparr>oc_state := (oc_state s)\<lparr>ui_fabric_activity_seq := ui_fabric_activity_seq (oc_state s) + 1\<rparr>,
     oc_published := oc_published s @ states, oc_log := oc_log s @ lines\<rparr>)"

lemma note_only: "\<exists>states lines. note_message m s = s\<lparr>oc_state := (oc_state s)\<lparr>ui_fabric_activity_seq := ui_fabric_activity_seq (oc_state s) + 1\<rparr>,
     oc_published := oc_published s @ states, oc_log := oc_log s @ lines\<rparr>"
  by (cases s) (auto simp: note_message_def booth_event_def bump_fabric_activity_def publish_state_def set_ui_def)

text \<open>
  C22: An offer whose session waits for the user, is being accepted or was completed last starts
  nothing and changes nothing but the log and the activity counter. An offer that is taken on is
  one of these from then on, so a copy that follows it is ignored.
\<close>

theorem offer_retransmit_idempotent:
  assumes "sm_kind m = Kind_Offer" and "on_session_message env inp m s = (a, s1)"
  shows "(session_known (sm_session_id m) s \<longrightarrow> a = After_Nothing \<and> only_noted s s1)
    \<and> (offer_taken m (core_of s) \<longrightarrow> session_known (sm_session_id m) s1
        \<and> fst (on_session_message env inp' m s1) = After_Nothing \<and> only_noted s1 (snd (on_session_message env inp' m s1)))"
proof -
  have ignored: "fst (on_session_message env i m t) = After_Nothing \<and> only_noted t (snd (on_session_message env i m t))"
    if "session_known (sm_session_id m) t" for t :: "'a orch" and i
  proof -
    obtain states lines where n: "note_message m t = t\<lparr>oc_state := (oc_state t)\<lparr>ui_fabric_activity_seq := ui_fabric_activity_seq (oc_state t) + 1\<rparr>,
       oc_published := oc_published t @ states, oc_log := oc_log t @ lines\<rparr>" using note_only by blast
    then have "session_known (sm_session_id m) (note_message m t)" using that by (simp add: session_known_def)
    then have "offer_ignored m (note_message m t) \<noteq> None" by (auto simp: offer_ignored_None session_known_def)
    then obtain e d where "offer_ignored m (note_message m t) = Some (e, d)" by auto
    then have r: "on_session_message env i m t = (After_Nothing, booth_event (oc_port_index (note_message m t)) e d (note_message m t))"
      by (simp add: on_session_message_def assms(1) handle_offer_def offer_begin_def Let_def)
    moreover have "only_noted t (booth_event (oc_port_index (note_message m t)) e d (note_message m t))"
      unfolding only_noted_def by (rule exI [of _ states], rule exI [of _ "lines @ [(oc_port_index t, e, d)]"])
        (simp add: n booth_event_def)
    ultimately show ?thesis by simp
  qed
  moreover have "session_known (sm_session_id m) s1" if t: "offer_taken m (core_of s)"
  proof -
    have "core_of (snd (handle_offer m (note_message m s))) =
        (if asks_first (core_of s) then (core_of s)\<lparr>co_pending := Some m\<rparr>
         else (core_of s)\<lparr>co_pending := None, co_accepting := Some (sm_session_id m)\<rparr>)"
      using core_handle_offer [of m "note_message m s"] t by simp
    moreover have "s1 = snd (handle_offer m (note_message m s))"
      using assms(2) by (auto simp: on_session_message_def assms(1) Let_def split: prod.splits option.splits)
    ultimately have c: "core_of s1 = (if asks_first (core_of s) then (core_of s)\<lparr>co_pending := Some m\<rparr>
         else (core_of s)\<lparr>co_pending := None, co_accepting := Some (sm_session_id m)\<rparr>)" by simp
    from arg_cong [OF c, of co_pending] arg_cong [OF c, of co_accepting] show ?thesis
      by (cases "asks_first (core_of s)") (simp_all add: session_known_def)
  qed
  ultimately show ?thesis using assms(2) by (metis fst_conv snd_conv)
qed

lemma offer_retransmit_idempotent_witness:
  "\<exists>s1. on_session_message sample_env sample_input (empty_session_message\<lparr>sm_kind := Kind_Offer, sm_session_id := ''7''\<rparr>)
     (sample_orch\<lparr>oc_last_completed := Some ''7''\<rparr>) = (After_Nothing, s1)"
proof -
  let ?m = "empty_session_message\<lparr>sm_kind := Kind_Offer, sm_session_id := ''7''\<rparr>" and ?s = "sample_orch\<lparr>oc_last_completed := Some ''7''\<rparr>"
  obtain a s1 where r: "on_session_message sample_env sample_input ?m ?s = (a, s1)" by fastforce
  have "sm_kind ?m = Kind_Offer" "session_known (sm_session_id ?m) ?s" by (simp_all add: session_known_def)
  with offer_retransmit_idempotent [OF _ r] r show ?thesis by blast
qed

section \<open>The session protocol\<close>

text \<open>
  What the protocol documents promise, on four session names: what was offered, what is
  waiting for the user, what is being received and what was received last.
\<close>

datatype sender_phase = No_Offer | Offered string | Accepted string

record protocol =
  pt_self :: string
  pt_asks :: bool
  pt_phase :: sender_phase
  pt_pending :: "string option"
  pt_accepting :: "string option"
  pt_completed :: "string option"
  pt_busy :: bool

datatype protocol_action = Act_Nothing | Act_Receive string | Act_Send string

definition protocol_of :: "'u orch \<Rightarrow> protocol" where
  "protocol_of s = \<lparr>pt_self = ip_display_name (oc_identity s),
     pt_asks = (ip_receive_status (oc_identity s) = Status_AskFirst),
     pt_phase = (case oc_outbound_offer s of None \<Rightarrow> No_Offer
       | Some m \<Rightarrow> if oc_awaiting_ready s then Accepted (sm_session_id m) else Offered (sm_session_id m)),
     pt_pending = map_option sm_session_id (ui_pending_offer (oc_state s)), pt_accepting = oc_accepting s,
     pt_completed = oc_last_completed s, pt_busy = ui_busy (oc_state s)\<rparr>"

definition phase_session :: "sender_phase \<Rightarrow> string option" where
  "phase_session p = (case p of No_Offer \<Rightarrow> None | Offered x \<Rightarrow> Some x | Accepted x \<Rightarrow> Some x)"

definition protocol_message :: "session_message_kind \<Rightarrow> string \<Rightarrow> string \<Rightarrow> protocol \<Rightarrow> protocol_action \<times> protocol" where
  "protocol_message kind target x p = (case kind of
       Kind_Offer \<Rightarrow>
         (if target \<notin> {[], pt_self p} \<or> pt_busy p \<or> pt_accepting p \<noteq> None \<or> Some x \<in> {pt_pending p, pt_completed p}
          then (Act_Nothing, p)
          else if pt_asks p then (Act_Nothing, p\<lparr>pt_pending := Some x\<rparr>)
          else (Act_Receive x, p\<lparr>pt_pending := None, pt_accepting := Some x\<rparr>))
     | Kind_Accept \<Rightarrow> (Act_Nothing, if phase_session (pt_phase p) = Some x then p\<lparr>pt_phase := Accepted x\<rparr> else p)
     | Kind_Decline \<Rightarrow> (Act_Nothing,
         if phase_session (pt_phase p) = Some x then p\<lparr>pt_phase := No_Offer, pt_busy := False\<rparr> else p)
     | Kind_Ready \<Rightarrow> (if phase_session (pt_phase p) = Some x then (Act_Send x, p\<lparr>pt_phase := Accepted x\<rparr>)
         else (Act_Nothing, p))
     | _ \<Rightarrow> (Act_Nothing, p))"

definition action_of :: "fabric_session_message \<Rightarrow> after_message \<Rightarrow> protocol_action" where
  "action_of m a = (case a of After_Nothing \<Rightarrow> Act_Nothing | After_Accept offer \<Rightarrow> Act_Receive (sm_session_id offer)
     | After_Outbound st \<Rightarrow> Act_Send (sm_session_id m))"

definition core_phase :: "fabric_session_message option \<Rightarrow> bool \<Rightarrow> sender_phase" where
  "core_phase offer awaiting = (case offer of None \<Rightarrow> No_Offer
     | Some m \<Rightarrow> if awaiting then Accepted (sm_session_id m) else Offered (sm_session_id m))"

definition protocol_core :: "session_core \<Rightarrow> protocol" where
  "protocol_core c = \<lparr>pt_self = ip_display_name (co_identity c), pt_asks = asks_first c,
     pt_phase = core_phase (co_outbound c) (co_awaiting c), pt_pending = map_option sm_session_id (co_pending c),
     pt_accepting = co_accepting c, pt_completed = co_completed c, pt_busy = co_busy c\<rparr>"

lemma protocol_of_core: "protocol_of s = protocol_core (core_of s)"
  by (simp add: protocol_of_def protocol_core_def asks_first_def core_phase_def split: option.split)

lemma protocol_core_fields [simp]:
  "pt_self (protocol_core c) = ip_display_name (co_identity c)" "pt_asks (protocol_core c) = asks_first c"
  "pt_phase (protocol_core c) = core_phase (co_outbound c) (co_awaiting c)"
  "pt_pending (protocol_core c) = map_option sm_session_id (co_pending c)" "pt_accepting (protocol_core c) = co_accepting c"
  "pt_completed (protocol_core c) = co_completed c" "pt_busy (protocol_core c) = co_busy c"
  by (simp_all add: protocol_core_def)

lemma protocol_core_updates [simp]:
  "protocol_core (c\<lparr>co_roster := r\<rparr>) = protocol_core c"
  "protocol_core (c\<lparr>co_pending := p\<rparr>) = (protocol_core c)\<lparr>pt_pending := map_option sm_session_id p\<rparr>"
  "protocol_core (c\<lparr>co_accepting := a\<rparr>) = (protocol_core c)\<lparr>pt_accepting := a\<rparr>"
  "protocol_core (c\<lparr>co_waiting := w\<rparr>) = protocol_core c"
  "protocol_core (c\<lparr>co_awaiting := b\<rparr>) = (protocol_core c)\<lparr>pt_phase := core_phase (co_outbound c) b\<rparr>"
  "protocol_core (core_finish False k c) = (protocol_core c)\<lparr>pt_phase := No_Offer, pt_busy := False\<rparr>"
  by (simp_all add: protocol_core_def asks_first_def core_finish_def core_phase_def)

lemma phase_session_core: "phase_session (core_phase (co_outbound c) b) = Some (sm_session_id m) \<longleftrightarrow> core_matches m c"
  by (simp add: phase_session_def core_phase_def core_matches_def split: option.split)

lemma phase_accepted: "core_matches m c \<Longrightarrow> core_phase (co_outbound c) True = Accepted (sm_session_id m)"
  by (simp add: core_phase_def core_matches_def split: option.splits)

lemma core_message_refines:
  "protocol_message (sm_kind m) (sm_to_name m) (sm_session_id m) (protocol_core c)
   = (action_of m (fst (core_message m c)), protocol_core (snd (core_message m c)))"
proof (cases "sm_kind m")
  case Kind_Offer
  have "sm_to_name m \<notin> {[], ip_display_name (co_identity c)} \<or> co_busy c \<or> co_accepting c \<noteq> None
      \<or> Some (sm_session_id m) \<in> {map_option sm_session_id (co_pending c), co_completed c} \<longleftrightarrow> \<not> offer_taken m c"
    by (cases "co_pending c") (auto simp: offer_taken_def)
  with Kind_Offer show ?thesis by (simp add: protocol_message_def core_message_def action_of_def del: insert_iff)
qed (simp_all add: protocol_message_def core_message_def action_of_def phase_session_core phase_accepted)

text \<open>
  C3: The five message handlers implement the protocol: on every state, whatever the display,
  the log, the files and the cable hold, a message has the effect and starts the transfer the
  protocol says.
\<close>

theorem session_refinement:
  "(action_of m (fst (on_session_message env inp m s)), protocol_of (snd (on_session_message env inp m s)))
   = protocol_message (sm_kind m) (sm_to_name m) (sm_session_id m) (protocol_of s)"
  using core_on_session_message [of s m env inp] core_message_refines [of m "core_of s"]
  by (auto simp: protocol_of_core)

section \<open>The roster\<close>

lemma announced_ok:
  assumes "announced_by r r'" and "roster_ok r"
  shows "roster_ok r'"
  using assms touch_ok by (auto simp: announced_by_def)

lemma roster_step:
  assumes "core_sys sc c J c' J'" and "roster_ok (co_roster c)" and "\<forall>i \<in> sc_ids sc. distinct (map pc_port_index (ip_peers i))"
  shows "roster_ok (co_roster c')"
  using assms(1)
proof cases
  case (Sys_call opn ui)
  from Sys_call(2) show ?thesis using assms(2,3) Sys_call(3)
    by cases (auto simp: entries_from_config_ok)
next
  case (Sys_job j j')
  from Sys_job(2) show ?thesis using assms(2) by cases (auto simp: core_finish_def announced_ok)
next
  case (Sys_presence r)
  then show ?thesis using roster_ok_same_ids [of r "co_roster c"] assms(2) by (simp add: presence_roster_def)
qed (use assms(2) in \<open>auto simp: core_finish_def core_reset_def\<close>)

text \<open>The profiles a run is given.\<close>

definition run_identities :: "(step_input \<times> event) list \<Rightarrow> identity_profile set" where
  "run_identities evs = {i. Ev_Ui (Op_Set_Identity i) \<in> snd ` set evs}"

lemma run_roster:
  assumes "run_events env evs sys = Some sys'" and "\<not> sy_terminated sys'" and "listener_quiet sys"
    and "roster_ok (oc_roster (sy_orch sys))" and "\<forall>i \<in> run_identities evs. distinct (map pc_port_index (ip_peers i))"
  shows "roster_ok (oc_roster (sy_orch sys'))"
  using assms
proof (induction evs arbitrary: sys)
  case (Cons x evs)
  obtain inp ev where x: "x = (inp, ev)" by (cases x)
  with Cons.prems(1) obtain sys1 where st: "system_step env inp ev sys = Some sys1" and run: "run_events env evs sys1 = Some sys'"
    by (auto split: option.splits)
  have live: "\<not> sy_terminated sys1" by (rule run_live [OF run Cons.prems(2)])
  have sub: "run_identities evs \<subseteq> run_identities (x # evs)" by (auto simp: run_identities_def)
  have "core_sys (any_scope\<lparr>sc_ids := run_identities (x # evs)\<rparr>) (core_of (sy_orch sys)) (jobs_of sys) (core_of (sy_orch sys1)) (jobs_of sys1)"
    by (rule core_system_step [OF st Cons.prems(3) live]) (auto simp: run_identities_def any_scope_def x image_iff)
  from roster_step [OF this] Cons.prems(4,5) have "roster_ok (oc_roster (sy_orch sys1))" by simp
  with Cons.IH [OF run Cons.prems(2) listener_quiet_step [OF st Cons.prems(3) live]] Cons.prems(5) sub show ?case by blast
qed simp



section \<open>What is kept of a received file\<close>

lemma finish_files [simp]: "oc_fs (finish_transfer ok message error result kind s) = oc_fs s"
  by (simp add: finish_transfer_def Let_def set_ui_def booth_event_def clear_outbound_session_def publish_state_def
      set_listener_def ensure_listener_active_def schedule_dismiss_def)

lemma finish_failed_status: "ui_status_message (oc_state (finish_transfer False message error result kind s)) = message"
  by (simp add: finish_transfer_def Let_def set_ui_def booth_event_def clear_outbound_session_def publish_state_def
      set_listener_def ensure_listener_active_def)

lemma cleanup_logged_files: "oc_fs (cleanup_logged path why s) = snd (cleanup_partial_receive_file path (oc_fs s))"
  by (simp add: cleanup_logged_def Let_def booth_event_def split: prod.splits)

lemma cleanup_clears:
  assumes "path \<noteq> []" and "fs_lookup fs path \<noteq> Some Directory" and "\<not> fs_denied fs path"
  shows "fs_lookup (snd (cleanup_partial_receive_file path fs)) q = (if q = path then None else fs_lookup fs q)"
  using assms
  by (auto simp: cleanup_partial_receive_file_def fs_exists_def remove_path_def Let_def split: option.splits node.splits)

lemma finish_completed:
  "oc_last_completed (finish_transfer ok message error result kind s) =
     (if ok \<and> kind = Done_Received \<and> oc_accepting s \<noteq> None then oc_accepting s else oc_last_completed s)"
proof -
  let ?t = "finish_transfer ok message error result kind s"
  have "oc_last_completed ?t = co_completed (core_finish ok kind (core_of s))"
    unfolding finish_core [of ok message error result kind s, symmetric] by (rule core_of_fields(10) [symmetric])
  then show ?thesis by (auto simp: core_finish_def)
qed

text \<open>The receive is complete: the transport says so and the offer's size agrees.\<close>

definition whole_payload :: "fabric_session_message \<Rightarrow> transfer_result \<Rightarrow> bool" where
  "whole_payload m r \<longleftrightarrow> tr_ok r \<and> (sm_total_bytes m = 0 \<or> of_nat (tr_bytes_transferred r) = sm_total_bytes m)"

lemma remove_clears:
  assumes "fs_lookup fs path \<noteq> Some Directory" and "\<not> fs_denied fs path"
  shows "fs_lookup (snd (remove_path path fs)) q = (if q = path then None else fs_lookup fs q)"
  using assms by (auto simp: remove_path_def split: option.splits node.splits)

lemma finish_failed_error: "ui_error_message (oc_state (finish_transfer False message error result kind s)) = error"
  by (simp add: finish_transfer_def Let_def set_ui_def booth_event_def clear_outbound_session_def publish_state_def
      set_listener_def ensure_listener_active_def)

lemma cleanup_logged_plain [simp]:
  "oc_last_completed (cleanup_logged path why s) = oc_last_completed s" "oc_accepting (cleanup_logged path why s) = oc_accepting s"
  by (simp_all add: cleanup_logged_def Let_def booth_event_def split: prod.splits)


text \<open>An archive that the tar program unpacks.\<close>

definition unpack_env :: "unit orch_env" where
  "unpack_env = sample_env\<lparr>oe_exec := (\<lambda>args fs. (Exited 0, fs))\<rparr>"

definition unpack_orch :: "unit orch" where
  "unpack_orch = sample_orch\<lparr>oc_identity := sample_identity\<lparr>ip_receive_folder := ''/d''\<rparr>, oc_accepting := Some ''7''\<rparr>"

lemma unpack_result:
  "case extract_tar_to_dir (oe_exec unpack_env) ''/d/a.txt'' (ip_receive_folder (oc_identity unpack_orch)) (oc_fs unpack_orch) of
     (x, fs) \<Rightarrow> (case x of Inl e \<Rightarrow> False | Inr u \<Rightarrow> True) \<and> fs_lookup fs ''/d/a.txt'' \<noteq> Some Directory \<and> \<not> fs_denied fs ''/d/a.txt''"
  by code_simp


end
