(* ===== verification/Orch_Await.thy ===== *)
theory Orch_Await
  imports Orch_Props
begin

text \<open>
  The loop in which the sender waits for Accept and Ready (\<open>await_read\<close>, \<open>await_round\<close>) ends:
  other threads may change the state between its steps in any way, the clock and the two
  deadlines bound the wait.
\<close>

section \<open>The wait for the partner ends\<close>

text \<open>
  The job after some steps of its loop, while the other threads leave the state \<open>S i\<close> before
  step \<open>i\<close>; a call of the transport that does not return keeps the job where it is.
\<close>

fun await_rounds :: "'u orch_env \<Rightarrow> (nat \<Rightarrow> step_input) \<Rightarrow> (nat \<Rightarrow> 'u orch) \<Rightarrow> job \<Rightarrow> nat \<Rightarrow> job" where
  "await_rounds env inp S j 0 = j"
| "await_rounds env inp S j (Suc n) = (case job_step env (inp n) (await_rounds env inp S j n) (S n) of
     None \<Rightarrow> await_rounds env inp S j n | Some (j', started, s) \<Rightarrow> j')"

text \<open>
  What holds of the position before step \<open>i\<close>, when step \<open>k\<close> is not before the first deadline \<open>D\<close>:
  the second deadline is set at the latest in step \<open>k + 2\<close>, and \<open>B\<close> bounds it.
\<close>

definition await_ok :: "int \<Rightarrow> int \<Rightarrow> await \<Rightarrow> bool" where
  "await_ok D B w \<longleftrightarrow> aw_accept_deadline w = D \<and> (aw_accepted_seen w \<longrightarrow> aw_ready_deadline w \<le> B)"

definition await_inv :: "int \<Rightarrow> int \<Rightarrow> nat \<Rightarrow> nat \<Rightarrow> job \<Rightarrow> bool" where
  "await_inv D B k i j \<longleftrightarrow> (case j of
       Job_Await st m p w \<Rightarrow> await_ok D B w \<and> (aw_accepted_seen w \<or> i \<le> k + 1)
     | Job_Round st m p b w \<Rightarrow> await_ok D B w \<and> (aw_accepted_seen w \<or> i \<le> k + 2)
     | Job_Retransmit st m p w t \<Rightarrow> await_ok D B w \<and> (aw_accepted_seen w \<or> i \<le> k + 3) \<and> (t < D \<longrightarrow> i \<le> k)
     | Job_Give_Up ks e \<Rightarrow> length ks \<le> 3 | Job_Done \<Rightarrow> True | _ \<Rightarrow> False)"

text \<open>How many steps are left once both deadlines have passed.\<close>

definition steps_left :: "job \<Rightarrow> nat" where
  "steps_left j = (case j of Job_Await st m p w \<Rightarrow> 7 | Job_Round st m p b w \<Rightarrow> 6 | Job_Retransmit st m p w t \<Rightarrow> 5
     | Job_Give_Up ks e \<Rightarrow> 1 + length ks | _ \<Rightarrow> 0)"

lemma await_ok_shown [simp]:
  "await_ok D B (w\<lparr>aw_last_shown := x\<rparr>) = await_ok D B w" "await_ok D B (w\<lparr>aw_retransmitted := b\<rparr>) = await_ok D B w"
  by (simp_all add: await_ok_def)

lemma give_up_length [simp]: "length give_up_clears = 3"
  by (simp add: give_up_clears_def)

text \<open>The deadlines at the time \<open>t\<close>, from a position that may still be waiting before step \<open>i\<close>.\<close>

lemma deadlines_not_accepted:
  assumes "await_deadlines st m p False t w s = (j, s')" and "await_ok D B w"
  shows "(\<exists>e. j = Job_Give_Up give_up_clears e) \<or> t < D \<and> (\<exists>x. j = Job_Await st m p (w\<lparr>aw_last_shown := x\<rparr>))"
proof (cases "D \<le> t")
  case True
  with assms show ?thesis by (auto simp: await_deadlines_def await_ok_def give_up_def)
next
  case False
  then obtain x where "j = Job_Await st m p (w\<lparr>aw_last_shown := x\<rparr>)"
    using assms by (auto simp: await_deadlines_def await_ok_def Let_def split: if_splits intro: that [of "aw_last_shown w"])
  with False show ?thesis by auto
qed

lemma deadlines_accepted:
  assumes "await_deadlines st m p True t w s = (j, s')" and "await_ok D B w"
    and "aw_accepted_seen w \<or> t + 1000 * uint (ht_ready_timeout_sec (oc_handshake s)) \<le> B"
  shows "(\<exists>e. j = Job_Give_Up give_up_clears e) \<or> t < B \<and> (\<exists>w'. j = Job_Await st m p w' \<and> await_ok D B w' \<and> aw_accepted_seen w')"
proof -
  define w1 where "w1 = (if \<not> aw_accepted_seen w
    then w\<lparr>aw_accepted_seen := True, aw_ready_deadline := t + 1000 * uint (ht_ready_timeout_sec (oc_handshake s))\<rparr> else w)"
  have ok: "await_ok D B w1" "aw_accepted_seen w1" using assms(2,3) by (auto simp: w1_def await_ok_def)
  have "(j, s') = (if aw_ready_deadline w1 \<le> t then give_up st (p @ '' accepted but did not start receiving in time'') s else (Job_Await st m p w1, s))"
    using assms(1) unfolding await_deadlines_def Let_def w1_def [symmetric] by simp
  with ok show ?thesis by (auto simp: give_up_def await_ok_def split: if_splits)
qed

lemma round_cases:
  assumes "await_round st m p b t w s = (j, s')" and "await_ok D B w"
    and "aw_accepted_seen w \<or> t + 1000 * uint (ht_ready_timeout_sec (oc_handshake s)) \<le> B"
  shows "(\<exists>e. j = Job_Give_Up give_up_clears e)
    \<or> (\<exists>w'. j = Job_Retransmit st m p w' t \<and> await_ok D B w' \<and> aw_accepted_seen w' = aw_accepted_seen w)
    \<or> t < D \<and> (\<exists>w'. j = Job_Await st m p w' \<and> await_ok D B w' \<and> aw_accepted_seen w' = aw_accepted_seen w)
    \<or> t < B \<and> (\<exists>w'. j = Job_Await st m p w' \<and> await_ok D B w' \<and> aw_accepted_seen w')"
proof (cases "\<not> b \<and> \<not> aw_retransmitted w \<and> aw_retransmit_at w \<le> t")
  case True
  then have "j = Job_Retransmit st m p (w\<lparr>aw_retransmitted := True\<rparr>) t" using assms(1) by (auto simp: await_round_def)
  with assms(2) show ?thesis by auto
next
  case False
  with assms(1) have d: "await_deadlines st m p b t w s = (j, s')" unfolding await_round_def by (simp only: if_False)
  show ?thesis
  proof (cases b)
    case True
    with d have "await_deadlines st m p True t w s = (j, s')" by simp
    from deadlines_accepted [OF this assms(2,3)] show ?thesis by blast
  next
    case False
    with d have "await_deadlines st m p False t w s = (j, s')" by simp
    from deadlines_not_accepted [OF this assms(2)] assms(2) show ?thesis by auto
  qed
qed

lemma send_returns:
  assumes "\<And>port path t k w. tp_send_file_on_port (oe_tp env) port path t k w \<noteq> None"
  obtains r s1 where "send_session_with_routing env inp m s = Some (r, s1)"
proof -
  have "send_session_message (oe_tp env) (oe_tmp env) (si_rng inp) (oc_port_index s) m 0 (oc_fs s, oc_usb s) \<noteq> None"
  proof -
    obtain path fs where w: "write_session_temp_file (oe_tmp env) (si_rng inp) m (oc_fs s) = (path, fs)" by fastforce
    obtain x where "tp_send_file_on_port (oe_tp env) (oc_port_index s) path kSessionSendTimeoutMs kFrameKindSession
        (fs, oc_usb s) = Some x" using assms by blast
    then show ?thesis by (cases x) (simp add: send_session_message_def w Let_def)
  qed
  then have "send_session_with_routing env inp m s \<noteq> None"
    by (auto simp: send_session_with_routing_def Let_def split: option.splits)
  then show thesis using that by fastforce
qed

text \<open>One step of the job, from the position before step \<open>i\<close>; \<open>T\<close> is the clock.\<close>

lemma await_step:
  assumes tick: "mono T" and first: "D \<le> T k" and second: "T (k + 3) + 1000 * R \<le> (B :: int)" and nonneg: "0 \<le> R"
    and returns: "\<And>port path t k w. tp_send_file_on_port (oe_tp env) port path t k w \<noteq> None"
    and now: "si_now inp = T i" and ready: "uint (ht_ready_timeout_sec (oc_handshake s)) \<le> R" and inv: "await_inv D B k i j"
    and going: "j \<noteq> Job_Done"
  shows "\<exists>j' s'. job_step env inp j s = Some (j', False, s') \<and> await_inv D B k (Suc i) j'
    \<and> (k + 3 \<le> i \<longrightarrow> B \<le> T i \<longrightarrow> steps_left j' < steps_left j)"
proof -
  have early: "i < k" if "T i < D" using that first monoD [OF tick, of k i] by force
  have in_time: "T i + 1000 * uint (ht_ready_timeout_sec (oc_handshake s)) \<le> B" if "i \<le> k + 3"
    using monoD [OF tick that] ready second by linarith
  have late: "D \<le> T i" if "k + 3 \<le> i" using monoD [OF tick, of k i] that first by force
  consider st m p w where "j = Job_Await st m p w" | st m p b w where "j = Job_Round st m p b w"
    | st m p w t where "j = Job_Retransmit st m p w t" | e where "j = Job_Give_Up [] e" | x ks e where "j = Job_Give_Up (x # ks) e"
    using inv going by (cases j) (auto simp: await_inv_def neq_Nil_conv intro: list.exhaust)
  then show ?thesis
  proof cases
    case 1
    with inv show ?thesis by (auto simp: await_inv_def await_read_def steps_left_def)
  next
    case (2 st m p b w)
    obtain j' s' where r: "await_round st m p b (T i) w s = (j', s')" by fastforce
    from inv 2 have ok: "await_ok D B w" "aw_accepted_seen w \<or> i \<le> k + 2" by (auto simp: await_inv_def)
    then have "aw_accepted_seen w \<or> T i + 1000 * uint (ht_ready_timeout_sec (oc_handshake s)) \<le> B" using in_time by auto
    from round_cases [OF r ok(1) this] early late ok(2)
    have "await_inv D B k (Suc i) j' \<and> (k + 3 \<le> i \<longrightarrow> B \<le> T i \<longrightarrow> steps_left j' < steps_left j)"
      by (force simp: await_inv_def steps_left_def 2)
    with r show ?thesis by (simp add: 2 now)
  next
    case (3 st m p w t)
    obtain r s1 where send: "send_session_with_routing env inp m s = Some (r, s1)" by (rule send_returns [OF returns])
    define s2 where "s2 = (case r of Inl _ \<Rightarrow> s1 | Inr _ \<Rightarrow> booth_event (oc_port_index s1) ''offer_retransmit'' (''to='' @ p) s1)"
    obtain j' s3 where d: "await_deadlines st m p False t w (ensure_listener_active (resume_listener s2)) = (j', s3)" by fastforce
    from inv 3 have ok: "await_ok D B w" "t < D \<longrightarrow> i \<le> k" by (auto simp: await_inv_def)
    from deadlines_not_accepted [OF d ok(1)] ok
    have "await_inv D B k (Suc i) j' \<and> (k + 3 \<le> i \<longrightarrow> B \<le> T i \<longrightarrow> steps_left j' < steps_left j)"
      by (auto simp: await_inv_def steps_left_def 3)
    with d show ?thesis by (simp add: 3 send Let_def s2_def [symmetric])
  qed (use inv in \<open>auto simp: await_inv_def steps_left_def\<close>)
qed

lemma await_rounds_done: "await_rounds env inp S j n = Job_Done \<Longrightarrow> n \<le> k \<Longrightarrow> await_rounds env inp S j k = Job_Done"
  by (induction k) (auto simp: le_Suc_eq)

lemma steps_left_none: "await_inv D B k i j \<Longrightarrow> steps_left j = 0 \<Longrightarrow> j = Job_Done"
  by (cases j) (auto simp: await_inv_def steps_left_def)

section \<open>Property\<close>

text \<open>
  C12: The thread that waits for its partner ends, whatever the other threads do to the state in
  between, changes of the timeouts included. Let the accept timeout of the start of the wait be
  over at step \<open>k\<close>, and \<open>R\<close> seconds more at step \<open>n\<close>, where \<open>R\<close> bounds the ready timeouts in force
  during the wait: seven steps later the job is done. The clock does not go back and passes
  every time, and the sends of the transport return.
\<close>

theorem await_terminates:
  assumes "mono (\<lambda>i. si_now (inp i))" and "\<And>t. \<exists>i. t \<le> si_now (inp i)"
    and "\<And>i. uint (ht_ready_timeout_sec (oc_handshake (S i))) \<le> R"
    and "\<And>port path t k w. tp_send_file_on_port (oe_tp env) port path t k w \<noteq> None"
  shows "(\<forall>k n l. si_now (inp 0) + 1000 * uint (ht_accept_timeout_sec hs) \<le> si_now (inp k) \<and> k + 3 \<le> n
        \<and> si_now (inp (k + 3)) + 1000 * R \<le> si_now (inp n) \<and> n + 7 \<le> l
      \<longrightarrow> await_rounds env inp S (Job_Await st m p (new_await (si_now (inp 0)) hs)) l = Job_Done)
    \<and> (\<exists>l. await_rounds env inp S (Job_Await st m p (new_await (si_now (inp 0)) hs)) l = Job_Done)"
proof -
  let ?T = "\<lambda>i. si_now (inp i)" and ?j = "await_rounds env inp S (Job_Await st m p (new_await (si_now (inp 0)) hs))"
  define D where "D = ?T 0 + 1000 * uint (ht_accept_timeout_sec hs)"
  have nonneg: "0 \<le> R" by (rule order_trans [OF uint_ge_0 assms(3)])
  have done_at: "?j l = Job_Done" if k: "D \<le> ?T k" and n: "k + 3 \<le> n" "?T (k + 3) + 1000 * R \<le> ?T n" and l: "n + 7 \<le> l" for k n l
  proof -
    define B where "B = ?T (k + 3) + 1000 * R"
    have step: "?j i = Job_Done \<or> await_inv D B k (Suc i) (?j (Suc i))
        \<and> (k + 3 \<le> i \<longrightarrow> B \<le> ?T i \<longrightarrow> steps_left (?j (Suc i)) < steps_left (?j i))" if "await_inv D B k i (?j i)" for i
    proof (cases "?j i = Job_Done")
      case False
      have "?T (k + 3) + 1000 * R \<le> B" by (simp add: B_def)
      from await_step [OF assms(1) k this nonneg assms(4) refl assms(3) [of i] that False] obtain j' s' where
        "job_step env (inp i) (?j i) (S i) = Some (j', False, s')" "await_inv D B k (Suc i) j'"
        "k + 3 \<le> i \<longrightarrow> B \<le> ?T i \<longrightarrow> steps_left j' < steps_left (?j i)" by blast
      moreover from this(1) have "?j (Suc i) = j'" by simp
      ultimately show ?thesis by simp
    qed simp
    have inv: "await_inv D B k i (?j i)" for i
    proof (induction i)
      case 0
      then show ?case by (simp add: await_inv_def await_ok_def new_await_def D_def)
    next
      case (Suc i)
      from step [OF Suc] show ?case
        by (cases "?j i = Job_Done") (auto simp: await_inv_def simp del: await_rounds.simps dest: await_rounds_done [of _ _ _ _ i "Suc i"])
    qed
    have left: "steps_left (?j (n + d)) \<le> 7 - d" for d
    proof (induction d)
      case 0
      show ?case using inv [of n] by (cases "?j n") (auto simp: steps_left_def await_inv_def)
    next
      case (Suc d)
      have "B \<le> ?T (n + d)" using monoD [OF assms(1), of n "n + d"] n(2) by (simp add: B_def)
      with step [OF inv [of "n + d"]] n(1) consider "?j (n + d) = Job_Done" | "steps_left (?j (Suc (n + d))) < steps_left (?j (n + d))"
        by auto
      then show ?case
      proof cases
        case 1
        with await_rounds_done [OF 1, of "n + Suc d"] show ?thesis by (simp add: steps_left_def del: await_rounds.simps)
      next
        case 2
        with Suc show ?thesis by (simp del: await_rounds.simps)
      qed
    qed
    from left [of 7] steps_left_none [OF inv [of "n + 7"]] have "?j (n + 7) = Job_Done" by simp
    with l await_rounds_done show ?thesis by blast
  qed
  obtain k where k: "D \<le> ?T k" using assms(2) by blast
  obtain n0 where "?T (k + 3) + 1000 * R \<le> ?T n0" using assms(2) by blast
  then have "?T (k + 3) + 1000 * R \<le> ?T (max n0 (k + 3))" using monoD [OF assms(1), of n0 "max n0 (k + 3)"] by simp
  from done_at [OF k _ this order.refl] have "\<exists>l. ?j l = Job_Done" by auto
  with done_at show ?thesis unfolding D_def by blast
qed

text \<open>Nobody answers Ann: her offer times out.\<close>

definition waiting_input :: "nat \<Rightarrow> step_input" where
  "waiting_input i = sample_input\<lparr>si_now := int i\<rparr>"

lemma await_terminates_witness:
  "\<exists>n. await_rounds sample_env waiting_input (\<lambda>_. sample_orch)
     (Job_Await no_staged ready_message ''Bob'' (new_await 0 (oc_handshake sample_orch))) n = Job_Done"
proof -
  have returns: "\<And>port path t k w. tp_send_file_on_port (oe_tp sample_env) port path t k w \<noteq> None"
    by (simp add: sample_env_def sample_plane_def split: prod.split)
  have "mono (\<lambda>i. si_now (waiting_input i))" "\<exists>i. t \<le> si_now (waiting_input i)" for t
    by (auto simp: waiting_input_def mono_def intro: exI [of _ "nat t"])
  from await_terminates [where S = "\<lambda>_. sample_orch" and env = sample_env and inp = waiting_input, OF this order.refl returns]
  show ?thesis by (simp add: waiting_input_def)
qed

section \<open>A slip of the waiting thread\<close>

text \<open>
  When the cable is lost while an offer waits, the staged payload is forgotten and the waiting
  thread ends at its next round. Neither touches a file, so a temporary archive stays.
\<close>

lemma archive_left_behind:
  "oc_staged (lose_fabric True s) = no_staged \<and> oc_fs (lose_fabric True s) = oc_fs s
    \<and> await_read staged offer peer w (lose_fabric True s) = Job_Done"
proof -
  have "oc_staged (lose_fabric True s) = no_staged" "oc_outbound_offer (lose_fabric True s) = None"
    using core_of_fields(6,7) [of "lose_fabric True s"] by (simp_all add: core_finish_def del: core_of_fields)
  moreover have "oc_fs (lose_fabric True s) = oc_fs s" by (simp add: lose_fabric_def publish_state_def)
  ultimately show ?thesis by (simp add: await_read_def)
qed

end
