(* ===== verification/Session_Net.thy ===== *)
theory Session_Net
  imports Orch_Props
begin

text \<open>
  The session protocol between two orchestrators: the messages they build are ones the codec
  carries, and a handshake between them reaches the transfer.
\<close>

section \<open>The messages that are sent\<close>

definition plain_text :: "string \<Rightarrow> bool" where
  "plain_text v \<longleftrightarrow> (\<forall>c \<in> set v. c \<noteq> newline \<and> c \<noteq> carriage_return \<and> c \<noteq> CHR '' '')"

lemma plain_value_ok:
  assumes "plain_text v"
  shows "session_value_ok v"
proof (cases "v = []")
  case False
  then have "hd v \<in> set v" "last v \<in> set v" by simp_all
  with assms have "strip_back (\<lambda>c. c = carriage_return \<or> c = newline \<or> c = CHR '' '') v = v" "hd v \<noteq> CHR '' ''"
    by (auto simp: plain_text_def intro!: strip_back_id)
  moreover have "newline \<notin> set v" using assms by (auto simp: plain_text_def)
  ultimately show ?thesis by (simp add: session_value_ok_def session_trim_def strip_front_id)
qed (simp add: session_value_ok_def session_trim_def)

lemma plain_text_append [simp]: "plain_text (a @ b) \<longleftrightarrow> plain_text a \<and> plain_text b"
  by (auto simp: plain_text_def)

lemma plain_text_Cons [simp]:
  "plain_text []" "plain_text (c # v) \<longleftrightarrow> c \<noteq> newline \<and> c \<noteq> carriage_return \<and> c \<noteq> CHR '' '' \<and> plain_text v"
  by (auto simp: plain_text_def)

lemma plain_subset: "set a \<subseteq> set b \<Longrightarrow> plain_text b \<Longrightarrow> plain_text a"
  by (auto simp: plain_text_def)

lemma plain_hex: "plain_text (map (\<lambda>i. ''0123456789abcdef'' ! (rolls i mod 16)) ks)"
proof (rule plain_subset)
  have "''0123456789abcdef'' ! (k mod 16) \<in> set ''0123456789abcdef''" for k :: nat by (rule nth_mem) simp
  then show "set (map (\<lambda>i. ''0123456789abcdef'' ! (rolls i mod 16)) ks) \<subseteq> set ''0123456789abcdef''"
    unfolding set_map by (intro image_subsetI)
qed simp

lemma plain_show_int: "plain_text (show_int i)"
  using show_int_chars by (auto simp: plain_text_def is_space_def)

lemma plain_status: "plain_text (receive_status_to_string st)"
  by (cases st) (simp_all add: receive_status_to_string_def)

lemma plain_note: "plain_text inst \<Longrightarrow> plain_text (build_announce_note leg st inst)"
  by (simp add: build_announce_note_def Let_def plain_show_int plain_status)

definition clean_identity :: "identity_profile \<Rightarrow> bool" where
  "clean_identity i \<longleftrightarrow> session_value_ok (ip_display_name i) \<and> session_value_ok (ip_team i)"

lemma value_ok_Nil [simp]: "session_value_ok []"
  by (rule plain_value_ok) simp

lemma session_id_value: "session_value_ok (make_session_id rolls) \<and> make_session_id rolls \<noteq> []"
  unfolding make_session_id_def using plain_value_ok [OF plain_hex] by simp

text \<open>
  C29: Every message an orchestrator builds is one the codec carries unchanged: with single-line
  names, team, file name and note, its offers, replies and announcements are all sendable.
\<close>

theorem built_messages_sendable:
  assumes "clean_identity (oc_identity s)"
  shows "(list_all session_value_ok [pe_display_name peer, text_in, stg_display_name staged, stg_payload_type staged]
        \<longrightarrow> sendable (offer_message inp s peer staged text_in))
    \<and> (sendable offer \<and> kind \<noteq> Kind_Unknown \<longrightarrow> sendable (reply_message s offer kind))
    \<and> (plain_text (oc_instance_id s) \<longrightarrow> sendable (announce_message inp leg s))"
  using assms session_id_value plain_value_ok [OF plain_note]
  by (simp add: sendable_def offer_message_def reply_message_def announce_message_def empty_session_message_def
      clean_identity_def)

lemma sample_clean: "clean_identity (oc_identity sample_orch)"
  by (simp add: sample_orch_def sample_identity_def clean_identity_def default_identity_profile_def plain_value_ok)

lemma built_messages_sendable_witness:
  "sendable (announce_message sample_input 0 sample_orch)"
  using built_messages_sendable [OF sample_clean] by (simp add: sample_orch_def)

text \<open>
  The file name is not checked: a name that contains a line break adds lines to the message, and
  one that is no number ends the receiver's listener with an exception.
\<close>

lemma file_name_throws_at_receiver:
  "parse_session_payload (session_payload (sample_offer\<lparr>sm_payload_name := ''a'' @ [newline] @ ''files=x''\<rparr>)) empty_session_message
   = Inl Invalid_argument"
  by code_simp

section \<open>A handshake of two\<close>

lemma message_result:
  "fst (on_session_message env inp m s) = fst (core_message m (core_of s))"
  "sm_kind m \<noteq> Kind_Announce \<Longrightarrow> core_of (snd (on_session_message env inp m s)) = snd (core_message m (core_of s))"
proof -
  obtain r where r: "sm_kind m \<noteq> Kind_Announce \<longrightarrow> r = oc_roster s"
      "fst (on_session_message env inp m s) = fst (core_message m (core_of s))"
      "core_of (snd (on_session_message env inp m s)) = (snd (core_message m (core_of s)))\<lparr>co_roster := r\<rparr>"
    using core_on_session_message [of s m env inp] by blast
  show "fst (on_session_message env inp m s) = fst (core_message m (core_of s))" by (rule r(2))
  assume k: "sm_kind m \<noteq> Kind_Announce"
  let ?c = "snd (core_message m (core_of s))"
  have "co_roster ?c = oc_roster s" by (simp add: core_message_roster)
  moreover have "?c\<lparr>co_roster := co_roster ?c\<rparr> = ?c" by simp
  ultimately show "core_of (snd (on_session_message env inp m s)) = ?c" using r(1,3) k by simp
qed

lemma reply_fields [simp]: "sm_kind (reply_message s m kind) = kind" "sm_session_id (reply_message s m kind) = sm_session_id m"
  by (simp_all add: reply_message_def)

text \<open>
  C11: When a peer that accepts by itself is idle, an offer of ours leads to the transfer: the
  peer starts receiving, its two replies survive the codec, and the second one makes us send
  what was staged for this offer, whether or not the first one arrived.
\<close>

theorem handshake_reaches_transfer:
  fixes s r :: "'u orch" and env :: "'u orch_env" and inp inp' inp'' :: step_input
  assumes "sendable m" and "sm_kind m = Kind_Offer" and "oc_outbound_offer s = Some m"
    and "offer_taken m (core_of r)" and "\<not> asks_first (core_of r)" and "clean_identity (oc_identity r)"
  defines "r1 \<equiv> snd (on_session_message env inp m r)"
  defines "accept \<equiv> reply_message r1 m Kind_Accept" and "ready \<equiv> reply_message r1 m Kind_Ready"
  defines "s1 \<equiv> snd (on_session_message env inp' accept s)"
  shows "fst (on_session_message env inp m r) = After_Accept m
    \<and> parse_session_payload (session_payload accept) old = Inr (True, accept)
    \<and> parse_session_payload (session_payload ready) old = Inr (True, ready)
    \<and> fst (on_session_message env inp' accept s) = After_Nothing
    \<and> fst (on_session_message env inp'' ready s1) = After_Outbound (oc_staged s)
    \<and> fst (on_session_message env inp'' ready s) = After_Outbound (oc_staged s)"
proof -
  have r: "core_message m (core_of r) = (After_Accept m, (core_of r)\<lparr>co_pending := None, co_accepting := Some (sm_session_id m)\<rparr>)"
    using assms(2,4,5) by (simp add: core_message_def)
  then have "core_of r1 = (core_of r)\<lparr>co_pending := None, co_accepting := Some (sm_session_id m)\<rparr>"
    using message_result(2) [of m env inp r] assms(2) by (simp add: r1_def)
  from arg_cong [OF this, of co_identity] assms(6) have "clean_identity (oc_identity r1)" by simp
  then have "sendable (reply_message r1 m kind)" if "kind \<noteq> Kind_Unknown" for kind
    using assms(1) that by (simp add: sendable_def reply_message_def empty_session_message_def clean_identity_def)
  then have codec: "parse_session_payload (session_payload accept) old = Inr (True, accept)"
      "parse_session_payload (session_payload ready) old = Inr (True, ready)"
    unfolding accept_def ready_def by (simp_all add: parse_sent)
  have kinds: "sm_kind accept = Kind_Accept" "sm_kind ready = Kind_Ready"
      and ids: "sm_session_id accept = sm_session_id m" "sm_session_id ready = sm_session_id m"
    by (simp_all add: accept_def ready_def)
  have matches: "core_matches accept (core_of s)" "core_matches ready (core_of s)"
    using assms(3) by (simp_all add: core_matches_def ids)
  then have "core_of s1 = (core_of s)\<lparr>co_awaiting := True, co_waiting := True\<rparr>"
    using message_result(2) [of accept env inp' s] by (simp add: s1_def kinds core_message_def)
  then have "core_matches ready (core_of s1)" "co_staged (core_of s1) = oc_staged s"
    using matches(2) by (simp_all add: core_matches_def)
  with matches r codec show ?thesis
    by (simp add: message_result(1) core_message_def [of accept] core_message_def [of ready] kinds)
qed

definition offering_sender :: "unit orch" where
  "offering_sender = sample_orch\<lparr>oc_outbound_offer := Some sample_offer\<rparr>"

definition idle_receiver :: "unit orch" where
  "idle_receiver = sample_orch\<lparr>oc_identity := sample_identity\<lparr>ip_display_name := ''Al''\<rparr>\<rparr>"

lemma handshake_reaches_transfer_witness:
  "fst (on_session_message sample_env sample_input (reply_message (snd (on_session_message sample_env sample_input sample_offer
     idle_receiver)) sample_offer Kind_Ready) offering_sender) = After_Outbound no_staged"
proof -
  have kind: "sm_kind sample_offer = Kind_Offer" by (simp add: sample_offer_def)
  have "offer_taken sample_offer (core_of idle_receiver)" "\<not> asks_first (core_of idle_receiver)"
      "clean_identity (oc_identity idle_receiver)" "oc_outbound_offer offering_sender = Some sample_offer"
      "oc_staged offering_sender = no_staged"
    by (simp_all add: idle_receiver_def offering_sender_def sample_orch_def sample_offer_def sample_identity_def
        offer_taken_def asks_first_def initial_ui_def clean_identity_def default_identity_profile_def plain_value_ok)
  with handshake_reaches_transfer [OF sendable_sample_offer kind, of offering_sender idle_receiver] show ?thesis by metis
qed

end
