(* ===== verification/Fleet.thy ===== *)
theory Fleet
  imports Session_Net
begin

text \<open>
  Any number of orchestrators, each with all its threads (\<open>system_step\<close>), on a cable that loses,
  repeats and reorders messages: a payload is only started for an offer that a peer had accepted.
\<close>

section \<open>The fleet\<close>

text \<open>
  The wire holds every message that was ever sent, whether or not the send succeeded. What a
  listener hears is what its parser makes of the text that was written for one of them, in any
  order, any number of times or never. Other devices on the cable may send offers and
  announcements. Two histories are kept: the offers each party took on, and the payloads each
  party started to send, with the session of the message it answered and the offer that was
  outstanding when the payload was copied.
\<close>

record 'u fleet =
  fl_party :: "nat \<Rightarrow> 'u system"
  fl_wire :: "fabric_session_message set"
  fl_accepted :: "(nat \<times> fabric_session_message) set"
  fl_sent :: "(nat \<times> string \<times> staged_payload \<times> fabric_session_message option) set"

definition taken_on :: "job set \<Rightarrow> fabric_session_message set" where
  "taken_on J = (\<Union>j \<in> J. case j of Job_Accept m \<Rightarrow> {m} | _ \<Rightarrow> {})"

text \<open>What starts with this step of the listener, if it is the copy of what is staged.\<close>

definition payload_started :: "event \<Rightarrow> 'u system \<Rightarrow> 'u system \<Rightarrow> (string \<times> staged_payload \<times> fabric_session_message option) set" where
  "payload_started ev sys sys' = (if ev \<noteq> Ev_Listen then {} else (case sy_listen sys of
       Ls_Handle h path \<Rightarrow> (case h of Handle_Ready m \<Rightarrow> (case sy_listen sys' of
           Ls_Join j path' \<Rightarrow> (case j of Job_Outbound staged \<Rightarrow> {(sm_session_id m, staged, oc_outbound_offer (sy_orch sys))} | _ \<Rightarrow> {})
         | _ \<Rightarrow> {}) | _ \<Rightarrow> {})
     | _ \<Rightarrow> {}))"

definition read_back :: "fabric_session_message set \<Rightarrow> fabric_session_message \<Rightarrow> bool" where
  "read_back wire m \<longleftrightarrow> (\<exists>x \<in> wire. parse_session_payload (session_payload x) empty_session_message = Inr (True, m))"

definition fleet_move :: "(nat \<Rightarrow> 'u orch_env) \<Rightarrow> nat \<Rightarrow> step_input \<Rightarrow> event \<Rightarrow> 'u fleet \<Rightarrow> 'u fleet option" where
  "fleet_move env i inp ev F = (let sys = fl_party F i in
     case system_step (env i) inp ev sys of
       None \<Rightarrow> None
     | Some sys' \<Rightarrow> if \<not> (\<forall>m \<in> step_hears (env i) inp ev sys. read_back (fl_wire F) m) then None
         else Some (F\<lparr>fl_party := (fl_party F)(i := sys'), fl_wire := fl_wire F \<union> step_sends ev sys,
           fl_accepted := fl_accepted F \<union> Pair i ` (if sy_terminated sys' then {} else taken_on (jobs_of sys')),
           fl_sent := fl_sent F \<union> Pair i ` payload_started ev sys sys'\<rparr>))"

inductive fleet_step :: "(nat \<Rightarrow> 'u orch_env) \<Rightarrow> 'u fleet \<Rightarrow> 'u fleet \<Rightarrow> bool" for env where
  party_moves: "fleet_move env i inp ev F = Some F' \<Longrightarrow> fleet_step env F F'"
| foreign_sends: "sm_kind m \<in> {Kind_Offer, Kind_Announce} \<Longrightarrow> fleet_step env F (F\<lparr>fl_wire := insert m (fl_wire F)\<rparr>)"

definition fleet_start :: "(nat \<Rightarrow> 'u orch) \<Rightarrow> 'u fleet" where
  "fleet_start starts = \<lparr>fl_party = (\<lambda>i. initial_system (starts i)), fl_wire = {}, fl_accepted = {}, fl_sent = {}\<rparr>"

fun fleet_run :: "(nat \<Rightarrow> 'u orch_env) \<Rightarrow> (nat \<times> step_input \<times> event) list \<Rightarrow> 'u fleet \<Rightarrow> 'u fleet option" where
  "fleet_run env [] F = Some F"
| "fleet_run env ((i, inp, ev) # evs) F = (case fleet_move env i inp ev F of
     None \<Rightarrow> None | Some F1 \<Rightarrow> fleet_run env evs F1)"

lemma fleet_run_steps: "fleet_run env evs F = Some F' \<Longrightarrow> (fleet_step env)\<^sup>*\<^sup>* F F'"
  by (induction env evs F rule: fleet_run.induct)
    (auto split: option.splits intro: converse_rtranclp_into_rtranclp party_moves)

text \<open>What holds in every state an orchestrator can reach holds for each party of a fleet.\<close>

lemma fleet_party_reach:
  assumes "(fleet_step env)\<^sup>*\<^sup>* (fleet_start starts) F"
  shows "system_reach (env i) (initial_system (starts i)) (fl_party F i)"
  using assms
proof (induction rule: rtranclp_induct)
  case base
  show ?case by (simp add: fleet_start_def reach_start)
next
  case (step F F')
  from step(2,3) show ?case
    by cases (auto simp: fleet_move_def Let_def split: option.splits if_splits intro: reach_step)
qed

text \<open>When every message on the wire is one that the codec reads back, a listener hears what was sent.\<close>

lemma read_back_sendable: "read_back wire m \<Longrightarrow> \<forall>x \<in> wire. sendable x \<Longrightarrow> m \<in> wire"
  by (auto simp: read_back_def parse_sent)

section \<open>What one party knows\<close>

definition accept_message :: "job \<Rightarrow> fabric_session_message option" where
  "accept_message j = (case j of Job_Accept m \<Rightarrow> Some m | Job_Accepting m \<Rightarrow> Some m | Job_Skip m \<Rightarrow> Some m | Job_Inbound m \<Rightarrow> Some m
     | Job_Readying m path \<Rightarrow> Some m | Job_Receive m path \<Rightarrow> Some m | _ \<Rightarrow> None)"

definition offers_on :: "fabric_session_message set \<Rightarrow> fabric_session_message set" where
  "offers_on wire = {m \<in> wire. sm_kind m = Kind_Offer}"

definition handling_ok :: "fabric_session_message set \<Rightarrow> handling \<Rightarrow> bool" where
  "handling_ok wire h \<longleftrightarrow> (case h of Handle_Message m \<Rightarrow> m \<in> wire | Handle_Dispatch m \<Rightarrow> m \<in> wire | Handle_Clear m \<Rightarrow> m \<in> offers_on wire
     | Handle_Busy m \<Rightarrow> m \<in> offers_on wire | Handle_Take m \<Rightarrow> m \<in> offers_on wire
     | Handle_Ready m \<Rightarrow> m \<in> wire \<and> sm_kind m = Kind_Ready | _ \<Rightarrow> True)"

text \<open>
  Offers that wait or are outstanding are on the wire, handlers work on messages of the wire, and
  jobs work on offers taken on, or they take one on.
\<close>

definition job_known :: "fabric_session_message set \<Rightarrow> fabric_session_message set \<Rightarrow> job \<Rightarrow> bool" where
  "job_known wire acc j \<longleftrightarrow> set_option (offer_out j) \<subseteq> wire \<and> (\<forall>h. j = Job_Handler h \<longrightarrow> handling_ok wire h)
     \<and> (set_option (accept_message j) \<subseteq> acc \<or> (\<exists>m \<in> offers_on wire. j = Job_Accept m))"

definition core_known :: "fabric_session_message set \<Rightarrow> session_core \<Rightarrow> bool" where
  "core_known wire c \<longleftrightarrow> set_option (co_pending c) \<subseteq> offers_on wire \<and> set_option (co_outbound c) \<subseteq> wire"

definition exchange_ok :: "fabric_session_message set \<Rightarrow> fabric_session_message set \<Rightarrow> session_core \<Rightarrow> job set \<Rightarrow> bool" where
  "exchange_ok wire acc c J \<longleftrightarrow> core_known wire c \<and> acc \<subseteq> offers_on wire \<and> (\<forall>j \<in> J. job_known wire acc j) \<and> taken_on J \<subseteq> acc"

lemma handling_wider: "handling_ok wire h \<Longrightarrow> wire \<subseteq> wire' \<Longrightarrow> handling_ok wire' h"
  by (cases h) (auto simp: handling_ok_def offers_on_def)

lemma exchange_wider: "exchange_ok wire acc c J \<Longrightarrow> wire \<subseteq> wire' \<Longrightarrow> exchange_ok wire' acc c J"
proof -
  assume e: "exchange_ok wire acc c J" and w: "wire \<subseteq> wire'"
  then have o: "offers_on wire \<subseteq> offers_on wire'" by (auto simp: offers_on_def)
  have "job_known wire' acc j" if "job_known wire acc j" for j
    using that w o handling_wider [OF _ w] unfolding job_known_def by (metis subset_trans subsetD)
  with e w o show ?thesis unfolding exchange_ok_def core_known_def by (meson subset_trans)
qed

lemma taken_on_iff: "m \<in> taken_on J \<longleftrightarrow> Job_Accept m \<in> J"
proof -
  have "m \<in> (case j of Job_Accept m \<Rightarrow> {m} | _ \<Rightarrow> {}) \<longleftrightarrow> j = Job_Accept m" for j by (cases j) auto
  then show ?thesis by (auto simp: taken_on_def)
qed

lemmas known_defs = job_known_def core_known_def handling_ok_def accept_message_def offer_out_def

lemma finish_fields [simp]: "co_pending (core_finish ok kind c) = co_pending c" "co_outbound (core_finish ok kind c) = None"
  by (simp_all add: core_finish_def)

lemma known_finish [simp]: "core_known wire (core_finish ok kind c) \<longleftrightarrow> set_option (co_pending c) \<subseteq> offers_on wire"
  by (simp add: core_known_def core_finish_def)

lemma known_updates [simp]:
  "core_known wire (c\<lparr>co_busy := b\<rparr>) = core_known wire c" "core_known wire (c\<lparr>co_waiting := b\<rparr>) = core_known wire c"
  "core_known wire (c\<lparr>co_accepting := a\<rparr>) = core_known wire c" "core_known wire (c\<lparr>co_awaiting := b\<rparr>) = core_known wire c"
  "core_known wire (c\<lparr>co_listening := b\<rparr>) = core_known wire c" "core_known wire (c\<lparr>co_roster := r\<rparr>) = core_known wire c"
  "core_known wire (c\<lparr>co_identity := i\<rparr>) = core_known wire c" "core_known wire (c\<lparr>co_staged := st\<rparr>) = core_known wire c"
  by (simp_all add: core_known_def)

lemma known_clear: "core_known wire c \<Longrightarrow> core_known wire (core_clear k c)"
  by (cases k) (auto simp: core_known_def)

lemma job_known_simps [simp]:
  "job_known wire acc (Job_Offer st m p)" "job_known wire acc (Job_Offering st m p)"
  "job_known wire acc (Job_Offered st m p) \<longleftrightarrow> m \<in> wire" "job_known wire acc (Job_Await st m p w) \<longleftrightarrow> m \<in> wire"
  "job_known wire acc (Job_Round st m p b w) \<longleftrightarrow> m \<in> wire" "job_known wire acc (Job_Retransmit st m p w t) \<longleftrightarrow> m \<in> wire"
  "job_known wire acc (Job_Give_Up ks e)" "job_known wire acc (Job_Outbound st)" "job_known wire acc (Job_Sending st)"
  "job_known wire acc (Job_Accept m) \<longleftrightarrow> m \<in> acc \<or> m \<in> offers_on wire" "job_known wire acc (Job_Accepting m) \<longleftrightarrow> m \<in> acc"
  "job_known wire acc (Job_Skip m) \<longleftrightarrow> m \<in> acc" "job_known wire acc (Job_Refused m)"
  "job_known wire acc (Job_Inbound m) \<longleftrightarrow> m \<in> acc" "job_known wire acc (Job_Readying m path) \<longleftrightarrow> m \<in> acc"
  "job_known wire acc (Job_Receive m path) \<longleftrightarrow> m \<in> acc" "job_known wire acc (Job_Ending m)" "job_known wire acc (Job_Decline m)"
  "job_known wire acc (Job_Declining m)" "job_known wire acc (Job_Loopback path)" "job_known wire acc (Job_Looping path)"
  "job_known wire acc Job_Done" "job_known wire acc (Job_Handler h) \<longleftrightarrow> handling_ok wire h"
  by (auto simp: known_defs)

lemma handling_ok_simps [simp]:
  "handling_ok wire (Handle_Message m) \<longleftrightarrow> m \<in> wire" "handling_ok wire (Handle_Dispatch m) \<longleftrightarrow> m \<in> wire"
  "handling_ok wire (Handle_Clear m) \<longleftrightarrow> m \<in> offers_on wire" "handling_ok wire (Handle_Busy m) \<longleftrightarrow> m \<in> offers_on wire"
  "handling_ok wire (Handle_Take m) \<longleftrightarrow> m \<in> offers_on wire" "handling_ok wire Handle_Accept"
  "handling_ok wire (Handle_Ready m) \<longleftrightarrow> m \<in> wire \<and> sm_kind m = Kind_Ready" "handling_ok wire (Handle_Declined m st)"
  "handling_ok wire Handle_Announced"
  by (simp_all add: handling_ok_def)

lemma job_exchange:
  assumes "core_job j c j' c'" and "job_known wire acc j" and "core_known wire c" and "job_offers j \<subseteq> wire"
    and "set_option (accept_message j) \<subseteq> acc"
  shows "job_known wire acc j' \<and> core_known wire c'"
  using assms(1)
proof cases
  case (Give_up_clear k ks e)
  with assms(3) show ?thesis by (simp add: known_clear)
next
  case (Hear_offer m)
  with assms(2) show ?thesis using assms(3) by (simp add: offers_on_def)
qed (use assms in \<open>auto simp: job_offers_def core_known_def accept_message_def\<close>)

text \<open>What every job of the next state knows, when the offers it takes on are added.\<close>

lemma exchange_step:
  assumes "core_sys sc c J c' J'" and "sc_heard sc \<subseteq> wire" and "sc_sent sc \<subseteq> wire" and ok: "exchange_ok wire acc c J"
  shows "exchange_ok wire (acc \<union> taken_on J') c' J'"
proof -
  have c: "core_known wire c" and acc: "acc \<subseteq> offers_on wire" and jobs: "\<And>j. j \<in> J \<Longrightarrow> job_known wire acc j" and taken: "taken_on J \<subseteq> acc"
    using ok by (auto simp: exchange_ok_def)
  have quiet: "job_known wire acc Job_Done" by (simp add: known_defs)
  have "core_known wire c' \<and> (\<forall>j \<in> J'. job_known wire acc j)" using assms(1)
  proof cases
    case Sys_quiet
    then show ?thesis using c jobs by blast
  next
    case (Sys_call opn ui)
    have "core_known wire c'" using Sys_call(2) c by cases (auto simp: core_known_def)
    moreover have "job_known wire acc j" if "j \<in> ui_jobs ui" for j
      using Sys_call(2) that c by cases (auto simp: ui_jobs_def known_defs)
    ultimately show ?thesis using jobs Sys_call(1) by blast
  next
    case (Sys_message m)
    have "job_known wire acc (Job_Handler (Handle_Message m))" using Sys_message(3) assms(2) by (auto simp: known_defs)
    then show ?thesis using c jobs Sys_message(1,2) by blast
  next
    case (Sys_job j j')
    have "set_option (accept_message j) \<subseteq> acc"
      using jobs [OF Sys_job(1)] taken Sys_job(1) by (auto simp: job_known_def accept_message_def taken_on_iff)
    from job_exchange [OF Sys_job(2) jobs [OF Sys_job(1)] c _ this] Sys_job(5) assms(3)
    have "job_known wire acc j' \<and> core_known wire c'" by blast
    then show ?thesis using jobs Sys_job(4) by blast
  next
    case (Sys_clear k)
    then show ?thesis using c jobs known_clear by blast
  qed (use c jobs in \<open>auto simp: core_known_def core_finish_def core_reset_def\<close>)
  then have c': "core_known wire c'" and jobs': "\<And>j. j \<in> J' \<Longrightarrow> job_known wire acc j" by blast+
  have new: "m \<in> acc \<or> m \<in> offers_on wire" if "m \<in> taken_on J'" for m
    using jobs' [of "Job_Accept m"] that by (auto simp: taken_on_iff job_known_def accept_message_def)
  have "job_known wire (acc \<union> taken_on J') j" if "j \<in> J'" for j using jobs' [OF that] by (auto simp: job_known_def)
  with c' new acc show ?thesis unfolding exchange_ok_def by blast
qed

section \<open>What the fleet knows\<close>

definition party_ok :: "fabric_session_message set \<Rightarrow> fabric_session_message set \<Rightarrow> 'u system \<Rightarrow> bool" where
  "party_ok wire acc sys \<longleftrightarrow> sy_terminated sys \<or> listener_quiet sys \<and> protocol_inv wire sys
     \<and> exchange_ok wire acc (core_of (sy_orch sys)) (jobs_of sys)"

definition session_accepted :: "'u fleet \<Rightarrow> string \<Rightarrow> bool" where
  "session_accepted F x \<longleftrightarrow> (\<exists>j m. (j, m) \<in> fl_accepted F \<and> m \<in> offers_on (fl_wire F) \<and> sm_session_id m = x)"

text \<open>What is sent was announced by an offer, the one outstanding when there is one, or it is empty.\<close>

definition payload_announced :: "fabric_session_message set \<Rightarrow> staged_payload \<Rightarrow> fabric_session_message option \<Rightarrow> bool" where
  "payload_announced wire staged out \<longleftrightarrow> from_offer (offers_on wire) staged
     \<and> (\<forall>offer. out = Some offer \<longrightarrow> offer \<in> wire \<and> (staged = no_staged \<or> describes offer staged))"

definition fleet_ok :: "'u fleet \<Rightarrow> bool" where
  "fleet_ok F \<longleftrightarrow> (\<forall>i. party_ok (fl_wire F) {m. (i, m) \<in> fl_accepted F} (fl_party F i))
     \<and> (\<forall>r \<in> fl_wire F. sm_kind r = Kind_Ready \<longrightarrow> session_accepted F (sm_session_id r))
     \<and> (\<forall>i x staged out. (i, x, staged, out) \<in> fl_sent F \<longrightarrow> session_accepted F x \<and> payload_announced (fl_wire F) staged out)"

lemma ready_sent:
  assumes "r \<in> step_sends ev sys" and "sm_kind r = Kind_Ready" and "protocol_inv sent sys"
  shows "\<exists>m path. Job_Readying m path \<in> jobs_of sys \<and> sm_session_id m = sm_session_id r"
proof -
  obtain j where j: "j \<in> jobs_of sys" "r \<in> job_sends (sy_orch sys) j"
    using assms(1) by (auto simp: step_sends_def jobs_of_def split: event.splits option.splits if_splits)
      (meson nth_mem)
  have "r \<notin> job_offers j"
  proof
    assume "r \<in> job_offers j"
    then obtain st where "staged_offer j = Some (st, r)" by (cases j) (auto simp: job_offers_def staged_offer_def)
    with assms(3) j(1) have "describes r st" unfolding protocol_inv_def offers_described_def job_described_def by blast
    with assms(2) show False by (simp add: describes_def)
  qed
  moreover have "job_sends s k \<subseteq> job_offers k \<or> (\<exists>m kind. job_sends s k = {reply_message s m kind}
      \<and> (kind = Kind_Ready \<longrightarrow> (\<exists>path. k = Job_Readying m path)))" for k and s :: "'a orch"
    by (cases k) (auto simp: job_sends_def)
  ultimately obtain m kind where m: "r = reply_message (sy_orch sys) m kind" "kind = Kind_Ready \<longrightarrow> (\<exists>path. j = Job_Readying m path)"
    using j(2) by (metis singletonD subsetD)
  with assms(2) j(1) show ?thesis by auto
qed

lemma accepted_wider:
  assumes "fl_accepted F \<subseteq> fl_accepted F'" and "fl_wire F \<subseteq> fl_wire F'"
  shows "session_accepted F x \<Longrightarrow> session_accepted F' x"
    "payload_announced (fl_wire F) staged out \<Longrightarrow> payload_announced (fl_wire F') staged out"
  using assms unfolding session_accepted_def payload_announced_def from_offer_def offers_on_def by blast+

lemma party_wider: "party_ok wire acc sys \<Longrightarrow> wire \<subseteq> wire' \<Longrightarrow> party_ok wire' acc sys"
  unfolding party_ok_def using exchange_wider inv_mono by blast

lemma party_step:
  assumes "system_step env inp ev sys = Some sys'" and "party_ok wire acc sys" and "step_hears env inp ev sys \<subseteq> wire"
    and "\<not> sy_terminated sys'"
  shows "party_ok (wire \<union> step_sends ev sys) (acc \<union> taken_on (jobs_of sys')) sys'"
proof -
  let ?W = "wire \<union> step_sends ev sys" and ?sc = "any_scope\<lparr>sc_heard := wire, sc_sent := step_sends ev sys\<rparr>"
  have live: "\<not> sy_terminated sys" using assms(1) by (auto simp: system_step_def split: if_splits)
  then have q: "listener_quiet sys" and inv: "protocol_inv ?W sys" and ex: "exchange_ok ?W acc (core_of (sy_orch sys)) (jobs_of sys)"
    using assms(2) exchange_wider [of wire acc _ _ ?W] inv_mono [of wire sys ?W] by (auto simp: party_ok_def)
  have "core_sys ?sc (core_of (sy_orch sys)) (jobs_of sys) (core_of (sy_orch sys')) (jobs_of sys')"
    by (rule core_system_step [OF assms(1) q assms(4)]) (use assms(3) in \<open>simp_all add: any_scope_def\<close>)
  from exchange_step [OF this _ _ ex] inv_step [OF assms(1) q assms(4) inv] show ?thesis by (simp add: party_ok_def)
qed

text \<open>The copy of what is staged, seen from the state before it.\<close>

lemma started_step:
  assumes "system_step env inp ev sys = Some sys'" and "(x, staged, out) \<in> payload_started ev sys sys'"
  obtains m where "Job_Handler (Handle_Ready m) \<in> jobs_of sys" "x = sm_session_id m" "staged = co_staged (core_of (sy_orch sys))"
    "out = co_outbound (core_of (sy_orch sys))"
proof -
  obtain m path path' where ls: "ev = Ev_Listen" "sy_listen sys = Ls_Handle (Handle_Ready m) path" "sy_listen sys' = Ls_Join (Job_Outbound staged) path'"
      and x: "x = sm_session_id m" "out = oc_outbound_offer (sy_orch sys)"
    using assms(2) by (auto simp: payload_started_def split: if_splits listen_thread.splits handling.splits job.splits)
  have "staged = oc_staged (sy_orch sys)"
    using assms(1) ls core_start_outbound(2) [of inp "sy_orch sys"]
    by (auto simp: system_step_def listen_step_def Let_def case_prod_beta after_job_def split: if_splits)
  moreover have "Job_Handler (Handle_Ready m) \<in> jobs_of sys" by (simp add: jobs_of_def listen_jobs_def ls)
  ultimately show thesis using x that by simp
qed

lemma move_ok:
  assumes "fleet_move env i inp ev F = Some F'" and "fleet_ok F" and "\<forall>m \<in> fl_wire F. sendable m"
  shows "fleet_ok F'"
proof -
  let ?sys = "fl_party F i" and ?acc = "\<lambda>F i. {m. (i, m) \<in> fl_accepted F}"
  obtain sys' where st: "system_step (env i) inp ev ?sys = Some sys'" and hear: "\<forall>m \<in> step_hears (env i) inp ev ?sys. read_back (fl_wire F) m"
    and F': "F' = F\<lparr>fl_party := (fl_party F)(i := sys'), fl_wire := fl_wire F \<union> step_sends ev ?sys,
           fl_accepted := fl_accepted F \<union> Pair i ` (if sy_terminated sys' then {} else taken_on (jobs_of sys')),
           fl_sent := fl_sent F \<union> Pair i ` payload_started ev ?sys sys'\<rparr>"
    using assms(1) by (auto simp: fleet_move_def Let_def split: option.splits if_splits)
  have heard_wire: "step_hears (env i) inp ev ?sys \<subseteq> fl_wire F" using hear read_back_sendable assms(3) by blast
  have parties: "party_ok (fl_wire F) (?acc F k) (fl_party F k)" for k using assms(2) by (simp add: fleet_ok_def)
  have live: "\<not> sy_terminated ?sys" using st by (auto simp: system_step_def split: if_splits)
  with parties [of i] have inv: "protocol_inv (fl_wire F) ?sys" and ex: "exchange_ok (fl_wire F) (?acc F i) (core_of (sy_orch ?sys)) (jobs_of ?sys)"
    by (auto simp: party_ok_def)
  have known: "job_known (fl_wire F) (?acc F i) j" if "j \<in> jobs_of ?sys" for j using ex that unfolding exchange_ok_def by blast
  have grows: "fl_accepted F \<subseteq> fl_accepted F'" "fl_wire F \<subseteq> fl_wire F'" by (auto simp: F')
  note wider = accepted_wider [OF grows]
  have "party_ok (fl_wire F') (?acc F' k) (fl_party F' k)" for k
  proof (cases "k = i \<and> \<not> sy_terminated sys'")
    case True
    have "?acc F' i = ?acc F i \<union> taken_on (jobs_of sys')" using True by (auto simp: F')
    with party_step [OF st parties heard_wire] True show ?thesis by (simp add: F')
  next
    case False
    then have "?acc F' k = ?acc F k" by (auto simp: F')
    with False party_wider [OF parties grows(2)] show ?thesis by (auto simp: F' party_ok_def)
  qed
  moreover have "session_accepted F' (sm_session_id r)" if r: "r \<in> fl_wire F'" "sm_kind r = Kind_Ready" for r
  proof (cases "r \<in> fl_wire F")
    case True
    with assms(2) r(2) wider(1) show ?thesis by (simp add: fleet_ok_def)
  next
    case False
    with r(1) have "r \<in> step_sends ev ?sys" by (simp add: F')
    from ready_sent [OF this r(2) inv] obtain m path where "Job_Readying m path \<in> jobs_of ?sys" "sm_session_id m = sm_session_id r"
      by blast
    moreover from known [OF this(1)] have "m \<in> ?acc F i" by (simp add: job_known_def accept_message_def)
    moreover have "?acc F i \<subseteq> offers_on (fl_wire F)" using ex unfolding exchange_ok_def by blast
    ultimately have "session_accepted F (sm_session_id r)" by (auto simp: session_accepted_def)
    then show ?thesis by (rule wider(1))
  qed
  moreover have "session_accepted F' x \<and> payload_announced (fl_wire F') staged out" if sent: "(k, x, staged, out) \<in> fl_sent F'" for k x staged out
  proof (cases "(k, x, staged, out) \<in> fl_sent F")
    case True
    with assms(2) wider show ?thesis by (auto simp: fleet_ok_def)
  next
    case False
    with sent have "(x, staged, out) \<in> payload_started ev ?sys sys'" by (auto simp: F')
    from started_step [OF st this] obtain m where m: "Job_Handler (Handle_Ready m) \<in> jobs_of ?sys" "x = sm_session_id m"
      and copied: "staged = co_staged (core_of (sy_orch ?sys))" "out = co_outbound (core_of (sy_orch ?sys))" by metis
    from known [OF m(1)] assms(2) m(2) have "session_accepted F x" by (auto simp: job_known_def handling_ok_def fleet_ok_def)
    moreover have "core_described (fl_wire F) (core_of (sy_orch ?sys))" using inv by (simp add: protocol_inv_def offers_described_def)
    then have "payload_announced (fl_wire F) staged out"
      using ex unfolding payload_announced_def copied core_described_def from_offer_def exchange_ok_def core_known_def
      by (auto simp: offers_on_def describes_def)
    ultimately show ?thesis using wider by blast
  qed
  ultimately show ?thesis by (auto simp: fleet_ok_def)
qed

lemma start_ok:
  assumes "\<And>i. idle_core (core_of (starts i))"
  shows "fleet_ok (fleet_start starts)"
proof -
  have "exchange_ok {} {} (core_of (starts i)) {}" for i
    using assms [of i] by (simp add: exchange_ok_def core_known_def idle_core_def taken_on_def)
  then show ?thesis using initial_inv [OF assms]
    by (simp add: fleet_ok_def fleet_start_def party_ok_def)
qed

lemma fleet_reach_ok:
  assumes "(fleet_step env)\<^sup>*\<^sup>* (fleet_start starts) F" and "\<And>i. idle_core (core_of (starts i))"
    and "\<forall>m \<in> fl_wire F. sendable m"
  shows "fleet_ok F"
  using assms(1,3)
proof (induction rule: rtranclp_induct)
  case base
  show ?case by (rule start_ok [OF assms(2)])
next
  case (step F F')
  from step(2) show ?case
  proof cases
    case (party_moves i inp ev)
    then have "fl_wire F \<subseteq> fl_wire F'" by (auto simp: fleet_move_def Let_def split: option.splits if_splits)
    with step(4) have "\<forall>m \<in> fl_wire F. sendable m" by blast
    with step(3) show ?thesis by (intro move_ok [OF party_moves]) auto
  next
    case (foreign_sends m)
    then have grows: "fl_accepted F \<subseteq> fl_accepted F'" "fl_wire F \<subseteq> fl_wire F'" by auto
    with step(3,4) have ok: "fleet_ok F" by blast
    have "party_ok (fl_wire F') {x. (i, x) \<in> fl_accepted F'} (fl_party F' i)" for i
    proof -
      have "party_ok (fl_wire F) {x. (i, x) \<in> fl_accepted F} (fl_party F i)" using ok by (simp add: fleet_ok_def)
      from party_wider [OF this grows(2)] show ?thesis by (simp add: foreign_sends(1))
    qed
    moreover have "session_accepted F' (sm_session_id r)" if "r \<in> fl_wire F'" "sm_kind r = Kind_Ready" for r
      using that ok accepted_wider(1) [OF grows] foreign_sends by (auto simp: fleet_ok_def)
    moreover have "session_accepted F' x \<and> payload_announced (fl_wire F') staged out" if "(i, x, staged, out) \<in> fl_sent F'" for i x staged out
    proof -
      have "(i, x, staged, out) \<in> fl_sent F" using that by (simp add: foreign_sends(1))
      with ok accepted_wider [OF grows] show ?thesis unfolding fleet_ok_def by blast
    qed
    ultimately show ?thesis unfolding fleet_ok_def by blast
  qed
qed


section \<open>A run of two\<close>

text \<open>
  Ann (0) offers her file to Bob (1), who takes it on and gets ready. The cable at each of them
  hands over one message.
\<close>

definition sent_offer :: fabric_session_message where
  "sent_offer = \<lparr>sm_kind = Kind_Offer, sm_from_name = ''Ann'', sm_team = ip_team sample_identity,
     sm_session_id = ''aaaaaaaaaaaaaaaa'', sm_to_name = ''Bob'', sm_note = [], sm_payload_type = ''file'',
     sm_payload_name = ''a.txt'', sm_file_count = 1, sm_total_bytes = 3\<rparr>"

definition sent_ready :: fabric_session_message where
  "sent_ready = empty_session_message\<lparr>sm_kind := Kind_Ready, sm_session_id := ''aaaaaaaaaaaaaaaa'',
     sm_from_name := ''Bob'', sm_team := ip_team sample_identity, sm_to_name := ''Ann''\<rparr>"

definition talking_plane :: "fabric_session_message \<Rightarrow> unit transport" where
  "talking_plane m = sample_plane\<lparr>tp_receive_file_on_port := (\<lambda>port path t k (fs, u).
     Some (empty_transfer_result\<lparr>tr_ok := True\<rparr>, snd (append_file path (session_payload m) fs), u))\<rparr>"

definition two_envs :: "nat \<Rightarrow> unit orch_env" where
  "two_envs i = sample_env\<lparr>oe_tp := talking_plane (if i = 0 then sent_ready else sent_offer)\<rparr>"

definition two_starts :: "nat \<Rightarrow> unit orch" where
  "two_starts i = (if i = 0 then sample_orch
     else sample_orch\<lparr>oc_identity := sample_identity\<lparr>ip_display_name := ''Bob'', ip_receive_folder := ''/d''\<rparr>\<rparr>)"

definition two_run :: "(nat \<times> step_input \<times> event) list" where
  "two_run = map (Pair 0) offering_run
     @ map (\<lambda>ev. (1, sample_input, ev)) ([Ev_Ui (Op_Start False True), Ev_Startup] @ replicate 10 Ev_Listen @ replicate 4 Ev_Payload)
     @ map (\<lambda>ev. (0, sample_input, ev)) (replicate 5 Ev_Listen)"

lemma two_run_result:
  "case fleet_run two_envs two_run (fleet_start two_starts) of None \<Rightarrow> False
     | Some F \<Rightarrow> (\<forall>m \<in> fl_wire F. (sm_kind m = Kind_Offer \<longrightarrow> m = sent_offer) \<and> sendable m)
         \<and> (\<exists>(i, session, staged, out) \<in> fl_sent F. i = 0 \<and> session = ''aaaaaaaaaaaaaaaa'' \<and> stg_path staged = ''/d/a.txt'' \<and> out = Some sent_offer)"
  by code_simp


end
