(* ===== verification/Progress_View.thy ===== *)
theory Progress_View
  imports Orch_State
begin

text \<open>
  The status panel of the desktop application,
  \<open>src/apps/wx/transfer_progress_panel.cpp\<close>: the phase derived from the orchestrator's
  state, the texts and sizes shown for it, and the progress bar. Labels are byte strings; fonts,
  sizers and the conversion to the toolkit's strings are left out.
\<close>

section \<open>Texts\<close>

definition middle_dot :: string where
  "middle_dot = [CHR '' '', CHR 0xC2, CHR 0xB7, CHR '' '']"

definition scaled_text :: "double \<Rightarrow> string \<Rightarrow> string" where
  "scaled_text x suffix = show_fixed (if 100 \<le> x then 0 else if 10 \<le> x then 1 else 2) x @ suffix"

definition format_mib :: "u64 \<Rightarrow> string" where
  "format_mib bs = scaled_text (of_nat (unat bs) / (1024 * 1024)) '' MiB''"

definition format_bytes :: "u64 \<Rightarrow> string" where
  "format_bytes bs =
     (if bs < 1024 then show_nat (unat bs) @ '' B''
      else if 1024 * 1024 * 1024 \<le> bs then scaled_text (of_nat (unat bs) / (1024 * 1024 * 1024)) '' GiB''
      else if bs < 1024 * 10 then show_fixed (if 1024 \<le> bs then 1 else 0) (of_nat (unat bs) / 1024) @ '' KiB''
      else format_mib bs)"

definition format_mbps :: "double \<Rightarrow> string" where
  "format_mbps mbps = (let rate = format_mbps_rate mbps in if rate \<noteq> [] then rate else ''0 MiB/s'')"

definition label_and_size :: "string \<Rightarrow> u64 \<Rightarrow> string" where
  "label_and_size label bs = (if label = [] then format_bytes bs else label @ middle_dot @ format_bytes bs)"

definition format_final_speed :: "double \<Rightarrow> double \<Rightarrow> string" where
  "format_final_speed peak_mbps result_mbps =
     (let speed = (if 0 < result_mbps then result_mbps else if 0 < peak_mbps then peak_mbps else 0)
      in if speed \<le> 0 then [] else format_mbps speed)"

definition format_speed_line :: "double \<Rightarrow> double \<Rightarrow> double \<Rightarrow> bool \<Rightarrow> bool \<Rightarrow> string" where
  "format_speed_line live_mbps peak_mbps result_mbps transferring sending =
     (if transferring then transfer_live_message sending live_mbps else format_final_speed peak_mbps result_mbps)"

section \<open>Phases\<close>

datatype phase = Phase_Idle | Phase_Waiting | Phase_Transferring | Phase_Complete | Phase_Failed

definition transfer_is_sending :: "string \<Rightarrow> bool" where
  "transfer_is_sending status = starts_with ''Sending '' status"

definition transfer_is_receiving :: "string \<Rightarrow> bool" where
  "transfer_is_receiving status \<longleftrightarrow> starts_with ''Receiving '' status \<or> starts_with ''Waiting for '' status"

definition looks_complete :: "string \<Rightarrow> string \<Rightarrow> bool" where
  "looks_complete status notification \<longleftrightarrow>
     contains ''Sent at'' notification \<or> contains ''Received at'' notification
     \<or> contains ''Sent at'' status \<or> contains ''Received at'' status
     \<or> contains ''Sent'' notification \<or> contains ''Received'' notification"

definition derive_phase :: "bool \<Rightarrow> bool \<Rightarrow> u64 \<Rightarrow> string \<Rightarrow> string \<Rightarrow> string \<Rightarrow> phase" where
  "derive_phase busy waiting bytes_total status notification error =
     (if error \<noteq> [] \<and> \<not> busy then Phase_Failed
      else if busy \<and> waiting then Phase_Waiting
      else if busy \<and> 0 < bytes_total then Phase_Transferring
      else if busy \<and> (transfer_is_sending status \<or> transfer_is_receiving status) then Phase_Transferring
      else if \<not> busy \<and> looks_complete status notification then Phase_Complete
      else Phase_Idle)"

definition phase_title :: "phase \<Rightarrow> bool \<Rightarrow> bool \<Rightarrow> string \<Rightarrow> string" where
  "phase_title p fabric_connected has_peers status = (case p of
       Phase_Idle \<Rightarrow> if \<not> fabric_connected then ''Not connected''
         else if has_peers then ''Ready'' else ''Waiting for peers'' @ ellipsis
     | Phase_Waiting \<Rightarrow> ''Waiting for a file'' @ ellipsis
     | Phase_Transferring \<Rightarrow> (if transfer_is_receiving status then ''Receiving file'' else ''Sending file'') @ ellipsis
     | Phase_Complete \<Rightarrow> ''Done''
     | Phase_Failed \<Rightarrow> ''Transfer failed'')"

definition phase_colour :: "phase \<Rightarrow> status_colour" where
  "phase_colour p = (case p of Phase_Idle \<Rightarrow> Muted | Phase_Waiting \<Rightarrow> Warn | Phase_Transferring \<Rightarrow> Accent
     | Phase_Complete \<Rightarrow> Colour_Ok | Phase_Failed \<Rightarrow> Warn)"

section \<open>The progress bar\<close>

record progress_bar =
  pb_fraction :: double
  pb_indeterminate :: bool
  pb_pulse_pos :: double
  pb_active :: status_colour

definition new_progress_bar :: progress_bar where
  "new_progress_bar = \<lparr>pb_fraction = 0, pb_indeterminate = False, pb_pulse_pos = 0, pb_active = Accent\<rparr>"

definition set_fraction :: "double \<Rightarrow> progress_bar \<Rightarrow> progress_bar" where
  "set_fraction fraction b = b\<lparr>pb_indeterminate := False, pb_fraction := max 0 (min 1 fraction)\<rparr>"

definition pulse :: "progress_bar \<Rightarrow> progress_bar" where
  "pulse b = (let p = pb_pulse_pos b + 6 / 100
     in b\<lparr>pb_indeterminate := True, pb_pulse_pos := (if 1 < p then 0 else p)\<rparr>)"

definition set_active_colour :: "status_colour \<Rightarrow> progress_bar \<Rightarrow> progress_bar" where
  "set_active_colour colour b = b\<lparr>pb_active := colour\<rparr>"

text \<open>
  The filled part of a bar of the given size as position and width; nothing is filled at
  fraction zero, and nothing is painted without an area. The casts truncate.
\<close>

definition bar_fill :: "int \<Rightarrow> int \<Rightarrow> progress_bar \<Rightarrow> (int \<times> int) option" where
  "bar_fill sx sy b =
     (if sx \<le> 0 \<or> sy \<le> 0 then None
      else if pb_indeterminate b
      then let seg = max (sx div 3) sy; x = \<lfloor>pb_pulse_pos b * of_int (sx + seg)\<rfloor> - seg
        in Some (max 0 (min (max 0 (sx - seg)) x), seg)
      else if 0 < pb_fraction b
      then let w = max \<lfloor>pb_fraction b * of_int sx\<rfloor> sy in Some (0, min w sx)
      else None)"

section \<open>The panel\<close>

record progress_view =
  pv_phase_text :: string
  pv_phase_colour :: status_colour
  pv_active_font :: bool
  pv_show_progress :: bool
  pv_show_speed :: bool
  pv_show_reset :: bool
  pv_min_height :: int
  pv_bar :: progress_bar
  pv_percent :: string
  pv_bytes :: string
  pv_speed :: string
  pv_message :: string
  pv_message_colour :: status_colour
  pv_message_visible :: bool

definition new_progress_view :: progress_view where
  "new_progress_view = \<lparr>pv_phase_text = ''Not connected'', pv_phase_colour = Muted, pv_active_font = False,
     pv_show_progress = False, pv_show_speed = False, pv_show_reset = False, pv_min_height = 36,
     pv_bar = new_progress_bar, pv_percent = [], pv_bytes = [], pv_speed = [], pv_message = [],
     pv_message_colour = Muted, pv_message_visible = False\<rparr>"

text \<open>The percentage is computed in 64 bits and cast to \<open>int\<close>.\<close>

definition percent_done :: "u64 \<Rightarrow> u64 \<Rightarrow> int" where
  "percent_done bytes_done bytes_total =
     (if 0 < bytes_total then sint (ucast ((bytes_done * 100) div bytes_total) :: 32 word) else 0)"

definition done_fraction :: "u64 \<Rightarrow> u64 \<Rightarrow> double" where
  "done_fraction bytes_done bytes_total =
     (if 0 < bytes_total then of_nat (unat bytes_done) / of_nat (unat bytes_total) else 0)"

definition panel_min_height :: "phase \<Rightarrow> int" where
  "panel_min_height p =
     (let show_progress = (p = Phase_Transferring \<or> p = Phase_Complete); show_reset = (p = Phase_Failed)
      in if show_progress then (if show_reset then 120 else 96)
         else if show_reset then 72 else if p = Phase_Waiting then 56 else 36)"

text \<open>What is shown above the switch of \<open>ApplyState\<close>.\<close>

definition show_phase :: "phase \<Rightarrow> bool \<Rightarrow> bool \<Rightarrow> string \<Rightarrow> progress_view \<Rightarrow> progress_view" where
  "show_phase p fabric_connected has_peers status v = v\<lparr>
     pv_phase_text := phase_title p fabric_connected has_peers status, pv_phase_colour := phase_colour p,
     pv_active_font := (p \<noteq> Phase_Idle \<and> p \<noteq> Phase_Failed),
     pv_show_progress := (p = Phase_Transferring \<or> p = Phase_Complete), pv_show_speed := (p = Phase_Transferring),
     pv_show_reset := (p = Phase_Failed), pv_min_height := panel_min_height p\<rparr>"

definition show_waiting :: "u64 \<Rightarrow> string \<Rightarrow> string \<Rightarrow> progress_view \<Rightarrow> progress_view" where
  "show_waiting bytes_total transfer_label status v = v\<lparr>
     pv_bar := pulse (set_active_colour Warn (pv_bar v)), pv_percent := [],
     pv_bytes := (if 0 < bytes_total then label_and_size transfer_label bytes_total else []), pv_speed := [],
     pv_message := (if status = [] then ''Waiting for the other side to respond...'' else status),
     pv_message_colour := Muted\<rparr>"

definition show_transferring :: "orch_ui \<Rightarrow> progress_view \<Rightarrow> progress_view" where
  "show_transferring x v =
     (let status = ui_status_message x; label = ui_transfer_label x; total = ui_bytes_total x;
          outbound = (transfer_is_sending status \<or> \<not> transfer_is_receiving status)
      in v\<lparr>pv_bar := set_fraction (done_fraction (ui_bytes_done x) total) (set_active_colour Accent (pv_bar v)),
        pv_percent := show_int (percent_done (ui_bytes_done x) total) @ ''%'',
        pv_bytes := (if label \<noteq> [] \<and> 0 < total
          then label @ middle_dot @ format_bytes (ui_bytes_done x) @ '' of '' @ format_bytes total
          else if 0 < total then format_bytes (ui_bytes_done x) @ '' of '' @ format_bytes total
          else label),
        pv_speed := format_speed_line (ui_live_mbps x) (ui_peak_mbps x) (ui_result_mbps x) True outbound,
        pv_message := []\<rparr>)"

definition show_complete :: "u64 \<Rightarrow> string \<Rightarrow> string \<Rightarrow> string \<Rightarrow> progress_view \<Rightarrow> progress_view" where
  "show_complete bytes_total transfer_label status notification v = v\<lparr>
     pv_bar := set_fraction 1 (set_active_colour Colour_Ok (pv_bar v)), pv_percent := ''100%'',
     pv_bytes := (if 0 < bytes_total
       then (if transfer_label \<noteq> [] then transfer_label @ middle_dot @ format_bytes bytes_total
             else format_bytes bytes_total @ '' transferred'')
       else transfer_label),
     pv_message := (if notification \<noteq> [] then notification else if status \<noteq> [] then status
       else ''File delivered successfully.''),
     pv_message_colour := Colour_Ok\<rparr>"

definition show_failed :: "string \<Rightarrow> string \<Rightarrow> progress_view \<Rightarrow> progress_view" where
  "show_failed status error v =
     (let detail = (if error \<noteq> [] then error else status)
      in v\<lparr>pv_percent := [], pv_bytes := [], pv_speed := [], pv_message := detail,
        pv_message_colour := (if detail \<noteq> [] then Warn else pv_message_colour v)\<rparr>)"

definition show_idle :: "string \<Rightarrow> progress_view \<Rightarrow> progress_view" where
  "show_idle notification v = v\<lparr>pv_percent := [], pv_bytes := [], pv_speed := [], pv_message := notification,
     pv_message_colour := (if notification \<noteq> [] then Accent else pv_message_colour v)\<rparr>"

text \<open>\<open>ApplyState\<close> with the arguments \<open>MainFrame\<close> takes from the orchestrator's state.\<close>

definition apply_progress :: "orch_ui \<Rightarrow> progress_view \<Rightarrow> progress_view" where
  "apply_progress x v =
     (let status = ui_status_message x; notification = ui_notification x; error = ui_error_message x;
          p = derive_phase (ui_busy x) (ui_waiting_for_partner x) (ui_bytes_total x) status notification error;
          v1 = show_phase p (ui_fabric_connected x) (ui_roster x \<noteq> []) status v;
          v2 = (case p of
              Phase_Waiting \<Rightarrow> show_waiting (ui_bytes_total x) (ui_transfer_label x) status v1
            | Phase_Transferring \<Rightarrow> show_transferring x v1
            | Phase_Complete \<Rightarrow> show_complete (ui_bytes_total x) (ui_transfer_label x) status notification v1
            | Phase_Failed \<Rightarrow> show_failed status error v1
            | Phase_Idle \<Rightarrow> show_idle notification v1)
      in v2\<lparr>pv_message_visible := (pv_message v2 \<noteq> [] \<and> p \<noteq> Phase_Transferring)\<rparr>)"

section \<open>What is shown\<close>

lemma percent_done_value:
  assumes "d \<le> t" and "unat t * 100 < 2 ^ 64"
  shows "percent_done d t = \<lfloor>done_fraction d t * 100\<rfloor> \<and> 0 \<le> percent_done d t \<and> percent_done d t \<le> 100"
proof (cases "t = 0")
  case False
  then have t: "0 < t" "0 < unat t" by (simp_all add: word_gt_0 unat_gt_0)
  have le: "unat d \<le> unat t" using assms(1) by (simp add: word_le_nat_alt)
  with assms(2) have "unat (d * 100) = unat d * 100" by (simp add: unat_mult_lem [THEN iffD1])
  then have q: "unat ((d * 100) div t) = unat d * 100 div unat t" by (simp add: unat_div)
  have small: "unat d * 100 div unat t \<le> 100"
    using le t(2) by (metis div_le_mono mult.commute mult_le_mono1 nonzero_mult_div_cancel_left not_gr_zero)
  have "uint ((d * 100) div t) = int (unat d * 100 div unat t)" using q by (simp add: uint_nat)
  with small have "sint (ucast ((d * 100) div t) :: 32 word) = int (unat d * 100 div unat t)"
    by (simp add: sint_uint unsigned_ucast_eq signed_take_bit_int_eq_self take_bit_int_eq_self)
  with t(1) have p: "percent_done d t = int (unat d * 100 div unat t)" by (simp add: percent_done_def)
  have "\<lfloor>done_fraction d t * 100\<rfloor> = \<lfloor>(of_nat (unat d * 100) :: rat) / of_nat (unat t)\<rfloor>"
    using t(1) by (simp add: done_fraction_def)
  also have "\<dots> = int (unat d * 100 div unat t)" by (rule floor_divide_of_nat_eq)
  finally show ?thesis using p small by simp
qed (simp add: percent_done_def done_fraction_def)

lemma fraction_of_nats: "a \<le> b \<Longrightarrow> 0 < b \<Longrightarrow> 0 \<le> (of_nat a / of_nat b :: rat) \<and> (of_nat a / of_nat b :: rat) \<le> 1
    \<and> (0 < (of_nat a / of_nat b :: rat) \<longleftrightarrow> a \<noteq> 0)"
  by (simp add: divide_le_eq zero_less_divide_iff)

lemma done_fraction_unit:
  assumes "d \<le> t" and "0 < t"
  shows "0 \<le> done_fraction d t \<and> done_fraction d t \<le> 1 \<and> (0 < done_fraction d t \<longleftrightarrow> d \<noteq> 0)"
  using fraction_of_nats [of "unat d" "unat t"] assms
  by (simp add: done_fraction_def word_le_nat_alt word_less_nat_alt unat_eq_zero)

abbreviation phase_of :: "orch_ui \<Rightarrow> phase" where
  "phase_of x \<equiv> derive_phase (ui_busy x) (ui_waiting_for_partner x) (ui_bytes_total x) (ui_status_message x)
     (ui_notification x) (ui_error_message x)"

text \<open>
  While bytes are moving, the percentage is the rounded-down fraction the bar shows, it lies
  between 0 and 100, and the filled part stays within a bar that is at least as wide as high.
\<close>

theorem progress_shown_in_bounds:
  assumes "ui_busy x" and "\<not> ui_waiting_for_partner x" and "0 < ui_bytes_total x" and "ui_bytes_done x \<le> ui_bytes_total x"
    and "unat (ui_bytes_total x) * 100 < 2 ^ 64" and "0 < sy" and "sy \<le> sx"
  shows "\<exists>p. pv_percent (apply_progress x v) = show_int p @ ''%'' \<and> 0 \<le> p \<and> p \<le> 100
    \<and> p = \<lfloor>pb_fraction (pv_bar (apply_progress x v)) * 100\<rfloor>
    \<and> (case bar_fill sx sy (pv_bar (apply_progress x v)) of None \<Rightarrow> ui_bytes_done x = 0
        | Some (left, width) \<Rightarrow> left = 0 \<and> sy \<le> width \<and> width \<le> sx)"
proof -
  let ?d = "ui_bytes_done x" and ?t = "ui_bytes_total x"
  have "phase_of x = Phase_Transferring" using assms(1-3) by (simp add: derive_phase_def)
  then have shown: "pv_percent (apply_progress x v) = show_int (percent_done ?d ?t) @ ''%''"
      "pv_bar (apply_progress x v) = set_fraction (done_fraction ?d ?t) (set_active_colour Accent (pv_bar v))"
    by (simp_all add: apply_progress_def show_transferring_def Let_def show_phase_def)
  have unit: "0 \<le> done_fraction ?d ?t" "done_fraction ?d ?t \<le> 1" "0 < done_fraction ?d ?t \<longleftrightarrow> ?d \<noteq> 0"
    using done_fraction_unit [OF assms(4,3)] by simp_all
  have frac: "pb_fraction (pv_bar (apply_progress x v)) = done_fraction ?d ?t" "\<not> pb_indeterminate (pv_bar (apply_progress x v))"
    using unit by (simp_all add: shown set_fraction_def)
  have "bar_fill sx sy (pv_bar (apply_progress x v)) = (if ?d = 0 then None else Some (0, min (max \<lfloor>done_fraction ?d ?t * of_int sx\<rfloor> sy) sx))"
    using frac unit(3) assms(6,7) by (simp add: bar_fill_def Let_def)
  with percent_done_value [OF assms(4,5)] frac(1) shown(1) unit assms(6,7) show ?thesis
    by (intro exI [of _ "percent_done ?d ?t"]) simp
qed

lemma progress_shown_in_bounds_witness:
  "\<exists>p. pv_percent (apply_progress ((initial_ui default_identity_profile [])\<lparr>ui_busy := True, ui_bytes_total := 10,
     ui_bytes_done := 4\<rparr>) new_progress_view) = show_int p @ ''%'' \<and> p \<le> 100"
  using progress_shown_in_bounds [of "(initial_ui default_identity_profile [])\<lparr>ui_busy := True, ui_bytes_total := 10,
     ui_bytes_done := 4\<rparr>" 2 9 new_progress_view]
  by (auto simp: initial_ui_def)

lemma done_message_complete: "contains (if sent then ''Sent'' else ''Received'') (transfer_done_message sent rate)"
  by (simp add: transfer_done_message_def starts_with_def)

lemma shown_complete:
  "phase_of x = Phase_Complete \<Longrightarrow> pv_phase_text (apply_progress x v) = ''Done'' \<and> pv_percent (apply_progress x v) = ''100%''
     \<and> pb_fraction (pv_bar (apply_progress x v)) = 1 \<and> \<not> pv_show_reset (apply_progress x v)"
  by (simp add: apply_progress_def Let_def show_complete_def show_phase_def phase_title_def set_fraction_def)

lemma shown_failed:
  "phase_of x = Phase_Failed \<Longrightarrow> ui_error_message x \<noteq> [] \<Longrightarrow> pv_phase_text (apply_progress x v) = ''Transfer failed''
     \<and> pv_message (apply_progress x v) = ui_error_message x \<and> pv_message_visible (apply_progress x v)
     \<and> pv_show_reset (apply_progress x v)"
  by (simp add: apply_progress_def Let_def show_failed_def show_phase_def phase_title_def)

lemma finish_shows:
  assumes "\<not> oc_shutting_down s"
  shows "\<exists>st. oc_published (finish_transfer ok message error result kind s) = oc_published s @ [st]
    \<and> (ok \<and> kind \<noteq> Done_None \<longrightarrow> pv_phase_text (apply_progress st v) = ''Done''
        \<and> pv_percent (apply_progress st v) = ''100%'' \<and> pb_fraction (pv_bar (apply_progress st v)) = 1
        \<and> \<not> pv_show_reset (apply_progress st v))
    \<and> (\<not> ok \<and> error \<noteq> [] \<longrightarrow> pv_phase_text (apply_progress st v) = ''Transfer failed''
        \<and> pv_message (apply_progress st v) = error \<and> pv_message_visible (apply_progress st v)
        \<and> pv_show_reset (apply_progress st v))"
proof -
  obtain st where st: "oc_published (finish_transfer ok message error result kind s) = oc_published s @ [st]"
      "\<not> ui_busy st" "ui_error_message st = (if ok then [] else error)"
      "ok \<and> kind \<noteq> Done_None \<longrightarrow> (\<exists>rate. ui_status_message st = transfer_done_message (kind = Done_Sent) rate
         \<and> ui_notification st = ui_status_message st)"
    using finish_publishes [OF assms, of ok message error result kind] by blast
  have "phase_of st = Phase_Complete" if "ok \<and> kind \<noteq> Done_None"
  proof -
    from that st(4) obtain rate where n: "ui_notification st = transfer_done_message (kind = Done_Sent) rate" by auto
    have "looks_complete (ui_status_message st) (ui_notification st)"
      using done_message_complete [of "kind = Done_Sent" rate] unfolding looks_complete_def n by (simp split: if_splits)
    with that st(2,3) show ?thesis by (simp add: derive_phase_def)
  qed
  moreover have "phase_of st = Phase_Failed" if "\<not> ok \<and> error \<noteq> []"
    using that st(2,3) by (simp add: derive_phase_def)
  ultimately show ?thesis
    using st(1) shown_complete [of st v] shown_failed [of st v] st(3) by (intro exI [of _ st]) simp
qed

text \<open>
  C24: What the window shows after a transfer is what happened: a send or receive that succeeded
  is Done with a full bar and no way to reset, a failure shows its error and offers the reset.
\<close>

theorem progress_after_transfer:
  assumes "\<not> oc_shutting_down s"
  shows "\<exists>st. oc_published (finish_transfer ok message error result kind s) = oc_published s @ [st]
    \<and> (ok \<and> kind \<noteq> Done_None \<longrightarrow> pv_phase_text (apply_progress st v) = ''Done''
        \<and> pv_percent (apply_progress st v) = ''100%'' \<and> pb_fraction (pv_bar (apply_progress st v)) = 1
        \<and> \<not> pv_show_reset (apply_progress st v))
    \<and> (\<not> ok \<and> error \<noteq> [] \<longrightarrow> pv_phase_text (apply_progress st v) = ''Transfer failed''
        \<and> pv_message (apply_progress st v) = error \<and> pv_message_visible (apply_progress st v)
        \<and> pv_show_reset (apply_progress st v))"
  by (rule finish_shows [OF assms])

lemma progress_after_transfer_witness:
  "\<forall>s :: unit orch. \<exists>st. oc_published (finish_transfer False ''Send failed'' ''cable'' None Done_None
       (s\<lparr>oc_shutting_down := False, oc_published := []\<rparr>)) = [st]
     \<and> pv_message (apply_progress st new_progress_view) = ''cable''"
proof
  fix s :: "unit orch"
  show "\<exists>st. oc_published (finish_transfer False ''Send failed'' ''cable'' None Done_None
       (s\<lparr>oc_shutting_down := False, oc_published := []\<rparr>)) = [st]
     \<and> pv_message (apply_progress st new_progress_view) = ''cable''"
    using progress_after_transfer [of "s\<lparr>oc_shutting_down := False, oc_published := []\<rparr>" False "''Send failed''" "''cable''" None
        Done_None new_progress_view]
    by auto
qed

end
