(* ===== verification/Payload_Crossing.thy ===== *)
theory Payload_Crossing
  imports Session_Net Plane_Props Progress_View
begin

text \<open>
  A payload from one orchestrator to another over the simulated fabric, through every layer: the
  sending thread of one (\<open>Job_Sending\<close>), the USB plane, the controller and the hub, and the
  receiving thread of the other (\<open>Job_Receive\<close>), up to what both windows show.
\<close>

section \<open>The two threads\<close>

lemma set_listener_fields [simp]:
  "oc_published (set_listener f s) = oc_published s" "oc_fs (set_listener f s) = oc_fs s" "oc_usb (set_listener f s) = oc_usb s"
  "oc_last_completed (set_listener f s) = oc_last_completed s"
  by (simp_all add: set_listener_def)

lemma finish_usb [simp]: "oc_usb (finish_transfer ok message error result kind s) = oc_usb s"
  by (simp add: finish_transfer_def Let_def set_ui_def booth_event_def clear_outbound_session_def publish_state_def
      set_listener_def ensure_listener_active_def schedule_dismiss_def)

lemma remove_staged_fields [simp]:
  "oc_usb (remove_staged staged s) = oc_usb s" "oc_published (remove_staged staged s) = oc_published s"
  "oc_shutting_down (remove_staged staged s) = oc_shutting_down s"
  "\<not> stg_is_temp staged \<Longrightarrow> oc_fs (remove_staged staged s) = oc_fs s"
  by (simp_all add: remove_staged_def remove_file_def Let_def split: prod.split)

lemma sending_step:
  assumes "tp_send_file_on_port (oe_tp env) (oc_port_index s) (stg_path staged) (us_payload_timeout_ms (oc_usb_settings s))
      kFrameKindPayload (oc_fs s, oc_usb s) = Some (r, fs, u)" and "tr_ok r" and "\<not> oc_shutting_down s"
  shows "\<exists>s'. job_step env inp (Job_Sending staged) s = Some (Job_Done, False, s') \<and> oc_usb s' = u
    \<and> (\<not> stg_is_temp staged \<longrightarrow> oc_fs s' = fs)
    \<and> (\<exists>st. oc_published s' = oc_published s @ [st] \<and> pv_phase_text (apply_progress st v) = ''Done'')"
proof -
  let ?s = "remove_staged staged (s\<lparr>oc_fs := fs, oc_usb := u\<rparr>)"
  have "\<not> oc_shutting_down ?s" using assms(3) by simp
  from finish_shows [OF this, of True "''Send complete''" "tr_error_message r" "Some r" Done_Sent v] obtain st where
    "oc_published (finish_transfer True ''Send complete'' (tr_error_message r) (Some r) Done_Sent ?s) = oc_published s @ [st]"
    "pv_phase_text (apply_progress st v) = ''Done''" by auto
  with assms(1,2) show ?thesis by (simp add: run_transport_def resume_listener_def)
qed

lemma receive_step:
  assumes "tp_receive_file_on_port (oe_tp env) (oc_port_index s) path (ht_payload_header_timeout_ms (oc_handshake s))
      kFrameKindPayload (oc_fs s, oc_usb s) = Some (r, fs, u)" and "tr_ok r" and "\<not> oc_shutting_down s"
    and "sm_total_bytes offer = of_nat (tr_bytes_transferred r)" and "sm_payload_type offer \<noteq> ''tar''"
    and "oc_accepting s = Some (sm_session_id offer)"
  shows "\<exists>s1 s'. job_step env inp (Job_Receive offer path) s = Some (Job_Ending offer, False, s1)
    \<and> job_step env inp_end (Job_Ending offer) s1 = Some (Job_Done, False, s') \<and> oc_fs s' = fs
    \<and> oc_last_completed s' = Some (sm_session_id offer) \<and> oc_accepting s' = None
    \<and> (\<exists>st. oc_published s' = oc_published s @ [st] \<and> pv_phase_text (apply_progress st v) = ''Done'')"
proof -
  let ?s = "s\<lparr>oc_fs := fs, oc_usb := u\<rparr>"
  have received: "inbound_received env offer path r ?s = finish_transfer True ''Receive complete'' [] (Some r) Done_Received ?s"
    using assms(2,4,5) by (simp add: inbound_received_def)
  have "\<not> oc_shutting_down ?s" using assms(3) by simp
  from finish_shows [OF this, of True "''Receive complete''" "[]" "Some r" Done_Received v] obtain st where
    "oc_published (finish_transfer True ''Receive complete'' [] (Some r) Done_Received ?s) = oc_published s @ [st]"
    "pv_phase_text (apply_progress st v) = ''Done''" by auto
  with assms(1,6) show ?thesis
    by (simp add: run_transport_def received end_inbound_def resume_listener_def finish_completed) (simp add: set_listener_def)
qed

section \<open>The crossing\<close>

text \<open>
  C9: A payload crosses the simulated fabric: the sending thread of one orchestrator ends with its
  file on the wire, and the receiving thread of the other, started for an offer of this size,
  leaves in its last two steps exactly the bytes of the file at its path, touches nothing else,
  records the session as completed and no longer as being accepted, and both windows show Done.
\<close>

theorem payload_crosses:
  assumes "oe_tp env = usb_transport cenv" and "oc_port_index s = p" and "p \<in> {0, 1}" and "sim_ready cenv (oc_usb s) c"
    and "hub_pending (1 - p) (tc_hub c) = []" and "read_file (stg_path staged) (oc_fs s) = Some bytes" and "length bytes < 2 ^ 64"
    and "\<not> oc_shutting_down s"
    and "oe_tp env' = usb_transport cenv'" and "oc_port_index r = 1 - p" and "\<not> oc_shutting_down r"
    and "0 < ht_payload_header_timeout_ms (oc_handshake r)" and "oc_accepting r = Some (sm_session_id offer)"
    and "sm_total_bytes offer = of_nat (length bytes)" and "sm_payload_type offer \<noteq> ''tar''"
    and "open_trunc path (oc_fs r) \<noteq> None" and "fs_room (oc_fs r) path = None"
  shows "\<exists>s' c1 st. job_step env inp (Job_Sending staged) s = Some (Job_Done, False, s') \<and> up_controller (oc_usb s') = Some c1
    \<and> oc_published s' = oc_published s @ [st] \<and> pv_phase_text (apply_progress st v) = ''Done''
    \<and> (\<forall>d. sim_ready cenv' (oc_usb r) d \<and> tc_hub d = tc_hub c1 \<longrightarrow>
        (\<exists>r1 r' rt. job_step env' inp' (Job_Receive offer path) r = Some (Job_Ending offer, False, r1)
          \<and> job_step env' inp_end (Job_Ending offer) r1 = Some (Job_Done, False, r')
          \<and> fs_lookup (oc_fs r') path = Some (File bytes) \<and> (\<forall>x. x \<noteq> path \<longrightarrow> fs_lookup (oc_fs r') x = fs_lookup (oc_fs r) x)
          \<and> oc_last_completed r' = Some (sm_session_id offer)
          \<and> oc_accepting r' = None \<and> oc_published r' = oc_published r @ [rt] \<and> pv_phase_text (apply_progress rt v') = ''Done''))"
proof -
  obtain res P1 c1 where s: "tp_send_file_on_port (oe_tp env) (oc_port_index s) (stg_path staged) (us_payload_timeout_ms (oc_usb_settings s))
      kFrameKindPayload (oc_fs s, oc_usb s) = Some (res, oc_fs s, P1)" "tr_ok res" "up_controller P1 = Some c1"
    "hub_pending (1 - p) (tc_hub c1) = header_bytes (fill_header (length bytes) kFrameKindPayload) @ bytes"
    unfolding assms(1,2) by (rule sim_file_sent [OF assms(6,3,4,5)])
  have received: "\<exists>r1 r' rt. job_step env' inp' (Job_Receive offer path) r = Some (Job_Ending offer, False, r1)
          \<and> job_step env' inp_end (Job_Ending offer) r1 = Some (Job_Done, False, r')
          \<and> fs_lookup (oc_fs r') path = Some (File bytes) \<and> (\<forall>x. x \<noteq> path \<longrightarrow> fs_lookup (oc_fs r') x = fs_lookup (oc_fs r) x)
          \<and> oc_last_completed r' = Some (sm_session_id offer)
          \<and> oc_accepting r' = None \<and> oc_published r' = oc_published r @ [rt] \<and> pv_phase_text (apply_progress rt v') = ''Done''"
    if d: "sim_ready cenv' (oc_usb r) d" "tc_hub d = tc_hub c1" for d
  proof -
    obtain fs1 where o: "open_trunc path (oc_fs r) = Some fs1" using assms(16) by blast
    have pend: "hub_pending (1 - p) (tc_hub d) = header_bytes (fill_header (length bytes) kFrameKindPayload) @ bytes"
      using s(4) d(2) by simp
    have q: "1 - p \<in> {0, 1}" using assms(3) by auto
    obtain got fs' Q1 where g: "tp_receive_file_on_port (oe_tp env') (oc_port_index r) path
        (ht_payload_header_timeout_ms (oc_handshake r)) kFrameKindPayload (oc_fs r, oc_usb r) = Some (got, fs', Q1)"
      "tr_ok got" "tr_bytes_transferred got = length bytes" "fs_lookup fs' path = Some (File bytes)"
      "\<forall>x. x \<noteq> path \<longrightarrow> fs_lookup fs' x = fs_lookup (oc_fs r) x"
      unfolding assms(9,10) by (rule sim_file_received [OF pend assms(7) q d(1) o assms(17,12)])
    have "sm_total_bytes offer = of_nat (tr_bytes_transferred got)" using assms(14) g(3) by simp
    from receive_step [OF g(1,2) assms(11) this assms(15,13), of inp' inp_end v'] g(4,5) show ?thesis by metis
  qed
  from sending_step [OF s(1,2) assms(8), of inp v] s(3) received show ?thesis by metis
qed

text \<open>Ann sends the file of her disk; Bob receives it beside his own.\<close>

definition sim_orch_env :: "int \<Rightarrow> int usb_plane orch_env" where
  "sim_orch_env p = \<lparr>oe_tp = usb_transport (sim_env p), oe_tmp = ''/t'', oe_exec = (\<lambda>args fs. (Exited 1, fs)), oe_usbfs_knob = None\<rparr>"

definition sim_orch :: "int \<Rightarrow> sim_hub \<Rightarrow> int usb_plane orch" where
  "sim_orch p hub = (new_orchestrator (sim_orch_env p) (\<lambda>_. 0) sample_identity default_usb_settings sample_files (idle_plane p hub))
     \<lparr>oc_accepting := Some ''00ff''\<rparr>"

lemma sim_orch_fields:
  "oe_tp (sim_orch_env p) = usb_transport (sim_env p)" "oc_port_index (sim_orch p hub) = p" "oc_usb (sim_orch p hub) = idle_plane p hub"
  "\<not> oc_shutting_down (sim_orch p hub)" "oc_accepting (sim_orch p hub) = Some ''00ff''" "oc_fs (sim_orch p hub) = sample_files"
  "oc_handshake (sim_orch p hub) = handshake_timing_from_identity sample_identity"
  by (simp_all add: sim_orch_def sim_orch_env_def new_orchestrator_def publish_state_def Let_def usb_transport_def plane_port_index_def
      sim_env_def)

definition sample_payload :: staged_payload where
  "sample_payload = no_staged\<lparr>stg_path := ''/d/a.txt''\<rparr>"

lemma payload_crosses_witness:
  "\<exists>s' c1 r1 r'. job_step (sim_orch_env 0) sample_input (Job_Sending sample_payload) (sim_orch 0 idle_hub) = Some (Job_Done, False, s')
     \<and> up_controller (oc_usb s') = Some c1
     \<and> job_step (sim_orch_env 1) sample_input (Job_Receive (sample_offer\<lparr>sm_total_bytes := 3\<rparr>) ''/d/b'') (sim_orch 1 (tc_hub c1))
         = Some (Job_Ending (sample_offer\<lparr>sm_total_bytes := 3\<rparr>), False, r1)
     \<and> job_step (sim_orch_env 1) sample_input (Job_Ending (sample_offer\<lparr>sm_total_bytes := 3\<rparr>)) r1 = Some (Job_Done, False, r')
     \<and> fs_lookup (oc_fs r') ''/d/b'' = Some (File ''abc'')"
proof -
  let ?s = "sim_orch 0 idle_hub" and ?m = "sample_offer\<lparr>sm_total_bytes := 3\<rparr>"
  have ready: "\<exists>c. sim_ready (sim_env p) (oc_usb (sim_orch p hub)) c \<and> tc_hub c = hub" for p hub
    using idle_plane_controller [of p hub] by (auto simp: sim_ready_def sim_orch_fields sim_env_fields)
  then obtain c where c: "sim_ready (sim_env 0) (oc_usb ?s) c" "tc_hub c = idle_hub" by blast
  have idle: "hub_pending (1 - 0) (tc_hub c) = []" by (simp add: c(2) idle_hub_def hub_pending_def hub_channel_def channel_content_def)
  have zero: "(0 :: int) \<in> {0, 1}" by simp
  have files: "read_file (stg_path sample_payload) (oc_fs ?s) = Some ''abc''" "open_trunc ''/d/b'' (oc_fs (sim_orch 1 hub)) \<noteq> None"
      "fs_room (oc_fs (sim_orch 1 hub)) ''/d/b'' = None" for hub
  proof -
    have "read_file ''/d/a.txt'' sample_files = Some ''abc''" "open_trunc ''/d/b'' sample_files \<noteq> None" by code_simp+
    then show "read_file (stg_path sample_payload) (oc_fs ?s) = Some ''abc''" "open_trunc ''/d/b'' (oc_fs (sim_orch 1 hub)) \<noteq> None"
      "fs_room (oc_fs (sim_orch 1 hub)) ''/d/b'' = None"
      by (simp_all add: sim_orch_fields sample_payload_def) (simp add: sample_files_def)
  qed
  have time: "0 < ht_payload_header_timeout_ms (oc_handshake (sim_orch 1 hub))" for hub
    by (simp add: sim_orch_fields sample_identity_def) code_simp
  have offer: "sm_total_bytes ?m = of_nat (length ''abc'')" "sm_payload_type ?m \<noteq> ''tar''"
      "oc_accepting (sim_orch 1 hub) = Some (sm_session_id ?m)" for hub
    by (simp_all add: sample_offer_def sim_orch_fields)
  have short: "length ''abc'' < 2 ^ 64" and one: "oc_port_index (sim_orch 1 hub) = 1 - 0" for hub by (simp_all add: sim_orch_fields)
  have run: "\<exists>s' c1. job_step (sim_orch_env 0) sample_input (Job_Sending sample_payload) ?s = Some (Job_Done, False, s')
      \<and> up_controller (oc_usb s') = Some c1 \<and> (hub = tc_hub c1 \<longrightarrow>
        (\<exists>r1 r'. job_step (sim_orch_env 1) sample_input (Job_Receive ?m ''/d/b'') (sim_orch 1 hub) = Some (Job_Ending ?m, False, r1)
          \<and> job_step (sim_orch_env 1) sample_input (Job_Ending ?m) r1 = Some (Job_Done, False, r')
          \<and> fs_lookup (oc_fs r') ''/d/b'' = Some (File ''abc'')))" for hub
  proof -
    obtain d where "sim_ready (sim_env 1) (oc_usb (sim_orch 1 hub)) d" "tc_hub d = hub" using ready by blast
    with payload_crosses [OF sim_orch_fields(1,2) zero c(1) idle files(1) short sim_orch_fields(4) sim_orch_fields(1) one
      sim_orch_fields(4) time offer(3,1,2) files(2,3), where inp = sample_input and inp' = sample_input and inp_end = sample_input]
    show ?thesis by blast
  qed
  from run [of idle_hub] obtain s' c1 where s: "job_step (sim_orch_env 0) sample_input (Job_Sending sample_payload) ?s = Some (Job_Done, False, s')"
      "up_controller (oc_usb s') = Some c1" by blast
  with run [of "tc_hub c1"] show ?thesis by auto
qed

end
