(* ===== verification/Clock_Text.thy ===== *)
theory Clock_Text
  imports Link_Status "HOL-Library.Signed_Division" "HOL-Library.List_Lexorder" "HOL-Library.Char_ord"
begin

text \<open>
  The time stamps of the log (\<open>format_timestamp_iso8601_ms\<close> of \<open>platform_util.cpp\<close>). The conversion
  of seconds to calendar fields is the C library's and a parameter. Sorting the entries of the log
  as text sorts them by time.
\<close>

section \<open>The stamp\<close>

record tm =
  tm_year :: int
  tm_mon :: int
  tm_mday :: int
  tm_hour :: int
  tm_min :: int
  tm_sec :: int

text \<open>\<open>setw\<close> with \<open>setfill('0')\<close>, and what \<open>put_time\<close> writes for \<open>%m\<close>, \<open>%d\<close>, \<open>%H\<close>, \<open>%M\<close> and \<open>%S\<close>.\<close>

definition zero_padded :: "nat \<Rightarrow> int \<Rightarrow> string" where
  "zero_padded w n = (let s = show_int n in replicate (w - length s) (CHR ''0'') @ s)"

definition stamp_text :: "tm \<Rightarrow> int \<Rightarrow> string" where
  "stamp_text t ms = show_int (tm_year t + 1900) @ ''-'' @ zero_padded 2 (tm_mon t + 1) @ ''-'' @ zero_padded 2 (tm_mday t)
     @ ''T'' @ zero_padded 2 (tm_hour t) @ '':'' @ zero_padded 2 (tm_min t) @ '':'' @ zero_padded 2 (tm_sec t)
     @ ''.'' @ zero_padded 3 ms"

definition format_timestamp_iso8601_ms :: "(int \<Rightarrow> tm) \<Rightarrow> int \<Rightarrow> string" where
  "format_timestamp_iso8601_ms local_time now_ms = stamp_text (local_time (now_ms sdiv 1000)) (now_ms smod 1000)"

section \<open>Text order\<close>

lemma less_append:
  fixes u v :: "'a :: linorder list"
  assumes "length xs = length ys"
  shows "xs @ u < ys @ v \<longleftrightarrow> xs < ys \<or> xs = ys \<and> u < v"
  using assms by (induction xs ys rule: list_induct2) auto

fun digits_of :: "nat \<Rightarrow> nat \<Rightarrow> string" where
  "digits_of 0 n = []"
| "digits_of (Suc w) n = digits_of w (n div 10) @ [char_of (48 + n mod 10)]"

lemma digits_of_length [simp]: "length (digits_of w n) = w"
  by (induction w arbitrary: n) auto

lemma digits_of_zero: "digits_of w 0 = replicate w (CHR ''0'')"
proof (induction w)
  case (Suc w)
  have "char_of (48 :: nat) = CHR ''0''" by code_simp
  with Suc show ?case by (simp add: replicate_append_same)
qed simp

lemma digit_char_less: "a < 10 \<Longrightarrow> b < 10 \<Longrightarrow> (char_of (48 + a :: nat) < char_of (48 + b :: nat)) = (a < b)"
  by (simp add: less_char_def)

lemma digit_char_inj:
  assumes "a < 10" and "b < 10"
  shows "(char_of (48 + a :: nat) = (char_of (48 + b :: nat) :: char)) = (a = b)"
proof
  assume "char_of (48 + a) = (char_of (48 + b) :: char)"
  from arg_cong [OF this, of "of_char :: char \<Rightarrow> nat"] show "a = b" by (simp only: of_char_digit [OF assms(1)] of_char_digit [OF assms(2)])
qed simp

lemma digit_split:
  fixes a b c d :: nat
  assumes "b < 10" and "d < 10"
  shows "(10 * a + b < 10 * c + d) = (a < c \<or> a = c \<and> b < d)" "(10 * a + b = 10 * c + d) = (a = c \<and> b = d)"
proof -
  consider "a < c" | "a = c" | "c < a" by linarith
  then have "(10 * a + b < 10 * c + d) = (a < c \<or> a = c \<and> b < d) \<and> (10 * a + b = 10 * c + d) = (a = c \<and> b = d)"
  proof cases
    case 1
    then have "10 * a + b < 10 * c + d" using assms by linarith
    with 1 show ?thesis by simp
  next
    case 3
    then have "10 * c + d < 10 * a + b" using assms by linarith
    with 3 show ?thesis by simp
  qed simp
  then show "(10 * a + b < 10 * c + d) = (a < c \<or> a = c \<and> b < d)" "(10 * a + b = 10 * c + d) = (a = c \<and> b = d)" by blast+
qed

lemma digits_of_order:
  assumes "n < 10 ^ w" and "m < 10 ^ w"
  shows "(digits_of w n < digits_of w m) = (n < m) \<and> (digits_of w n = digits_of w m) = (n = m)"
  using assms
proof (induction w arbitrary: n m)
  case (Suc w)
  have "n div 10 < 10 ^ w" "m div 10 < 10 ^ w" using Suc.prems by auto
  note ih = Suc.IH [OF this]
  have d: "(char_of (48 + n mod 10) < char_of (48 + m mod 10)) = (n mod 10 < m mod 10)" by (rule digit_char_less) simp_all
  have e: "(char_of (48 + n mod 10) = (char_of (48 + m mod 10) :: char)) = (n mod 10 = m mod 10)"
    by (rule digit_char_inj) simp_all
  have "(n < m) = (n div 10 < m div 10 \<or> n div 10 = m div 10 \<and> n mod 10 < m mod 10)"
    "(n = m) = (n div 10 = m div 10 \<and> n mod 10 = m mod 10)"
    using digit_split [of "n mod 10" "m mod 10" "n div 10" "m div 10"] by simp_all
  with ih d e show ?case by (simp add: less_append)
qed simp

lemma zero_padded_digits:
  assumes "n < 10 ^ w" and "0 < w"
  shows "zero_padded w (int n) = digits_of w n"
proof -
  have "replicate (w - length (show_nat n)) (CHR ''0'') @ show_nat n = digits_of w n"
    using assms
  proof (induction w arbitrary: n)
    case (Suc w)
    show ?case
    proof (cases "n < 10")
      case True
      then show ?thesis by (simp add: show_nat.simps [of n] digits_of_zero)
    next
      case False
      with Suc.prems have "n div 10 < 10 ^ w" "0 < w" by (auto simp: not_less intro: gr0I)
      from Suc.IH [OF this] False show ?thesis by (simp add: show_nat.simps [of n])
    qed
  qed simp
  then show ?thesis by (simp add: zero_padded_def show_int_def Let_def)
qed

lemma show_nat_long: "10 ^ k \<le> n \<Longrightarrow> k < length (show_nat n)"
proof (induction k arbitrary: n)
  case (Suc k)
  have "10 * 10 ^ k \<le> n" using Suc.prems by simp
  from div_le_mono [OF this, of 10] have "10 ^ k \<le> n div 10" by simp
  moreover have "(1 :: nat) \<le> 10 ^ k" by simp
  with \<open>10 * 10 ^ k \<le> n\<close> have "\<not> n < 10" by linarith
  ultimately show ?case using Suc.IH [of "n div 10"] by (simp add: show_nat.simps [of n])
qed simp

lemma year_digits:
  assumes "1000 \<le> n" and "n < 10000"
  shows "show_int (int n) = digits_of 4 n"
proof -
  have "3 < length (show_nat n)" by (rule show_nat_long) (use assms in simp)
  then have "show_int (int n) = zero_padded 4 (int n)" by (simp add: zero_padded_def show_int_def Let_def)
  then show ?thesis using zero_padded_digits [of n 4] assms by simp
qed

section \<open>Sorting the log\<close>

lemma padded_order:
  assumes "0 \<le> a" and "a < 10 ^ w" and "0 \<le> b" and "b < 10 ^ w" and "0 < w"
  shows "(zero_padded w a @ u < zero_padded w b @ v) = (a < b \<or> a = b \<and> u < v)"
proof -
  have n: "nat a < 10 ^ w" "nat b < 10 ^ w" using assms by (simp_all add: nat_less_iff)
  have "zero_padded w a = digits_of w (nat a)" "zero_padded w b = digits_of w (nat b)"
    using zero_padded_digits [OF n(1) assms(5)] zero_padded_digits [OF n(2) assms(5)] assms by simp_all
  then show ?thesis using digits_of_order [OF n] assms by (auto simp: less_append)
qed

lemma year_order:
  assumes "1000 \<le> a" and "a < 10000" and "1000 \<le> b" and "b < 10000"
  shows "(show_int a @ u < show_int b @ v) = (a < b \<or> a = b \<and> u < v)"
proof -
  have n: "nat a < 10 ^ 4" "nat b < 10 ^ 4" using assms by simp_all
  have "show_int a = digits_of 4 (nat a)" "show_int b = digits_of 4 (nat b)"
    using year_digits [of "nat a"] year_digits [of "nat b"] assms by simp_all
  then show ?thesis using digits_of_order [OF n] assms by (auto simp: less_append)
qed

text \<open>What the C library promises of calendar fields, for the years that have four digits.\<close>

definition calendar_ok :: "tm \<Rightarrow> bool" where
  "calendar_ok t \<longleftrightarrow> tm_year t + 1900 \<in> {1000..9999} \<and> tm_mon t \<in> {0..11} \<and> tm_mday t \<in> {1..31}
     \<and> tm_hour t \<in> {0..23} \<and> tm_min t \<in> {0..59} \<and> tm_sec t \<in> {0..60}"

definition clock_fields :: "tm \<Rightarrow> int \<Rightarrow> int list" where
  "clock_fields t ms = [tm_year t, tm_mon t, tm_mday t, tm_hour t, tm_min t, tm_sec t, ms]"

lemma stamp_order:
  assumes "calendar_ok t" and "calendar_ok t'" and "ms \<in> {0..999}" and "ms' \<in> {0..999}"
  shows "(stamp_text t ms @ u < stamp_text t' ms' @ v)
    = (clock_fields t ms < clock_fields t' ms' \<or> clock_fields t ms = clock_fields t' ms' \<and> u < v)"
  using assms by (auto simp: stamp_text_def clock_fields_def calendar_ok_def year_order padded_order)

text \<open>
  Entries of the log with different times stand in the order of their times when the log is sorted
  as text, whatever they say, for times after 1970.
\<close>

theorem log_sorts_by_time:
  assumes "0 \<le> now" and "0 \<le> now'"
    and "calendar_ok (local_time (now sdiv 1000))" and "calendar_ok (local_time (now' sdiv 1000))"
    and "clock_fields (local_time (now sdiv 1000)) (now smod 1000) < clock_fields (local_time (now' sdiv 1000)) (now' smod 1000)"
  shows "log_entry (format_timestamp_iso8601_ms local_time now) port event detail
    < log_entry (format_timestamp_iso8601_ms local_time now') port' event' detail'"
proof -
  have "0 \<le> k smod 1000 \<and> k smod 1000 \<le> 999" if "0 \<le> k" for k :: int
    using that pos_mod_bound [of 1000 k] by (cases "k = 0") (auto simp: signed_modulo_int_def sgn_if)
  then have "now smod 1000 \<in> {0..999}" "now' smod 1000 \<in> {0..999}" using assms(1,2) by simp_all
  from stamp_order [OF assms(3,4) this] assms(5) show ?thesis
    by (simp add: log_entry_def format_timestamp_iso8601_ms_def)
qed

end
