(* ===== verification/Booth_Cli.thy ===== *)
theory Booth_Cli
  imports Orch_Props
begin

text \<open>
  The command line peer \<open>src/tools/booth_cli.cpp\<close>: its arguments, the lines it logs, the
  observers it hands to the orchestrator and its exit codes. The orchestrator's threads are
  those of \<open>Orch_System\<close>; here they are seen through the list of states they published.
  Usage texts on the standard error stream, the sleeps and the signal handlers are left out.
  No code of the repository assigns \<open>dev_log\<close>, so the part of a line that shows it is absent.
\<close>

section \<open>Arguments\<close>

record cli_args =
  ca_mode :: string
  ca_port :: int
  ca_config :: string
  ca_peer :: string
  ca_file :: string
  ca_note :: string
  ca_wiring_probe :: bool
  ca_auto_accept :: bool

definition default_cli_args :: cli_args where
  "default_cli_args = \<lparr>ca_mode = [], ca_port = 0, ca_config = [], ca_peer = [], ca_file = [], ca_note = [],
     ca_wiring_probe = True, ca_auto_accept = False\<rparr>"

text \<open>\<open>std::atoi\<close>: zero without digits; \<open>strtol\<close> saturates at 64 bits, the cast keeps 32.\<close>

definition atoi :: "string \<Rightarrow> int" where
  "atoi s = (case strtol 10 s of None \<Rightarrow> 0
     | Some (neg, n) \<Rightarrow> let v = (if neg then max (- (2 ^ 63)) (- int n) else min (2 ^ 63 - 1) (int n))
         in sint (word_of_int v :: 32 word))"

text \<open>
  The options that take a value. \<open>next_value\<close> fails at the end of the arguments; the chain of
  conditions then goes on and ends at the unknown argument.
\<close>

definition next_value :: "string list \<Rightarrow> (string \<times> string list) option" where
  "next_value rest = (case rest of [] \<Rightarrow> None | value # after \<Rightarrow> Some (value, after))"

definition valued_option :: "string \<Rightarrow> string \<Rightarrow> cli_args \<Rightarrow> cli_args option" where
  "valued_option key value out =
     (if key = ''--port'' then Some (out\<lparr>ca_port := atoi value\<rparr>)
      else if key = ''--config'' then Some (out\<lparr>ca_config := value\<rparr>)
      else if key = ''--to'' then Some (out\<lparr>ca_peer := value\<rparr>)
      else if key = ''--file'' then Some (out\<lparr>ca_file := value\<rparr>)
      else if key = ''--note'' then Some (out\<lparr>ca_note := value\<rparr>)
      else None)"

definition flag_option :: "string \<Rightarrow> cli_args \<Rightarrow> cli_args option" where
  "flag_option key out =
     (if key = ''--no-wiring-probe'' then Some (out\<lparr>ca_wiring_probe := False\<rparr>)
      else if key = ''--open'' then Some (out\<lparr>ca_auto_accept := True\<rparr>)
      else None)"

definition parse_option :: "string \<Rightarrow> string list \<Rightarrow> cli_args \<Rightarrow> (cli_args \<times> string list) option" where
  "parse_option key rest out =
     (case Option.bind (next_value rest) (\<lambda>(value, after). map_option (\<lambda>out'. (out', after)) (valued_option key value out)) of
        Some r \<Rightarrow> Some r
      | None \<Rightarrow> map_option (\<lambda>out'. (out', rest)) (flag_option key out))"

lemma parse_option_shorter: "parse_option key rest out = Some (out', after) \<Longrightarrow> length after \<le> length rest"
  by (auto simp: parse_option_def next_value_def split: list.splits option.splits bind_splits)

function parse_options :: "string list \<Rightarrow> cli_args \<Rightarrow> cli_args option" where
  "parse_options [] out = Some out"
| "parse_options (key # rest) out = (case parse_option key rest out of
       None \<Rightarrow> None
     | Some (out', after) \<Rightarrow> parse_options after out')"
  by pat_completeness auto
termination
  by (relation "measure (\<lambda>(args, out). length args)") (auto dest: parse_option_shorter)

text \<open>The first element of \<open>argv\<close> is the program, the second the mode.\<close>

definition parse_args :: "string list \<Rightarrow> cli_args option" where
  "parse_args argv = (case argv of
       _ # mode # rest \<Rightarrow> parse_options rest (default_cli_args\<lparr>ca_mode := mode\<rparr>)
     | _ \<Rightarrow> None)"

text \<open>\<open>main\<close>: what is run, or the exit code at once. \<open>Run_Listen\<close> and \<open>Run_Probe\<close> clear the log first.\<close>

datatype cli_command = Run_Exit int | Run_Listen cli_args | Run_Send cli_args | Run_Probe cli_args

definition cli_main :: "string list \<Rightarrow> cli_command" where
  "cli_main argv = (case parse_args argv of
       None \<Rightarrow> Run_Exit 1
     | Some args \<Rightarrow>
         if ca_mode args = ''listen'' then (if ca_config args = [] then Run_Exit 1 else Run_Listen args)
         else if ca_mode args = ''send'' then (if ca_config args = [] then Run_Exit 1 else Run_Send args)
         else if ca_mode args = ''probe'' then Run_Probe args
         else Run_Exit 1)"

section \<open>The line that describes a state\<close>

text \<open>
  A \<open>double\<close> on a stream without manipulators: six significant digits, \<open>%g\<close>. The exponent of
  a positive fraction is read off the lengths of its terms, then corrected by at most one.
\<close>

definition decimal_exponent :: "double \<Rightarrow> int" where
  "decimal_exponent x = (let (p, q) = quotient_of x;
       e = int (length (show_int p)) - int (length (show_int q))
     in if of_int q * 10 ^ nat e \<le> (of_int p :: rat) * 10 ^ nat (- e) then e else e - 1)"

definition trim_zeros :: "string \<Rightarrow> string" where
  "trim_zeros s = strip_back (\<lambda>c. c = CHR ''.'') (strip_back (\<lambda>c. c = CHR ''0'') s)"

definition show_general :: "double \<Rightarrow> string" where
  "show_general x = (if x = 0 then ''0'' else
     let e0 = decimal_exponent x;
         digits = (if e0 \<le> 5 then round_half_even (x * 10 ^ nat (5 - e0)) else round_half_even (x / 10 ^ nat (e0 - 5)));
         e = (if digits = 10 ^ 6 then e0 + 1 else e0);
         mantissa = show_int (if digits = 10 ^ 6 then 10 ^ 5 else digits)
     in if - 4 \<le> e \<and> e < 6
        then (if e = 5 then show_fixed 0 x else trim_zeros (show_fixed (nat (5 - e)) x))
        else trim_zeros (take 1 mantissa @ ''.'' @ drop 1 mantissa) @ ''e'' @ (if e < 0 then ''-'' else ''+'')
          @ (if \<bar>e\<bar> < 10 then ''0'' else []) @ show_nat (nat \<bar>e\<bar>))"

definition show_flag :: "bool \<Rightarrow> string" where
  "show_flag b = (if b then ''1'' else ''0'')"

definition state_line :: "orch_ui \<Rightarrow> string" where
  "state_line state =
     ''busy='' @ show_flag (ui_busy state) @ '' waiting='' @ show_flag (ui_waiting_for_partner state)
     @ '' status='' @ [CHR 0x22] @ ui_status_message state @ [CHR 0x22]
     @ (if ui_error_message state \<noteq> [] then '' err='' @ [CHR 0x22] @ ui_error_message state @ [CHR 0x22] else [])
     @ (if 0 < ui_bytes_total state
        then '' bytes='' @ show_nat (unat (ui_bytes_done state)) @ ''/'' @ show_nat (unat (ui_bytes_total state))
          @ '' mbps='' @ show_general (ui_live_mbps state) else [])
     @ (if ui_notification state \<noteq> []
        then '' notification='' @ [CHR 0x22] @ ui_notification state @ [CHR 0x22] else [])"

section \<open>Listening\<close>

text \<open>How a command ends: an exit code, or an exception that leaves \<open>main\<close>.\<close>

datatype cli_end = Cli_Exit int | Cli_Aborted

definition load_cli_identity :: "environment \<Rightarrow> file_system \<Rightarrow> cli_args \<Rightarrow> cli_end + identity_profile" where
  "load_cli_identity env fs args = (case load_identity_profile env fs (ca_port args) (ca_config args) of
       Inl _ \<Rightarrow> Inl Cli_Aborted
     | Inr (ok, identity) \<Rightarrow> if ok then Inr identity else Inl (Cli_Exit 1))"

text \<open>The observer logs a line when it differs from the last one.\<close>

definition log_state :: "int \<Rightarrow> orch_ui \<Rightarrow> string \<Rightarrow> string \<times> log_line list" where
  "log_state port state last_status = (let line = state_line state
     in if line \<noteq> last_status then (line, [(port, ''state'', line)]) else (last_status, []))"

definition listen_observe :: "int \<Rightarrow> orch_ui \<Rightarrow> string \<times> log_line list \<Rightarrow> string \<times> log_line list" where
  "listen_observe port state w =
     (let (last_status, lines) = log_state port state (fst w)
      in (last_status, snd w @ lines @ (case ui_pending_offer state of
            None \<Rightarrow> []
          | Some offer \<Rightarrow> [(port, ''pending_offer'',
              ''from='' @ sm_from_name offer @ '' file='' @ sm_payload_name offer)])))"

definition listen_identity :: "cli_args \<Rightarrow> identity_profile \<Rightarrow> identity_profile" where
  "listen_identity args identity =
     (if ca_auto_accept args then identity\<lparr>ip_receive_status := Status_Open\<rparr> else identity)"

text \<open>The run until it is stopped, over the states published meanwhile.\<close>

definition run_listen :: "environment \<Rightarrow> file_system \<Rightarrow> cli_args \<Rightarrow> orch_ui list \<Rightarrow> cli_end \<times> log_line list" where
  "run_listen env fs args states = (case load_cli_identity env fs args of
       Inl e \<Rightarrow> (e, [])
     | Inr loaded \<Rightarrow>
         let identity = listen_identity args loaded;
             start = [(ca_port args, ''listen_start'', ''name='' @ ip_display_name identity @ '' config='' @ ca_config args
               @ '' receive='' @ receive_status_to_string (ip_receive_status identity)
               @ '' folder='' @ ip_receive_folder identity)];
             (_, lines) = fold (listen_observe (ca_port args)) states ([], start)
         in (Cli_Exit 0, lines @ [(ca_port args, ''listen_stop'', [])]))"

section \<open>Sending\<close>

record send_watch =
  sw_finished :: bool
  sw_success :: bool
  sw_started :: bool
  sw_last_status :: string
  sw_log :: "log_line list"

definition new_send_watch :: send_watch where
  "new_send_watch = \<lparr>sw_finished = False, sw_success = False, sw_started = False, sw_last_status = [], sw_log = []\<rparr>"

definition send_observe :: "int \<Rightarrow> orch_ui \<Rightarrow> send_watch \<Rightarrow> send_watch" where
  "send_observe port state w =
     (let (last_status, lines) = log_state port state (sw_last_status w);
          w1 = w\<lparr>sw_last_status := last_status, sw_log := sw_log w @ lines\<rparr>;
          w2 = (if ui_busy state \<or> ui_waiting_for_partner state then w1\<lparr>sw_started := True\<rparr> else w1)
      in if sw_started w2 \<and> \<not> ui_busy state \<and> \<not> ui_waiting_for_partner state
         then w2\<lparr>sw_finished := True, sw_success :=
           (if ui_error_message state \<noteq> [] then False else contains ''complete'' (ui_status_message state))\<rparr>
         else w2)"

definition settle_ms :: "cli_args \<Rightarrow> int" where
  "settle_ms args = (if ca_wiring_probe args then (if 0 < ca_port args then 2500 else 1500) else 400)"

definition kHandshakeTimeoutSec :: int where "kHandshakeTimeoutSec = 15"

text \<open>The end of the wait, with the watch as it is when the loop is left.\<close>

definition send_end :: "cli_args \<Rightarrow> send_watch \<Rightarrow> cli_end \<times> log_line list" where
  "send_end args w =
     (if \<not> sw_finished w
      then (Cli_Exit 2, sw_log w @ [(ca_port args, ''send_timeout'',
        ''no terminal state within '' @ show_int (kHandshakeTimeoutSec + 10) @ ''s'')])
      else (Cli_Exit (if sw_success w then 0 else 3),
        sw_log w @ [(ca_port args, if sw_success w then ''send_ok'' else ''send_fail'', sw_last_status w)]))"

text \<open>
  The run over the states published before the call of \<open>send_to_peer\<close>, its answer, and the
  states published until the loop is left (by \<open>finished\<close> or the deadline).
\<close>

definition run_send :: "environment \<Rightarrow> file_system \<Rightarrow> cli_args \<Rightarrow> orch_ui list \<Rightarrow> bool \<Rightarrow> orch_ui list
    \<Rightarrow> cli_end \<times> log_line list" where
  "run_send env fs args before accepted during =
     (if ca_peer args = [] \<or> ca_file args = [] then (Cli_Exit 1, [])
      else case load_cli_identity env fs args of
        Inl e \<Rightarrow> (e, [])
      | Inr identity \<Rightarrow>
          let start = [(ca_port args, ''send_start'',
                ''name='' @ ip_display_name identity @ '' to='' @ ca_peer args @ '' file='' @ ca_file args)];
              w = fold (send_observe (ca_port args)) before (new_send_watch\<lparr>sw_log := start\<rparr>)
          in if \<not> accepted
             then (Cli_Exit 1, sw_log w @ [(ca_port args, ''send_rejected'', ''orchestrator busy or peer missing'')])
             else send_end args (fold (send_observe (ca_port args)) during w))"

section \<open>Probing\<close>

definition probe_identity :: identity_profile where
  "probe_identity = default_identity_profile\<lparr>ip_display_name := ''probe'', ip_receive_status := Status_Open\<rparr>"

definition probe_settle_ms :: "cli_args \<Rightarrow> int" where
  "probe_settle_ms args = (if ca_wiring_probe args then 3000 else 500)"

definition run_probe :: "cli_args \<Rightarrow> cli_end \<times> log_line list" where
  "run_probe args = (Cli_Exit 0, [(ca_port args, ''probe_start'', []), (ca_port args, ''probe_done'', [])])"

section \<open>What the exit codes say\<close>

lemma show_fixed_chars: "set (show_fixed p x) \<subseteq> {c. is_digit c \<or> c = CHR ''.''}"
proof -
  have digits: "set (show_nat n) \<subseteq> {c. is_digit c \<or> c = CHR ''.''}" for n
    using show_nat_digits by blast
  have zeros: "set (replicate k (CHR ''0'')) \<subseteq> {c. is_digit c \<or> c = CHR ''.''}" for k
    by (auto simp: is_digit_def)
  show ?thesis using digits zeros by (simp add: show_fixed_def Let_def)
qed

lemma done_message_not_complete: "\<not> contains ''complete'' (transfer_done_message sent mbps)"
proof -
  have "contains ''complete'' s \<Longrightarrow> CHR ''m'' \<in> set s" for s
    by (auto simp: contains_iff)
  moreover have "CHR ''m'' \<notin> set (show_fixed p x)" for p x
    using show_fixed_chars by (fastforce simp: is_digit_def)
  ultimately show ?thesis
    by (fastforce simp: transfer_done_message_def format_mbps_rate_def split: if_splits)
qed

text \<open>
  Whatever a transfer comes to, the command line peer reports a failure: the state that ends
  a successful send says \<open>Sent\<close> or \<open>Sent at\<close> a rate, while the observer looks for the word
  complete, so the exit code is 3 as it is for an error.
\<close>

theorem cli_send_never_succeeds:
  assumes "\<not> oc_shutting_down s" and "sw_started w" and "if ok then kind = Done_Sent else error \<noteq> []"
  shows "\<exists>st. oc_published (finish_transfer ok message error result kind s) = oc_published s @ [st]
    \<and> fst (send_end args (send_observe port st w)) = Cli_Exit 3"
proof -
  obtain st where st: "oc_published (finish_transfer ok message error result kind s) = oc_published s @ [st]"
      "\<not> ui_busy st" "\<not> ui_waiting_for_partner st" "ui_error_message st = (if ok then [] else error)"
      "ok \<and> kind \<noteq> Done_None \<longrightarrow> (\<exists>rate. ui_status_message st = transfer_done_message (kind = Done_Sent) rate)"
    using finish_publishes [OF assms(1), of ok message error result kind] by blast
  have "ui_error_message st \<noteq> [] \<or> \<not> contains ''complete'' (ui_status_message st)"
    using st(4,5) assms(3) done_message_not_complete by (auto split: if_splits)
  with st assms(2) have "fst (send_end args (send_observe port st w)) = Cli_Exit 3"
    by (auto simp: send_end_def send_observe_def Let_def log_state_def)
  with st(1) show ?thesis by blast
qed

lemma cli_send_never_succeeds_witness:
  "\<exists>st. oc_published (finish_transfer True ''Send complete'' [] None Done_Sent sample_orch) = [st]
    \<and> fst (send_end default_cli_args (send_observe 0 st (new_send_watch\<lparr>sw_started := True\<rparr>))) = Cli_Exit 3"
  using cli_send_never_succeeds [of sample_orch "new_send_watch\<lparr>sw_started := True\<rparr>" True Done_Sent "[]" "''Send complete''" None
      default_cli_args 0]
  by (simp add: sample_orch_def)

section \<open>The arguments read back\<close>

lemma atoi_show_int: "- (2 ^ 31) \<le> i \<Longrightarrow> i < 2 ^ 31 \<Longrightarrow> atoi (show_int i) = i"
  by (auto simp: atoi_def show_int_def text_simps signed_of_int signed_take_bit_int_eq_self)

definition cli_tokens :: "cli_args \<Rightarrow> string list" where
  "cli_tokens args = [''--port'', show_int (ca_port args), ''--config'', ca_config args, ''--to'', ca_peer args,
       ''--file'', ca_file args, ''--note'', ca_note args]
     @ (if ca_wiring_probe args then [] else [''--no-wiring-probe''])
     @ (if ca_auto_accept args then [''--open''] else [])"

text \<open>
  Arguments written out with any values, even ones that look like options, are read back
  exactly.
\<close>

theorem cli_args_roundtrip:
  assumes "- (2 ^ 31) \<le> ca_port args" and "ca_port args < 2 ^ 31"
  shows "parse_args (prog # ca_mode args # cli_tokens args) = Some args"
  using atoi_show_int [OF assms]
  by (cases args) (simp add: parse_args_def cli_tokens_def default_cli_args_def valued_option_def parse_option_def next_value_def
      flag_option_def)

lemma cli_args_roundtrip_witness:
  "parse_args (''booth-cli'' # ''send'' # cli_tokens (default_cli_args\<lparr>ca_mode := ''send'', ca_peer := ''--open''\<rparr>))
     = Some (default_cli_args\<lparr>ca_mode := ''send'', ca_peer := ''--open''\<rparr>)"
  using cli_args_roundtrip [of "default_cli_args\<lparr>ca_mode := ''send'', ca_peer := ''--open''\<rparr>" "''booth-cli''"]
  by (simp add: default_cli_args_def)

end
