(* ===== verification/Test_Tools.thy ===== *)
theory Test_Tools
  imports Booth_Cli Controller Usb_Loopback
begin

text \<open>
  The drivers below \<open>tools\<close> that print what the library does: \<open>usb_probe.cpp\<close>, \<open>send_repro.cpp\<close>,
  \<open>usb_loopback_test.cpp\<close>, \<open>usb_pair_test.cpp\<close> and \<open>fabric_session_test.cpp\<close>. What is modelled are
  the probe's output, what the observers remember, and the exit codes; progress lines, sleeps and
  process handling are left out.
\<close>

section \<open>The probe\<close>

text \<open>The descriptors libusb hands out beside those of the device itself.\<close>

record endpoint_descriptor =
  en_address :: u8
  en_attributes :: u8
  en_max_packet :: "16 word"

record alt_setting =
  as_interface :: u8
  as_alternate :: u8
  as_endpoints :: "endpoint_descriptor list"

type_synonym probed_device = "libusb_device \<times> alt_setting list list option"

definition padded_hex :: "nat \<Rightarrow> nat \<Rightarrow> string" where
  "padded_hex w n = replicate (w - length (show_hex n)) (CHR ''0'') @ show_hex n"

definition kTransferTypeMask :: u8 where "kTransferTypeMask = 3"

definition endpoint_line :: "endpoint_descriptor \<Rightarrow> string" where
  "endpoint_line e = ''    ep addr=0x'' @ padded_hex 2 (unat (en_address e)) @ '' type=''
     @ show_nat (unat (and (en_attributes e) kTransferTypeMask)) @ '' max_packet='' @ show_nat (unat (en_max_packet e))"

definition setting_lines :: "alt_setting \<Rightarrow> string list" where
  "setting_lines s = (''  interface '' @ show_nat (unat (as_interface s)) @ '' alt '' @ show_nat (unat (as_alternate s))
     @ '' endpoints='' @ show_nat (length (as_endpoints s))) # map endpoint_line (as_endpoints s)"

definition match_lines :: "nat \<Rightarrow> probed_device \<Rightarrow> string list" where
  "match_lines matches d = (''match['' @ show_nat matches @ ''] bus='' @ show_nat (unat (ld_bus (fst d)))
     @ '' addr='' @ show_nat (unat (ld_addr (fst d))))
     # (case snd d of None \<Rightarrow> [] | Some config \<Rightarrow> concat (map (\<lambda>alts. concat (map setting_lines alts)) config))"

fun probe_loop :: "nat \<Rightarrow> probed_device list \<Rightarrow> nat \<times> string list" where
  "probe_loop matches [] = (matches, [])"
| "probe_loop matches (d # ds) =
     (if \<not> is_fabric (fst d) then probe_loop matches ds
      else case probe_loop (matches + 1) ds of (m, lines) \<Rightarrow> (m, match_lines matches d @ lines))"

text \<open>The exit code and the lines on the standard output; messages on the error output are left out.\<close>

definition usb_probe_main :: "bool \<Rightarrow> probed_device list option \<Rightarrow> int \<times> string list" where
  "usb_probe_main init_ok devices =
     (if \<not> init_ok then (1, [])
      else case devices of
        None \<Rightarrow> (1, [])
      | Some ds \<Rightarrow> (case probe_loop 0 ds of (matches, lines) \<Rightarrow>
          if matches = 0
          then (2, lines @ [''No device '' @ padded_hex 4 (unat kVendorId) @ '':'' @ padded_hex 4 (unat kProductId)
            @ '' found. Plug in the FPGA USB-C cable.''])
          else (0, lines @ [''Total matching devices: '' @ show_nat matches @ '' (loopback needs 2 on one PC)''])))"

lemma probe_loop_counts: "fst (probe_loop n ds) = n + length (filter (is_fabric \<circ> fst) ds)"
  by (induction ds arbitrary: n) (auto split: prod.splits simp: prod_eq_iff)

text \<open>The probe finds a device exactly when the library lists one.\<close>

lemma probe_agrees:
  assumes "ue_ctx env" and "ue_get_device_list env u = (Some (map fst ds), u')"
  shows "fst (usb_probe_main True (Some ds)) = (if fst (count_fabric_devices env u) = 0 then 2 else 0)"
proof -
  have "fst (list_fabric_devices env u) = sort (map fabric_id (filter is_fabric (map fst ds)))"
    using assms by (simp add: list_fabric_devices_def)
  then have "fst (count_fabric_devices env u) = int (length (filter (is_fabric \<circ> fst) ds))"
    by (simp add: count_fabric_devices_def case_prod_beta filter_map)
  then show ?thesis using probe_loop_counts [of 0 ds] by (auto simp: usb_probe_main_def split: prod.splits)
qed

section \<open>One transfer\<close>

text \<open>
  \<open>send_repro\<close>: \<open>states\<close> are what the controller publishes within the 30 seconds it waits. Any state
  that is not busy ends the wait, so the exit code does not tell a failed transfer from a good one.
\<close>

definition repro_meta :: fabric_send_meta where
  "repro_meta = \<lparr>fm_type = ''file'', fm_relative_name = ''sls-drop-test.dat''\<rparr>"

definition repro_arguments :: "string list \<Rightarrow> int \<times> string" where
  "repro_arguments argv = (if 2 \<le> length argv then atoi (argv ! 1) else 1,
     if 3 \<le> length argv then argv ! 2 else ''/tmp/sls-drop-test.dat'')"

definition repro_observe :: "transfer_ui_state \<Rightarrow> bool \<Rightarrow> bool" where
  "repro_observe state finished = (if \<not> tu_busy state then True else finished)"

definition send_repro_main :: "transfer_ui_state list \<Rightarrow> int" where
  "send_repro_main states = (if fold repro_observe states False then 0 else 2)"

lemma repro_finished: "fold repro_observe states finished = (finished \<or> (\<exists>x \<in> set states. \<not> tu_busy x))"
  by (induction states arbitrary: finished) (auto simp: repro_observe_def)

lemma repro_passes_after_failure:
  assumes "\<not> tc_shutting_down c"
  shows "send_repro_main (tc_published (finish_worker (failed_transfer e) kind c)) = 0"
  using assms
  by (simp add: send_repro_main_def repro_finished repro_observe_def finish_worker_def publish_transfer_ui_def
      set_transfer_ui_def should_emit_ui_def)

section \<open>Two cables on one computer\<close>

text \<open>\<open>usb_loopback_test\<close>; no exit code when the loopback never returns.\<close>

definition usb_loopback_main :: "nat \<Rightarrow> 'u usb_env \<Rightarrow> ('u \<Rightarrow> cross_action list \<times> 'u) \<Rightarrow> string list \<Rightarrow> file_system \<Rightarrow> 'u
    \<Rightarrow> (int \<times> file_system) option" where
  "usb_loopback_main fuel env schedule argv fs u =
     (if length argv < 2 then Some (1, fs)
      else if \<not> ue_ctx env then Some (1, fs)
      else case count_fabric_devices env u of (devices, u1) \<Rightarrow>
        if devices < 2 then Some (2, fs)
        else map_option (\<lambda>(r, fs1, u2). (if tr_ok r then 0 else 1, fs1))
          (loopback_transfer_core fuel env schedule (argv ! 1) 0 1 fs u1))"

text \<open>
  \<open>usb_pair_test\<close> after its two transfers have returned. The file is only compared, byte by byte,
  when both succeeded; the copy is removed in any case.
\<close>

definition pair_ports :: "string list \<Rightarrow> int \<times> int" where
  "pair_ports argv = (if 3 \<le> length argv then atoi (argv ! 2) else 0, if 4 \<le> length argv then atoi (argv ! 3) else 1)"

definition pair_start :: "bool \<Rightarrow> string list \<Rightarrow> int \<Rightarrow> int option" where
  "pair_start init_ok argv devices =
     (if length argv < 2 then Some 1 else if \<not> init_ok then Some 1 else if devices < 2 then Some 2 else None)"

definition pair_end :: "transfer_result \<Rightarrow> transfer_result \<Rightarrow> string \<Rightarrow> file_system \<Rightarrow> int \<times> file_system" where
  "pair_end sent_r recv_r src fs =
     (let dst = src @ ''.pair_recv'';
          data_ok = (tr_ok sent_r \<and> tr_ok recv_r \<and> files_equal src dst fs)
      in (if tr_ok sent_r \<and> tr_ok recv_r \<and> data_ok then 0 else 1, snd (remove_path dst fs)))"

text \<open>Exit code 0 means that the file and its copy were there and equal.\<close>

lemma pair_passes:
  "fst (pair_end sent_r recv_r src fs) = 0 \<longleftrightarrow> tr_ok sent_r \<and> tr_ok recv_r
     \<and> (\<exists>bytes. read_file src fs = Some bytes \<and> read_file (src @ ''.pair_recv'') fs = Some bytes)"
  by (auto simp: pair_end_def files_equal_def files_equal_loop_iff Let_def split: option.splits)

section \<open>Two orchestrators on one computer\<close>

definition peer_name_for_port :: "identity_profile \<Rightarrow> int \<Rightarrow> string" where
  "peer_name_for_port identity port =
     (case find (\<lambda>peer. pc_port_index peer = port) (ip_peers identity) of None \<Rightarrow> [] | Some peer \<Rightarrow> pc_display_name peer)"

record test_watch =
  wt_done :: bool
  wt_ok :: bool

definition new_test_watch :: test_watch where
  "new_test_watch = \<lparr>wt_done = False, wt_ok = False\<rparr>"

definition receiver_observe :: "orch_ui \<Rightarrow> test_watch \<Rightarrow> test_watch" where
  "receiver_observe state w = (if ui_notification state \<noteq> [] then \<lparr>wt_done = True, wt_ok = (ui_error_message state = [])\<rparr> else w)"

definition sender_observe :: "orch_ui \<Rightarrow> test_watch \<Rightarrow> test_watch" where
  "sender_observe state w =
     (if \<not> ui_busy state \<and> contains ''complete'' (ui_status_message state)
      then \<lparr>wt_done = True, wt_ok = (ui_error_message state = [])\<rparr> else w)"

text \<open>
  The receiver's exit code with what it writes to the result file, and the sender's exit code
  with the first line it reads there; \<open>states\<close> are those published before the deadline.
\<close>

definition run_receiver :: "orch_ui list \<Rightarrow> int \<times> string" where
  "run_receiver states = (let w = fold receiver_observe states new_test_watch
     in (if wt_done w \<and> wt_ok w then 0 else 1, if wt_done w \<and> wt_ok w then ''ok'' else ''fail''))"

definition sender_end :: "bool \<Rightarrow> orch_ui list \<Rightarrow> string \<Rightarrow> int" where
  "sender_end accepted states recv_r =
     (if \<not> accepted then 1
      else let w = fold sender_observe states new_test_watch in if wt_done w \<and> wt_ok w \<and> recv_r = ''ok'' then 0 else 1)"

text \<open>
  The sender waits for the word complete in the status, but a finished transfer says Sent: the
  state that ends it changes nothing for the observer, so the test fails after its deadline.
\<close>

lemma sender_never_sees_the_end:
  assumes "\<not> oc_shutting_down s" and "if ok then kind = Done_Sent else \<not> contains ''complete'' message"
  shows "\<exists>st. oc_published (finish_transfer ok message error result kind s) = oc_published s @ [st] \<and> sender_observe st w = w"
proof -
  obtain st where st: "oc_published (finish_transfer ok message error result kind s) = oc_published s @ [st]"
      "ok \<and> kind \<noteq> Done_None \<longrightarrow> (\<exists>rate. ui_status_message st = transfer_done_message (kind = Done_Sent) rate)"
      "\<not> ok \<longrightarrow> ui_status_message st = message"
    using finish_publishes [OF assms(1), of ok message error result kind] by blast
  then have "\<not> contains ''complete'' (ui_status_message st)"
    using assms(2) done_message_not_complete by (cases ok) auto
  with st(1) show ?thesis by (simp add: sender_observe_def)
qed

lemma session_test_fails:
  assumes "\<forall>x \<in> set states. sender_observe x new_test_watch = new_test_watch"
  shows "sender_end accepted states recv_r = 1"
proof -
  have "fold sender_observe states new_test_watch = new_test_watch" using assms by (induction states) auto
  then show ?thesis by (simp add: sender_end_def new_test_watch_def)
qed

end
