(* ===== verification/Speed_Chart.thy ===== *)
theory Speed_Chart
  imports Link_Status
begin

text \<open>
  The activity monitor of the desktop application, \<open>src/apps/wx/speed_monitor.cpp\<close>: the chart's
  buckets of 400 ms, what is recorded in them, the geometry of the bars, and the texts above the
  chart. Times are nanoseconds of the steady clock; its epoch is the time point that stands for
  none. Fonts, colours and the legend are left out.
\<close>

section \<open>The chart\<close>

definition kMaxBuckets :: nat where "kMaxBuckets = 28"
definition kBucketMs :: int where "kBucketMs = 400"
definition kMinIntervalMs :: int where "kMinIntervalMs = 100"
definition kMaxSessionPerBucket :: int where "kMaxSessionPerBucket = 5"

record timed_bucket =
  tb_session :: int
  tb_transfer_mbps :: double
  tb_start :: int

definition new_bucket :: "int \<Rightarrow> timed_bucket" where
  "new_bucket start = \<lparr>tb_session = 0, tb_transfer_mbps = 0, tb_start = start\<rparr>"

record speed_chart =
  ch_buckets :: "timed_bucket list"
  ch_recording :: bool
  ch_last_value :: double
  ch_last_push :: int
  ch_bucket_start :: int
  ch_scale_floor :: double

definition new_speed_chart :: speed_chart where
  "new_speed_chart = \<lparr>ch_buckets = [], ch_recording = False, ch_last_value = - 1, ch_last_push = 0,
     ch_bucket_start = 0, ch_scale_floor = 0\<rparr>"

text \<open>\<open>duration_cast\<close> to milliseconds, of a difference that is not negative.\<close>

definition elapsed_ms :: "int \<Rightarrow> int \<Rightarrow> int" where
  "elapsed_ms since now = (now - since) div 1000000"

definition append_bucket :: "speed_chart \<Rightarrow> speed_chart" where
  "append_bucket c = (let start = ch_bucket_start c + kBucketMs * 1000000;
       buckets = ch_buckets c @ [new_bucket start]
     in c\<lparr>ch_bucket_start := start, ch_buckets := drop (length buckets - kMaxBuckets) buckets\<rparr>)"

lemma append_bucket_start [simp]: "ch_bucket_start (append_bucket c) = ch_bucket_start c + 400000000"
  by (simp add: append_bucket_def Let_def kBucketMs_def)

function advance_buckets :: "int \<Rightarrow> speed_chart \<Rightarrow> speed_chart" where
  "advance_buckets now c = (if kBucketMs \<le> elapsed_ms (ch_bucket_start c) now
     then advance_buckets now (append_bucket c) else c)"
  by pat_completeness auto
termination
  by (relation "measure (\<lambda>(now, c). nat (now - ch_bucket_start c))") (auto simp: elapsed_ms_def kBucketMs_def)

declare advance_buckets.simps [simp del]

definition ensure_bucket :: "int \<Rightarrow> speed_chart \<Rightarrow> speed_chart" where
  "ensure_bucket now c = (if ch_buckets c = [] then c\<lparr>ch_bucket_start := now, ch_buckets := [new_bucket now]\<rparr>
     else advance_buckets now c)"

definition update_last_bucket :: "(timed_bucket \<Rightarrow> timed_bucket) \<Rightarrow> speed_chart \<Rightarrow> speed_chart" where
  "update_last_bucket f c = c\<lparr>ch_buckets := butlast (ch_buckets c) @ [f (last (ch_buckets c))]\<rparr>"

definition push_session_pulse :: "int \<Rightarrow> speed_chart \<Rightarrow> speed_chart" where
  "push_session_pulse now c = update_last_bucket
     (\<lambda>b. b\<lparr>tb_session := min kMaxSessionPerBucket (tb_session b + 1)\<rparr>) (ensure_bucket now c)"

text \<open>A sample that comes early and differs little from the last one is dropped.\<close>

definition sample_skipped :: "int \<Rightarrow> double \<Rightarrow> speed_chart \<Rightarrow> bool" where
  "sample_skipped now value c \<longleftrightarrow> ch_last_push c \<noteq> 0 \<and> elapsed_ms (ch_last_push c) now < kMinIntervalMs
     \<and> \<bar>value - ch_last_value c\<bar> < 5 / 100"

definition push_sample :: "int \<Rightarrow> double \<Rightarrow> speed_chart \<Rightarrow> speed_chart" where
  "push_sample now mbps c = (let value = max 0 mbps
     in if sample_skipped now value c then c
        else update_last_bucket (\<lambda>b. b\<lparr>tb_transfer_mbps := max (tb_transfer_mbps b) value\<rparr>)
          (ensure_bucket now (c\<lparr>ch_last_push := now, ch_last_value := value\<rparr>)))"

definition ensure_chart :: "int \<Rightarrow> speed_chart \<Rightarrow> speed_chart" where
  "ensure_chart now c = (if ch_buckets c = [] then ensure_bucket now c else c)"

definition clear_chart :: "speed_chart \<Rightarrow> speed_chart" where
  "clear_chart c = c\<lparr>ch_buckets := [], ch_last_value := - 1, ch_last_push := 0, ch_bucket_start := 0, ch_scale_floor := 0\<rparr>"

definition clear_transfer_track :: "speed_chart \<Rightarrow> speed_chart" where
  "clear_transfer_track c =
     c\<lparr>ch_buckets := map (\<lambda>b. b\<lparr>tb_transfer_mbps := 0\<rparr>) (ch_buckets c), ch_scale_floor := 0\<rparr>"

definition set_scale_floor :: "double \<Rightarrow> speed_chart \<Rightarrow> speed_chart" where
  "set_scale_floor mbps c = c\<lparr>ch_scale_floor := max 0 mbps\<rparr>"

definition set_recording :: "bool \<Rightarrow> speed_chart \<Rightarrow> speed_chart" where
  "set_recording b c = c\<lparr>ch_recording := b\<rparr>"

section \<open>Painting\<close>

definition transfer_scale_max :: "speed_chart \<Rightarrow> double" where
  "transfer_scale_max c =
     (let peak = fold (\<lambda>b p. max p (tb_transfer_mbps b)) (ch_buckets c) 4;
          peak = (if 0 < ch_scale_floor c then max peak (ch_scale_floor c) else peak)
      in max 4 (peak * (115 / 100)))"

text \<open>\<open>std::lround\<close> of a value that is not negative.\<close>

definition lround :: "double \<Rightarrow> int" where
  "lround x = \<lfloor>x + 1 / 2\<rfloor>"

text \<open>The size of the plot in a panel of the given size.\<close>

definition plot_width :: "int \<Rightarrow> int" where
  "plot_width sx = max 0 (sx - 8 * 2)"

definition plot_height :: "int \<Rightarrow> int" where
  "plot_height sy = max 14 (sy - 3 - 14 - 3 - 8)"

definition bar_width :: "int \<Rightarrow> nat \<Rightarrow> int" where
  "bar_width plot_w n = (let count = max (int n) 1 in max 2 ((plot_w - 2 * (count - 1)) div count))"

definition session_cap :: "int \<Rightarrow> int" where
  "session_cap plot_h = max 6 \<lfloor>of_int plot_h * (38 / 100 :: double)\<rfloor>"

definition session_bar_height :: "int \<Rightarrow> timed_bucket \<Rightarrow> int" where
  "session_bar_height plot_h b =
     lround (of_int (tb_session b) / of_int kMaxSessionPerBucket * of_int (session_cap plot_h))"

definition transfer_bar_height :: "int \<Rightarrow> double \<Rightarrow> timed_bucket \<Rightarrow> int" where
  "transfer_bar_height plot_h scale b = lround (tb_transfer_mbps b / scale * of_int plot_h)"

text \<open>A bar of a height stands on the base line; it is at least two pixels high.\<close>

definition bar_rect :: "int \<Rightarrow> int \<Rightarrow> int \<Rightarrow> int \<Rightarrow> int \<times> int \<times> int \<times> int" where
  "bar_rect x base_y w h = (x, base_y - h, w, max h 2)"

definition bucket_rects :: "int \<Rightarrow> int \<Rightarrow> double \<Rightarrow> int \<Rightarrow> nat \<Rightarrow> timed_bucket \<Rightarrow> (int \<times> int \<times> int \<times> int) list" where
  "bucket_rects w plot_h scale base_y i b = (let x = 8 + int i * (w + 2)
     in (if 0 < tb_session b then [bar_rect x base_y w (session_bar_height plot_h b)] else [])
        @ (if 0 < tb_transfer_mbps b then [bar_rect x base_y w (transfer_bar_height plot_h scale b)] else []))"

definition chart_rects :: "int \<Rightarrow> int \<Rightarrow> speed_chart \<Rightarrow> (int \<times> int \<times> int \<times> int) list" where
  "chart_rects sx sy c =
     (if sx \<le> 0 \<or> sy \<le> 0 then []
      else let w = bar_width (plot_width sx) (length (ch_buckets c)); plot_h = plot_height sy
        in concat (map (\<lambda>(i, b). bucket_rects w plot_h (transfer_scale_max c) (3 + plot_h) i b)
             (enumerate 0 (ch_buckets c))))"

section \<open>The texts above the chart\<close>

record monitor_head =
  mh_live :: "string option"
  mh_count :: "string option"
  mh_stats :: "(string \<times> string \<times> string) option"

definition relayout_head :: "double \<Rightarrow> rate_stats \<Rightarrow> monitor_head" where
  "relayout_head live_mbps stats =
     (let show_live = (0 < live_mbps); show_stats = (0 < rs_count stats)
      in \<lparr>mh_live = (if show_live then Some (format_mbps_rate live_mbps) else None),
          mh_count = (if show_live then None
            else if show_stats
            then Some (show_int (rs_count stats) @ (if rs_count stats = 1 then '' TRANSFER'' else '' TRANSFERS''))
            else Some ''NO TRANSFERS YET''),
          mh_stats = (if show_stats then Some (format_mbps_rate (rs_median stats), format_mbps_rate (rs_max stats),
            format_mbps_rate (rs_average stats)) else None)\<rparr>)"

section \<open>Runs of a chart\<close>

datatype chart_op = Chart_Pulse | Chart_Sample double | Chart_Ensure | Chart_Clear | Chart_Clear_Track
  | Chart_Floor double | Chart_Recording bool

definition chart_step :: "int \<times> chart_op \<Rightarrow> speed_chart \<Rightarrow> speed_chart" where
  "chart_step x c = (case x of (now, op) \<Rightarrow> (case op of
       Chart_Pulse \<Rightarrow> push_session_pulse now c
     | Chart_Sample mbps \<Rightarrow> push_sample now mbps c
     | Chart_Ensure \<Rightarrow> ensure_chart now c
     | Chart_Clear \<Rightarrow> clear_chart c
     | Chart_Clear_Track \<Rightarrow> clear_transfer_track c
     | Chart_Floor mbps \<Rightarrow> set_scale_floor mbps c
     | Chart_Recording b \<Rightarrow> set_recording b c))"

section \<open>The invariant\<close>

text \<open>
  At most 28 buckets follow each other without a gap, each of 400 ms, with counts and rates in
  their ranges, and the last one is the current one.
\<close>

definition bucket_ok :: "timed_bucket \<Rightarrow> bool" where
  "bucket_ok b \<longleftrightarrow> 0 \<le> tb_session b \<and> tb_session b \<le> 5 \<and> 0 \<le> tb_transfer_mbps b"

fun contiguous :: "timed_bucket list \<Rightarrow> bool" where
  "contiguous (a # b # bs) = (tb_start b = tb_start a + 400000000 \<and> contiguous (b # bs))"
| "contiguous bs = True"

definition chart_ok :: "speed_chart \<Rightarrow> bool" where
  "chart_ok c \<longleftrightarrow> length (ch_buckets c) \<le> 28 \<and> (\<forall>b \<in> set (ch_buckets c). bucket_ok b) \<and> contiguous (ch_buckets c)
     \<and> (ch_buckets c \<noteq> [] \<longrightarrow> tb_start (last (ch_buckets c)) = ch_bucket_start c) \<and> 0 \<le> ch_scale_floor c"

lemma contiguous_snoc:
  "contiguous (bs @ [b]) \<longleftrightarrow> contiguous bs \<and> (bs \<noteq> [] \<longrightarrow> tb_start b = tb_start (last bs) + 400000000)"
  by (induction bs rule: contiguous.induct) auto

lemma contiguous_drop: "contiguous bs \<Longrightarrow> contiguous (drop n bs)"
proof (induction n arbitrary: bs)
  case (Suc n)
  then show ?case by (cases bs rule: contiguous.cases) auto
qed simp

lemma contiguous_map: "(\<And>b. tb_start (f b) = tb_start b) \<Longrightarrow> contiguous (map f bs) = contiguous bs"
  by (induction bs rule: contiguous.induct) auto

lemma bucket_ok_new [simp]: "bucket_ok (new_bucket t)" "tb_start (new_bucket t) = t"
  by (simp_all add: bucket_ok_def new_bucket_def)

lemma append_bucket_ok:
  assumes "chart_ok c" and "ch_buckets c \<noteq> []"
  shows "chart_ok (append_bucket c) \<and> ch_buckets (append_bucket c) \<noteq> []"
proof -
  let ?start = "ch_bucket_start c + 400000000"
  let ?bs = "ch_buckets c @ [new_bucket ?start]"
  have bs: "ch_buckets (append_bucket c) = drop (length ?bs - 28) ?bs"
    by (simp add: append_bucket_def Let_def kMaxBuckets_def kBucketMs_def)
  have "contiguous ?bs" using assms by (simp add: contiguous_snoc chart_ok_def)
  then have "contiguous (ch_buckets (append_bucket c))" unfolding bs by (rule contiguous_drop)
  moreover have "set (ch_buckets (append_bucket c)) \<subseteq> set ?bs" unfolding bs by (rule set_drop_subset)
  moreover have "last (ch_buckets (append_bucket c)) = new_bucket ?start" "ch_buckets (append_bucket c) \<noteq> []"
    unfolding bs by (simp_all add: last_drop)
  moreover have "length (ch_buckets (append_bucket c)) \<le> 28" unfolding bs by simp
  moreover have "ch_scale_floor (append_bucket c) = ch_scale_floor c" by (simp add: append_bucket_def Let_def)
  ultimately show ?thesis using assms(1) by (auto simp: chart_ok_def)
qed

lemma advance_buckets_ok:
  "chart_ok c \<Longrightarrow> ch_buckets c \<noteq> [] \<Longrightarrow> chart_ok (advance_buckets now c) \<and> ch_buckets (advance_buckets now c) \<noteq> []
     \<and> now < ch_bucket_start (advance_buckets now c) + 400000000
     \<and> (ch_bucket_start c \<le> now \<longrightarrow> ch_bucket_start (advance_buckets now c) \<le> now)"
proof (induction now c rule: advance_buckets.induct)
  case (1 now c)
  show ?case
  proof (cases "kBucketMs \<le> elapsed_ms (ch_bucket_start c) now")
    case True
    with 1 append_bucket_ok have "chart_ok (append_bucket c)" "ch_buckets (append_bucket c) \<noteq> []" by blast+
    note ih = 1(1) [OF True this]
    from True have "ch_bucket_start (append_bucket c) \<le> now" by (auto simp: elapsed_ms_def kBucketMs_def)
    with ih True show ?thesis by (simp add: advance_buckets.simps [of now c])
  next
    case False
    then have "now < ch_bucket_start c + 400000000" by (auto simp: elapsed_ms_def kBucketMs_def)
    with False 1(2,3) show ?thesis by (simp add: advance_buckets.simps [of now c])
  qed
qed

lemma ensure_bucket_ok:
  assumes "chart_ok c"
  shows "chart_ok (ensure_bucket now c) \<and> ch_buckets (ensure_bucket now c) \<noteq> []
     \<and> now < ch_bucket_start (ensure_bucket now c) + 400000000
     \<and> (ch_buckets c \<noteq> [] \<and> ch_bucket_start c \<le> now \<longrightarrow> ch_bucket_start (ensure_bucket now c) \<le> now)"
  using advance_buckets_ok [OF assms, of now] assms by (simp add: ensure_bucket_def chart_ok_def)

lemma update_last_ok:
  assumes "chart_ok c" and "ch_buckets c \<noteq> []" and "\<And>b. bucket_ok b \<Longrightarrow> bucket_ok (f b)" and "\<And>b. tb_start (f b) = tb_start b"
  shows "chart_ok (update_last_bucket f c)"
proof -
  obtain bs b where "ch_buckets c = bs @ [b]" using assms(2) by (cases "ch_buckets c" rule: rev_cases) auto
  with assms show ?thesis by (auto simp: chart_ok_def update_last_bucket_def contiguous_snoc)
qed

lemma chart_step_ok:
  assumes "chart_ok c"
  shows "chart_ok (chart_step x c)"
proof -
  obtain now op where x: "x = (now, op)" by (cases x)
  note ensured = ensure_bucket_ok [OF assms, of now]
  show ?thesis
  proof (cases op)
    case Chart_Pulse
    with ensured show ?thesis
      by (auto simp: chart_step_def x push_session_pulse_def kMaxSessionPerBucket_def bucket_ok_def intro!: update_last_ok)
  next
    case (Chart_Sample mbps)
    have "chart_ok (c\<lparr>ch_last_push := now, ch_last_value := max 0 mbps\<rparr>)" using assms by (simp add: chart_ok_def)
    from ensure_bucket_ok [OF this, of now] Chart_Sample assms show ?thesis
      by (auto simp: chart_step_def x push_sample_def Let_def bucket_ok_def intro!: update_last_ok)
  next
    case Chart_Clear_Track
    with assms show ?thesis
      by (cases "ch_buckets c = []")
         (auto simp: chart_step_def x clear_transfer_track_def chart_ok_def contiguous_map last_map bucket_ok_def)
  qed (use assms ensured in \<open>auto simp: chart_step_def x ensure_chart_def clear_chart_def set_scale_floor_def set_recording_def
      chart_ok_def\<close>)
qed

lemma chart_run_ok: "chart_ok (fold chart_step xs new_speed_chart)"
proof (induction xs rule: rev_induct)
  case Nil
  show ?case by (simp add: chart_ok_def new_speed_chart_def)
qed (simp add: chart_step_ok)

section \<open>Bars stay inside the plot\<close>

lemma fold_max_le:
  fixes p :: double
  shows "p \<le> fold (\<lambda>b p. max p (tb_transfer_mbps b)) bs p
    \<and> (\<forall>b \<in> set bs. tb_transfer_mbps b \<le> fold (\<lambda>b p. max p (tb_transfer_mbps b)) bs p)"
proof (induction bs arbitrary: p)
  case (Cons b bs)
  from Cons.IH [of "max p (tb_transfer_mbps b)"] show ?case by auto
qed simp

lemma scale_above:
  shows "4 \<le> transfer_scale_max c" and "b \<in> set (ch_buckets c) \<Longrightarrow> tb_transfer_mbps b \<le> transfer_scale_max c"
proof -
  let ?p = "fold (\<lambda>b p. max p (tb_transfer_mbps b)) (ch_buckets c) 4"
  show "4 \<le> transfer_scale_max c" by (simp add: transfer_scale_max_def Let_def)
  have "?p \<le> transfer_scale_max c"
    using fold_max_le [of 4 "ch_buckets c"] by (auto simp: transfer_scale_max_def Let_def max_def)
  moreover assume "b \<in> set (ch_buckets c)"
  ultimately show "tb_transfer_mbps b \<le> transfer_scale_max c"
    using fold_max_le [of 4 "ch_buckets c"] by fastforce
qed

lemma lround_bounds: "0 \<le> r \<Longrightarrow> r \<le> 1 \<Longrightarrow> 0 \<le> h \<Longrightarrow> 0 \<le> lround (r * of_int h) \<and> lround (r * of_int h) \<le> h"
proof -
  assume r: "0 \<le> r" "r \<le> 1" and h: "0 \<le> h"
  then have "0 \<le> r * of_int h" "r * of_int h \<le> of_int h" by (simp_all add: mult_left_le_one_le)
  then show ?thesis unfolding lround_def by linarith
qed

lemma session_cap_bounds: "14 \<le> h \<Longrightarrow> 0 \<le> session_cap h \<and> session_cap h \<le> h"
proof -
  assume h: "14 \<le> h"
  then have "of_int h * (38 / 100 :: double) \<le> of_int h" by simp
  with h show ?thesis unfolding session_cap_def by linarith
qed

lemma bar_heights:
  assumes "chart_ok c" and "b \<in> set (ch_buckets c)" and "14 \<le> h"
  shows "0 \<le> session_bar_height h b \<and> session_bar_height h b \<le> h"
    and "0 \<le> transfer_bar_height h (transfer_scale_max c) b \<and> transfer_bar_height h (transfer_scale_max c) b \<le> h"
proof -
  have ok: "bucket_ok b" using assms(1,2) by (simp add: chart_ok_def)
  have "0 \<le> (of_int (tb_session b) / of_int kMaxSessionPerBucket :: double)
      \<and> (of_int (tb_session b) / of_int kMaxSessionPerBucket :: double) \<le> 1"
    using ok by (simp add: bucket_ok_def kMaxSessionPerBucket_def)
  with session_cap_bounds [OF assms(3)] lround_bounds [of _ "session_cap h"]
  show "0 \<le> session_bar_height h b \<and> session_bar_height h b \<le> h"
    unfolding session_bar_height_def by (meson order_trans)
  have "0 \<le> tb_transfer_mbps b / transfer_scale_max c \<and> tb_transfer_mbps b / transfer_scale_max c \<le> 1"
    using scale_above(1) [of c] scale_above(2) [OF assms(2)] ok by (simp add: bucket_ok_def divide_le_eq)
  with assms(3) lround_bounds [of _ h]
  show "0 \<le> transfer_bar_height h (transfer_scale_max c) b \<and> transfer_bar_height h (transfer_scale_max c) b \<le> h"
    unfolding transfer_bar_height_def by (meson order_trans zero_le_numeral)
qed

lemma bars_fit:
  assumes "i < n" and "4 * int n - 2 \<le> pw"
  shows "int i * (bar_width pw n + 2) + bar_width pw n \<le> pw"
proof -
  let ?c = "int n"
  have c: "1 \<le> ?c" "int i \<le> ?c - 1" using assms(1) by simp_all
  let ?x = "pw - 2 * (?c - 1)"
  have "2 * ?c \<le> ?x" using assms(2) by simp
  then have "2 * ?c div ?c \<le> ?x div ?c" using c(1) by (intro zdiv_mono1) simp_all
  then have w: "bar_width pw n = ?x div ?c" using c(1) by (simp add: bar_width_def Let_def)
  have "?c * bar_width pw n \<le> ?x"
    unfolding w using mult_div_mod_eq [of ?c ?x] pos_mod_sign [of ?c ?x] c(1) by linarith
  moreover have "int i * (bar_width pw n + 2) \<le> (?c - 1) * (bar_width pw n + 2)"
    using c(2) by (intro mult_right_mono) (simp_all add: bar_width_def Let_def)
  ultimately show ?thesis by (simp add: algebra_simps)
qed

lemma bars_inside:
  assumes "chart_ok c" and "126 \<le> sx" and "(x, y, w, h) \<in> set (chart_rects sx sy c)"
  shows "8 \<le> x \<and> 0 < w \<and> x + w \<le> sx - 8 \<and> 3 \<le> y \<and> y + h \<le> 3 + plot_height sy + 2"
proof -
  let ?n = "length (ch_buckets c)" and ?h = "plot_height sy"
  let ?w = "bar_width (plot_width sx) ?n"
  from assms(3) obtain i where i: "i < ?n"
      and "(x, y, w, h) \<in> set (bucket_rects ?w ?h (transfer_scale_max c) (3 + ?h) i (ch_buckets c ! i))"
    by (auto simp: chart_rects_def Let_def in_set_enumerate_eq split: if_splits)
  moreover obtain b where b: "b = ch_buckets c ! i" "b \<in> set (ch_buckets c)" using i by simp
  ultimately have r: "(x, y, w, h) \<in> set (bucket_rects ?w ?h (transfer_scale_max c) (3 + ?h) i b)" by simp
  have hp: "14 \<le> ?h" by (simp add: plot_height_def)
  have n: "4 * int ?n - 2 \<le> plot_width sx" using assms(1,2) by (simp add: chart_ok_def plot_width_def)
  have inside: "int i * (?w + 2) + ?w \<le> plot_width sx" "0 < ?w" "0 \<le> int i * (?w + 2)"
    using bars_fit [OF i n] by (simp_all add: bar_width_def Let_def)
  from r obtain k where k: "(x, y, w, h) = bar_rect (8 + int i * (?w + 2)) (3 + ?h) ?w k" "0 \<le> k" "k \<le> ?h"
    using bar_heights [OF assms(1) b(2) hp] by (auto simp: bucket_rects_def Let_def split: if_splits)
  with inside assms(2) show ?thesis by (auto simp: bar_rect_def plot_width_def)
qed

text \<open>
  Whatever is recorded, at whatever times: the chart never holds more than 28 buckets, they
  follow each other without a gap, counts and rates stay in their ranges, and a pulse is counted
  in a bucket that ends after the pulse.
\<close>

theorem chart_window:
  fixes xs :: "(int \<times> chart_op) list" and now :: int
  defines "c \<equiv> fold chart_step xs new_speed_chart"
  shows "length (ch_buckets c) \<le> 28 \<and> contiguous (ch_buckets c) \<and> Ball (set (ch_buckets c)) bucket_ok
    \<and> (let b = last (ch_buckets (push_session_pulse now c))
       in 0 < tb_session b \<and> tb_session b \<le> 5 \<and> now < tb_start b + 400000000)"
proof -
  have ok: "chart_ok c" unfolding c_def by (rule chart_run_ok)
  let ?e = "ensure_bucket now c"
  have e: "chart_ok ?e" "ch_buckets ?e \<noteq> []" "now < ch_bucket_start ?e + 400000000"
    using ensure_bucket_ok [OF ok, of now] by simp_all
  then have "bucket_ok (last (ch_buckets ?e))" "tb_start (last (ch_buckets ?e)) = ch_bucket_start ?e"
    by (simp_all add: chart_ok_def)
  with e(3) ok show ?thesis
    by (simp add: chart_ok_def push_session_pulse_def update_last_bucket_def kMaxSessionPerBucket_def bucket_ok_def Let_def)
qed

end
