(* ===== verification/Roster_View.thy ===== *)
theory Roster_View
  imports Progress_View
begin

text \<open>
  The list of connected systems, \<open>src/apps/wx/roster_panel.cpp\<close>: one row for each remote leg, the
  drop zone of a row, the selection, and when the rows are built anew. Labels, flags and the
  calls of the two callbacks are kept; widgets, colours and layout are left out. The clock is
  read once per operation, in milliseconds.
\<close>

section \<open>Names and slots\<close>

text \<open>\<open>system_name_for_leg\<close> of \<open>system_names.h\<close>.\<close>

definition system_name_for_leg :: "int \<Rightarrow> string" where
  "system_name_for_leg leg = (if 0 \<le> leg \<and> leg < 4
     then [''Alice'', ''Bob'', ''Carol'', ''Dave''] ! nat leg else ''System'')"

definition visible_peers :: "peer_entry list \<Rightarrow> bool \<Rightarrow> identity_profile \<Rightarrow> int \<Rightarrow> peer_entry list" where
  "visible_peers peers fabric_connected self local_leg =
     (if \<not> fabric_connected \<or> local_leg < 0 then []
      else filter (\<lambda>p. pe_online p \<and> pe_display_name p \<noteq> ip_display_name self) peers)"

record roster_slot =
  slot_leg :: int
  slot_peer :: "peer_entry option"

definition roster_slots :: "peer_entry list \<Rightarrow> bool \<Rightarrow> identity_profile \<Rightarrow> int \<Rightarrow> roster_slot list" where
  "roster_slots peers fabric_connected self local_leg =
     (if \<not> fabric_connected \<or> local_leg < 0 then []
      else map (\<lambda>leg. \<lparr>slot_leg = leg, slot_peer = find (\<lambda>p. pe_online p \<and> pe_port_index p = leg
             \<and> pe_display_name p \<noteq> ip_display_name self) peers\<rparr>) (remote_fabric_legs local_leg))"

definition slot_name :: "roster_slot \<Rightarrow> string" where
  "slot_name slot = (case slot_peer slot of None \<Rightarrow> [] | Some p \<Rightarrow> pe_display_name p)"

definition roster_slot_signature :: "roster_slot list \<Rightarrow> string list" where
  "roster_slot_signature slots = map (\<lambda>slot. show_int (slot_leg slot) @ '':'' @ slot_name slot) slots"

section \<open>A drop zone\<close>

record drop_zone =
  dz_offline :: bool
  dz_peer :: string
  dz_busy :: bool
  dz_drag :: bool
  dz_hint :: string
  dz_choose_enabled :: bool
  dz_choose_shown :: bool
  dz_target :: "string option"
  dz_height :: int

definition kOnlineDropZoneHeight :: int where "kOnlineDropZoneHeight = 64"
definition kOfflineDropZoneHeight :: int where "kOfflineDropZoneHeight = 30"

definition busy_hint :: string where
  "busy_hint = ''Transfer in progress'' @ ellipsis"

definition drop_hint_text :: "drop_zone \<Rightarrow> string" where
  "drop_hint_text z =
     (if dz_offline z then ''Not connected'' else if dz_busy z then busy_hint
      else if dz_drag z then ''Release to send'' else ''Drop a file to send to '' @ dz_peer z)"

definition attach_drop_target :: "drop_zone \<Rightarrow> drop_zone" where
  "attach_drop_target z = z\<lparr>dz_target := (if dz_offline z then None else Some (dz_peer z))\<rparr>"

definition new_drop_zone :: "string \<Rightarrow> drop_zone" where
  "new_drop_zone peer = attach_drop_target \<lparr>dz_offline = False, dz_peer = peer, dz_busy = False, dz_drag = False,
     dz_hint = ''Drop a file to send to '' @ peer, dz_choose_enabled = True, dz_choose_shown = True, dz_target = None,
     dz_height = kOnlineDropZoneHeight\<rparr>"

definition set_offline :: "bool \<Rightarrow> drop_zone \<Rightarrow> drop_zone" where
  "set_offline offline z =
     (if dz_offline z = offline then z
      else let z1 = z\<lparr>dz_offline := offline,
             dz_height := (if offline then kOfflineDropZoneHeight else kOnlineDropZoneHeight)\<rparr>
        in if offline
           then z1\<lparr>dz_busy := False, dz_drag := False, dz_target := None, dz_choose_enabled := False,
             dz_choose_shown := False, dz_hint := ''Not connected''\<rparr>
           else let z2 = attach_drop_target (z1\<lparr>dz_choose_enabled := True, dz_choose_shown := True\<rparr>)
             in z2\<lparr>dz_hint := drop_hint_text z2\<rparr>)"

text \<open>The text of an inactive zone is that of its state before the call.\<close>

definition set_transfer_state :: "bool \<Rightarrow> string \<Rightarrow> drop_zone \<Rightarrow> drop_zone" where
  "set_transfer_state active status_hint z =
     (if dz_offline z then z
      else let new_text = (if active then (if status_hint = [] then busy_hint else status_hint) else drop_hint_text z)
        in if dz_busy z = active \<and> dz_hint z = new_text then z
           else let z1 = z\<lparr>dz_busy := active, dz_hint := new_text, dz_choose_enabled := \<not> active, dz_choose_shown := \<not> active\<rparr>
             in if active then z1\<lparr>dz_target := None\<rparr> else attach_drop_target z1)"

definition set_peer_name :: "string \<Rightarrow> drop_zone \<Rightarrow> drop_zone" where
  "set_peer_name peer z = (let z1 = z\<lparr>dz_peer := peer\<rparr> in z1\<lparr>dz_hint := drop_hint_text z1\<rparr>)"

definition set_drag_active :: "bool \<Rightarrow> drop_zone \<Rightarrow> drop_zone" where
  "set_drag_active active z = (if dz_drag z = active then z
     else let z1 = z\<lparr>dz_drag := active\<rparr> in z1\<lparr>dz_hint := drop_hint_text z1\<rparr>)"

section \<open>The panel\<close>

record roster_row =
  rr_leg :: int
  rr_offline :: bool
  rr_display_name :: string
  rr_title :: string
  rr_subline :: "string option"
  rr_peer :: peer_entry
  rr_selected :: bool
  rr_zone :: drop_zone

record roster_panel =
  rp_peers :: "peer_entry list"
  rp_self :: identity_profile
  rp_connected :: bool
  rp_devices :: int
  rp_port :: int
  rp_busy :: bool
  rp_status :: string
  rp_last_announce :: int
  rp_selected :: string
  rp_dialog_open :: bool
  rp_layout :: "bool \<times> int \<times> string list"
  rp_rows :: "roster_row list"
  rp_announce :: "string option"
  rp_empty_text :: string
  rp_empty_shown :: bool
  rp_settings_shown :: bool
  rp_timer :: bool
  rp_notified :: "string list"

definition new_roster_panel :: roster_panel where
  "new_roster_panel = \<lparr>rp_peers = [], rp_self = default_identity_profile, rp_connected = False, rp_devices = 0, rp_port = 0,
     rp_busy = False, rp_status = [], rp_last_announce = 0, rp_selected = [], rp_dialog_open = False,
     rp_layout = (False, - 1, []), rp_rows = [], rp_announce = None, rp_empty_text = ''No peers online'',
     rp_empty_shown = True, rp_settings_shown = False, rp_timer = False, rp_notified = []\<rparr>"

definition current_slots :: "roster_panel \<Rightarrow> roster_slot list" where
  "current_slots p = roster_slots (rp_peers p) (rp_connected p) (rp_self p) (rp_port p)"

definition slot_signature :: "roster_panel \<Rightarrow> string list" where
  "slot_signature p = roster_slot_signature (current_slots p)"

definition layout_needs_rebuild :: "roster_panel \<Rightarrow> bool" where
  "layout_needs_rebuild p \<longleftrightarrow> rp_layout p \<noteq> (rp_connected p, rp_port p, slot_signature p)"

definition peer_subline_text :: "int \<Rightarrow> peer_entry \<Rightarrow> string" where
  "peer_subline_text now p = (let expires = peer_expires_label (pe_last_seen p) now
     in receive_status_label (pe_receive_status p) @ (if expires = [] then [] else middle_dot @ expires))"

definition announce_label_text :: "int \<Rightarrow> roster_panel \<Rightarrow> string" where
  "announce_label_text now p =
     (if \<not> rp_connected p \<or> rp_last_announce p \<le> 0 then []
      else ''Next announce in '' @ show_int ((next_announce_in_ms (rp_last_announce p) now kAnnounceIntervalMs + 999) div 1000)
        @ ''s'')"

definition show_announce :: "int \<Rightarrow> roster_panel \<Rightarrow> roster_panel" where
  "show_announce now p = (let announce = announce_label_text now p
     in p\<lparr>rp_announce := (if announce = [] then None else Some announce)\<rparr>)"

text \<open>The application always passes the callback that opens the settings.\<close>

definition update_empty_state :: "roster_panel \<Rightarrow> roster_panel" where
  "update_empty_state p =
     (let identity_configured = (ip_display_name (rp_self p) \<noteq> [])
      in p\<lparr>rp_empty_text := (if rp_connected p then rp_empty_text p
             else if identity_configured then ''Connect this system to discover other systems''
             else ''Set your name in Settings, then connect USB''),
           rp_settings_shown := \<not> identity_configured\<rparr>)"

definition offline_entry :: "int \<Rightarrow> peer_entry" where
  "offline_entry leg = \<lparr>pe_id = [], pe_instance_id = [], pe_display_name = [], pe_team = [], pe_role = [],
     pe_receive_status = Status_Open, pe_port_index = leg, pe_online = False, pe_last_seen = 0\<rparr>"

definition transfer_hint :: "roster_panel \<Rightarrow> string" where
  "transfer_hint p = (if rp_busy p then rp_status p else [])"

definition build_row :: "int \<Rightarrow> roster_panel \<Rightarrow> roster_slot \<Rightarrow> roster_row" where
  "build_row now p slot = (case slot_peer slot of
       None \<Rightarrow> \<lparr>rr_leg = slot_leg slot, rr_offline = True, rr_display_name = [], rr_title = system_name_for_leg (slot_leg slot),
         rr_subline = None, rr_peer = offline_entry (slot_leg slot), rr_selected = False,
         rr_zone = set_offline True (new_drop_zone [])\<rparr>
     | Some peer \<Rightarrow> \<lparr>rr_leg = slot_leg slot, rr_offline = False, rr_display_name = pe_display_name peer,
         rr_title = pe_display_name peer, rr_subline = Some (peer_subline_text now peer), rr_peer = peer,
         rr_selected = (pe_display_name peer = rp_selected p),
         rr_zone = set_transfer_state (rp_busy p) (transfer_hint p) (set_offline False (new_drop_zone (pe_display_name peer)))\<rparr>)"

definition online_names :: "roster_slot list \<Rightarrow> string list" where
  "online_names slots = concat (map (\<lambda>slot. case slot_peer slot of None \<Rightarrow> [] | Some p \<Rightarrow> [pe_display_name p]) slots)"

definition rebuild_list :: "int \<Rightarrow> roster_panel \<Rightarrow> roster_panel" where
  "rebuild_list now p =
     (let p1 = show_announce now (p\<lparr>rp_rows := []\<rparr>); slots = current_slots p1
      in if slots = []
         then (update_empty_state (p1\<lparr>rp_selected := [], rp_notified := rp_notified p1 @ [[]]\<rparr>))
           \<lparr>rp_empty_shown := True, rp_timer := False\<rparr>
         else let online = online_names slots;
                  selected = (if rp_selected p1 \<in> set online then rp_selected p1 else if online = [] then [] else hd online);
                  p2 = p1\<lparr>rp_selected := selected, rp_empty_shown := False, rp_settings_shown := False\<rparr>
           in p2\<lparr>rp_rows := map (build_row now p2) slots, rp_notified := rp_notified p2 @ [selected], rp_timer := True\<rparr>)"

text \<open>A refreshed row takes the first online entry on its leg.\<close>

definition refresh_row :: "int \<Rightarrow> roster_panel \<Rightarrow> roster_row \<Rightarrow> roster_row" where
  "refresh_row now p row =
     (let row = row\<lparr>rr_zone := set_transfer_state (rp_busy p) (transfer_hint p) (rr_zone row)\<rparr>
      in if rr_offline row \<or> rr_subline row = None then row
         else let row = (case find (\<lambda>e. pe_online e \<and> pe_port_index e = rr_leg row) (rp_peers p) of
                  None \<Rightarrow> row
                | Some e \<Rightarrow> row\<lparr>rr_peer := e, rr_display_name := pe_display_name e\<rparr>)
           in row\<lparr>rr_subline := Some (peer_subline_text now (rr_peer row))\<rparr>)"

definition refresh_countdowns :: "int \<Rightarrow> roster_panel \<Rightarrow> roster_panel" where
  "refresh_countdowns now p = (let p1 = show_announce now p in p1\<lparr>rp_rows := map (refresh_row now p1) (rp_rows p1)\<rparr>)"

text \<open>The arguments of \<open>UpdateRoster\<close>.\<close>

record roster_update =
  ru_peers :: "peer_entry list"
  ru_self :: identity_profile
  ru_connected :: bool
  ru_devices :: int
  ru_port :: int
  ru_busy :: bool
  ru_last_announce :: int
  ru_status :: string

definition take_update :: "roster_update \<Rightarrow> roster_panel \<Rightarrow> roster_panel" where
  "take_update u p = p\<lparr>rp_peers := ru_peers u, rp_self := ru_self u, rp_connected := ru_connected u, rp_devices := ru_devices u,
     rp_port := ru_port u, rp_busy := ru_busy u, rp_status := ru_status u, rp_last_announce := ru_last_announce u\<rparr>"

definition update_roster :: "int \<Rightarrow> roster_update \<Rightarrow> roster_panel \<Rightarrow> roster_panel" where
  "update_roster now u p =
     (let p1 = take_update u p
      in if rp_dialog_open p1 then p1
         else if layout_needs_rebuild p1
         then rebuild_list now (p1\<lparr>rp_layout := (rp_connected p1, rp_port p1, slot_signature p1)\<rparr>)
         else refresh_countdowns now (if rp_connected p1 then p1 else update_empty_state p1))"

definition on_countdown_timer :: "int \<Rightarrow> roster_panel \<Rightarrow> roster_panel" where
  "on_countdown_timer now p = (if rp_dialog_open p then p else refresh_countdowns now p)"

definition select_peer :: "int \<Rightarrow> string \<Rightarrow> roster_panel \<Rightarrow> roster_panel" where
  "select_peer now name p = (if rp_selected p = name then p else rebuild_list now (p\<lparr>rp_selected := name\<rparr>))"

definition selected_peer :: "roster_panel \<Rightarrow> string option" where
  "selected_peer p = (if rp_selected p = [] then None else Some (rp_selected p))"

text \<open>The result is what the callback for dropped files receives.\<close>

definition drop_files_on_peer :: "string \<Rightarrow> string list \<Rightarrow> roster_panel \<Rightarrow> (string \<times> string list) option \<times> roster_panel" where
  "drop_files_on_peer name paths p =
     (if rp_busy p \<or> paths = [] \<or> name = [] then (None, p)
      else (Some (name, paths), p\<lparr>rp_selected := name, rp_notified := rp_notified p @ [name]\<rparr>))"

section \<open>What the user does\<close>

definition update_zone :: "nat \<Rightarrow> (drop_zone \<Rightarrow> drop_zone) \<Rightarrow> roster_panel \<Rightarrow> roster_panel" where
  "update_zone k f p = p\<lparr>rp_rows := (rp_rows p)[k := (rp_rows p ! k)\<lparr>rr_zone := f (rr_zone (rp_rows p ! k))\<rparr>]\<rparr>"

datatype roster_op = Ro_Update roster_update | Ro_Tick | Ro_Click nat | Ro_Drag nat bool | Ro_Drop nat "string list"
  | Ro_Choose nat | Ro_Chosen nat "string list option"

text \<open>
  A row is clicked, files are dragged over it or dropped on it, its button opens the file dialog,
  which ends with a choice or without one. A zone takes part in a drag while it has a drop target.
\<close>

definition roster_step :: "int \<Rightarrow> roster_op \<Rightarrow> roster_panel \<Rightarrow> (string \<times> string list) option \<times> roster_panel" where
  "roster_step now op p = (case op of
       Ro_Update u \<Rightarrow> (None, update_roster now u p)
     | Ro_Tick \<Rightarrow> (None, on_countdown_timer now p)
     | Ro_Click k \<Rightarrow> (None, if k < length (rp_rows p) \<and> \<not> rr_offline (rp_rows p ! k)
         then select_peer now (dz_peer (rr_zone (rp_rows p ! k))) p else p)
     | Ro_Drag k active \<Rightarrow> (None, if k < length (rp_rows p) \<and> dz_target (rr_zone (rp_rows p ! k)) \<noteq> None
         then update_zone k (set_drag_active active) p else p)
     | Ro_Drop k paths \<Rightarrow> (if k < length (rp_rows p)
         then (case dz_target (rr_zone (rp_rows p ! k)) of None \<Rightarrow> (None, p)
           | Some name \<Rightarrow> drop_files_on_peer name paths (update_zone k (set_drag_active False) p))
         else (None, p))
     | Ro_Choose k \<Rightarrow> (None, if k < length (rp_rows p) \<and> dz_choose_enabled (rr_zone (rp_rows p ! k))
           \<and> \<not> dz_busy (rr_zone (rp_rows p ! k)) \<and> \<not> rp_dialog_open p
         then p\<lparr>rp_dialog_open := True\<rparr> else p)
     | Ro_Chosen k answer \<Rightarrow> (if k < length (rp_rows p) \<and> rp_dialog_open p
         then (case answer of None \<Rightarrow> (None, p\<lparr>rp_dialog_open := False\<rparr>)
           | Some paths \<Rightarrow> drop_files_on_peer (dz_peer (rr_zone (rp_rows p ! k))) paths (p\<lparr>rp_dialog_open := False\<rparr>))
         else (None, p)))"

definition roster_run :: "(int \<times> roster_op) list \<Rightarrow> roster_panel \<Rightarrow> roster_panel" where
  "roster_run ops p = fold (\<lambda>(now, op) p. snd (roster_step now op p)) ops p"

section \<open>Rows and selection\<close>

text \<open>A zone takes files exactly while its peer is there and no transfer runs.\<close>

definition zone_ok :: "drop_zone \<Rightarrow> bool" where
  "zone_ok z \<longleftrightarrow> dz_target z = (if dz_offline z \<or> dz_busy z then None else Some (dz_peer z))
     \<and> (dz_choose_enabled z \<longleftrightarrow> \<not> dz_offline z \<and> \<not> dz_busy z) \<and> (dz_offline z \<longrightarrow> dz_peer z = [])"

definition row_ok :: "roster_row \<Rightarrow> bool" where
  "row_ok row \<longleftrightarrow> zone_ok (rr_zone row) \<and> rr_offline row = dz_offline (rr_zone row)"

definition shown_peers :: "roster_row list \<Rightarrow> string list" where
  "shown_peers rows = map (\<lambda>row. dz_peer (rr_zone row)) (filter (\<lambda>row. \<not> rr_offline row) rows)"

definition panel_ok :: "roster_panel \<Rightarrow> bool" where
  "panel_ok p \<longleftrightarrow> (\<forall>row \<in> set (rp_rows p). row_ok row) \<and> (rp_selected p = [] \<or> rp_selected p \<in> set (shown_peers (rp_rows p)))"

lemma set_transfer_state_ok:
  "zone_ok z \<Longrightarrow> zone_ok (set_transfer_state active hint z) \<and> dz_peer (set_transfer_state active hint z) = dz_peer z
     \<and> dz_offline (set_transfer_state active hint z) = dz_offline z"
  by (auto simp: zone_ok_def set_transfer_state_def attach_drop_target_def Let_def)

lemma set_drag_active_ok:
  "zone_ok z \<Longrightarrow> zone_ok (set_drag_active active z) \<and> dz_peer (set_drag_active active z) = dz_peer z
     \<and> dz_offline (set_drag_active active z) = dz_offline z"
  by (auto simp: zone_ok_def set_drag_active_def Let_def)

lemma new_zone_ok:
  "zone_ok (set_offline True (new_drop_zone []))" "zone_ok (set_offline False (new_drop_zone name))"
  "dz_peer (set_offline False (new_drop_zone name)) = name" "\<not> dz_offline (set_offline False (new_drop_zone name))"
  "dz_offline (set_offline True (new_drop_zone name))" "dz_peer (set_offline True (new_drop_zone name)) = name"
  by (simp_all add: zone_ok_def set_offline_def new_drop_zone_def attach_drop_target_def Let_def)

lemma build_row_ok:
  "row_ok (build_row now p slot)" "rr_offline (build_row now p slot) = (slot_peer slot = None)"
  "dz_peer (rr_zone (build_row now p slot)) = slot_name slot" "rr_leg (build_row now p slot) = slot_leg slot"
  using set_transfer_state_ok [OF new_zone_ok(2)] new_zone_ok
  by (auto simp: row_ok_def build_row_def slot_name_def split: option.split)

lemma refresh_row_ok:
  assumes "row_ok row"
  shows "row_ok (refresh_row now p row)" and "rr_offline (refresh_row now p row) = rr_offline row"
    and "dz_peer (rr_zone (refresh_row now p row)) = dz_peer (rr_zone row)" and "rr_leg (refresh_row now p row) = rr_leg row"
  using set_transfer_state_ok [of "rr_zone row" "rp_busy p" "transfer_hint p"] assms
  by (auto simp: row_ok_def refresh_row_def Let_def split: option.split)

lemma shown_built [simp]: "shown_peers (map (build_row now p) slots) = online_names slots"
  by (induction slots) (auto simp: shown_peers_def online_names_def build_row_ok slot_name_def split: option.split)

lemma shown_refreshed [simp]: "\<forall>row \<in> set rows. row_ok row \<Longrightarrow> shown_peers (map (refresh_row now p) rows) = shown_peers rows"
  by (induction rows) (auto simp: shown_peers_def refresh_row_ok)

lemma rebuild_ok: "panel_ok (rebuild_list now p)"
proof -
  have rows: "rp_rows (show_announce now p) = rp_rows p" for p by (simp add: show_announce_def Let_def)
  have "hd (online_names slots) \<in> set (online_names slots)" if "online_names slots \<noteq> []" for slots using that by simp
  then show ?thesis
    by (auto simp: rebuild_list_def Let_def panel_ok_def update_empty_state_def rows build_row_ok shown_peers_def [of "[]"])
qed

lemma panel_ok_same:
  "panel_ok p \<Longrightarrow> rp_rows q = rp_rows p \<Longrightarrow> rp_selected q = rp_selected p \<Longrightarrow> panel_ok q"
  by (simp add: panel_ok_def)

lemma refresh_ok: "panel_ok p \<Longrightarrow> panel_ok (refresh_countdowns now p)"
  by (auto simp: refresh_countdowns_def Let_def panel_ok_def show_announce_def refresh_row_ok)

lemma update_roster_ok: "panel_ok p \<Longrightarrow> panel_ok (update_roster now u p)"
  by (auto simp: update_roster_def Let_def take_update_def update_empty_state_def rebuild_ok
      intro!: refresh_ok elim!: panel_ok_same)

lemma shown_update:
  assumes "k < length rows" and "rr_offline row = rr_offline (rows ! k)" and "dz_peer (rr_zone row) = dz_peer (rr_zone (rows ! k))"
  shows "shown_peers (rows[k := row]) = shown_peers rows"
  using assms by (induction rows arbitrary: k) (auto simp: shown_peers_def nth_Cons' split: nat.splits)

lemma drag_ok:
  assumes "panel_ok p" and "k < length (rp_rows p)"
  shows "panel_ok (update_zone k (set_drag_active active) p)"
proof -
  let ?row = "rp_rows p ! k"
  have "row_ok ?row" using assms by (simp add: panel_ok_def)
  with set_drag_active_ok [of "rr_zone ?row" active] have row: "row_ok (?row\<lparr>rr_zone := set_drag_active active (rr_zone ?row)\<rparr>)"
      "dz_peer (set_drag_active active (rr_zone ?row)) = dz_peer (rr_zone ?row)"
    by (simp_all add: row_ok_def)
  with assms show ?thesis
    by (auto simp: panel_ok_def update_zone_def shown_update dest!: subsetD [OF set_update_subset_insert])
qed

lemma drop_ok:
  assumes "panel_ok p" and "name = [] \<or> name \<in> set (shown_peers (rp_rows p))"
  shows "panel_ok (snd (drop_files_on_peer name paths p))"
  using assms by (auto simp: drop_files_on_peer_def panel_ok_def)

lemma row_shown: "k < length rows \<Longrightarrow> \<not> rr_offline (rows ! k) \<Longrightarrow> dz_peer (rr_zone (rows ! k)) \<in> set (shown_peers rows)"
  by (auto simp: shown_peers_def)

lemma zone_name_shown:
  assumes "panel_ok p" and "k < length (rp_rows p)"
  shows "dz_peer (rr_zone (rp_rows p ! k)) = [] \<or> dz_peer (rr_zone (rp_rows p ! k)) \<in> set (shown_peers (rp_rows p))"
proof (cases "rr_offline (rp_rows p ! k)")
  case True
  moreover have "row_ok (rp_rows p ! k)" using assms by (simp add: panel_ok_def)
  ultimately show ?thesis by (simp add: row_ok_def zone_ok_def)
qed (simp add: row_shown assms)

lemma zone_target_name:
  assumes "panel_ok p" and "k < length (rp_rows p)" and "dz_target (rr_zone (rp_rows p ! k)) = Some name"
  shows "name = dz_peer (rr_zone (rp_rows p ! k))"
proof -
  have "row_ok (rp_rows p ! k)" using assms by (simp add: panel_ok_def)
  with assms(3) show ?thesis by (simp add: row_ok_def zone_ok_def split: if_splits)
qed

lemma drag_shown: "k < length (rp_rows p) \<Longrightarrow> panel_ok p
    \<Longrightarrow> shown_peers (rp_rows (update_zone k (set_drag_active active) p)) = shown_peers (rp_rows p)"
  using set_drag_active_ok [of "rr_zone (rp_rows p ! k)" active]
  by (simp add: update_zone_def shown_update panel_ok_def row_ok_def)

lemma roster_step_ok:
  assumes "panel_ok p"
  shows "panel_ok (snd (roster_step now op p))"
proof (cases op)
  case (Ro_Drop k paths)
  show ?thesis
  proof (cases "k < length (rp_rows p) \<and> dz_target (rr_zone (rp_rows p ! k)) \<noteq> None")
    case True
    then obtain name where k: "k < length (rp_rows p)" and t: "dz_target (rr_zone (rp_rows p ! k)) = Some name" by auto
    have "name = [] \<or> name \<in> set (shown_peers (rp_rows (update_zone k (set_drag_active False) p)))"
      unfolding zone_target_name [OF assms k t] drag_shown [OF k assms] by (rule zone_name_shown [OF assms k])
    from drop_ok [OF drag_ok [OF assms k] this] show ?thesis by (simp add: roster_step_def Ro_Drop k t)
  next
    case False
    with assms show ?thesis by (auto simp: roster_step_def Ro_Drop)
  qed
next
  case (Ro_Chosen k answer)
  have closed: "panel_ok (p\<lparr>rp_dialog_open := False\<rparr>)" using assms by (simp add: panel_ok_def)
  from drop_ok [OF this] zone_name_shown [OF assms, of k] closed assms Ro_Chosen show ?thesis
    by (simp add: roster_step_def split: option.split)
next
  case (Ro_Choose k)
  with assms show ?thesis by (simp add: roster_step_def panel_ok_def)
qed (use assms in \<open>simp_all add: roster_step_def update_roster_ok on_countdown_timer_def refresh_ok select_peer_def rebuild_ok drag_ok\<close>)

lemma roster_run_snoc [simp]: "roster_run (ops @ [(now, op)]) p = snd (roster_step now op (roster_run ops p))"
  by (simp add: roster_run_def)

lemma new_panel_ok: "panel_ok new_roster_panel"
  by (simp add: panel_ok_def new_roster_panel_def)

lemma roster_run_ok: "panel_ok (roster_run ops new_roster_panel)"
proof (induction ops rule: rev_induct)
  case Nil
  show ?case by (simp add: roster_run_def new_panel_ok)
next
  case (snoc x ops)
  then show ?case by (cases x) (simp add: roster_step_ok)
qed

text \<open>
  C25: Whatever the user does and whatever updates arrive: the selected peer is one that is shown
  online, and files are only handed over while no transfer runs, to a peer that is shown online.
\<close>

theorem roster_sends_to_shown_peer:
  fixes ops :: "(int \<times> roster_op) list"
  defines "p \<equiv> roster_run ops new_roster_panel"
  shows "(case selected_peer p of None \<Rightarrow> True | Some name \<Rightarrow> name \<in> set (shown_peers (rp_rows p)))
    \<and> (case fst (roster_step now op p) of None \<Rightarrow> True
       | Some (name, paths) \<Rightarrow> \<not> rp_busy p \<and> paths \<noteq> [] \<and> name \<in> set (shown_peers (rp_rows p))
           \<and> selected_peer (snd (roster_step now op p)) = Some name)"
proof -
  have ok: "panel_ok p" unfolding p_def by (rule roster_run_ok)
  then have sel: "case selected_peer p of None \<Rightarrow> True | Some name \<Rightarrow> name \<in> set (shown_peers (rp_rows p))"
    by (auto simp: selected_peer_def panel_ok_def)
  have dropped: "case fst (drop_files_on_peer name paths q) of None \<Rightarrow> True
       | Some (n, ps) \<Rightarrow> \<not> rp_busy p \<and> ps \<noteq> [] \<and> n \<in> set (shown_peers (rp_rows p))
           \<and> selected_peer (snd (drop_files_on_peer name paths q)) = Some n"
    if "rp_busy q = rp_busy p" "name = [] \<or> name \<in> set (shown_peers (rp_rows p))" for name paths q
    using that by (auto simp: drop_files_on_peer_def selected_peer_def)
  have "case fst (roster_step now op p) of None \<Rightarrow> True
       | Some (n, ps) \<Rightarrow> \<not> rp_busy p \<and> ps \<noteq> [] \<and> n \<in> set (shown_peers (rp_rows p))
           \<and> selected_peer (snd (roster_step now op p)) = Some n"
  proof (cases op)
    case (Ro_Drop k paths)
    show ?thesis
    proof (cases "k < length (rp_rows p) \<and> dz_target (rr_zone (rp_rows p ! k)) \<noteq> None")
      case True
      then obtain name where k: "k < length (rp_rows p)" and t: "dz_target (rr_zone (rp_rows p ! k)) = Some name" by auto
      have step: "roster_step now op p = drop_files_on_peer name paths (update_zone k (set_drag_active False) p)"
        by (simp add: roster_step_def Ro_Drop k t)
      show ?thesis unfolding step
        by (rule dropped) (use zone_name_shown [OF ok k] zone_target_name [OF ok k t] in \<open>simp_all add: update_zone_def\<close>)
    qed (auto simp: roster_step_def Ro_Drop)
  next
    case (Ro_Chosen k answer)
    show ?thesis
    proof (cases "k < length (rp_rows p) \<and> rp_dialog_open p \<and> answer \<noteq> None")
      case True
      then obtain paths where k: "k < length (rp_rows p)" "rp_dialog_open p" "answer = Some paths" by auto
      have step: "roster_step now op p = drop_files_on_peer (dz_peer (rr_zone (rp_rows p ! k))) paths (p\<lparr>rp_dialog_open := False\<rparr>)"
        by (simp add: roster_step_def Ro_Chosen k)
      show ?thesis unfolding step by (rule dropped) (use zone_name_shown [OF ok k(1)] in simp_all)
    qed (auto simp: roster_step_def Ro_Chosen split: option.split)
  qed (simp_all add: roster_step_def)
  with sel show ?thesis by simp
qed

section \<open>Rows follow the roster\<close>

definition row_key :: "roster_row \<Rightarrow> string" where
  "row_key row = show_int (rr_leg row) @ '':'' @ dz_peer (rr_zone row)"

text \<open>The rows are those of the layout they were built for, and that is the current one.\<close>

definition rows_current :: "roster_panel \<Rightarrow> bool" where
  "rows_current p \<longleftrightarrow> rp_layout p = (rp_connected p, rp_port p, slot_signature p) \<and> map row_key (rp_rows p) = slot_signature p"

lemma current_slots_fields [simp]:
  "current_slots (show_announce now p) = current_slots p" "current_slots (p\<lparr>rp_rows := rows\<rparr>) = current_slots p"
  "current_slots (p\<lparr>rp_selected := s\<rparr>) = current_slots p" "current_slots (p\<lparr>rp_layout := l\<rparr>) = current_slots p"
  "current_slots (p\<lparr>rp_dialog_open := b\<rparr>) = current_slots p" "current_slots (p\<lparr>rp_notified := ns\<rparr>) = current_slots p"
  "current_slots (update_empty_state p) = current_slots p"
  by (simp_all add: current_slots_def show_announce_def update_empty_state_def Let_def)

lemma show_announce_fields [simp]:
  "rp_rows (show_announce now p) = rp_rows p" "rp_layout (show_announce now p) = rp_layout p"
  "rp_connected (show_announce now p) = rp_connected p" "rp_port (show_announce now p) = rp_port p"
  "rp_rows (update_empty_state p) = rp_rows p" "rp_layout (update_empty_state p) = rp_layout p"
  "rp_connected (update_empty_state p) = rp_connected p" "rp_port (update_empty_state p) = rp_port p"
  "rp_dialog_open (update_empty_state p) = rp_dialog_open p"
  by (simp_all add: show_announce_def update_empty_state_def Let_def)

lemma row_key_built [simp]: "row_key (build_row now q slot) = show_int (slot_leg slot) @ '':'' @ slot_name slot"
  by (simp add: row_key_def build_row_ok)

lemma rebuild_rows: "map row_key (rp_rows (rebuild_list now p)) = slot_signature p"
  by (simp add: rebuild_list_def Let_def slot_signature_def roster_slot_signature_def)

lemma rebuild_fields:
  "rp_layout (rebuild_list now p) = rp_layout p" "rp_connected (rebuild_list now p) = rp_connected p"
  "rp_port (rebuild_list now p) = rp_port p" "current_slots (rebuild_list now p) = current_slots p"
  "rp_dialog_open (rebuild_list now p) = rp_dialog_open p"
  by (simp_all add: rebuild_list_def Let_def show_announce_def update_empty_state_def current_slots_def)

lemma set_transfer_state_peer [simp]: "dz_peer (set_transfer_state active hint z) = dz_peer z"
  by (simp add: set_transfer_state_def attach_drop_target_def Let_def)

lemma refresh_row_key [simp]: "row_key (refresh_row now p row) = row_key row"
  by (simp add: row_key_def refresh_row_def Let_def split: option.split)

lemma refresh_fields:
  "map row_key (rp_rows (refresh_countdowns now p)) = map row_key (rp_rows p)"
  "rp_layout (refresh_countdowns now p) = rp_layout p" "rp_connected (refresh_countdowns now p) = rp_connected p"
  "rp_port (refresh_countdowns now p) = rp_port p" "current_slots (refresh_countdowns now p) = current_slots p"
  "rp_dialog_open (refresh_countdowns now p) = rp_dialog_open p"
  by (simp_all add: refresh_countdowns_def Let_def comp_def current_slots_def) (simp_all add: show_announce_def Let_def)

definition rows_settled :: "roster_panel \<Rightarrow> bool" where
  "rows_settled p \<longleftrightarrow> \<not> rp_dialog_open p \<and> map row_key (rp_rows p) = snd (snd (rp_layout p))
     \<and> (rp_rows p \<noteq> [] \<longrightarrow> rows_current p)"

lemma update_roster_current:
  assumes "rows_settled p"
  shows "rows_current (update_roster now u p) \<and> rows_settled (update_roster now u p)"
proof -
  let ?p1 = "take_update u p"
  let ?layout = "(rp_connected ?p1, rp_port ?p1, slot_signature ?p1)"
  have p1: "\<not> rp_dialog_open ?p1" "map row_key (rp_rows ?p1) = snd (snd (rp_layout ?p1))"
    using assms by (simp_all add: rows_settled_def take_update_def)
  have "rows_current (update_roster now u p) \<and> \<not> rp_dialog_open (update_roster now u p)"
  proof (cases "layout_needs_rebuild ?p1")
    case True
    with p1 show ?thesis
      by (simp add: update_roster_def Let_def rows_current_def rebuild_fields rebuild_rows slot_signature_def)
  next
    case False
    with p1 show ?thesis
      by (auto simp: update_roster_def Let_def rows_current_def refresh_fields layout_needs_rebuild_def slot_signature_def)
  qed
  then show ?thesis by (simp add: rows_settled_def rows_current_def)
qed

lemma settled_same:
  "rows_settled p \<Longrightarrow> map row_key (rp_rows q) = map row_key (rp_rows p) \<Longrightarrow> rp_layout q = rp_layout p
     \<Longrightarrow> rp_connected q = rp_connected p \<Longrightarrow> rp_port q = rp_port p \<Longrightarrow> current_slots q = current_slots p
     \<Longrightarrow> rp_dialog_open q = rp_dialog_open p \<Longrightarrow> rows_settled q"
  by (auto simp: rows_settled_def rows_current_def slot_signature_def)

lemma update_zone_keys:
  assumes "k < length (rp_rows p)"
  shows "map row_key (rp_rows (update_zone k (set_drag_active active) p)) = map row_key (rp_rows p)"
proof -
  have "row_key ((rp_rows p ! k)\<lparr>rr_zone := set_drag_active active (rr_zone (rp_rows p ! k))\<rparr>) = map row_key (rp_rows p) ! k"
    using assms by (simp add: row_key_def set_drag_active_def Let_def)
  then show ?thesis by (simp add: update_zone_def map_update)
qed

lemma drop_fields:
  "rp_rows (snd (drop_files_on_peer name paths p)) = rp_rows p" "rp_layout (snd (drop_files_on_peer name paths p)) = rp_layout p"
  "rp_connected (snd (drop_files_on_peer name paths p)) = rp_connected p" "rp_port (snd (drop_files_on_peer name paths p)) = rp_port p"
  "current_slots (snd (drop_files_on_peer name paths p)) = current_slots p"
  "rp_dialog_open (snd (drop_files_on_peer name paths p)) = rp_dialog_open p"
  by (simp_all add: drop_files_on_peer_def current_slots_def)

lemma select_settled:
  assumes "rows_settled p" and "rp_rows p \<noteq> []"
  shows "rows_settled (select_peer now name p)"
proof -
  have "rows_current p" using assms by (simp add: rows_settled_def)
  then show ?thesis
    using assms by (simp add: select_peer_def rows_settled_def rows_current_def rebuild_fields rebuild_rows slot_signature_def)
qed

lemma roster_step_settled:
  assumes "rows_settled p" and "\<And>k. op \<noteq> Ro_Choose k"
  shows "rows_settled (snd (roster_step now op p))"
proof (cases op)
  case (Ro_Click k)
  have "k < length (rp_rows p) \<Longrightarrow> rp_rows p \<noteq> []" by auto
  with Ro_Click select_settled [OF assms(1)] assms(1) show ?thesis by (simp add: roster_step_def)
next
  case (Ro_Drag k active)
  with assms(1) show ?thesis
    by (auto simp: roster_step_def update_zone_keys intro!: settled_same [OF assms(1)]) (simp_all add: update_zone_def)
next
  case (Ro_Drop k paths)
  with assms(1) show ?thesis
    by (auto simp: roster_step_def update_zone_keys drop_fields intro!: settled_same [OF assms(1)] split: option.split)
       (simp_all add: update_zone_def)
next
  case (Ro_Choose k)
  with assms(2) [of k] show ?thesis by simp
next
  case (Ro_Chosen k answer)
  with assms(1) show ?thesis by (auto simp: roster_step_def rows_settled_def)
qed (use assms(1) update_roster_current in \<open>simp_all add: roster_step_def on_countdown_timer_def refresh_fields
    settled_same [OF assms(1)]\<close>)

lemma roster_run_settled:
  "\<forall>x \<in> set ops. \<forall>k. snd x \<noteq> Ro_Choose k \<Longrightarrow> rows_settled (roster_run ops new_roster_panel)"
proof (induction ops rule: rev_induct)
  case Nil
  show ?case by (simp add: roster_run_def rows_settled_def new_roster_panel_def)
next
  case (snoc x ops)
  then show ?case by (cases x) (auto intro!: roster_step_settled)
qed

lemma key_inj: "show_int a @ '':'' @ n = show_int b @ '':'' @ m \<Longrightarrow> a = b \<and> n = m"
proof -
  assume eq: "show_int a @ '':'' @ n = show_int b @ '':'' @ m"
  have "split_at CHR '':'' (show_int c @ '':'' @ k) = Some (show_int c, k)" for c k
    using split_at_append [OF show_int_no_colon] by simp
  with eq have "Some (show_int a, n) = Some (show_int b, m)" by metis
  then show ?thesis by (simp add: show_int_inj)
qed

lemma rows_as_slots:
  "map row_key rows = roster_slot_signature slots
   \<Longrightarrow> map (\<lambda>row. (rr_leg row, dz_peer (rr_zone row))) rows = map (\<lambda>slot. (slot_leg slot, slot_name slot)) slots"
proof (induction rows arbitrary: slots)
  case (Cons row rows)
  then obtain slot rest where s: "slots = slot # rest" by (cases slots) (auto simp: roster_slot_signature_def)
  with Cons.prems have "row_key row = show_int (slot_leg slot) @ '':'' @ slot_name slot"
      "map row_key rows = roster_slot_signature rest" by (simp_all add: roster_slot_signature_def)
  with Cons.IH [of rest] key_inj show ?case unfolding s row_key_def by auto
qed (simp add: roster_slot_signature_def)

text \<open>
  C26: As long as the file dialog is not used, the rows after every update are exactly the remote
  legs in order, each with the peer the orchestrator's roster has online on that leg.
\<close>

theorem roster_rows_follow:
  assumes "\<forall>x \<in> set ops. \<forall>k. snd x \<noteq> Ro_Choose k"
  shows "map (\<lambda>row. (rr_leg row, dz_peer (rr_zone row))) (rp_rows (update_roster now u (roster_run ops new_roster_panel)))
    = map (\<lambda>slot. (slot_leg slot, slot_name slot)) (roster_slots (ru_peers u) (ru_connected u) (ru_self u) (ru_port u))"
proof (rule rows_as_slots)
  let ?p = "update_roster now u (roster_run ops new_roster_panel)"
  have "current_slots ?p = roster_slots (ru_peers u) (ru_connected u) (ru_self u) (ru_port u)"
    by (simp add: update_roster_def Let_def rebuild_fields refresh_fields) (simp add: current_slots_def take_update_def)
  moreover have "map row_key (rp_rows ?p) = slot_signature ?p"
    using update_roster_current [OF roster_run_settled [OF assms]] by (simp add: rows_current_def)
  ultimately show "map row_key (rp_rows ?p) = roster_slot_signature (roster_slots (ru_peers u) (ru_connected u) (ru_self u) (ru_port u))"
    by (simp add: slot_signature_def)
qed

definition bob_entry :: peer_entry where
  "bob_entry = (offline_entry 1)\<lparr>pe_display_name := ''Bob'', pe_online := True, pe_last_seen := 5\<rparr>"

definition roster_with :: "peer_entry list \<Rightarrow> roster_update" where
  "roster_with peers = \<lparr>ru_peers = peers, ru_self = default_identity_profile\<lparr>ip_display_name := ''Ann''\<rparr>, ru_connected = True,
     ru_devices = 1, ru_port = 0, ru_busy = False, ru_last_announce = 0, ru_status = []\<rparr>"

lemma roster_rows_follow_witness:
  "map (\<lambda>row. (rr_leg row, dz_peer (rr_zone row)))
     (rp_rows (update_roster 9 (roster_with [bob_entry]) (roster_run [(1, Ro_Tick), (2, Ro_Click 0)] new_roster_panel)))
   = [(1, ''Bob''), (2, []), (3, [])]"
  using roster_rows_follow [of "[(1, Ro_Tick), (2, Ro_Click 0)]" 9 "roster_with [bob_entry]"]
  by (simp add: roster_with_def roster_slots_def remote_fabric_legs_def slot_name_def bob_entry_def offline_entry_def)

section \<open>Two slips\<close>

text \<open>
  While the file dialog is open an update is only stored. A click after the dialog rebuilds the
  rows from the stored peers but not the layout key, so when the roster is as before the dialog
  the next update sees no change and the rows stay as they are.
\<close>

definition carol_entry :: peer_entry where
  "carol_entry = (offline_entry 2)\<lparr>pe_display_name := ''Carol'', pe_online := True, pe_last_seen := 5\<rparr>"

lemma roster_row_stale:
  "shown_peers (rp_rows (roster_run [(1, Ro_Update (roster_with [bob_entry, carol_entry])), (2, Ro_Choose 0),
       (3, Ro_Update (roster_with [carol_entry])), (4, Ro_Chosen 0 None), (5, Ro_Click 1),
       (6, Ro_Update (roster_with [bob_entry, carol_entry]))] new_roster_panel)) = [''Carol'']"
  by code_simp

text \<open>The hint of a zone is computed before its busy flag is cleared.\<close>

lemma hint_after_transfer:
  "\<not> dz_offline z \<Longrightarrow> dz_busy z \<Longrightarrow> dz_hint (set_transfer_state False hint z) = busy_hint
     \<and> dz_target (set_transfer_state False hint z) = Some (dz_peer z)"
  by (simp add: set_transfer_state_def attach_drop_target_def drop_hint_text_def Let_def)

end
