(* ===== verification/Connection_View.thy ===== *)
theory Connection_View
  imports Speed_Chart Roster_View
begin

text \<open>
  The connection card of the desktop application: \<open>src/apps/wx/connection_panel.cpp\<close>,
  \<open>connection_panel_sync.cpp\<close> and \<open>multi_system_meta_line\<close> of \<open>connection_widgets.cpp\<close>. It
  shows the device, hints, the connect and disconnect buttons, and feeds the activity monitor.
\<close>

section \<open>The activity monitor\<close>

record activity_panel =
  ac_shown :: bool
  ac_chart :: speed_chart
  ac_head :: monitor_head
  ac_tracker :: session_rate_tracker
  ac_last_seq :: u32
  ac_last_live :: double
  ac_last_count :: int

definition new_activity_panel :: activity_panel where
  "new_activity_panel = \<lparr>ac_shown = False, ac_chart = new_speed_chart, ac_head = \<lparr>mh_live = None, mh_count = None, mh_stats = None\<rparr>,
     ac_tracker = empty_rate_tracker, ac_last_seq = 0, ac_last_live = 0, ac_last_count = 0\<rparr>"

definition activity_hidden :: "activity_panel \<Rightarrow> activity_panel" where
  "activity_hidden a = a\<lparr>ac_shown := False, ac_chart := clear_chart (set_recording False (ac_chart a)), ac_last_seq := 0,
     ac_last_live := 0, ac_last_count := 0\<rparr>"

definition scale_floor_of :: "double \<Rightarrow> double \<Rightarrow> double" where
  "scale_floor_of live_mbps booth_display_mib_s =
     (if 0 < live_mbps \<and> 0 < booth_display_mib_s then max live_mbps booth_display_mib_s
      else if 0 < live_mbps then live_mbps else 0)"

text \<open>The pulses the sequence number of the fabric calls for; it does not go back.\<close>

definition new_pulses :: "u32 \<Rightarrow> u32 \<Rightarrow> nat" where
  "new_pulses fabric_activity_seq last_seq = (if last_seq < fabric_activity_seq then unat (fabric_activity_seq - last_seq) else 0)"

text \<open>The argument \<open>clock\<close> gives the time of each reading of the clock during the call.\<close>

definition sync_activity_monitor :: "(nat \<Rightarrow> int) \<Rightarrow> bool \<Rightarrow> u32 \<Rightarrow> double \<Rightarrow> double \<Rightarrow> double \<Rightarrow> activity_panel \<Rightarrow> activity_panel" where
  "sync_activity_monitor clock visible fabric_activity_seq live_mbps result_mbps booth_display_mib_s a =
     (if \<not> visible then activity_hidden a
      else let tracker = observe_result_mbps result_mbps (ac_tracker a);
               stats = tracker_stats tracker;
               chart = ensure_chart (clock 0) (set_scale_floor (scale_floor_of live_mbps booth_display_mib_s)
                 (set_recording True (ac_chart a)));
               delta = new_pulses fabric_activity_seq (ac_last_seq a);
               chart = fold (\<lambda>i. push_session_pulse (clock (Suc i))) [0..<delta] chart;
               chart = (if 0 < live_mbps then push_sample (clock (Suc delta)) live_mbps chart
                 else if ac_last_count a < rs_count stats \<and> 0 < result_mbps then push_sample (clock (Suc delta)) result_mbps chart
                 else chart)
        in a\<lparr>ac_shown := True, ac_chart := chart, ac_head := relayout_head live_mbps stats, ac_tracker := tracker,
             ac_last_seq := max (ac_last_seq a) fabric_activity_seq, ac_last_live := live_mbps, ac_last_count := rs_count stats\<rparr>)"

section \<open>The card\<close>

definition multi_system_meta_line :: "int \<Rightarrow> string" where
  "multi_system_meta_line devices_seen =
     (if devices_seen \<le> 1 then []
      else let others = devices_seen - 1
        in if others = 1 then ''1 other system on this fabric''
           else show_int others @ '' other systems on this fabric'')"

record connection_view =
  cv_device :: string
  cv_hint :: "string option"
  cv_meta :: "string option"
  cv_connect_shown :: bool
  cv_disconnect_shown :: bool
  cv_activity :: activity_panel

definition new_connection_view :: connection_view where
  "new_connection_view = \<lparr>cv_device = [], cv_hint = Some ''Plug in your USB cable, then choose it when prompted.'',
     cv_meta = None, cv_connect_shown = True, cv_disconnect_shown = False, cv_activity = new_activity_panel\<rparr>"

definition sync_connect_actions :: "bool \<Rightarrow> connection_view \<Rightarrow> connection_view" where
  "sync_connect_actions fabric_connected v = v\<lparr>cv_connect_shown := \<not> fabric_connected, cv_disconnect_shown := fabric_connected\<rparr>"

definition device_text :: "string \<Rightarrow> int \<Rightarrow> string" where
  "device_text fabric_device_label fabric_port_index =
     (if fabric_device_label \<noteq> [] then fabric_device_label
      else if 0 \<le> fabric_port_index then system_name_for_leg fabric_port_index else ''This system'')"

definition meta_text :: "int \<Rightarrow> string option" where
  "meta_text devices_seen = (let line = multi_system_meta_line devices_seen in if line = [] then None else Some line)"

text \<open>While a transfer runs without a measured rate, the booth rate is drawn.\<close>

definition chart_rate :: "bool \<Rightarrow> double \<Rightarrow> double \<Rightarrow> double" where
  "chart_rate busy live_mbps booth_display_mib_s =
     (if busy \<and> live_mbps \<le> 0 \<and> 0 < booth_display_mib_s then booth_display_mib_s else live_mbps)"

record connection_input =
  ci_connected :: bool
  ci_port_index :: int
  ci_devices_seen :: int
  ci_device_label :: string
  ci_busy :: bool
  ci_live_mbps :: double
  ci_booth_display_mib_s :: double
  ci_result_mbps :: double
  ci_activity_seq :: u32

definition apply_connection :: "(nat \<Rightarrow> int) \<Rightarrow> connection_input \<Rightarrow> connection_view \<Rightarrow> connection_view" where
  "apply_connection clock i v =
     (let connected = ci_connected i; devices = ci_devices_seen i;
          v1 = v\<lparr>cv_device := device_text (ci_device_label i) (ci_port_index i),
            cv_hint := (if connected then None
              else if 0 < devices
              then Some (''USB cable detected '' @ em_dash @ '' click Connect this system and pick it in the USB dialog.'')
              else Some ''Plug in your USB cable, then choose it when prompted.''),
            cv_meta := (if connected \<or> 0 < devices then meta_text devices else None),
            cv_activity := sync_activity_monitor clock connected (ci_activity_seq i)
              (chart_rate (ci_busy i) (ci_live_mbps i) (ci_booth_display_mib_s i)) (ci_result_mbps i)
              (ci_booth_display_mib_s i) (cv_activity v)\<rparr>
      in sync_connect_actions connected v1)"

section \<open>The monitor uses the chart's operations only\<close>

lemma sync_runs_chart:
  "\<exists>xs. ac_chart (sync_activity_monitor clock visible fseq live result booth a) = fold chart_step xs (ac_chart a)"
proof (cases visible)
  case False
  have "ac_chart (activity_hidden a) = fold chart_step [(0, Chart_Recording False), (0, Chart_Clear)] (ac_chart a)"
    by (simp add: activity_hidden_def chart_step_def)
  with False have "ac_chart (sync_activity_monitor clock visible fseq live result booth a)
      = fold chart_step [(0, Chart_Recording False), (0, Chart_Clear)] (ac_chart a)"
    by (simp add: sync_activity_monitor_def)
  then show ?thesis ..
next
  case True
  let ?delta = "new_pulses fseq (ac_last_seq a)"
  let ?stats = "tracker_stats (observe_result_mbps result (ac_tracker a))"
  let ?start = "[(0, Chart_Recording True), (0, Chart_Floor (scale_floor_of live booth)), (clock 0, Chart_Ensure)]"
  let ?pulses = "map (\<lambda>i. (clock (Suc i), Chart_Pulse)) [0..<?delta]"
  let ?sample = "if 0 < live then [(clock (Suc ?delta), Chart_Sample live)]
    else if ac_last_count a < rs_count ?stats \<and> 0 < result then [(clock (Suc ?delta), Chart_Sample result)] else []"
  have pulses: "fold chart_step (map (\<lambda>i. (clock (Suc i), Chart_Pulse)) ks) c = fold (\<lambda>i. push_session_pulse (clock (Suc i))) ks c" for ks c
    by (induction ks arbitrary: c) (simp_all add: chart_step_def)
  have "ac_chart (sync_activity_monitor clock visible fseq live result booth a) = fold chart_step (?start @ ?pulses @ ?sample) (ac_chart a)"
    using True by (simp add: sync_activity_monitor_def Let_def pulses) (simp add: chart_step_def)
  then show ?thesis ..
qed

text \<open>So what holds of every run of the chart holds of the chart of every card.\<close>

lemma connection_chart_run:
  "\<exists>xs. ac_chart (cv_activity (fold (\<lambda>(clock, i). apply_connection clock i) ks new_connection_view)) = fold chart_step xs new_speed_chart"
proof (induction ks rule: rev_induct)
  case Nil
  have "ac_chart (cv_activity new_connection_view) = fold chart_step [] new_speed_chart"
    by (simp add: new_connection_view_def new_activity_panel_def)
  then show ?case by (metis fold_simps(1))
next
  case (snoc x ks)
  let ?v = "fold (\<lambda>(clock, i). apply_connection clock i) ks new_connection_view"
  obtain clock i where x: "x = (clock, i)" by (cases x)
  from snoc obtain xs where "ac_chart (cv_activity ?v) = fold chart_step xs new_speed_chart" by blast
  moreover obtain ys where "ac_chart (cv_activity (apply_connection clock i ?v)) = fold chart_step ys (ac_chart (cv_activity ?v))"
    using sync_runs_chart by (simp add: apply_connection_def Let_def sync_connect_actions_def) blast
  ultimately have "ac_chart (cv_activity (apply_connection clock i ?v)) = fold chart_step (xs @ ys) new_speed_chart" by simp
  then show ?case unfolding x by (metis (mono_tags, lifting) case_prod_conv fold_simps fold_append comp_apply)
qed

text \<open>
  C30: Whatever states the connection card is given, at whatever times, in a panel at least 126
  pixels wide every bar of its chart lies inside the plot; only the two pixels of an empty bar
  may pass the base line.
\<close>

theorem card_bars_inside:
  assumes "126 \<le> sx"
    and "(x, y, w, h) \<in> set (chart_rects sx sy (ac_chart (cv_activity
           (fold (\<lambda>(clock, i). apply_connection clock i) states new_connection_view))))"
  shows "8 \<le> x \<and> 0 < w \<and> x + w \<le> sx - 8 \<and> 3 \<le> y \<and> y + h \<le> 3 + plot_height sy + 2"
proof -
  obtain xs where "ac_chart (cv_activity (fold (\<lambda>(clock, i). apply_connection clock i) states new_connection_view))
      = fold chart_step xs new_speed_chart"
    using connection_chart_run by blast
  with assms show ?thesis by (intro bars_inside [OF chart_run_ok]) simp_all
qed

definition busy_card :: connection_input where
  "busy_card = \<lparr>ci_connected = True, ci_port_index = 0, ci_devices_seen = 1, ci_device_label = [], ci_busy = True,
     ci_live_mbps = 0, ci_booth_display_mib_s = 7168, ci_result_mbps = 0, ci_activity_seq = 0\<rparr>"

lemma card_bars_inside_witness:
  "(8, 8, 110, 31) \<in> set (chart_rects 126 64 (ac_chart (cv_activity
      (fold (\<lambda>(clock, i). apply_connection clock i) [(\<lambda>_. 5, busy_card)] new_connection_view))))
   \<and> 8 + 31 \<le> 3 + plot_height 64 + 2"
proof -
  have "(8, 8, 110, 31) \<in> set (chart_rects 126 64 (ac_chart (cv_activity
      (fold (\<lambda>(clock, i). apply_connection clock i) [(\<lambda>_. 5, busy_card)] new_connection_view))))"
    by code_simp
  with card_bars_inside [OF _ this] show ?thesis by simp
qed

end
