(* ===== verification/Main_Window.thy ===== *)
theory Main_Window
  imports Connection_View Orch_Props Usb_Device
begin

text \<open>
  The main window of the desktop application: \<open>src/apps/wx/main_frame.cpp\<close> with the dialogs it
  opens, \<open>incoming_dialog.cpp\<close>, \<open>settings_dialog.cpp\<close>, \<open>fabric_device_picker.cpp\<close> and
  \<open>event_log_dialog.cpp\<close>. The window is a record; what it asks of the orchestrator or of the user
  is a list of effects. A modal dialog runs the event loop, so a function that opens one is cut
  in two. Widgets, sizes, icons and signal handling are left out.
\<close>

section \<open>The request dialog\<close>

text \<open>Sizes, with the limits of this dialog, which are not those of the progress panel.\<close>

definition request_size_text :: "u64 \<Rightarrow> string" where
  "request_size_text bs =
     (if bs < 1024 then show_nat (unat bs) @ '' B''
      else if bs < 1024 * 1024 then show_fixed 1 (of_nat (unat bs) / 1024) @ '' KiB''
      else if bs < 1024 * 1024 * 1024 then show_fixed 2 (of_nat (unat bs) / (1024 * 1024)) @ '' MiB''
      else show_fixed 2 (of_nat (unat bs) / (1024 * 1024 * 1024)) @ '' GiB'')"

definition wide_dot :: string where
  "wide_dot = [CHR '' ''] @ middle_dot @ [CHR '' '']"

definition request_lines :: "fabric_session_message \<Rightarrow> string list" where
  "request_lines m =
     [''From: '' @ sm_from_name m @ wide_dot @ sm_team m, ''File: '' @ sm_payload_name m,
      ''Size: '' @ request_size_text (sm_total_bytes m)
        @ (if 1 < sm_file_count m then '' ('' @ show_nat (unat (sm_file_count m)) @ '' files)'' else [])]
     @ (if sm_note m \<noteq> [] then [''Note: '' @ sm_note m] else [])"

record request_dialog =
  rd_remaining :: int
  rd_decided :: bool
  rd_countdown :: string
  rd_timer :: bool

definition countdown_text :: "int \<Rightarrow> string" where
  "countdown_text secs = ''Auto-declines in '' @ show_int secs @ ''s''"

definition new_request_dialog :: "int \<Rightarrow> request_dialog" where
  "new_request_dialog accept_dialog_sec = (let secs = (if 0 < accept_dialog_sec then accept_dialog_sec else 1)
     in \<lparr>rd_remaining = secs, rd_decided = False, rd_countdown = countdown_text secs, rd_timer = True\<rparr>)"

text \<open>The decision is passed to the callback, once.\<close>

definition decide :: "bool \<Rightarrow> request_dialog \<Rightarrow> bool list \<times> request_dialog" where
  "decide accepted d = (if rd_decided d then ([], d) else ([accepted], d\<lparr>rd_decided := True, rd_timer := False\<rparr>))"

datatype dialog_event = Press_Accept | Press_Reject | Countdown

text \<open>A tick that was already queued when the timer stopped still arrives.\<close>

definition on_countdown :: "request_dialog \<Rightarrow> bool list \<times> request_dialog" where
  "on_countdown d = (let d1 = d\<lparr>rd_remaining := rd_remaining d - 1\<rparr>
     in if rd_remaining d1 \<le> 0 then decide False d1
        else ([], d1\<lparr>rd_countdown := countdown_text (rd_remaining d1)\<rparr>))"

definition dialog_step :: "dialog_event \<Rightarrow> request_dialog \<Rightarrow> bool list \<times> request_dialog" where
  "dialog_step ev d = (case ev of Press_Accept \<Rightarrow> decide True d | Press_Reject \<Rightarrow> decide False d | Countdown \<Rightarrow> on_countdown d)"

fun dialog_run :: "dialog_event list \<Rightarrow> request_dialog \<Rightarrow> bool list \<times> request_dialog" where
  "dialog_run [] d = ([], d)"
| "dialog_run (ev # evs) d = (let (xs, d1) = dialog_step ev d; (ys, d2) = dialog_run evs d1 in (xs @ ys, d2))"

section \<open>Other dialogs\<close>

definition filter_log_for_port :: "string \<Rightarrow> int \<Rightarrow> string" where
  "filter_log_for_port text_in port_index =
     (let needle = ''[port='' @ show_int (display_port_from_leg port_index) @ '']'';
          filtered = concat (map (\<lambda>l. l @ [newline])
            (filter (\<lambda>l. contains needle l \<or> contains ''[boot]'' l) (getlines text_in)))
      in if filtered = [] then ''(no lines for this port yet)'' @ [newline] else filtered)"

definition reload_log :: "bool \<Rightarrow> int \<Rightarrow> string \<Rightarrow> file_system \<Rightarrow> string" where
  "reload_log port_filter port_index log_path fs = (let tail = read_booth_log_tail log_path 500 fs
     in if port_filter then filter_log_for_port tail port_index else tail)"

text \<open>\<open>OnClear\<close> after the question; the second entry also goes where the environment says.\<close>

definition on_clear_log :: "bool \<Rightarrow> string option \<Rightarrow> string \<Rightarrow> string \<Rightarrow> int \<Rightarrow> string \<times> file_system \<Rightarrow> string \<times> file_system" where
  "on_clear_log yes env_path stamp1 stamp2 port_index x = (case x of (log_path, fs) \<Rightarrow>
     if yes then booth_log env_path stamp2 port_index ''log_cleared'' ''from Event Log dialog'' log_path
       (booth_log_clear log_path stamp1 fs)
     else (log_path, fs))"

text \<open>The labels of the cables to choose from, with the answers of the availability probe.\<close>

definition cable_label :: "nat \<Rightarrow> fabric_usb_device \<Rightarrow> bool \<Rightarrow> string" where
  "cable_label index device available = ''USB cable '' @ show_nat (index + 1) @ '' '' @ em_dash @ '' bus ''
     @ show_nat (unat (fd_bus device)) @ middle_dot @ ''addr '' @ show_nat (unat (fd_addr device))
     @ (if available then [] else '' (in use)'')"

text \<open>The user's answer is an index into the choices, or -1.\<close>

definition pick_fabric_port_index :: "(string list \<Rightarrow> int) \<Rightarrow> (nat \<Rightarrow> bool) \<Rightarrow> fabric_usb_device list \<Rightarrow> int" where
  "pick_fabric_port_index ask available devices =
     (if devices = [] then - 1 else if length devices = 1 then 0
      else ask (map (\<lambda>(i, d). cable_label i d (available i)) (enumerate 0 devices)))"

definition trim_field :: "string \<Rightarrow> string" where
  "trim_field value = strip_front is_space (strip_back is_space value)"

record settings_fields =
  sf_name :: string
  sf_team :: string
  sf_receive :: int
  sf_folder :: string
  sf_booth :: bool

text \<open>\<open>OnSave\<close>: no profile when the name is missing.\<close>

definition settings_save :: "string \<Rightarrow> settings_fields \<Rightarrow> identity_profile \<Rightarrow> identity_profile option" where
  "settings_save default_config_path f profile =
     (let name = trim_field (sf_name f)
      in if name = [] then None
         else let p1 = apply_booth_display_rates (profile\<lparr>ip_display_name := name, ip_team := trim_field (sf_team f),
                ip_receive_status := (if sf_receive f = 0 then Status_Open else if sf_receive f = 2 then Status_Busy
                  else Status_AskFirst),
                ip_receive_folder := sf_folder f, ip_booth_display_enabled := sf_booth f\<rparr>)
           in Some (if ip_config_path p1 = [] then p1\<lparr>ip_config_path := default_config_path\<rparr> else p1))"

section \<open>The window\<close>

datatype link_led = Led_Offline | Led_Announcing | Led_Connected | Led_Transferring

datatype window_effect = Fx_Start int | Fx_Op ui_op | Fx_Box string string | Fx_Log int string string | Fx_Save identity_profile

record main_window =
  mw_cli_port :: int
  mw_port :: int
  mw_connected :: bool
  mw_devices :: int
  mw_config_path :: string
  mw_identity :: identity_profile
  mw_running :: bool
  mw_started :: bool
  mw_led :: link_led
  mw_pulse_on :: bool
  mw_pulse_timer :: bool
  mw_selected :: string
  mw_shown_offer :: "string option"
  mw_modal_depth :: int
  mw_title :: string
  mw_status :: status_line
  mw_roster :: roster_panel
  mw_progress :: progress_view
  mw_connection :: connection_view

text \<open>The clocks of one step: that of the roster in milliseconds and the readings of the chart.\<close>

type_synonym clocks = "int \<times> (nat \<Rightarrow> int)"

definition update_window_title :: "main_window \<Rightarrow> main_window" where
  "update_window_title w = w\<lparr>mw_title := ''RocketBox Transfer '' @ em_dash @ '' '' @ ip_display_name (mw_identity w)\<rparr>"

definition show_connection :: "clocks \<Rightarrow> connection_input \<Rightarrow> main_window \<Rightarrow> main_window" where
  "show_connection clocks i w = w\<lparr>mw_connection := apply_connection (snd clocks) i (mw_connection w)\<rparr>"

definition show_roster :: "clocks \<Rightarrow> roster_update \<Rightarrow> main_window \<Rightarrow> main_window" where
  "show_roster clocks u w = w\<lparr>mw_roster := update_roster (fst clocks) u (mw_roster w)\<rparr>"

text \<open>What the callers without an orchestrator pass.\<close>

definition offline_card :: "int \<Rightarrow> int \<Rightarrow> string \<Rightarrow> connection_input" where
  "offline_card port devices label = \<lparr>ci_connected = False, ci_port_index = port, ci_devices_seen = devices, ci_device_label = label,
     ci_busy = False, ci_live_mbps = 0, ci_booth_display_mib_s = 0, ci_result_mbps = 0, ci_activity_seq = 0\<rparr>"

definition offline_roster :: "identity_profile \<Rightarrow> int \<Rightarrow> int \<Rightarrow> roster_update" where
  "offline_roster identity devices port = \<lparr>ru_peers = peer_entries_from_config (ip_peers identity), ru_self = identity,
     ru_connected = False, ru_devices = devices, ru_port = port, ru_busy = False, ru_last_announce = 0, ru_status = []\<rparr>"

section \<open>Starting and stopping\<close>

text \<open>\<open>devices\<close> is what the cable list gives, none when libusb cannot be initialised.\<close>

definition resolve_window_port :: "(string list \<Rightarrow> int) \<Rightarrow> (nat \<Rightarrow> bool) \<Rightarrow> fabric_usb_device list \<Rightarrow> int \<Rightarrow> int" where
  "resolve_window_port ask available devices cli_port_index =
     (if devices = [] then - 1
      else if 0 \<le> cli_port_index then (if int (length devices) \<le> cli_port_index then - 1 else cli_port_index)
      else if length devices = 1 then 0
      else pick_fabric_port_index ask available devices)"

definition start_orchestrator :: "(string list \<Rightarrow> int) \<Rightarrow> (nat \<Rightarrow> bool) \<Rightarrow> fabric_usb_device list \<Rightarrow> main_window
    \<Rightarrow> bool \<times> window_effect list \<times> main_window" where
  "start_orchestrator ask available devices w =
     (if mw_running w then (True, [], w)
      else let port = resolve_window_port ask available devices (mw_cli_port w); w1 = w\<lparr>mw_port := port\<rparr>
        in if port < 0 then (False, [Fx_Log 0 ''gui_start'' ''no fabric device selected''], w1)
           else (True, [Fx_Start port, Fx_Op (Op_Start False True), Fx_Log port ''gui_start'' (mw_config_path w1)],
             w1\<lparr>mw_running := True\<rparr>))"

text \<open>\<open>CountFabricDevices\<close> lists the devices again; \<open>counted\<close> is what it finds.\<close>

definition on_first_show :: "clocks \<Rightarrow> (string list \<Rightarrow> int) \<Rightarrow> (nat \<Rightarrow> bool) \<Rightarrow> fabric_usb_device list \<Rightarrow> int \<Rightarrow> main_window
    \<Rightarrow> window_effect list \<times> main_window" where
  "on_first_show clocks ask available devices counted w =
     (if mw_started w then ([], w)
      else case start_orchestrator ask available devices (w\<lparr>mw_started := True\<rparr>) of
        (ok, fx, w1) \<Rightarrow> (fx, if \<not> ok
          then show_connection clocks (offline_card (- 1) counted (ip_display_name (mw_identity w1)))
            (w1\<lparr>mw_devices := counted\<rparr>)
          else show_roster clocks (offline_roster (mw_identity w1) 0 (mw_port w1)) w1))"

definition on_connect_usb :: "clocks \<Rightarrow> (string list \<Rightarrow> int) \<Rightarrow> (nat \<Rightarrow> bool) \<Rightarrow> fabric_usb_device list \<Rightarrow> int \<Rightarrow> main_window
    \<Rightarrow> window_effect list \<times> main_window" where
  "on_connect_usb clocks ask available devices counted w =
     (if mw_running w then ([], w)
      else case start_orchestrator ask available devices w of
        (ok, fx, w1) \<Rightarrow> (fx, if ok then w1
          else show_connection clocks (offline_card (- 1) counted (ip_display_name (mw_identity w1)))
            (w1\<lparr>mw_devices := counted,
               mw_status := \<lparr>sl_text = (if 0 < counted then ''USB cable detected '' @ em_dash @ '' choose it when prompted.''
                   else ''Plug in your USB cable''), sl_colour = Warn\<rparr>\<rparr>)))"

definition on_disconnect_usb :: "clocks \<Rightarrow> bool \<Rightarrow> main_window \<Rightarrow> window_effect list \<times> main_window" where
  "on_disconnect_usb clocks busy w =
     (if \<not> mw_running w then ([], w)
      else if busy then ([Fx_Box ''RocketBox'' ''Finish the current transfer before disconnecting.''], w)
      else let w1 = w\<lparr>mw_running := False, mw_connected := False, mw_led := Led_Offline,
             mw_status := \<lparr>sl_text = ''Disconnected'', sl_colour = Warn\<rparr>\<rparr>;
             w2 = show_roster clocks (offline_roster (mw_identity w1) (mw_devices w1) (- 1)) w1;
             w3 = show_connection clocks (offline_card (- 1) (mw_devices w1) (ip_display_name (mw_identity w1))) w2
        in ([Fx_Op Op_Stop], w3\<lparr>mw_progress := apply_progress (initial_ui default_identity_profile []) (mw_progress w3)\<rparr>))"

definition on_clear_saved_cable :: "main_window \<Rightarrow> main_window" where
  "on_clear_saved_cable w = w\<lparr>mw_port := - 1, mw_cli_port := - 1\<rparr>"

definition on_reset_connection :: "main_window \<Rightarrow> window_effect list" where
  "on_reset_connection w = (if mw_running w then [Fx_Op Op_Reset] else [])"

definition on_close :: "main_window \<Rightarrow> window_effect list \<times> main_window" where
  "on_close w = (let w1 = w\<lparr>mw_pulse_timer := False\<rparr>
     in if mw_running w1 then ([Fx_Op Op_Stop], w1\<lparr>mw_running := False\<rparr>) else ([], w1))"

section \<open>Showing a state\<close>

definition led_of :: "orch_ui \<Rightarrow> link_led" where
  "led_of x = (if ui_busy x \<and> ui_fabric_connected x then Led_Transferring
     else if ui_fabric_connected x then Led_Connected
     else if ui_fabric_port_open x \<or> 0 < ui_fabric_devices_seen x then Led_Announcing
     else Led_Offline)"

definition sync_led_pulse_timer :: "bool \<Rightarrow> main_window \<Rightarrow> main_window" where
  "sync_led_pulse_timer wanted w =
     (if wanted then w\<lparr>mw_pulse_timer := True\<rparr> else w\<lparr>mw_pulse_timer := False, mw_pulse_on := False\<rparr>)"

definition on_led_pulse_timer :: "main_window \<Rightarrow> main_window" where
  "on_led_pulse_timer w = w\<lparr>mw_pulse_on := \<not> mw_pulse_on w\<rparr>"

definition led_tooltip :: "link_led \<Rightarrow> string" where
  "led_tooltip led = (case led of Led_Offline \<Rightarrow> ''Offline'' | Led_Announcing \<Rightarrow> ''Announcing'' @ ellipsis
     | Led_Connected \<Rightarrow> ''System connected'' | Led_Transferring \<Rightarrow> ''Transfer in progress'')"

definition update_connection_status :: "clocks \<Rightarrow> orch_ui \<Rightarrow> main_window \<Rightarrow> main_window" where
  "update_connection_status clocks x w =
     (let w1 = sync_led_pulse_timer (ui_busy x \<and> ui_fabric_connected x) (w\<lparr>mw_led := led_of x\<rparr>);
          identity_configured = (ip_display_name (ui_identity x) \<noteq> []);
          w2 = w1\<lparr>mw_status := status_line_native (ui_fabric_connected x) (ui_fabric_devices_seen x) (mw_port w1) (ui_busy x)
            (ui_waiting_for_partner x) (ui_status_message x) identity_configured (identity_configured \<and> ui_roster x \<noteq> [])\<rparr>
      in show_connection clocks \<lparr>ci_connected = ui_fabric_connected x,
           ci_port_index = (if 0 \<le> ui_fabric_port_index x then ui_fabric_port_index x else mw_port w2),
           ci_devices_seen = ui_fabric_devices_seen x, ci_device_label = ip_display_name (mw_identity w2), ci_busy = ui_busy x,
           ci_live_mbps = ui_live_mbps x, ci_booth_display_mib_s = ui_booth_display_mib_s x,
           ci_result_mbps = ui_result_mbps x, ci_activity_seq = ui_fabric_activity_seq x\<rparr> w2)"

text \<open>\<open>sim\<close> says whether \<open>ROCKETBOX_SIM\<close> is set.\<close>

definition take_state :: "bool \<Rightarrow> orch_ui \<Rightarrow> main_window \<Rightarrow> main_window" where
  "take_state sim x w =
     (let w1 = w\<lparr>mw_connected := ui_fabric_connected x, mw_devices := ui_fabric_devices_seen x, mw_identity := ui_identity x,
            mw_port := (if 0 \<le> ui_fabric_port_index x then ui_fabric_port_index x else mw_port w)\<rparr>
      in if sim \<and> 0 \<le> mw_port w1
         then w1\<lparr>mw_identity := (mw_identity w1)\<lparr>ip_display_name := system_name_for_leg (mw_port w1)\<rparr>\<rparr> else w1)"

definition transfer_running :: "orch_ui \<Rightarrow> bool" where
  "transfer_running x \<longleftrightarrow> ui_busy x \<or> ui_waiting_for_partner x"

definition show_state :: "clocks \<Rightarrow> orch_ui \<Rightarrow> main_window \<Rightarrow> main_window" where
  "show_state clocks x w =
     (let w1 = update_connection_status clocks x (update_window_title w);
          w2 = show_roster clocks \<lparr>ru_peers = ui_roster x, ru_self = ui_identity x, ru_connected = ui_fabric_connected x,
            ru_devices = ui_fabric_devices_seen x, ru_port = mw_port w1, ru_busy = transfer_running x,
            ru_last_announce = ui_last_announce_ms x,
            ru_status = (if transfer_running x then ui_status_message x else [])\<rparr> w1
      in w2\<lparr>mw_progress := apply_progress x (mw_progress w2)\<rparr>)"

text \<open>
  \<open>MaybeShowIncomingDialog\<close>: the offer to show, when it is not the one shown last, with the
  dialog's seconds.
\<close>

definition maybe_show_incoming :: "orch_ui \<Rightarrow> main_window \<Rightarrow> (fabric_session_message \<times> int) option \<times> main_window" where
  "maybe_show_incoming x w = (case ui_pending_offer x of
       None \<Rightarrow> (None, w)
     | Some m \<Rightarrow> if mw_shown_offer w = Some (sm_session_id m) then (None, w)
         else (Some (m, sint (ht_accept_dialog_sec (handshake_timing_from_identity (ui_identity x)))),
           w\<lparr>mw_shown_offer := Some (sm_session_id m)\<rparr>))"

text \<open>
  \<open>ApplyOrchestratorState\<close> up to the dialog, what the dialog's decision does, and the rest, with
  whether the settings were open at the start.
\<close>

definition apply_state_begin :: "bool \<Rightarrow> clocks \<Rightarrow> orch_ui \<Rightarrow> main_window \<Rightarrow> (fabric_session_message \<times> int) option \<times> main_window" where
  "apply_state_begin sim clocks x w = (let w1 = take_state sim x w
     in maybe_show_incoming x (if 0 < mw_modal_depth w1 then w1 else show_state clocks x w1))"

definition dialog_decided :: "bool \<Rightarrow> main_window \<Rightarrow> window_effect list \<times> main_window" where
  "dialog_decided accepted w =
     (if \<not> mw_running w then ([], w)
      else ([Fx_Op (if accepted then Op_Accept else Op_Decline)], w\<lparr>mw_shown_offer := None\<rparr>))"

definition apply_state_end :: "bool \<Rightarrow> orch_ui \<Rightarrow> main_window \<Rightarrow> main_window" where
  "apply_state_end modal x w =
     (if \<not> modal \<and> \<not> ui_busy x \<and> ui_pending_offer x = None \<and> mw_shown_offer w \<noteq> None
        \<and> contains ''Accept failed'' (ui_error_message x)
      then w\<lparr>mw_shown_offer := None\<rparr> else w)"

section \<open>Sending\<close>

definition on_peer_selected :: "string \<Rightarrow> main_window \<Rightarrow> main_window" where
  "on_peer_selected name w = w\<lparr>mw_selected := name\<rparr>"

text \<open>
  \<open>OnSendRequested\<close> with the orchestrator's busy flag and snapshot; \<open>prompted\<close> are the paths the
  user chooses when none are given.
\<close>

definition on_send_requested :: "bool \<Rightarrow> orch_ui \<Rightarrow> string list \<Rightarrow> string list \<Rightarrow> string \<Rightarrow> main_window
    \<Rightarrow> window_effect list \<times> main_window" where
  "on_send_requested busy snap prompted paths text_in w =
     (if \<not> mw_running w \<or> busy then ([], w)
      else let send_paths = (if paths = [] then prompted else paths)
        in if send_paths = [] then ([], w)
           else let w1 = (if mw_selected w = []
                    then (case selected_peer (mw_roster w) of None \<Rightarrow> w | Some name \<Rightarrow> w\<lparr>mw_selected := name\<rparr>) else w);
                    name = mw_selected w1
             in (if name = [] then [Fx_Box ''No peer'' ''Wait for a peer to appear, then try again.'']
                 else if list_ex (\<lambda>p. pe_display_name p = name \<and> \<not> pe_online p) (ui_roster snap)
                 then [Fx_Box ''Peer offline'' (name @ '' is not connected yet.'')]
                 else if \<not> ui_fabric_connected snap
                 then [Fx_Box ''Device offline'' (''Device is not ready yet '' @ em_dash @ '' check the status at top right.'')]
                 else [Fx_Op (Op_Send name send_paths text_in)], w1))"

text \<open>The paths chosen in a dialog, none when it was left without a choice.\<close>

definition browse_files_dialog :: "string list option \<Rightarrow> string list" where
  "browse_files_dialog chosen = (case chosen of None \<Rightarrow> [] | Some paths \<Rightarrow> paths)"

definition browse_folder_dialog :: "string option \<Rightarrow> string list" where
  "browse_folder_dialog chosen = (case chosen of None \<Rightarrow> [] | Some path \<Rightarrow> [path])"

datatype send_choice = Choose_Cancel | Choose_Files | Choose_Folder

definition prompt_for_send_paths :: "send_choice \<Rightarrow> string list option \<Rightarrow> string option \<Rightarrow> string list" where
  "prompt_for_send_paths choice chosen_files chosen_folder = (case choice of
       Choose_Cancel \<Rightarrow> [] | Choose_Files \<Rightarrow> browse_files_dialog chosen_files
     | Choose_Folder \<Rightarrow> browse_folder_dialog chosen_folder)"

text \<open>\<open>OnBrowseFiles\<close> and \<open>OnBrowseFolder\<close>.\<close>

definition on_browse :: "bool \<Rightarrow> orch_ui \<Rightarrow> string list \<Rightarrow> main_window \<Rightarrow> window_effect list \<times> main_window" where
  "on_browse busy snap staged w = (if staged = [] then ([], w) else on_send_requested busy snap [] staged [] w)"

text \<open>The box after a call of \<open>send_to_peer\<close> that answered false.\<close>

definition on_send_refused :: "orch_ui \<Rightarrow> window_effect list" where
  "on_send_refused snap = (if ui_error_message snap = [] then [] else [Fx_Box ''Send failed'' (ui_error_message snap)])"

text \<open>Files dropped on a peer's row: the roster's two callbacks, then the request.\<close>

definition on_files_dropped :: "bool \<Rightarrow> orch_ui \<Rightarrow> (string \<times> string list) option \<times> roster_panel \<Rightarrow> main_window
    \<Rightarrow> window_effect list \<times> main_window" where
  "on_files_dropped busy snap dropped w = (let w1 = w\<lparr>mw_roster := snd dropped\<rparr> in case fst dropped of
       None \<Rightarrow> ([], w1)
     | Some (name, paths) \<Rightarrow> on_send_requested busy snap [] paths [] (on_peer_selected name w1))"

section \<open>Settings\<close>

text \<open>\<open>OnSettings\<close> until the dialog is shown, and what a saved profile does.\<close>

definition settings_opened :: "main_window \<Rightarrow> main_window" where
  "settings_opened w = w\<lparr>mw_modal_depth := mw_modal_depth w + 1\<rparr>"

text \<open>When the dialog is left the state is shown again, up to a request dialog it may open.\<close>

definition settings_closed :: "bool \<Rightarrow> clocks \<Rightarrow> orch_ui \<Rightarrow> main_window \<Rightarrow> (fabric_session_message \<times> int) option \<times> main_window" where
  "settings_closed sim clocks snap w = (let w1 = w\<lparr>mw_modal_depth := mw_modal_depth w - 1\<rparr>
     in if mw_running w1 then apply_state_begin sim clocks snap w1 else (None, w1))"

definition on_settings_saved :: "clocks \<Rightarrow> orch_ui \<Rightarrow> identity_profile \<Rightarrow> main_window \<Rightarrow> window_effect list \<times> main_window" where
  "on_settings_saved clocks snap profile w =
     (let w1 = update_window_title (w\<lparr>mw_identity := profile, mw_config_path := ip_config_path profile\<rparr>);
          fx = (if mw_running w1 then [Fx_Op (Op_Set_Identity profile)]
            else if mw_config_path w1 \<noteq> [] then [Fx_Save profile] else []);
          u = offline_roster profile 0 (mw_port w1)
      in (fx, show_roster clocks (if mw_running w1
           then u\<lparr>ru_connected := ui_fabric_connected snap, ru_devices := ui_fabric_devices_seen snap, ru_busy := ui_busy snap,
             ru_last_announce := ui_last_announce_ms snap\<rparr>
           else u) w1))"

section \<open>Diagnostics\<close>

text \<open>\<open>OnUsbDiagnostics\<close>, with the kernel knob and the settings of the USB core.\<close>

definition usb_diagnostics_text :: "string option \<Rightarrow> usb_settings \<Rightarrow> string \<Rightarrow> main_window \<Rightarrow> string" where
  "usb_diagnostics_text knob settings log_path w =
     (let timing = handshake_timing_from_identity (mw_identity w); num = (\<lambda>x :: u32. show_nat (unat x))
      in ''Device port index: '' @ (if 0 \<le> mw_port w then show_int (mw_port w) else ''(not connected)'') @ [newline]
        @ ''Config: '' @ (if mw_config_path w = [] then ''(none)'' else mw_config_path w) @ [newline]
        @ ''usbfs limit: '' @ num (read_usbfs_limit_mb knob) @ '' MB (kernel)'' @ [newline]
        @ ''In-flight depth: '' @ num (inflight_queue_depth settings knob) @ '' chunks'' @ [newline]
        @ ''Payload timeout: '' @ num (us_payload_timeout_ms settings) @ '' ms'' @ [newline]
        @ ''Handshake: accept_gap='' @ num (ht_accept_ready_gap_ms timing)
        @ ''ms reply_delay='' @ num (ht_accept_reply_delay_ms timing)
        @ ''ms accept_timeout='' @ num (ht_accept_timeout_sec timing)
        @ ''s ready_timeout='' @ num (ht_ready_timeout_sec timing) @ ''s'' @ [newline]
        @ ''Event log: '' @ log_path @ [newline]
        @ ''(Settings '' @ [CHR 0xE2, CHR 0x86, CHR 0x92] @ '' Event log'' @ ellipsis @ '')'')"

section \<open>The request dialog decides once\<close>

lemma dialog_run_Cons:
  "fst (dialog_run (ev # evs) d) = fst (dialog_step ev d) @ fst (dialog_run evs (snd (dialog_step ev d)))"
  "snd (dialog_run (ev # evs) d) = snd (dialog_run evs (snd (dialog_step ev d)))"
  by (simp_all split: prod.split)

lemma dialog_steps:
  "dialog_step Press_Accept d = decide True d" "dialog_step Press_Reject d = decide False d"
  "rd_remaining d \<le> 1 \<Longrightarrow> dialog_step Countdown d = decide False (d\<lparr>rd_remaining := rd_remaining d - 1\<rparr>)"
  "1 < rd_remaining d \<Longrightarrow> dialog_step Countdown d
     = ([], d\<lparr>rd_remaining := rd_remaining d - 1, rd_countdown := countdown_text (rd_remaining d - 1)\<rparr>)"
  by (simp_all add: dialog_step_def on_countdown_def Let_def)

lemma step_decided: "rd_decided d \<Longrightarrow> fst (dialog_step ev d) = [] \<and> rd_decided (snd (dialog_step ev d))"
  by (cases ev; cases "rd_remaining d \<le> 1") (simp_all add: dialog_steps decide_def)

lemma decided_stays: "rd_decided d \<Longrightarrow> fst (dialog_run evs d) = []"
proof (induction evs arbitrary: d)
  case (Cons ev evs)
  with step_decided [OF Cons.prems, of ev] show ?case by (simp add: dialog_run_Cons del: dialog_run.simps)
qed simp

text \<open>The first button pressed while time is left, as ticks and buttons come.\<close>

fun first_answer :: "int \<Rightarrow> dialog_event list \<Rightarrow> bool option" where
  "first_answer n [] = None"
| "first_answer n (Press_Accept # evs) = Some True"
| "first_answer n (Press_Reject # evs) = Some False"
| "first_answer n (Countdown # evs) = (if n \<le> 1 then Some False else first_answer (n - 1) evs)"

lemma dialog_run_answer:
  "\<not> rd_decided d \<Longrightarrow> fst (dialog_run evs d) = (case first_answer (rd_remaining d) evs of None \<Rightarrow> [] | Some b \<Rightarrow> [b])"
proof (induction evs arbitrary: d)
  case (Cons ev evs)
  show ?case
  proof (cases "ev = Countdown \<and> 1 < rd_remaining d")
    case True
    with Cons show ?thesis by (simp add: dialog_run_Cons dialog_steps del: dialog_run.simps)
  next
    case False
    with Cons.prems show ?thesis
      by (cases ev) (simp_all add: dialog_run_Cons dialog_steps decide_def decided_stays del: dialog_run.simps)
  qed
qed simp

lemma first_answer_ticks:
  "n \<le> int (length (filter (\<lambda>ev. ev = Countdown) evs)) \<Longrightarrow> 1 \<le> n \<Longrightarrow> \<exists>b. first_answer n evs = Some b"
  by (induction n evs rule: first_answer.induct) auto

text \<open>
  C28: The request dialog calls its callback at most once. Its answer is the first button that is
  pressed while seconds are left, a refusal when they run out, and after as many ticks as it
  was given seconds, one second at least, it has answered.
\<close>

theorem request_dialog_answers_once:
  shows "fst (dialog_run evs (new_request_dialog secs)) = (case first_answer (max 1 secs) evs of None \<Rightarrow> [] | Some b \<Rightarrow> [b])
    \<and> (max 1 secs \<le> int (length (filter (\<lambda>ev. ev = Countdown) evs)) \<longrightarrow> length (fst (dialog_run evs (new_request_dialog secs))) = 1)"
proof -
  have "rd_remaining (new_request_dialog secs) = max 1 secs" "\<not> rd_decided (new_request_dialog secs)"
    by (simp_all add: new_request_dialog_def Let_def)
  with dialog_run_answer [of "new_request_dialog secs" evs] first_answer_ticks [of "max 1 secs" evs]
  show ?thesis by (auto split: option.split)
qed

lemma request_dialog_answers_once_witness:
  "fst (dialog_run [Countdown, Countdown, Press_Accept] (new_request_dialog 2)) = [False]"
  using request_dialog_answers_once [of "[Countdown, Countdown, Press_Accept]" 2] by simp

section \<open>No drop while a transfer runs\<close>

lemma rebuild_busy [simp]: "rp_busy (rebuild_list now p) = rp_busy p"
  by (simp add: rebuild_list_def Let_def show_announce_def update_empty_state_def)

lemma refresh_busy [simp]: "rp_busy (refresh_countdowns now p) = rp_busy p"
  by (simp add: refresh_countdowns_def Let_def show_announce_def)

lemma update_roster_busy [simp]: "rp_busy (update_roster now u p) = ru_busy u"
  by (simp add: update_roster_def Let_def update_empty_state_def) (simp add: take_update_def)

lemma busy_roster_step:
  assumes "rp_busy p" and "\<forall>u. op \<noteq> Ro_Update u"
  shows "fst (roster_step now op p) = None \<and> rp_busy (snd (roster_step now op p))"
  using assms
  by (cases op) (simp_all add: roster_step_def on_countdown_timer_def select_peer_def update_zone_def drop_files_on_peer_def
      split: option.split)

lemma busy_roster_run:
  "rp_busy p \<Longrightarrow> \<forall>x \<in> set ops. \<forall>u. snd x \<noteq> Ro_Update u \<Longrightarrow> rp_busy (roster_run ops p)"
proof (induction ops rule: rev_induct)
  case (snoc x ops)
  then show ?case by (cases x) (simp add: busy_roster_step)
qed (simp add: roster_run_def)

text \<open>
  C27: From the moment the window has shown a state in which a transfer runs until the next state
  it shows, nothing the user clicks, drags, drops or chooses leads to a request to send.
\<close>

theorem no_drop_while_transferring:
  assumes "transfer_running x" and "mw_modal_depth w \<le> 0"
    and "\<forall>y \<in> set ops. \<forall>u. snd y \<noteq> Ro_Update u" and "\<forall>u. op \<noteq> Ro_Update u"
  shows "fst (on_files_dropped busy snap
    (roster_step now op (roster_run ops (mw_roster (snd (apply_state_begin sim clocks x w))))) w') = []"
proof -
  have "rp_busy (mw_roster (snd (apply_state_begin sim clocks x w)))"
  proof -
    have "mw_roster (snd (maybe_show_incoming x v)) = mw_roster v" for v
      by (simp add: maybe_show_incoming_def split: option.split)
    moreover have "mw_modal_depth (take_state sim x w) = mw_modal_depth w"
      by (simp add: take_state_def Let_def)
    ultimately show ?thesis
      using assms(1,2) by (simp add: apply_state_begin_def Let_def show_state_def show_roster_def)
  qed
  from busy_roster_step [OF busy_roster_run [OF this assms(3)], of op] assms(4)
  show ?thesis by (simp add: on_files_dropped_def Let_def)
qed

definition start_window :: main_window where
  "start_window = \<lparr>mw_cli_port = - 1, mw_port = 0, mw_connected = True, mw_devices = 1, mw_config_path = [],
     mw_identity = sample_identity, mw_running = True, mw_started = True, mw_led = Led_Offline, mw_pulse_on = False,
     mw_pulse_timer = False, mw_selected = [], mw_shown_offer = None, mw_modal_depth = 0, mw_title = [],
     mw_status = \<lparr>sl_text = [], sl_colour = Muted\<rparr>, mw_roster = new_roster_panel, mw_progress = new_progress_view,
     mw_connection = new_connection_view\<rparr>"

lemma no_drop_while_transferring_witness:
  "fst (on_files_dropped False (initial_ui sample_identity [])
     (roster_step 9 (Ro_Drop 0 [''/d/a.txt'']) (roster_run [(8, Ro_Click 0)] (mw_roster (snd (apply_state_begin False (7, \<lambda>_. 7)
        ((initial_ui sample_identity [])\<lparr>ui_busy := True\<rparr>) start_window))))) start_window) = []"
  by (rule no_drop_while_transferring) (simp_all add: transfer_running_def start_window_def)

section \<open>A slip of the request dialog\<close>

text \<open>
  The dialog shows one offer, but the decision it reports names none: when another offer arrives
  while the dialog is open, accepting accepts the new one.
\<close>

lemma accept_takes_latest_offer:
  assumes "sm_kind m = Kind_Offer" and "offer_taken m (core_of s)" and "asks_first (core_of s)"
  shows "fst (ui_call env inp Op_Accept (snd (on_session_message env inp m s))) = Ui_Join (Job_Accept m)"
proof -
  define t where "t = snd (on_session_message env inp m s)"
  obtain r where "core_of t = (snd (core_message m (core_of s)))\<lparr>co_roster := r\<rparr>"
    unfolding t_def using core_on_session_message [of s m env inp] by blast
  with assms have t: "core_of t = (core_of s)\<lparr>co_pending := Some m, co_roster := r\<rparr>"
    by (simp add: core_message_def)
  have "ui_pending_offer (oc_state t) = Some m" "oc_accepting t = None" "oc_last_completed t \<noteq> Some (sm_session_id m)"
    using arg_cong [OF t, of co_pending] arg_cong [OF t, of co_accepting] arg_cong [OF t, of co_completed] assms(2)
    by (simp_all add: offer_taken_def)
  then have "fst (accept_pending_offer t) = Some m" by (simp add: accept_pending_offer_def)
  then show ?thesis
    unfolding t_def [symmetric] by (cases "accept_pending_offer t") (simp add: ui_call_def)
qed

section \<open>The log and the settings\<close>

lemma filter_log_lines:
  assumes "l \<in> set (getlines (filter_log_for_port text_in port_index))"
  shows "l = ''(no lines for this port yet)'' \<or> contains (''[port='' @ show_int (port_index + 1) @ '']'') l \<or> contains ''[boot]'' l"
proof -
  let ?keep = "filter (\<lambda>l. contains (''[port='' @ show_int (port_index + 1) @ '']'') l \<or> contains ''[boot]'' l) (getlines text_in)"
  have "\<forall>l \<in> set ?keep. newline \<notin> set l" using getlines_no_newline by auto
  then have "getlines (concat (map (\<lambda>l. l @ [newline]) ?keep)) = ?keep" by (rule getlines_concat)
  moreover have "getlines (''(no lines for this port yet)'' @ [newline]) = [''(no lines for this port yet)'']"
    by (subst getlines_line) simp_all
  ultimately show ?thesis
    using assms by (auto simp: filter_log_for_port_def Let_def display_port_from_leg_def split: if_splits)
qed

lemma settings_saved_name:
  "settings_save path f profile = Some p \<Longrightarrow> ip_display_name p \<noteq> [] \<and> (path \<noteq> [] \<longrightarrow> ip_config_path p \<noteq> [])"
  by (auto simp: settings_save_def Let_def apply_booth_display_rates_def split: if_splits)

end
