(* ===== verification/Dialogs.thy ===== *)
theory Dialogs
  imports Main_Window
begin

text \<open>
  The settings dialog and the event log dialog of the desktop application
  (\<open>settings_dialog.cpp\<close>, \<open>event_log_dialog.cpp\<close>): what their fields hold when they open, and what
  each of their events does. Widgets, fonts and the clipboard are left out.
\<close>

section \<open>Settings\<close>

text \<open>The fields as the constructor fills them, the box of the booth speed among them.\<close>

definition receive_selection :: "receive_status \<Rightarrow> int" where
  "receive_selection status = (if status = Status_Open then 0 else if status = Status_Busy then 2 else 1)"

definition open_settings :: "identity_profile \<Rightarrow> settings_fields" where
  "open_settings profile = \<lparr>sf_name = ip_display_name profile, sf_team = ip_team profile,
     sf_receive = receive_selection (ip_receive_status profile), sf_folder = ip_receive_folder profile,
     sf_booth = ip_booth_display_enabled profile\<rparr>"

text \<open>The answer of the folder dialog, when the user chose one.\<close>

definition on_pick_folder :: "string option \<Rightarrow> settings_fields \<Rightarrow> settings_fields" where
  "on_pick_folder answer f = (case answer of None \<Rightarrow> f | Some path \<Rightarrow> f\<lparr>sf_folder := path\<rparr>)"

text \<open>
  Saving what was opened gives the profile back: only the rates are set from the booth preset and
  a missing path of the profile is filled in.
\<close>

theorem settings_open_save:
  assumes "trim_field (ip_display_name p) = ip_display_name p" and "ip_display_name p \<noteq> []" and "trim_field (ip_team p) = ip_team p"
  shows "settings_save path (open_settings p) p = Some ((apply_booth_display_rates p)
    \<lparr>ip_config_path := if ip_config_path p = [] then path else ip_config_path p\<rparr>)"
  using assms by (cases p; cases "ip_receive_status p")
    (simp_all add: settings_save_def open_settings_def apply_booth_display_rates_def receive_selection_def Let_def)

section \<open>The event log\<close>

text \<open>The dialog: its two boxes, whether its timer runs, and what it shows.\<close>

record event_log_view =
  ev_port :: int
  ev_filter :: bool
  ev_auto :: bool
  ev_timer :: bool
  ev_path :: string
  ev_text :: string

text \<open>The log at the time of an event: the path in use and the files.\<close>

type_synonym log_state = "string \<times> file_system"

definition reload_view :: "log_state \<Rightarrow> event_log_view \<Rightarrow> event_log_view" where
  "reload_view lg v = (case lg of (path, fs) \<Rightarrow>
     v\<lparr>ev_path := ''Log file: '' @ path, ev_text := reload_log (ev_filter v) (ev_port v) path fs\<rparr>)"

definition new_event_log :: "int \<Rightarrow> event_log_view" where
  "new_event_log port_index = \<lparr>ev_port = port_index, ev_filter = True, ev_auto = True, ev_timer = False, ev_path = [], ev_text = []\<rparr>"

definition open_event_log :: "int \<Rightarrow> log_state \<Rightarrow> event_log_view" where
  "open_event_log port_index lg = (reload_view lg (new_event_log port_index))\<lparr>ev_timer := True\<rparr>"

text \<open>\<open>OnEventLog\<close> of the window.\<close>

definition on_event_log :: "log_state \<Rightarrow> main_window \<Rightarrow> event_log_view" where
  "on_event_log lg w = open_event_log (max (mw_port w) 0) lg"

datatype log_event = Log_Refresh | Log_Filter bool | Log_Auto bool | Log_Tick | Log_Cleared bool string string | Log_Close

definition log_step :: "string option \<Rightarrow> log_event \<Rightarrow> log_state \<Rightarrow> event_log_view \<Rightarrow> log_state \<times> event_log_view" where
  "log_step env_path e lg v = (case e of
       Log_Refresh \<Rightarrow> (lg, reload_view lg v)
     | Log_Filter ticked \<Rightarrow> (lg, reload_view lg (v\<lparr>ev_filter := ticked\<rparr>))
     | Log_Auto ticked \<Rightarrow> (lg, reload_view lg (v\<lparr>ev_auto := ticked, ev_timer := ticked\<rparr>))
     | Log_Tick \<Rightarrow> (lg, if ev_auto v then reload_view lg v else v)
     | Log_Cleared yes stamp1 stamp2 \<Rightarrow> (if \<not> yes then (lg, v)
         else let log1 = on_clear_log yes env_path stamp1 stamp2 (ev_port v) lg in (log1, reload_view log1 v))
     | Log_Close \<Rightarrow> (lg, v\<lparr>ev_timer := False\<rparr>))"

text \<open>Events with what other threads wrote to the log before each of them.\<close>

fun log_run :: "string option \<Rightarrow> (log_event \<times> (log_state \<Rightarrow> log_state)) list \<Rightarrow> log_state \<Rightarrow> event_log_view
    \<Rightarrow> log_state \<times> event_log_view" where
  "log_run env_path [] lg v = (lg, v)"
| "log_run env_path ((e, others) # es) lg v = (case log_step env_path e (others lg) v of (log1, v1) \<Rightarrow> log_run env_path es log1 v1)"

text \<open>While the dialog is open its timer runs exactly when the box is ticked.\<close>

lemma log_timer_follows:
  assumes "\<forall>(e, others) \<in> set es. e \<noteq> Log_Close" and "ev_timer v = ev_auto v"
  shows "ev_timer (snd (log_run env_path es lg v)) = ev_auto (snd (log_run env_path es lg v))"
  using assms
proof (induction env_path es lg v rule: log_run.induct)
  case (2 env_path e others es lg v)
  obtain log1 v1 where st: "log_step env_path e (others lg) v = (log1, v1)" by fastforce
  have "ev_timer v1 = ev_auto v1"
    using st 2(2,3) by (cases e) (auto simp: log_step_def reload_view_def Let_def split: prod.splits if_splits)
  with 2(1) [OF st [symmetric]] 2(2) show ?case by (simp add: st)
qed simp

text \<open>
  What the dialog shows after the timer fired is the end of the log as it is then: with the box
  ticked no entry is missed for longer than a tick.
\<close>

lemma log_tick_shows:
  assumes "ev_auto v"
  shows "ev_text (snd (log_step env_path Log_Tick (path, fs) v)) = reload_log (ev_filter v) (ev_port v) path fs"
  using assms by (simp add: log_step_def reload_view_def)

end
