(* ===== verification/Window_Start.thy ===== *)
theory Window_Start
  imports Dialogs
begin

text \<open>
  The start of the desktop application (\<open>main.cpp\<close>, the constructor of \<open>MainFrame\<close>) and its end by a
  signal. Building and laying out the widgets is left out.
\<close>

section \<open>The command line\<close>

text \<open>
  \<open>OnInit\<close>: what the parser found for the two options, and none when it refused the line. The port
  is a \<open>long\<close> cast to \<open>int\<close>.
\<close>

definition app_init :: "bool \<Rightarrow> string option \<Rightarrow> int option \<Rightarrow> (string \<times> int) option" where
  "app_init parsed config port_value =
     (if \<not> parsed then None
      else Some (case config of None \<Rightarrow> [] | Some path \<Rightarrow> path,
        case port_value of None \<Rightarrow> - 1 | Some v \<Rightarrow> sint (word_of_int v :: 32 word)))"

section \<open>The window\<close>

definition new_window :: "string \<Rightarrow> int \<Rightarrow> identity_profile \<Rightarrow> main_window" where
  "new_window config_path cli_port_index identity =
     \<lparr>mw_cli_port = cli_port_index, mw_port = - 1, mw_connected = False, mw_devices = 0, mw_config_path = config_path,
      mw_identity = identity, mw_running = False, mw_started = False, mw_led = Led_Offline, mw_pulse_on = False,
      mw_pulse_timer = False, mw_selected = [], mw_shown_offer = None, mw_modal_depth = 0, mw_title = ''RocketBox Transfer'',
      mw_status = \<lparr>sl_text = [], sl_colour = Warn\<rparr>, mw_roster = new_roster_panel, mw_progress = new_progress_view,
      mw_connection = new_connection_view\<rparr>"

text \<open>The profile the window starts with; \<open>sim\<close> says whether \<open>ROCKETBOX_SIM\<close> is set.\<close>

definition window_profile :: "environment \<Rightarrow> file_system \<Rightarrow> bool \<Rightarrow> string \<Rightarrow> int \<Rightarrow> std_exn + string \<times> identity_profile" where
  "window_profile env fs sim config_path port =
     (case load_identity_profile env fs port config_path of
        Inl e \<Rightarrow> Inl e
      | Inr (_, identity) \<Rightarrow> Inr (if ip_config_path identity \<noteq> [] then ip_config_path identity else config_path,
          if sim then identity\<lparr>ip_display_name := system_name_for_leg port\<rparr> else identity))"

definition open_window :: "environment \<Rightarrow> file_system \<Rightarrow> bool \<Rightarrow> clocks \<Rightarrow> string \<Rightarrow> int \<Rightarrow> std_exn + main_window" where
  "open_window env fs sim clocks config_path cli_port_index =
     (let port = (if 0 \<le> cli_port_index then cli_port_index else 0)
      in case window_profile env fs sim config_path port of
        Inl e \<Rightarrow> Inl e
      | Inr (path, identity) \<Rightarrow>
          let w = update_window_title (new_window path cli_port_index identity)
          in Inr (show_connection clocks (offline_card port 0 (ip_display_name identity))
               (show_roster clocks (offline_roster identity 0 0) w)))"

definition count_cables :: "'u usb_env \<Rightarrow> 'u \<Rightarrow> int \<times> 'u" where
  "count_cables env u = (if \<not> ue_ctx env then (0, u)
     else case list_fabric_devices env u of (devices, u1) \<Rightarrow> (int (length devices), u1))"

text \<open>The window that opens shows the profile's name, keeps the invariant of the roster, and has not started.\<close>

lemma window_opens:
  assumes "open_window env fs sim clocks config_path cli_port_index = Inr w"
  shows "mw_title w = ''RocketBox Transfer '' @ em_dash @ '' '' @ ip_display_name (mw_identity w) \<and> panel_ok (mw_roster w)
    \<and> \<not> mw_running w \<and> \<not> mw_started w \<and> cv_connect_shown (mw_connection w)"
  using assms update_roster_ok [OF new_panel_ok]
  by (auto simp: open_window_def Let_def update_window_title_def show_connection_def show_roster_def new_window_def
      offline_card_def apply_connection_def sync_connect_actions_def split: sum.splits)

section \<open>The end by a signal\<close>

text \<open>
  The handler of \<open>SIGTERM\<close> and \<open>SIGINT\<close> sets a flag; a timer that looks at it every 200 ms closes the
  window. The timer is part of the state, since closing stops it.
\<close>

definition on_close_polled :: "bool \<times> main_window \<Rightarrow> window_effect list \<times> bool \<times> main_window" where
  "on_close_polled x = (case on_close (snd x) of (fx, w) \<Rightarrow> (fx, False, w))"

definition on_shutdown_poll :: "bool \<Rightarrow> bool \<times> main_window \<Rightarrow> window_effect list \<times> bool \<times> main_window" where
  "on_shutdown_poll requested x = (if fst x \<and> requested then on_close_polled x else ([], x))"

fun shutdown_polls :: "bool list \<Rightarrow> bool \<times> main_window \<Rightarrow> window_effect list \<times> bool \<times> main_window" where
  "shutdown_polls [] x = ([], x)"
| "shutdown_polls (requested # rs) x = (case on_shutdown_poll requested x of (fx, x1) \<Rightarrow>
     (case shutdown_polls rs x1 of (fx1, x2) \<Rightarrow> (fx @ fx1, x2)))"

lemma polls_stopped: "shutdown_polls rs (False, w) = ([], False, w)"
  by (induction rs) (simp_all add: on_shutdown_poll_def)

text \<open>
  However often the timer fires after a signal, a running orchestrator is stopped exactly once, and
  without a signal nothing happens.
\<close>

theorem signal_stops_once:
  assumes "mw_running w"
  shows "fst (shutdown_polls rs (True, w)) = (if True \<in> set rs then [Fx_Op Op_Stop] else [])
    \<and> mw_running (snd (snd (shutdown_polls rs (True, w)))) = (True \<notin> set rs)"
proof (induction rs)
  case (Cons r rs)
  show ?case
  proof (cases r)
    case True
    with assms show ?thesis by (simp add: on_shutdown_poll_def on_close_polled_def on_close_def Let_def polls_stopped)
  next
    case False
    with Cons show ?thesis by (simp add: on_shutdown_poll_def case_prod_beta)
  qed
qed (simp add: assms)

end
